(* ===== verification/Prelude.thy ===== *)
theory Prelude
  imports Complex_Main "HOL-Library.Sublist"
begin

text \<open>
  Shared vocabulary of the development: errors as values, SQL tables as lists of rows, and the
  generic facts on them that the component theories use.

  A table is the list of its rows in \<^verbatim>\<open>rowid\<close> order.  \<open>sql_update\<close> is
  \<^verbatim>\<open>UPDATE t SET f WHERE P\<close>, \<open>sql_count\<close> its \<^verbatim>\<open>rowcount\<close>, \<open>sql_delete\<close> is
  \<^verbatim>\<open>DELETE FROM t WHERE P\<close>, and \<open>find P t\<close> is a \<^verbatim>\<open>fetchone()\<close>.  An operation of the
  program is a function from the tables to an \<open>outcome\<close>: the tables after it and either the
  error it raises (\<open>Inl\<close>) or the value it returns (\<open>Inr\<close>).  A raise inside a
  \<^verbatim>\<open>BEGIN IMMEDIATE\<close> transaction rolls back, so its outcome holds the old tables; a raise after the
  commit keeps the new ones.
\<close>

section \<open>Results and errors\<close>

datatype py_error =
    ValueError string
  | TypeError string
  | KeyError string
  | DeliveryStoreError string
  | RuntimeError string
  | IntegrityError string
  | OrderVerificationRejected string
  | OverflowError string
  | UnicodeDecodeError string
  | ConnectionError string
  | TimeoutError string
  | CancelledError
  | ManualTakeoverError string
  | AuthenticationUnavailable string
  | XianyuApiError string
  | LLMServiceError string
  | LLMConfigurationError string
  | AutomationReplySuppressed string

type_synonym 'a result = "py_error + 'a"
type_synonym ('s, 'a) outcome = "'s \<times> 'a result"
type_synonym time = real

definition is_ok :: "'a result \<Rightarrow> bool" where
  "is_ok r = (case r of Inl _ \<Rightarrow> False | Inr _ \<Rightarrow> True)"

definition bind_result :: "'a result \<Rightarrow> ('a \<Rightarrow> 'b result) \<Rightarrow> 'b result" where
  "bind_result r f = (case r of Inl e \<Rightarrow> Inl e | Inr x \<Rightarrow> f x)"

lemma bind_result_Inr: "bind_result r f = Inr y \<longleftrightarrow> (\<exists>x. r = Inr x \<and> f x = Inr y)"
  by (cases r) (auto simp: bind_result_def)

lemma is_ok_simps [simp]: "is_ok (Inr x)" "\<not> is_ok (Inl e)"
  by (simp_all add: is_ok_def)

section \<open>Tables\<close>

definition sql_update :: "('r \<Rightarrow> bool) \<Rightarrow> ('r \<Rightarrow> 'r) \<Rightarrow> 'r list \<Rightarrow> 'r list" where
  "sql_update P f t = map (\<lambda>r. if P r then f r else r) t"

definition sql_count :: "('r \<Rightarrow> bool) \<Rightarrow> 'r list \<Rightarrow> nat" where
  "sql_count P t = length (filter P t)"

definition sql_delete :: "('r \<Rightarrow> bool) \<Rightarrow> 'r list \<Rightarrow> 'r list" where
  "sql_delete P t = filter (\<lambda>r. \<not> P r) t"

definition unique_key :: "('r \<Rightarrow> 'k) \<Rightarrow> 'r list \<Rightarrow> bool" where
  "unique_key key t \<longleftrightarrow> distinct (map key t)"

definition sql_upsert :: "('r \<Rightarrow> 'k) \<Rightarrow> 'r \<Rightarrow> ('r \<Rightarrow> 'r) \<Rightarrow> 'r list \<Rightarrow> 'r list" where
  \<comment> \<open>\<^verbatim>\<open>INSERT .. ON CONFLICT(key) DO UPDATE SET f\<close>\<close>
  "sql_upsert key new f t =
     (if find (\<lambda>r. key r = key new) t = None then t @ [new]
      else sql_update (\<lambda>r. key r = key new) f t)"

definition sql_insert_ignore :: "('r \<Rightarrow> 'k) \<Rightarrow> 'r \<Rightarrow> 'r list \<Rightarrow> 'r list" where
  \<comment> \<open>\<^verbatim>\<open>INSERT OR IGNORE\<close>\<close>
  "sql_insert_ignore key new t = (if find (\<lambda>r. key r = key new) t = None then t @ [new] else t)"

named_theorems sql "facts on SQL statements over row lists"

lemma in_sql_update [sql]:
  "r \<in> set (sql_update P f t) \<longleftrightarrow> (\<exists>q \<in> set t. r = (if P q then f q else q))"
  by (auto simp: sql_update_def)

lemma sql_updateE:
  assumes "r \<in> set (sql_update P f t)"
  obtains (hit) q where "q \<in> set t" "P q" "r = f q"
        | (miss) "r \<in> set t" "\<not> P r"
  using assms by (auto simp: sql_update_def split: if_splits)

lemma in_sql_delete [sql]: "r \<in> set (sql_delete P t) \<longleftrightarrow> r \<in> set t \<and> \<not> P r"
  by (auto simp: sql_delete_def)

lemma sql_update_Nil [simp]: "sql_update P f [] = []"
  by (simp add: sql_update_def)

lemma sql_update_Cons [simp]:
  "sql_update P f (r # t) = (if P r then f r else r) # sql_update P f t"
  by (simp add: sql_update_def)

lemma sql_update_append [simp]: "sql_update P f (t @ u) = sql_update P f t @ sql_update P f u"
  by (simp add: sql_update_def)

lemma length_sql_update [simp]: "length (sql_update P f t) = length t"
  by (simp add: sql_update_def)

lemma sql_update_none: "(\<And>r. r \<in> set t \<Longrightarrow> \<not> P r) \<Longrightarrow> sql_update P f t = t"
  by (induction t) auto

lemma sql_count_Nil [simp]: "sql_count P [] = 0"
  by (simp add: sql_count_def)

lemma sql_count_Cons [simp]: "sql_count P (r # t) = (if P r then 1 else 0) + sql_count P t"
  by (simp add: sql_count_def)

lemma sql_count_0_iff: "sql_count P t = 0 \<longleftrightarrow> (\<forall>r \<in> set t. \<not> P r)"
  by (auto simp: sql_count_def filter_empty_conv)

lemma sql_delete_Nil [simp]: "sql_delete P [] = []"
  by (simp add: sql_delete_def)

lemma sql_delete_Cons [simp]:
  "sql_delete P (r # t) = (if P r then sql_delete P t else r # sql_delete P t)"
  by (simp add: sql_delete_def)

lemma map_sql_update [sql]:
  assumes "\<And>r. g (f r) = g r"
  shows "map g (sql_update P f t) = map g t"
  using assms by (auto simp: sql_update_def)

lemma find_SomeD: "find P t = Some r \<Longrightarrow> r \<in> set t \<and> P r"
  by (auto simp: find_Some_iff)

lemma find_NoneD: "find P t = None \<Longrightarrow> r \<in> set t \<Longrightarrow> \<not> P r"
  by (auto simp: find_None_iff)

lemma find_snoc: "find P (xs @ [y]) = (case find P xs of None \<Rightarrow> if P y then Some y else None | Some x \<Rightarrow> Some x)"
  by (induction xs) auto

lemma find_filter: "find P xs = (case filter P xs of [] \<Rightarrow> None | x # _ \<Rightarrow> Some x)"
  by (induction xs) auto

lemma distinct_map_eqD: "distinct (map f xs) \<Longrightarrow> x \<in> set xs \<Longrightarrow> y \<in> set xs \<Longrightarrow> f x = f y \<Longrightarrow> x = y"
  by (auto simp: distinct_map dest: inj_onD)

text \<open>
  The contract of a primary key: the columns an \<^verbatim>\<open>UPDATE\<close> writes never contain the key, so
  uniqueness survives every statement, and a row is found by its key exactly when it is there.
\<close>

locale keyed_table =
  fixes key :: "'r \<Rightarrow> 'k"
begin

lemma unique_update:
  assumes "unique_key key t" and "\<And>r. key (f r) = key r"
  shows "unique_key key (sql_update P f t)"
  using assms by (simp add: unique_key_def map_sql_update)

lemma unique_delete: "unique_key key t \<Longrightarrow> unique_key key (sql_delete P t)"
  by (auto simp: unique_key_def sql_delete_def distinct_map intro: inj_on_subset)

lemma unique_insert:
  "unique_key key t \<Longrightarrow> find (\<lambda>r. key r = key new) t = None \<Longrightarrow> unique_key key (t @ [new])"
  by (auto simp: unique_key_def find_None_iff)

lemma find_iff:
  assumes "unique_key key t"
  shows "find (\<lambda>r. key r = k) t = Some r \<longleftrightarrow> r \<in> set t \<and> key r = k"
proof
  assume "r \<in> set t \<and> key r = k"
  then have "find (\<lambda>r. key r = k) t \<noteq> None"
    by (auto simp: find_None_iff)
  then obtain q where q: "find (\<lambda>r. key r = k) t = Some q" by auto
  then have "q \<in> set t" "key q = k" by (auto dest: find_SomeD)
  with assms \<open>r \<in> set t \<and> key r = k\<close> have "q = r"
    unfolding unique_key_def by (auto dest: distinct_map_eqD)
  with q show "find (\<lambda>r. key r = k) t = Some r" by simp
qed (auto dest: find_SomeD)

lemma same_row: "unique_key key t \<Longrightarrow> r \<in> set t \<Longrightarrow> q \<in> set t \<Longrightarrow> key r = key q \<Longrightarrow> r = q"
  by (auto simp: unique_key_def dest: distinct_map_eqD)

lemma find_update:
  assumes "\<And>r. key (f r) = key r"
  shows "find (\<lambda>r. key r = k) (sql_update P f t) =
         map_option (\<lambda>r. if P r then f r else r) (find (\<lambda>r. key r = k) t)"
  using assms by (induction t) auto

lemma find_append_new:
  "find (\<lambda>r. key r = k) (t @ [new]) = (case find (\<lambda>r. key r = k) t of
     Some r \<Rightarrow> Some r | None \<Rightarrow> if key new = k then Some new else None)"
  by (induction t) auto

lemma find_upsert:
  assumes "\<And>r. key (f r) = key r"
  shows "find (\<lambda>r. key r = k) (sql_upsert key new f t) =
    (if key new = k then Some (case find (\<lambda>r. key r = k) t of None \<Rightarrow> new | Some r \<Rightarrow> f r)
     else find (\<lambda>r. key r = k) t)"
proof (cases "find (\<lambda>r. key r = key new) t")
  case None
  then show ?thesis by (auto simp: sql_upsert_def find_append_new split: option.split)
next
  case (Some r)
  have "map_option (\<lambda>r. if key r = key new then f r else r) (find (\<lambda>r. key r = k) t) =
      (if key new = k then map_option f (find (\<lambda>r. key r = k) t) else find (\<lambda>r. key r = k) t)"
    by (cases "find (\<lambda>r. key r = k) t") (auto dest!: find_SomeD)
  with Some find_update [of f k "\<lambda>r. key r = key new" t, OF assms] show ?thesis
    by (auto simp: sql_upsert_def)
qed

lemma find_delete:
  assumes "unique_key key t"
  shows "find (\<lambda>r. key r = k) (sql_delete P t) =
    (case find (\<lambda>r. key r = k) t of None \<Rightarrow> None | Some r \<Rightarrow> if P r then None else Some r)"
  using assms
proof (induction t)
  case (Cons a t)
  have "find (\<lambda>r. key r = k) (sql_delete P t) = None" if "key a = k"
    using Cons.prems that by (auto simp: find_None_iff unique_key_def in_sql_delete image_iff)
  with Cons show ?case by (auto simp: unique_key_def)
qed simp

lemma unique_upsert:
  assumes "unique_key key t" "\<And>r. key (f r) = key r"
  shows "unique_key key (sql_upsert key new f t)"
  using unique_insert [OF assms(1)] unique_update [OF assms] by (simp add: sql_upsert_def)

lemma unique_insert_ignore: "unique_key key t \<Longrightarrow> unique_key key (sql_insert_ignore key new t)"
  by (simp add: sql_insert_ignore_def unique_insert)

end

text \<open>\<^verbatim>\<open>ORDER BY c\<close> is the stable sort on the column, so that ties keep the rowid order.\<close>

definition order_by :: "('r \<Rightarrow> 'a::linorder) \<Rightarrow> 'r list \<Rightarrow> 'r list" where
  "order_by c t = sort_key c t"

lemma set_order_by [simp]: "set (order_by c t) = set t"
  by (simp add: order_by_def)

lemma length_order_by [simp]: "length (order_by c t) = length t"
  by (simp add: order_by_def)

lemma sorted_order_by: "sorted (map c (order_by c t))"
  by (simp add: order_by_def)

lemma distinct_map_order_by [simp]: "distinct (map g (order_by c t)) = distinct (map g t)"
  by (simp add: order_by_def distinct_map)

section \<open>Transition systems\<close>

text \<open>
  Every component is exercised by an arbitrary sequence of its operations.  The locale
  \<open>transition_system\<close> is the contract an invariant needs from them; \<open>status_machine\<close> extends it
  with a status column per key and the transitions the code permits.
\<close>

locale transition_system =
  fixes init :: "'s \<Rightarrow> bool" and step :: "'s \<Rightarrow> 's \<Rightarrow> bool" and inv :: "'s \<Rightarrow> bool"
  assumes inv_init: "init s \<Longrightarrow> inv s"
    and inv_step: "inv s \<Longrightarrow> step s s' \<Longrightarrow> inv s'"
begin

lemma inv_run: "step\<^sup>*\<^sup>* s s' \<Longrightarrow> inv s \<Longrightarrow> inv s'"
  by (induction rule: rtranclp_induct) (auto intro: inv_step)

lemma inv_reachable: "init s \<Longrightarrow> step\<^sup>*\<^sup>* s s' \<Longrightarrow> inv s'"
  by (blast intro: inv_init inv_run)

end

locale status_machine = transition_system +
  fixes status :: "'s \<Rightarrow> 'k \<Rightarrow> 'st option" and allowed :: "'st \<Rightarrow> 'st \<Rightarrow> bool"
  assumes status_step:
    "inv s \<Longrightarrow> step s s' \<Longrightarrow> status s k = Some a \<Longrightarrow>
     \<exists>b. status s' k = Some b \<and> (a = b \<or> allowed a b)"
begin

lemma status_run:
  assumes "step\<^sup>*\<^sup>* s s'" "inv s" "status s k = Some a"
  shows "\<exists>b. status s' k = Some b \<and> allowed\<^sup>*\<^sup>* a b"
  using assms
proof (induction rule: rtranclp_induct)
  case base
  then show ?case by auto
next
  case (step y z)
  then obtain b where b: "status y k = Some b" "allowed\<^sup>*\<^sup>* a b" by auto
  from step have "inv y" using inv_run by blast
  with step b obtain c where "status z k = Some c" "b = c \<or> allowed b c"
    using status_step by metis
  with b show ?case by (auto intro: rtranclp.rtrancl_into_rtrancl)
qed

lemma terminal_forever:
  assumes "step\<^sup>*\<^sup>* s s'" "inv s" "status s k = Some a" "\<And>b. \<not> allowed a b"
  shows "status s' k = Some a"
proof -
  from status_run [OF assms(1-3)] obtain b where "status s' k = Some b" "allowed\<^sup>*\<^sup>* a b"
    by blast
  moreover from \<open>allowed\<^sup>*\<^sup>* a b\<close> assms(4) have "b = a"
    by (auto elim: converse_rtranclpE)
  ultimately show ?thesis by simp
qed

end

section \<open>Clamps and small list facts\<close>

definition clamp :: "'a::linorder \<Rightarrow> 'a \<Rightarrow> 'a \<Rightarrow> 'a" where
  \<comment> \<open>Python's \<^verbatim>\<open>min(max(x, lo), hi)\<close>\<close>
  "clamp lo hi x = min (max x lo) hi"

lemma clamp_bounds: "lo \<le> hi \<Longrightarrow> lo \<le> clamp lo hi x \<and> clamp lo hi x \<le> hi"
  by (auto simp: clamp_def)

lemma clamp_id: "lo \<le> x \<Longrightarrow> x \<le> hi \<Longrightarrow> clamp lo hi x = x"
  by (simp add: clamp_def)

lemma set_take_filterD: "x \<in> set (take n (filter P xs)) \<Longrightarrow> x \<in> set xs \<and> P x"
  by (auto dest: in_set_takeD)

lemma distinct_map_filter_take:
  "distinct (map f xs) \<Longrightarrow> distinct (map f (take n (filter P xs)))"
  by (metis distinct_map_filter distinct_take take_map)

section \<open>Counting and sorting rows\<close>

lemma count_key_le:
  assumes "unique_key key t"
  shows "sql_count (\<lambda>r. key r = k \<and> Q r) t = (if \<exists>r \<in> set t. key r = k \<and> Q r then 1 else 0)"
  using assms
proof (induction t)
  case (Cons a t)
  have "sql_count (\<lambda>r. key r = k \<and> Q r) t = 0" if "key a = k"
    using Cons.prems that by (auto simp: unique_key_def sql_count_0_iff image_iff)
  with Cons show ?case by (auto simp: unique_key_def)
qed simp

lemma count_keys_all:
  assumes "unique_key key t" "sql_count (\<lambda>r. key r \<in> set ks \<and> Q r) t = length ks"
  shows "distinct ks \<and> (\<forall>k \<in> set ks. \<exists>r \<in> set t. key r = k \<and> Q r)"
proof -
  let ?m = "map key (filter (\<lambda>r. key r \<in> set ks \<and> Q r) t)"
  have d: "distinct ?m" using assms(1) by (simp add: unique_key_def distinct_map_filter)
  have sub: "set ?m \<subseteq> set ks" by auto
  have "length ?m = length ks" using assms(2) by (simp add: sql_count_def)
  with d have "card (set ?m) = length ks" by (metis distinct_card)
  moreover have "card (set ?m) \<le> card (set ks)" by (rule card_mono [OF finite_set sub])
  moreover have "card (set ks) \<le> length ks" by (rule card_length)
  ultimately have "card (set ks) = length ks" "set ?m = set ks"
    using card_subset_eq [OF _ sub] by (simp, simp)
  moreover have "\<forall>k \<in> set ?m. \<exists>r \<in> set t. key r = k \<and> Q r" by auto
  ultimately show ?thesis by (metis card_distinct)
qed

lemma order_by_map:
  assumes "\<And>r. f (h r) = f r"
  shows "order_by f (map h xs) = map h (order_by f xs)"
proof -
  have "insort_key f (h x) (map h ys) = map h (insort_key f x ys)" for x ys
    by (induction ys) (simp_all add: assms)
  then show ?thesis by (induction xs) (simp_all add: order_by_def)
qed

lemma filter_keys_take:
  assumes "distinct (map f xs)"
  shows "filter (\<lambda>r. f r \<in> set (map f (take n xs))) xs = take n xs"
proof -
  have "distinct (map f (take n xs) @ map f (drop n xs))"
    using assms by (metis append_take_drop_id map_append)
  then have "filter (\<lambda>r. f r \<in> set (map f (take n xs))) (take n xs @ drop n xs) = take n xs"
    by (subst filter_append) (auto simp: filter_empty_conv intro!: filter_True)
  then show ?thesis by simp
qed

end
