(* ===== verification/Py_Values.thy ===== *)
theory Py_Values
  imports Prelude "HOL-Library.Char_ord" "HOL-Library.List_Lexorder"
begin

text \<open>
  The Python values the program handles.  A \<open>str\<close> is held as its UTF-8 byte sequence in HOL's
  \<open>string\<close>; \<open>py_len\<close>, \<open>py_take\<close> and \<open>py_strip\<close> are \<^verbatim>\<open>len\<close>, \<^verbatim>\<open>s[:n]\<close> and \<^verbatim>\<open>str.strip\<close>, which
  count and cut code points.  A value that came out of \<^verbatim>\<open>json.loads\<close>, or an argument whose dynamic
  type the code tests with \<^verbatim>\<open>isinstance\<close>, is a \<open>pyval\<close>; a finite float carries its value and its
  \<^verbatim>\<open>repr\<close>, a NaN or an infinity its \<^verbatim>\<open>repr\<close> only.
\<close>

section \<open>Strings\<close>

definition utf8_cont :: "char \<Rightarrow> bool" where
  "utf8_cont c \<longleftrightarrow> 128 \<le> (of_char c :: nat) \<and> (of_char c :: nat) < 192"

definition py_len :: "string \<Rightarrow> nat" where
  "py_len s = length (filter (\<lambda>c. \<not> utf8_cont c) s)"

fun py_take :: "nat \<Rightarrow> string \<Rightarrow> string" where
  "py_take n [] = []"
| "py_take n (c # s) =
     (if utf8_cont c then c # py_take n s
      else if n = 0 then [] else c # py_take (n - 1) s)"

lemma py_len_Nil [simp]: "py_len [] = 0"
  by (simp add: py_len_def)

lemma py_len_le_length: "py_len s \<le> length s"
  by (simp add: py_len_def)

lemma py_len_py_take: "py_len (py_take n s) \<le> n"
  by (induction n s rule: py_take.induct) (auto simp: py_len_def)

lemma py_take_id: "py_len s \<le> n \<Longrightarrow> py_take n s = s"
  by (induction n s rule: py_take.induct) (auto simp: py_len_def split: if_splits)

text \<open>The UTF-8 encodings of the code points for which \<^verbatim>\<open>str.isspace\<close> holds.\<close>

definition whitespace :: "string list" where
  "whitespace =
     map (\<lambda>n. [char_of n]) [9, 10, 11, 12, 13, 28, 29, 30, 31, 32 :: nat] @
     map (map char_of)
       ([[194, 133], [194, 160], [225, 154, 128], [226, 128, 168], [226, 128, 169],
         [226, 128, 175], [226, 129, 159], [227, 128, 128 :: nat]]) @
     map (\<lambda>n. map char_of [226, 128, n]) [128, 129, 130, 131, 132, 133, 134, 135, 136, 137, 138 :: nat]"

function lstrip_with :: "string list \<Rightarrow> string \<Rightarrow> string" where
  "lstrip_with pats s =
     (case find (\<lambda>p. p \<noteq> [] \<and> prefix p s) pats of
        None \<Rightarrow> s
      | Some p \<Rightarrow> lstrip_with pats (drop (length p) s))"
  by pat_completeness auto
termination
  by (relation "measure (\<lambda>(pats, s). length s)") (auto dest!: find_SomeD simp: prefix_def)

declare lstrip_with.simps [simp del]

definition py_strip :: "string \<Rightarrow> string" where
  "py_strip s = rev (lstrip_with (map rev whitespace) (rev (lstrip_with whitespace s)))"

lemma lstrip_with_suffix: "\<exists>p. s = p @ lstrip_with pats s"
proof (induction pats s rule: lstrip_with.induct)
  case (1 pats s)
  show ?case
  proof (cases "find (\<lambda>p. p \<noteq> [] \<and> prefix p s) pats")
    case None
    then show ?thesis by (simp add: lstrip_with.simps [of pats s])
  next
    case (Some p)
    with 1 obtain q where "drop (length p) s = q @ lstrip_with pats (drop (length p) s)"
      by blast
    then have "s = (take (length p) s @ q) @ lstrip_with pats (drop (length p) s)"
      by (metis append.assoc append_take_drop_id)
    then have "\<exists>r. s = r @ lstrip_with pats (drop (length p) s)" by blast
    with Some show ?thesis by (simp add: lstrip_with.simps [of pats s])
  qed
qed

lemma lstrip_with_no_prefix:
  "q \<in> set pats \<Longrightarrow> q \<noteq> [] \<Longrightarrow> \<not> prefix q (lstrip_with pats s)"
proof (induction pats s rule: lstrip_with.induct)
  case (1 pats s)
  then show ?case
    by (cases "find (\<lambda>p. p \<noteq> [] \<and> prefix p s) pats")
      (auto simp: lstrip_with.simps [of pats s] dest: find_NoneD)
qed

lemma length_lstrip_with: "length (lstrip_with pats s) \<le> length s"
  using lstrip_with_suffix [of s pats] by (metis length_append le_add2)

lemma length_py_strip: "length (py_strip s) \<le> length s"
  using length_lstrip_with [of "map rev whitespace" "rev (lstrip_with whitespace s)"]
    length_lstrip_with [of whitespace s]
  by (simp add: py_strip_def)

lemma py_strip_Nil [simp]: "py_strip [] = []"
  using length_py_strip [of "[]"] by simp

text \<open>A string whose first and last byte are printable ASCII has nothing to strip.\<close>

definition plain_char :: "char \<Rightarrow> bool" where
  "plain_char c \<longleftrightarrow> 33 \<le> (of_char c :: nat) \<and> (of_char c :: nat) \<le> 126"

definition plain_ends :: "string \<Rightarrow> bool" where
  "plain_ends s \<longleftrightarrow> s \<noteq> [] \<and> plain_char (hd s) \<and> plain_char (last s)"

lemma whitespace_not_plain:
  "list_all (\<lambda>p. p \<noteq> [] \<and> \<not> plain_char (hd p) \<and> \<not> plain_char (last p)) whitespace"
  by code_simp

lemma lstrip_with_id:
  assumes "s \<noteq> []" "plain_char (hd s)" "\<And>p. p \<in> set pats \<Longrightarrow> \<not> plain_char (hd p)"
  shows "lstrip_with pats s = s"
proof -
  have "find (\<lambda>p. p \<noteq> [] \<and> prefix p s) pats = None"
    unfolding find_None_iff
  proof
    assume "\<exists>p. p \<in> set pats \<and> p \<noteq> [] \<and> prefix p s"
    then obtain p where "p \<in> set pats" "p \<noteq> []" "prefix p s" by blast
    then have "hd p = hd s" by (auto simp: prefix_def)
    with assms \<open>p \<in> set pats\<close> show False by metis
  qed
  then show ?thesis by (simp add: lstrip_with.simps [of pats s])
qed

lemma py_strip_plain: "plain_ends s \<Longrightarrow> py_strip s = s"
proof -
  assume s: "plain_ends s"
  have "lstrip_with whitespace s = s"
    using s whitespace_not_plain by (intro lstrip_with_id) (auto simp: plain_ends_def list_all_iff)
  moreover have "lstrip_with (map rev whitespace) (rev s) = rev s"
    using s whitespace_not_plain
    by (intro lstrip_with_id) (auto simp: plain_ends_def list_all_iff hd_rev)
  ultimately show ?thesis by (simp add: py_strip_def)
qed

definition is_ascii_digit :: "char \<Rightarrow> bool" where
  "is_ascii_digit c \<longleftrightarrow> 48 \<le> (of_char c :: nat) \<and> (of_char c :: nat) \<le> 57"

definition ascii_digits :: "string \<Rightarrow> bool" where
  \<comment> \<open>\<^verbatim>\<open>s.isascii() and s.isdigit()\<close>\<close>
  "ascii_digits s \<longleftrightarrow> s \<noteq> [] \<and> list_all is_ascii_digit s"

definition ascii_lower :: "string \<Rightarrow> string" where
  "ascii_lower s = map (\<lambda>c. let n = (of_char c :: nat) in
     if 65 \<le> n \<and> n \<le> 90 then char_of (n + 32) else c) s"

text \<open>\<^verbatim>\<open>str.isdigit\<close> counts every code point of Unicode 15 that has a digit value.\<close>

fun code_points :: "nat list \<Rightarrow> nat list" where
  "code_points (a # b # c # d # s) =
     (if a < 128 then a # code_points (b # c # d # s)
      else if a < 224 then ((a - 192) * 64 + (b - 128)) # code_points (c # d # s)
      else if a < 240 then ((a - 224) * 4096 + (b - 128) * 64 + (c - 128)) # code_points (d # s)
      else ((a - 240) * 262144 + (b - 128) * 4096 + (c - 128) * 64 + (d - 128)) # code_points s)"
| "code_points [a, b, c] =
     (if a < 128 then a # code_points [b, c]
      else if a < 224 then ((a - 192) * 64 + (b - 128)) # code_points [c]
      else [(a - 224) * 4096 + (b - 128) * 64 + (c - 128)])"
| "code_points [a, b] = (if a < 128 then [a, b] else [(a - 192) * 64 + (b - 128)])"
| "code_points [a] = [a]"
| "code_points [] = []"

definition unicode_digits :: "(nat \<times> nat) list" where
  "unicode_digits =
     [(48, 57), (178, 179), (185, 185), (1632, 1641), (1776, 1785), (1984, 1993), (2406, 2415),
      (2534, 2543), (2662, 2671), (2790, 2799), (2918, 2927), (3046, 3055), (3174, 3183),
      (3302, 3311), (3430, 3439), (3558, 3567), (3664, 3673), (3792, 3801), (3872, 3881),
      (4160, 4169), (4240, 4249), (4969, 4977), (6112, 6121), (6160, 6169), (6470, 6479),
      (6608, 6618), (6784, 6793), (6800, 6809), (6992, 7001), (7088, 7097), (7232, 7241),
      (7248, 7257), (8304, 8304), (8308, 8313), (8320, 8329), (9312, 9320), (9332, 9340),
      (9352, 9360), (9450, 9450), (9461, 9469), (9471, 9471), (10102, 10110), (10112, 10120),
      (10122, 10130), (42528, 42537), (43216, 43225), (43264, 43273), (43472, 43481),
      (43504, 43513), (43600, 43609), (44016, 44025), (65296, 65305), (66720, 66729),
      (68160, 68163), (68912, 68921), (69216, 69224), (69714, 69722), (69734, 69743),
      (69872, 69881), (69942, 69951), (70096, 70105), (70384, 70393), (70736, 70745),
      (70864, 70873), (71248, 71257), (71360, 71369), (71472, 71481), (71904, 71913),
      (72016, 72025), (72784, 72793), (73040, 73049), (73120, 73129), (73552, 73561),
      (92768, 92777), (92864, 92873), (93008, 93017), (120782, 120831), (123200, 123209),
      (123632, 123641), (124144, 124153), (125264, 125273), (127232, 127242), (130032, 130041)]"

definition str_isdigit :: "string \<Rightarrow> bool" where
  "str_isdigit s \<longleftrightarrow> s \<noteq> [] \<and>
     list_all (\<lambda>n. list_ex (\<lambda>(a, b). a \<le> n \<and> n \<le> b) unicode_digits) (code_points (map of_char s))"

section \<open>Decimal numbers\<close>

definition digit_char :: "nat \<Rightarrow> char" where
  "digit_char d = char_of (48 + d)"

fun str_nat :: "nat \<Rightarrow> string" where
  "str_nat n = (if n < 10 then [digit_char n] else str_nat (n div 10) @ [digit_char (n mod 10)])"

declare str_nat.simps [simp del]

definition str_int :: "int \<Rightarrow> string" where
  "str_int i = (if i < 0 then CHR ''-'' # str_nat (nat (- i)) else str_nat (nat i))"

definition nat_of_digits :: "string \<Rightarrow> nat" where
  \<comment> \<open>\<^verbatim>\<open>int(s)\<close> on a string of ASCII digits\<close>
  "nat_of_digits s = foldl (\<lambda>n c. 10 * n + (of_char c - 48)) 0 s"

lemma of_digit_char: "d < 10 \<Longrightarrow> of_char (digit_char d) = 48 + d"
  by (simp add: digit_char_def)

lemma nat_of_digits_str_nat: "nat_of_digits (str_nat n) = n"
proof (induction n rule: str_nat.induct)
  case (1 n)
  show ?case
  proof (cases "n < 10")
    case True
    then show ?thesis
      by (simp add: str_nat.simps [of n] nat_of_digits_def of_digit_char)
  next
    case False
    with 1 have "nat_of_digits (str_nat (n div 10)) = n div 10" by simp
    with False show ?thesis
      by (simp add: str_nat.simps [of n] nat_of_digits_def of_digit_char)
  qed
qed

lemma str_nat_inj: "str_nat m = str_nat n \<Longrightarrow> m = n"
  by (metis nat_of_digits_str_nat)

lemma ascii_digits_str_nat: "ascii_digits (str_nat n)"
proof (induction n rule: str_nat.induct)
  case (1 n)
  have "is_ascii_digit (digit_char d)" if "d < 10" for d
    using that by (simp add: is_ascii_digit_def of_digit_char)
  with 1 show ?case
    by (cases "n < 10") (auto simp: str_nat.simps [of n] ascii_digits_def)
qed

section \<open>Dynamic values\<close>

datatype pyval =
    PNone
  | PBool bool
  | PInt int
  | PFloat real string
  | PNonFinite string
  | PStr string
  | PList "pyval list"
  | PDict "(string \<times> pyval) list"

type_synonym dict = "(string \<times> pyval) list"

text \<open>\<^verbatim>\<open>d.get(k)\<close>: a decoded object has one entry per key, the last one written.\<close>

definition dict_get :: "(string \<times> pyval) list \<Rightarrow> string \<Rightarrow> pyval" where
  "dict_get d k = (case map_of (rev d) k of None \<Rightarrow> PNone | Some v \<Rightarrow> v)"

text \<open>Truth value testing, as \<^verbatim>\<open>if x\<close> and \<^verbatim>\<open>x or y\<close> use it.\<close>

fun truthy :: "pyval \<Rightarrow> bool" where
  "truthy PNone = False"
| "truthy (PBool b) = b"
| "truthy (PInt i) = (i \<noteq> 0)"
| "truthy (PFloat x r) = (x \<noteq> 0)"
| "truthy (PNonFinite r) = True"
| "truthy (PStr s) = (s \<noteq> [])"
| "truthy (PList xs) = (xs \<noteq> [])"
| "truthy (PDict d) = (d \<noteq> [])"

definition py_or :: "pyval \<Rightarrow> pyval \<Rightarrow> pyval" where
  "py_or x y = (if truthy x then x else y)"

fun as_int :: "pyval \<Rightarrow> int option" where
  \<comment> \<open>\<^verbatim>\<open>isinstance(v, int) and not isinstance(v, bool)\<close>\<close>
  "as_int (PInt i) = Some i"
| "as_int _ = None"

fun as_str :: "pyval \<Rightarrow> string option" where
  "as_str (PStr s) = Some s"
| "as_str _ = None"

text \<open>
  \<^verbatim>\<open>json.dumps(v, ensure_ascii=True, sort_keys=True, separators=(",", ":"), allow_nan=False)\<close>.
  Non-ASCII code points become one \<^verbatim>\<open>uXXXX\<close> escape, or two above the basic plane; \<open>None\<close> is the
  \<^verbatim>\<open>ValueError\<close> for a NaN or an infinity.
\<close>

definition hex_digit :: "nat \<Rightarrow> char" where
  "hex_digit d = (if d < 10 then char_of (48 + d) else char_of (87 + d))"

definition u_escape :: "nat \<Rightarrow> string" where
  "u_escape n = [char_of (92 :: nat), CHR ''u''] @ map hex_digit
     [n div 4096 mod 16, n div 256 mod 16, n div 16 mod 16, n mod 16]"

definition ascii_escape :: "nat \<Rightarrow> string" where
  "ascii_escape n =
     (if n = 34 then [char_of (92 :: nat), char_of (34 :: nat)] else if n = 92 then [char_of (92 :: nat), char_of (92 :: nat)]
      else if n = 10 then [char_of (92 :: nat), CHR ''n''] else if n = 13 then [char_of (92 :: nat), CHR ''r''] else if n = 9 then [char_of (92 :: nat), CHR ''t'']
      else if n = 8 then [char_of (92 :: nat), CHR ''b''] else if n = 12 then [char_of (92 :: nat), CHR ''f'']
      else if 32 \<le> n \<and> n \<le> 126 then [char_of n] else u_escape n)"

fun escape_bytes :: "nat list \<Rightarrow> string" where
  "escape_bytes (a # b # c # d # s) =
     (if a < 128 then ascii_escape a @ escape_bytes (b # c # d # s)
      else if a < 224 then u_escape ((a - 192) * 64 + (b - 128)) @ escape_bytes (c # d # s)
      else if a < 240 then
        u_escape ((a - 224) * 4096 + (b - 128) * 64 + (c - 128)) @ escape_bytes (d # s)
      else (let p = (a - 240) * 262144 + (b - 128) * 4096 + (c - 128) * 64 + (d - 128) - 65536
            in u_escape (55296 + p div 1024) @ u_escape (56320 + p mod 1024) @ escape_bytes s))"
| "escape_bytes (a # b # s) =
     (if a < 128 then ascii_escape a @ escape_bytes (b # s)
      else if a < 224 then u_escape ((a - 192) * 64 + (b - 128)) @ escape_bytes s
      else (case s of [] \<Rightarrow> []
            | c # _ \<Rightarrow> u_escape ((a - 224) * 4096 + (b - 128) * 64 + (c - 128))))"
| "escape_bytes [a] = ascii_escape a"
| "escape_bytes [] = []"

definition json_string :: "string \<Rightarrow> string" where
  "json_string s = [char_of (34 :: nat)] @ escape_bytes (map of_char s) @ [char_of (34 :: nat)]"

fun commas :: "string list \<Rightarrow> string" where
  "commas [] = []"
| "commas [x] = x"
| "commas (x # y # xs) = x @ '','' @ commas (y # xs)"

definition commas_option :: "string option list \<Rightarrow> string option" where
  "commas_option xs = (if None \<in> set xs then None else Some (commas (map the xs)))"

fun json_dumps :: "pyval \<Rightarrow> string option" where
  "json_dumps PNone = Some ''null''"
| "json_dumps (PBool b) = Some (if b then ''true'' else ''false'')"
| "json_dumps (PInt i) = Some (str_int i)"
| "json_dumps (PFloat x r) = Some r"
| "json_dumps (PNonFinite r) = None"
| "json_dumps (PStr s) = Some (json_string s)"
| "json_dumps (PList xs) =
     map_option (\<lambda>b. ''['' @ b @ '']'') (commas_option (map json_dumps xs))"
| "json_dumps (PDict d) =
     map_option (\<lambda>b. ''{'' @ b @ ''}'')
       (commas_option
         (map (\<lambda>(k, v). map_option (\<lambda>b. json_string k @ '':'' @ b) v)
           (sort_key fst (map (\<lambda>(k, v). (k, json_dumps v)) d))))"

text \<open>The argument of \<^verbatim>\<open>float(x)\<close> followed by \<^verbatim>\<open>math.isfinite\<close>.\<close>

datatype float_arg = Finite real | NotFinite | NotAFloat

end
