(* ===== verification/Store_Common.thy ===== *)
theory Store_Common
  imports Py_Values
begin

text \<open>
  What the parts of \<^verbatim>\<open>worker/delivery_store.py\<close> share: the limits of the class
  \<^verbatim>\<open>DeliveryStore\<close>, its list of storable error names and \<^verbatim>\<open>_clean_error\<close>.
\<close>

section \<open>Limits\<close>

definition MAX_INBOUND_EVENT_BYTES :: nat where "MAX_INBOUND_EVENT_BYTES = 1024 * 1024"
definition MAX_INBOUND_EVENT_KEY_LENGTH :: nat where "MAX_INBOUND_EVENT_KEY_LENGTH = 512"
definition MAX_CHAT_ID_LENGTH :: nat where "MAX_CHAT_ID_LENGTH = 256"
definition MAX_INBOUND_QUEUE_EVENTS :: nat where "MAX_INBOUND_QUEUE_EVENTS = 2048"
definition MAX_INBOUND_QUEUE_BYTES :: nat where "MAX_INBOUND_QUEUE_BYTES = 64 * 1024 * 1024"
definition MAX_INBOUND_EVENTS_PER_CHAT :: nat where "MAX_INBOUND_EVENTS_PER_CHAT = 256"
definition MAX_PENDING_SCAN :: nat where "MAX_PENDING_SCAN = 1024"
definition INBOUND_COMPLETED_RETENTION :: time where "INBOUND_COMPLETED_RETENTION = 30 * 86400"
definition MAX_INBOUND_ATTEMPTS :: nat where "MAX_INBOUND_ATTEMPTS = 5"
definition MAX_DELIVERY_PAYLOAD_CHARS :: nat where "MAX_DELIVERY_PAYLOAD_CHARS = 16 * 1024"
definition INBOUND_RETRY_BASE_SECONDS :: nat where "INBOUND_RETRY_BASE_SECONDS = 5"
definition IDEMPOTENCY_RETENTION_SECONDS :: time where "IDEMPOTENCY_RETENTION_SECONDS = 90 * 86400"
definition LLM_WINDOW_SECONDS :: int where "LLM_WINDOW_SECONDS = 3600"
definition MAX_LLM_CALLS_PER_CHAT :: int where "MAX_LLM_CALLS_PER_CHAT = 30"
definition MAX_LLM_INPUT_CHARS_PER_CHAT :: int where "MAX_LLM_INPUT_CHARS_PER_CHAT = 120000"
definition MAX_LLM_CALLS_GLOBAL :: int where "MAX_LLM_CALLS_GLOBAL = 500"
definition MAX_LLM_INPUT_CHARS_GLOBAL :: int where "MAX_LLM_INPUT_CHARS_GLOBAL = 2000000"

lemmas store_limits =
  MAX_INBOUND_EVENT_BYTES_def MAX_INBOUND_EVENT_KEY_LENGTH_def MAX_CHAT_ID_LENGTH_def
  MAX_INBOUND_QUEUE_EVENTS_def MAX_INBOUND_QUEUE_BYTES_def MAX_INBOUND_EVENTS_PER_CHAT_def
  MAX_PENDING_SCAN_def INBOUND_COMPLETED_RETENTION_def MAX_INBOUND_ATTEMPTS_def
  MAX_DELIVERY_PAYLOAD_CHARS_def INBOUND_RETRY_BASE_SECONDS_def IDEMPOTENCY_RETENTION_SECONDS_def
  LLM_WINDOW_SECONDS_def MAX_LLM_CALLS_PER_CHAT_def MAX_LLM_INPUT_CHARS_PER_CHAT_def
  MAX_LLM_CALLS_GLOBAL_def MAX_LLM_INPUT_CHARS_GLOBAL_def

section \<open>Storable error names\<close>

definition SAFE_ERROR_TYPES :: "string list" where
  "SAFE_ERROR_TYPES =
    [''stored_error'', ''expired_message'', ''worker_cancelled'', ''interrupted_send'',
     ''platform_order_identity_unavailable'', ''chat_binding_unavailable'', ''unsupported_item'',
     ''headinfo_invalid'', ''headinfo_item_mismatch'', ''order_detail_invalid'',
     ''order_identity_mismatch'', ''order_item_mismatch'', ''order_buyer_mismatch'',
     ''seller_identity_mismatch'', ''order_not_awaiting_shipment'', ''unsupported_quantity'',
     ''order_reverification_failed'', ''pan_resource_unavailable'',
     ''material_payload_unavailable'', ''inventory_empty'', ''inventory_marked_used'',
     ''inventory_removed_from_manifest'', ''inventory_state_changed'', ''cancelled_during_send'',
     ''cancelled_after_send_attempt'', ''manual_takeover_before_send'', ''ack_timeout'',
     ''untrusted_order'', ''duplicate_replay'', ''temporary'', ''permanent'', ''invalid_event'',
     ''duplicate_event'', ''not_actionable'', ''operator_cancelled'', ''ConnectionError'',
     ''TimeoutError'', ''CancelledError'', ''ValueError'', ''RuntimeError'',
     ''DeliveryStoreError'', ''LLMServiceError'', ''LLMEmptyResponseError'',
     ''ManualTakeoverError'', ''network_error'', ''platform_busy'', ''response_invalid'',
     ''token_unavailable'', ''session_expired'', ''risk_control'', ''verification_required'',
     ''account_restricted'']"

definition newline_to_space :: "string \<Rightarrow> string" where
  "newline_to_space s = map (\<lambda>c. if c = CHR 0x0A then CHR '' '' else c) s"

definition DISCARDABLE :: "string list" where
  "DISCARDABLE = [''invalid_event'', ''duplicate_event'', ''not_actionable'', ''operator_cancelled'']"

definition clean_error :: "string \<Rightarrow> string" where
  "clean_error error =
     (let value = py_strip (newline_to_space error) in
      if value \<in> set SAFE_ERROR_TYPES then value
      else if prefix ''discarded:'' value \<and> drop (length ''discarded:'') value \<in> set DISCARDABLE
      then value
      else ''stored_error'')"

lemma stored_error_safe [simp]: "''stored_error'' \<in> set SAFE_ERROR_TYPES"
  by (simp add: SAFE_ERROR_TYPES_def)

lemma safe_error_nonempty: "e \<in> set SAFE_ERROR_TYPES \<Longrightarrow> e \<noteq> []"
  by (auto simp only: SAFE_ERROR_TYPES_def list.set insert_iff empty_iff list.distinct)

lemma clean_error_range:
  "clean_error e \<in> set SAFE_ERROR_TYPES \<union> (\<lambda>d. ''discarded:'' @ d) ` set DISCARDABLE"
  by (auto simp: clean_error_def Let_def prefix_def)

lemma clean_error_nonempty [simp]: "clean_error e \<noteq> []"
  using clean_error_range [of e] safe_error_nonempty by auto

lemma safe_errors_plain: "list_all plain_ends SAFE_ERROR_TYPES"
  by code_simp

lemma discardable_plain: "list_all (\<lambda>d. plain_ends (''discarded:'' @ d)) DISCARDABLE"
  by code_simp

lemma clean_error_plain: "plain_ends (clean_error e)"
proof -
  from clean_error_range [of e] consider "clean_error e \<in> set SAFE_ERROR_TYPES"
    | d where "clean_error e = ''discarded:'' @ d" "d \<in> set DISCARDABLE" by blast
  then show ?thesis
    using safe_errors_plain discardable_plain unfolding list_all_iff by cases metis+
qed

lemma clean_error_safe: "e \<in> set SAFE_ERROR_TYPES \<Longrightarrow> CHR 0x0A \<notin> set e \<Longrightarrow> clean_error e = e"
proof -
  assume e: "e \<in> set SAFE_ERROR_TYPES" and "CHR 0x0A \<notin> set e"
  then have "newline_to_space e = e"
    by (auto simp: newline_to_space_def intro!: map_idI)
  moreover have "py_strip e = e"
    using e safe_errors_plain py_strip_plain by (auto simp: list_all_iff)
  ultimately show ?thesis using e by (simp add: clean_error_def)
qed

end
