(* ===== verification/Inbound_Queue.thy ===== *)
theory Inbound_Queue
  imports Store_Common
begin

text \<open>
  The durable inbound queue of \<^verbatim>\<open>worker/delivery_store.py\<close> (table \<^verbatim>\<open>inbound_events\<close>): platform
  messages are recorded once per event key, claimed one at a time per chat in arrival order,
  completed, ignored, retried with a growing delay and finally dead-lettered.  The hash function
  \<^verbatim>\<open>hashlib.sha256(..).hexdigest()\<close> is the parameter \<open>sha256\<close>; the clock \<^verbatim>\<open>self.now_fn()\<close> is the
  argument \<open>now\<close>.
\<close>

section \<open>State\<close>

datatype inbound_status = Pending | Processing | Completed | Ignored | DeadLetter

record inbound_row =
  ie_rowid :: nat
  ie_key :: string
  ie_chat :: string
  ie_payload :: string
  ie_hash :: string
  ie_status :: inbound_status
  ie_attempts :: nat
  ie_next :: time
  ie_error :: "string option"
  ie_created :: time
  ie_updated :: time
  ie_completed :: "time option"

record inbound_event =
  ev_key :: string
  ev_chat :: string
  ev_payload :: string
  ev_status :: inbound_status

type_synonym inbox = "inbound_row list"

interpretation inbound: keyed_table ie_key .

definition event_of :: "inbound_row \<Rightarrow> inbound_event" where
  "event_of r = \<lparr>ev_key = ie_key r, ev_chat = ie_chat r, ev_payload = ie_payload r,
                 ev_status = ie_status r\<rparr>"

definition active :: "inbound_row \<Rightarrow> bool" where
  "active r \<longleftrightarrow> ie_status r \<in> {Pending, Processing, DeadLetter}"

definition before :: "inbound_row \<Rightarrow> inbound_row \<Rightarrow> bool" where
  "before a b \<longleftrightarrow> ie_created a < ie_created b \<or> ie_created a = ie_created b \<and> ie_rowid a < ie_rowid b"

definition next_rowid :: "inbox \<Rightarrow> nat" where
  "next_rowid t = Suc (Max (insert 0 (set (map ie_rowid t))))"

abbreviation inbound_by :: "string \<Rightarrow> inbox \<Rightarrow> inbound_row option" where
  "inbound_by k t \<equiv> find (\<lambda>r. ie_key r = k) t"

section \<open>Recording\<close>

definition encode_inbound_payload :: "pyval \<Rightarrow> string result" where
  "encode_inbound_payload payload =
     (case payload of
        PDict d \<Rightarrow>
          (case json_dumps payload of
             None \<Rightarrow> Inl (ValueError ''inbound event payload is not JSON serializable'')
           | Some encoded \<Rightarrow>
               if length encoded > MAX_INBOUND_EVENT_BYTES
               then Inl (ValueError ''inbound event payload is too large'')
               else Inr encoded)
      | _ \<Rightarrow> Inl (ValueError ''inbound event payload must be an object''))"

definition expire_inbound :: "time \<Rightarrow> inbox \<Rightarrow> inbox" where
  "expire_inbound now t =
     sql_delete (\<lambda>r. ie_status r \<in> {Completed, Ignored, DeadLetter} \<and>
        (case ie_completed r of None \<Rightarrow> False
         | Some c \<Rightarrow> c < now - INBOUND_COMPLETED_RETENTION)) t"

definition active_bytes :: "inbox \<Rightarrow> nat" where
  "active_bytes t = sum_list (map (\<lambda>r. length (ie_payload r)) (filter active t))"

definition record_inbound_event ::
  "(string \<Rightarrow> string) \<Rightarrow> time \<Rightarrow> string \<Rightarrow> string \<Rightarrow> pyval \<Rightarrow> inbox \<Rightarrow> (inbox, inbound_event) outcome"
where
  "record_inbound_event sha256 now event_key chat_id payload t =
     (if event_key = [] \<or> py_len event_key > MAX_INBOUND_EVENT_KEY_LENGTH
      then (t, Inl (ValueError ''inbound event key is invalid''))
      else if chat_id = [] \<or> py_len chat_id > MAX_CHAT_ID_LENGTH
      then (t, Inl (ValueError ''inbound event chat ID is invalid''))
      else case encode_inbound_payload payload of
        Inl e \<Rightarrow> (t, Inl e)
      | Inr encoded \<Rightarrow>
         (let payload_hash = sha256 encoded;
              t1 = expire_inbound now t;
              answer = (\<lambda>t' row.
                if ie_chat row \<noteq> chat_id \<or> ie_hash row \<noteq> payload_hash
                then (t', Inl (DeliveryStoreError ''inbound event key collision''))
                else (t', Inr (event_of row)))
          in case inbound_by event_key t1 of
               Some row \<Rightarrow> answer t1 row
             | None \<Rightarrow>
                 if sql_count active t1 \<ge> MAX_INBOUND_QUEUE_EVENTS
                 then (t, Inl (DeliveryStoreError ''inbound queue event capacity reached''))
                 else if active_bytes t1 + length encoded > MAX_INBOUND_QUEUE_BYTES
                 then (t, Inl (DeliveryStoreError ''inbound queue byte capacity reached''))
                 else if sql_count (\<lambda>r. ie_chat r = chat_id \<and> active r) t1
                           \<ge> MAX_INBOUND_EVENTS_PER_CHAT
                 then (t, Inl (DeliveryStoreError ''inbound chat rate capacity reached''))
                 else
                   (let new = \<lparr>ie_rowid = next_rowid t1, ie_key = event_key, ie_chat = chat_id,
                          ie_payload = encoded, ie_hash = payload_hash, ie_status = Pending,
                          ie_attempts = 0, ie_next = 0, ie_error = None, ie_created = now,
                          ie_updated = now, ie_completed = None\<rparr>
                    in answer (t1 @ [new]) new)))"

section \<open>Claiming and finishing\<close>

definition claim_inbound_event ::
  "time \<Rightarrow> string \<Rightarrow> inbox \<Rightarrow> (inbox, inbound_event option) outcome"
where
  "claim_inbound_event now event_key t =
     (case inbound_by event_key t of
        None \<Rightarrow> (t, Inl (DeliveryStoreError ''unknown inbound event''))
      | Some row \<Rightarrow>
          if ie_status row \<noteq> Pending \<or> ie_next row > now then (t, Inr None)
          else if find (\<lambda>e. ie_chat e = ie_chat row \<and> active e \<and> before e row) t \<noteq> None
          then (t, Inr None)
          else (let hit = (\<lambda>r. ie_key r = event_key \<and> ie_status r = Pending) in
            if sql_count hit t \<noteq> 1 then (t, Inr None)
            else (sql_update hit (\<lambda>r. r\<lparr>ie_status := Processing,
                    ie_attempts := ie_attempts r + 1, ie_updated := now\<rparr>) t,
                  Inr (Some ((event_of row)\<lparr>ev_status := Processing\<rparr>)))))"

definition complete_inbound_event :: "time \<Rightarrow> string \<Rightarrow> inbox \<Rightarrow> (inbox, unit) outcome" where
  "complete_inbound_event now event_key t =
     (case inbound_by event_key t of
        None \<Rightarrow> (t, Inl (DeliveryStoreError ''unknown inbound event''))
      | Some row \<Rightarrow>
          if ie_status row \<in> {Completed, Ignored} then (t, Inr ())
          else if ie_status row \<noteq> Processing
          then (t, Inl (DeliveryStoreError ''inbound event is not owned by a worker''))
          else (sql_update (\<lambda>r. ie_key r = event_key)
                 (\<lambda>r. r\<lparr>ie_status := Completed, ie_payload := ''{}'', ie_error := None,
                        ie_updated := now, ie_completed := Some now\<rparr>) t, Inr ()))"

definition ignore_inbound_event :: "time \<Rightarrow> string \<Rightarrow> string \<Rightarrow> inbox \<Rightarrow> (inbox, unit) outcome" where
  "ignore_inbound_event now event_key reason t =
     (let clean_reason = py_strip (clean_error reason) in
      if clean_reason = []
      then (t, Inl (ValueError ''ignored inbound event reason is required''))
      else case inbound_by event_key t of
        None \<Rightarrow> (t, Inl (DeliveryStoreError ''unknown inbound event''))
      | Some row \<Rightarrow>
          if ie_status row = Ignored then (t, Inr ())
          else if ie_status row = Completed
          then (t, Inl (DeliveryStoreError ''completed inbound event cannot be ignored''))
          else if ie_status row \<noteq> Processing
          then (t, Inl (DeliveryStoreError ''inbound event is not owned by a worker''))
          else (sql_update (\<lambda>r. ie_key r = event_key \<and> ie_status r = Processing)
                 (\<lambda>r. r\<lparr>ie_status := Ignored, ie_payload := ''{}'', ie_error := Some clean_reason,
                        ie_updated := now, ie_completed := Some now\<rparr>) t, Inr ()))"

definition requeue_delay :: "nat \<Rightarrow> time" where
  \<comment> \<open>\<^verbatim>\<open>min(INBOUND_RETRY_BASE_SECONDS * 2 ** (n - 1), 300)\<close>; the exponent is negative for \<open>n = 0\<close>\<close>
  "requeue_delay n = min (real INBOUND_RETRY_BASE_SECONDS * 2 powi (int n - 1)) 300"

definition requeue_inbound_event ::
  "time \<Rightarrow> string \<Rightarrow> string \<Rightarrow> inbox \<Rightarrow> (inbox, inbound_status) outcome"
where
  "requeue_inbound_event now event_key error t =
     (case inbound_by event_key t of
        None \<Rightarrow> (t, Inl (DeliveryStoreError ''unknown inbound event''))
      | Some row \<Rightarrow>
          if ie_status row = Pending then (t, Inr Pending)
          else if ie_status row \<noteq> Processing
          then (t, Inl (DeliveryStoreError ''inbound event is not owned by a worker''))
          else (let hit = (\<lambda>r. ie_key r = event_key \<and> ie_status r = Processing) in
            if ie_attempts row \<ge> MAX_INBOUND_ATTEMPTS
            then (sql_update hit (\<lambda>r. r\<lparr>ie_status := DeadLetter, ie_error := Some (clean_error error),
                     ie_updated := now, ie_completed := Some now\<rparr>) t, Inr DeadLetter)
            else if sql_count hit t \<noteq> 1
            then (t, Inl (DeliveryStoreError ''inbound event could not be requeued''))
            else (sql_update hit (\<lambda>r. r\<lparr>ie_status := Pending, ie_error := Some (clean_error error),
                     ie_next := now + requeue_delay (ie_attempts row), ie_updated := now\<rparr>) t,
                  Inr Pending)))"

section \<open>Queries\<close>

definition by_arrival :: "inbox \<Rightarrow> inbox" where
  \<comment> \<open>\<^verbatim>\<open>ORDER BY created_at, rowid\<close>\<close>
  "by_arrival t = order_by ie_created (order_by ie_rowid t)"

definition pending_inbound_events :: "time \<Rightarrow> bool \<Rightarrow> inbox \<Rightarrow> inbound_event list" where
  "pending_inbound_events now ready_only t =
     map event_of (take MAX_PENDING_SCAN (by_arrival
       (if ready_only
        then filter (\<lambda>c. ie_status c = Pending \<and> ie_next c \<le> now \<and>
               \<not> (\<exists>e \<in> set t. ie_chat e = ie_chat c \<and>
                    ie_status e \<in> {Pending, Processing, DeadLetter} \<and>
                    (ie_created e < ie_created c \<or>
                     ie_created e = ie_created c \<and> ie_rowid e < ie_rowid c))) t
        else filter (\<lambda>r. ie_status r = Pending) t)))"

record dead_letter_record =
  dl_key :: string
  dl_attempts :: nat
  dl_error :: string
  dl_created :: time
  dl_updated :: time
  dl_completed :: "time option"
  dl_chat_ref :: string

definition dead_letter_inbound_events ::
  "(string \<Rightarrow> string) \<Rightarrow> pyval \<Rightarrow> inbox \<Rightarrow> dead_letter_record list result"
where
  "dead_letter_inbound_events sha256 limit t =
     (case as_int limit of
        None \<Rightarrow> Inl (ValueError ''dead-letter limit is invalid'')
      | Some n \<Rightarrow>
          if \<not> (1 \<le> n \<and> n \<le> 1000) then Inl (ValueError ''dead-letter limit is invalid'')
          else Inr (map (\<lambda>r. \<lparr>dl_key = ie_key r, dl_attempts = ie_attempts r,
                 dl_error = (case ie_error r of
                    Some e \<Rightarrow> if e \<in> set SAFE_ERROR_TYPES then e else ''stored_error''
                  | None \<Rightarrow> ''stored_error''),
                 dl_created = ie_created r, dl_updated = ie_updated r,
                 dl_completed = ie_completed r,
                 dl_chat_ref = take 10 (sha256 (ie_chat r))\<rparr>)
               (take (nat n) (by_arrival (filter (\<lambda>r. ie_status r = DeadLetter) t)))))"

definition dead_letter_inbound_count :: "inbox \<Rightarrow> nat" where
  "dead_letter_inbound_count t = sql_count (\<lambda>r. ie_status r = DeadLetter) t"

section \<open>Operator actions and crash recovery\<close>

definition requeue_dead_letter_event :: "time \<Rightarrow> string \<Rightarrow> inbox \<Rightarrow> (inbox, bool) outcome" where
  "requeue_dead_letter_event now event_key t =
     (let hit = (\<lambda>r. ie_key r = event_key \<and> ie_status r = DeadLetter) in
      (sql_update hit (\<lambda>r. r\<lparr>ie_status := Pending, ie_attempts := 0, ie_next := 0,
          ie_error := None, ie_updated := now, ie_completed := None\<rparr>) t,
       Inr (sql_count hit t = 1)))"

definition discard_dead_letter_event :: "time \<Rightarrow> string \<Rightarrow> string \<Rightarrow> inbox \<Rightarrow> (inbox, bool) outcome" where
  "discard_dead_letter_event now event_key reason t =
     (let clean_reason = py_strip (clean_error reason) in
      if clean_reason = [] then (t, Inl (ValueError ''dead-letter resolution is required''))
      else (let hit = (\<lambda>r. ie_key r = event_key \<and> ie_status r = DeadLetter) in
        (sql_update hit (\<lambda>r. r\<lparr>ie_status := Completed, ie_payload := ''{}'',
            ie_error := Some (py_take 240 (''discarded:'' @ clean_reason)),
            ie_updated := now, ie_completed := Some now\<rparr>) t,
         Inr (sql_count hit t = 1))))"

definition recover_inbound :: "inbox \<Rightarrow> inbox" where
  \<comment> \<open>The part of \<^verbatim>\<open>_init_db\<close> that returns interrupted events to the queue\<close>
  "recover_inbound t =
     sql_update (\<lambda>r. ie_status r = Processing) (\<lambda>r. r\<lparr>ie_status := Pending, ie_next := 0\<rparr>) t"

end
