(* ===== verification/Inbound_Invariants.thy ===== *)
theory Inbound_Invariants
  imports Inbound_Queue
begin

text \<open>
  The inbound queue under every sequence of its operations.  A state is the latest clock reading and
  the table; the one assumption is that the clock does not run backwards between two operations.
  The invariant gives per-chat mutual exclusion in arrival order and the capacity bounds.
\<close>

section \<open>Operations as steps\<close>

datatype inbound_op =
    OpRecord string string pyval
  | OpClaim string
  | OpComplete string
  | OpIgnore string string
  | OpRequeue string string
  | OpRequeueDead string
  | OpDiscardDead string string
  | OpRestart

fun inbound_apply :: "(string \<Rightarrow> string) \<Rightarrow> time \<Rightarrow> inbound_op \<Rightarrow> inbox \<Rightarrow> inbox" where
  "inbound_apply h now (OpRecord k c p) t = fst (record_inbound_event h now k c p t)"
| "inbound_apply h now (OpClaim k) t = fst (claim_inbound_event now k t)"
| "inbound_apply h now (OpComplete k) t = fst (complete_inbound_event now k t)"
| "inbound_apply h now (OpIgnore k r) t = fst (ignore_inbound_event now k r t)"
| "inbound_apply h now (OpRequeue k e) t = fst (requeue_inbound_event now k e t)"
| "inbound_apply h now (OpRequeueDead k) t = fst (requeue_dead_letter_event now k t)"
| "inbound_apply h now (OpDiscardDead k r) t = fst (discard_dead_letter_event now k r t)"
| "inbound_apply h now OpRestart t = recover_inbound t"

inductive inbound_step :: "(string \<Rightarrow> string) \<Rightarrow> time \<times> inbox \<Rightarrow> time \<times> inbox \<Rightarrow> bool" for h where
  op: "c \<le> now \<Longrightarrow> inbound_step h (c, t) (now, inbound_apply h now x t)"

inductive_cases inbound_stepE: "inbound_step h s s'"

definition inbound_init :: "time \<times> inbox \<Rightarrow> bool" where
  "inbound_init s \<longleftrightarrow> snd s = []"

section \<open>The invariant\<close>

definition fifo :: "inbox \<Rightarrow> bool" where
  "fifo t \<longleftrightarrow> (\<forall>p \<in> set t. \<forall>e \<in> set t.
     ie_status p = Processing \<and> ie_chat e = ie_chat p \<and> active e \<longrightarrow> \<not> before e p)"

definition chat_active :: "string \<Rightarrow> inbound_row \<Rightarrow> bool" where
  "chat_active c r \<longleftrightarrow> ie_chat r = c \<and> active r"

definition within_capacity :: "inbox \<Rightarrow> bool" where
  "within_capacity t \<longleftrightarrow>
     sql_count active t \<le> MAX_INBOUND_QUEUE_EVENTS \<and>
     active_bytes t \<le> MAX_INBOUND_QUEUE_BYTES \<and>
     (\<forall>c. sql_count (chat_active c) t \<le> MAX_INBOUND_EVENTS_PER_CHAT)"

definition inbox_inv :: "time \<times> inbox \<Rightarrow> bool" where
  "inbox_inv s \<longleftrightarrow>
     unique_key ie_key (snd s) \<and> unique_key ie_rowid (snd s) \<and>
     (\<forall>r \<in> set (snd s). ie_created r \<le> fst s) \<and>
     fifo (snd s) \<and> within_capacity (snd s) \<and>
     (\<forall>r \<in> set (snd s). ie_status r \<in> {Completed, Ignored} \<longrightarrow> ie_payload r = ''{}'')"

interpretation rowids: keyed_table ie_rowid .

section \<open>Statements that keep it\<close>

text \<open>
  An update is \<open>settling\<close> when it keeps the identity columns, activates nothing and starts a row only
  when no earlier active row of its chat is left.
\<close>

definition settling :: "(inbound_row \<Rightarrow> bool) \<Rightarrow> (inbound_row \<Rightarrow> inbound_row) \<Rightarrow> inbox \<Rightarrow> bool" where
  "settling P f t \<longleftrightarrow> (\<forall>r \<in> set t. P r \<longrightarrow>
     ie_key (f r) = ie_key r \<and> ie_rowid (f r) = ie_rowid r \<and> ie_chat (f r) = ie_chat r \<and>
     ie_created (f r) = ie_created r \<and> (active (f r) \<longrightarrow> active r) \<and>
     (active (f r) \<longrightarrow> ie_payload (f r) = ie_payload r) \<and>
     (ie_status (f r) \<in> {Completed, Ignored} \<longrightarrow> ie_payload (f r) = ''{}'') \<and>
     (ie_status (f r) = Processing \<longrightarrow>
        (\<forall>e \<in> set t. ie_chat e = ie_chat r \<and> active e \<longrightarrow> \<not> before e r)))"

lemma settling_fifo:
  assumes "settling P f t" "fifo t"
  shows "fifo (sql_update P f t)"
proof -
  have orig: "\<exists>q \<in> set t. ie_chat r = ie_chat q \<and> (active r \<longrightarrow> active q) \<and>
      ie_created r = ie_created q \<and> ie_rowid r = ie_rowid q \<and>
      (ie_status r = Processing \<longrightarrow>
        (\<forall>e \<in> set t. ie_chat e = ie_chat q \<and> active e \<longrightarrow> \<not> before e q))"
    if "r \<in> set (sql_update P f t)" for r
    using that
  proof (cases rule: sql_updateE)
    case (hit q)
    with assms(1) show ?thesis unfolding settling_def by (intro bexI [of _ q]) auto
  next
    case miss
    with assms(2) show ?thesis unfolding fifo_def by (intro bexI [of _ r]) auto
  qed
  show ?thesis
    unfolding fifo_def
  proof (intro ballI impI)
    fix p e
    assume p: "p \<in> set (sql_update P f t)" and e: "e \<in> set (sql_update P f t)"
      and h: "ie_status p = Processing \<and> ie_chat e = ie_chat p \<and> active e"
    from orig [OF p] h obtain p' where p': "ie_chat p = ie_chat p'" "ie_created p = ie_created p'"
      "ie_rowid p = ie_rowid p'" "\<forall>e \<in> set t. ie_chat e = ie_chat p' \<and> active e \<longrightarrow> \<not> before e p'"
      by auto
    from orig [OF e] h obtain e' where e': "e' \<in> set t" "ie_chat e = ie_chat e'" "active e'"
      "ie_created e = ie_created e'" "ie_rowid e = ie_rowid e'"
      by auto
    with p' h have "\<not> before e' p'" by auto
    with p' e' show "\<not> before e p" by (simp add: before_def)
  qed
qed

lemma sql_count_settling:
  assumes "\<And>r. r \<in> set t \<Longrightarrow> P r \<Longrightarrow> Q (f r) \<Longrightarrow> Q r"
  shows "sql_count Q (sql_update P f t) \<le> sql_count Q t"
  using assms by (induction t) (auto intro: le_SucI)

lemma active_bytes_Cons [simp]:
  "active_bytes (r # t) = (if active r then length (ie_payload r) else 0) + active_bytes t"
  by (simp add: active_bytes_def)

lemma active_bytes_Nil [simp]: "active_bytes [] = 0"
  by (simp add: active_bytes_def)

lemma active_bytes_settling:
  assumes "\<And>r. r \<in> set t \<Longrightarrow> P r \<Longrightarrow> active (f r) \<Longrightarrow> active r \<and> ie_payload (f r) = ie_payload r"
  shows "active_bytes (sql_update P f t) \<le> active_bytes t"
  using assms
proof (induction t)
  case (Cons a t)
  then have "active_bytes (sql_update P f t) \<le> active_bytes t" by simp
  moreover from Cons.prems [of a] have "P a \<Longrightarrow> active (f a) \<Longrightarrow> active a \<and> ie_payload (f a) = ie_payload a"
    by simp
  ultimately show ?case by auto
qed simp

lemma settling_capacity:
  assumes "settling P f t" "within_capacity t"
  shows "within_capacity (sql_update P f t)"
proof -
  have "sql_count active (sql_update P f t) \<le> sql_count active t"
    using assms(1) by (intro sql_count_settling) (auto simp: settling_def)
  moreover have "sql_count (chat_active c) (sql_update P f t) \<le> sql_count (chat_active c) t" for c
    using assms(1) by (intro sql_count_settling) (auto simp: settling_def chat_active_def)
  moreover have "active_bytes (sql_update P f t) \<le> active_bytes t"
    using assms(1) by (intro active_bytes_settling) (auto simp: settling_def)
  ultimately show ?thesis
    using assms(2) unfolding within_capacity_def by (meson order_trans)
qed

lemma settling_map:
  assumes "\<And>r. r \<in> set t \<Longrightarrow> P r \<Longrightarrow> g (f r) = g r"
  shows "map g (sql_update P f t) = map g t"
  using assms by (auto simp: sql_update_def)

lemma settling_inv:
  assumes "inbox_inv (c, t)" "c \<le> now" "settling P f t"
  shows "inbox_inv (now, sql_update P f t)"
proof -
  have "map ie_key (sql_update P f t) = map ie_key t"
    "map ie_rowid (sql_update P f t) = map ie_rowid t"
    using assms(3) by (auto intro!: settling_map simp: settling_def)
  moreover have "ie_created r \<le> now" if "r \<in> set (sql_update P f t)" for r
    using that assms by (cases rule: sql_updateE) (force simp: inbox_inv_def settling_def)+
  moreover have "ie_status r \<in> {Completed, Ignored} \<longrightarrow> ie_payload r = ''{}''"
    if "r \<in> set (sql_update P f t)" for r
    using that assms by (cases rule: sql_updateE) (auto simp: inbox_inv_def settling_def)
  ultimately show ?thesis
    using assms settling_fifo settling_capacity
    by (auto simp: inbox_inv_def unique_key_def)
qed

lemma same_inv: "inbox_inv (c, t) \<Longrightarrow> c \<le> now \<Longrightarrow> inbox_inv (now, t)"
  by (force simp: inbox_inv_def)

lemma delete_inv:
  assumes "inbox_inv (c, t)"
  shows "inbox_inv (c, sql_delete P t)"
proof -
  have count: "sql_count Q (sql_delete P t) \<le> sql_count Q t" for Q
    by (induction t) auto
  have "active_bytes (sql_delete P t) \<le> active_bytes t"
    by (induction t) auto
  then have "within_capacity (sql_delete P t)"
    using assms count unfolding inbox_inv_def within_capacity_def snd_conv by (meson order_trans)
  moreover have "fifo (sql_delete P t)"
    using assms by (auto simp: inbox_inv_def fifo_def in_sql_delete)
  ultimately show ?thesis
    using assms by (auto simp: inbox_inv_def in_sql_delete inbound.unique_delete rowids.unique_delete)
qed

lemma next_rowid_fresh: "r \<in> set t \<Longrightarrow> ie_rowid r < next_rowid t"
proof -
  assume "r \<in> set t"
  then have "ie_rowid r \<le> Max (insert 0 (set (map ie_rowid t)))" by (intro Max_ge) auto
  then show ?thesis by (simp add: next_rowid_def)
qed

lemma sql_count_append [simp]: "sql_count Q (t @ u) = sql_count Q t + sql_count Q u"
  by (simp add: sql_count_def)

lemma insert_inv:
  assumes inv: "inbox_inv (c, t)" and c: "c \<le> now"
    and fresh: "inbound_by (ie_key new) t = None"
    and new: "ie_rowid new = next_rowid t" "ie_status new = Pending" "ie_created new = now"
    and cap: "sql_count active t < MAX_INBOUND_QUEUE_EVENTS"
      "active_bytes t + length (ie_payload new) \<le> MAX_INBOUND_QUEUE_BYTES"
      "sql_count (chat_active (ie_chat new)) t < MAX_INBOUND_EVENTS_PER_CHAT"
  shows "inbox_inv (now, t @ [new])"
proof -
  have "unique_key ie_key (t @ [new])"
    using inv fresh by (auto intro: inbound.unique_insert simp: inbox_inv_def)
  moreover have "find (\<lambda>r. ie_rowid r = ie_rowid new) t = None"
    using next_rowid_fresh new by (force simp: find_None_iff)
  then have "unique_key ie_rowid (t @ [new])"
    using inv by (auto intro: rowids.unique_insert simp: inbox_inv_def)
  moreover have "\<not> before new r" if "r \<in> set t" for r
    using that inv c new next_rowid_fresh [OF that] by (force simp: before_def inbox_inv_def)
  then have "fifo (t @ [new])"
    using inv new by (auto simp: fifo_def inbox_inv_def)
  moreover have "within_capacity (t @ [new])"
  proof -
    have bytes: "active_bytes (t @ [new]) \<le> active_bytes t + length (ie_payload new)"
      by (simp add: active_bytes_def)
    have chat: "sql_count (chat_active d) (t @ [new]) \<le> MAX_INBOUND_EVENTS_PER_CHAT" for d
      using inv cap(3) by (cases "d = ie_chat new")
        (auto simp: chat_active_def inbox_inv_def within_capacity_def)
    show ?thesis
      unfolding within_capacity_def using bytes chat cap(1,2) by simp
  qed
  ultimately show ?thesis
    using inv c new by (force simp: inbox_inv_def)
qed

section \<open>Every operation keeps it\<close>

lemma key_settling:
  assumes "inbox_inv (c, t)" "inbound_by k t = Some row"
    and "\<And>r. P r \<Longrightarrow> ie_key r = k" and "P row \<Longrightarrow> settling (\<lambda>r. r = row) f t"
  shows "settling P f t"
proof -
  have "r = row" if "r \<in> set t" "P r" for r
  proof (rule inbound.same_row)
    show "unique_key ie_key t" using assms(1) by (simp add: inbox_inv_def)
    show "r \<in> set t" by (rule that)
    show "row \<in> set t" "ie_key r = ie_key row"
      using find_SomeD [OF assms(2)] assms(3) [OF that(2)] by simp_all
  qed
  then have only: "r \<in> set t \<Longrightarrow> P r \<Longrightarrow> P row \<and> r = row" for r by blast
  show ?thesis
    unfolding settling_def
  proof (intro ballI impI)
    fix r
    assume r: "r \<in> set t" "P r"
    with only assms(4) have "settling (\<lambda>r. r = row) f t" "r = row" by blast+
    with r show "ie_key (f r) = ie_key r \<and> ie_rowid (f r) = ie_rowid r \<and> ie_chat (f r) = ie_chat r \<and>
       ie_created (f r) = ie_created r \<and> (active (f r) \<longrightarrow> active r) \<and>
       (active (f r) \<longrightarrow> ie_payload (f r) = ie_payload r) \<and>
       (ie_status (f r) \<in> {Completed, Ignored} \<longrightarrow> ie_payload (f r) = ''{}'') \<and>
       (ie_status (f r) = Processing \<longrightarrow>
          (\<forall>e \<in> set t. ie_chat e = ie_chat r \<and> active e \<longrightarrow> \<not> before e r))"
      unfolding settling_def by blast
  qed
qed

lemma claim_inv:
  assumes "inbox_inv (c, t)" "c \<le> now"
  shows "inbox_inv (now, fst (claim_inbound_event now k t))"
proof (cases "inbound_by k t")
  case None
  with assms same_inv show ?thesis by (simp add: claim_inbound_event_def)
next
  case (Some row)
  let ?hit = "\<lambda>r. ie_key r = k \<and> ie_status r = Pending"
  let ?f = "\<lambda>r. r\<lparr>ie_status := Processing, ie_attempts := ie_attempts r + 1, ie_updated := now\<rparr>"
  have "settling ?hit ?f t"
    if "find (\<lambda>e. ie_chat e = ie_chat row \<and> active e \<and> before e row) t = None" "ie_status row = Pending"
    using assms(1) Some
  proof (rule key_settling)
    show "settling (\<lambda>r. r = row) ?f t"
      using that by (auto simp: settling_def active_def find_None_iff)
  qed simp
  with Some show ?thesis
    using same_inv [OF assms] settling_inv [OF assms, of ?hit ?f]
    by (simp add: claim_inbound_event_def Let_def)
qed

text \<open>The updates that leave no row active that was not, and start none.\<close>

lemma closing_settling:
  "settling P (\<lambda>r. r\<lparr>ie_status := Completed, ie_payload := ''{}'', ie_error := e,
     ie_updated := now, ie_completed := d\<rparr>) t"
  "settling P (\<lambda>r. r\<lparr>ie_status := Ignored, ie_payload := ''{}'', ie_error := e,
     ie_updated := now, ie_completed := d\<rparr>) t"
  by (simp_all add: settling_def active_def)

lemma reopening_settling:
  "settling (\<lambda>r. ie_key r = k \<and> ie_status r = Processing)
     (\<lambda>r. r\<lparr>ie_status := DeadLetter, ie_error := e, ie_updated := now, ie_completed := d\<rparr>) t"
  "settling (\<lambda>r. ie_key r = k \<and> ie_status r = Processing)
     (\<lambda>r. r\<lparr>ie_status := Pending, ie_error := e, ie_next := n, ie_updated := now\<rparr>) t"
  "settling (\<lambda>r. ie_key r = k \<and> ie_status r = DeadLetter)
     (\<lambda>r. r\<lparr>ie_status := Pending, ie_attempts := 0, ie_next := n, ie_error := e,
            ie_updated := now, ie_completed := d\<rparr>) t"
  "settling (\<lambda>r. ie_status r = Processing) (\<lambda>r. r\<lparr>ie_status := Pending, ie_next := n\<rparr>) t"
  by (auto simp: settling_def active_def)

lemma complete_inv:
  assumes "inbox_inv (c, t)" "c \<le> now"
  shows "inbox_inv (now, fst (complete_inbound_event now k t))"
  using same_inv [OF assms] settling_inv [OF assms closing_settling(1)] settling_inv [OF assms closing_settling(2)]
  by (simp add: complete_inbound_event_def Let_def split: option.split)

lemma ignore_inv:
  assumes "inbox_inv (c, t)" "c \<le> now"
  shows "inbox_inv (now, fst (ignore_inbound_event now k r t))"
  using same_inv [OF assms] settling_inv [OF assms closing_settling(1)] settling_inv [OF assms closing_settling(2)]
  by (simp add: ignore_inbound_event_def Let_def split: option.split)

lemma requeue_inv:
  assumes "inbox_inv (c, t)" "c \<le> now"
  shows "inbox_inv (now, fst (requeue_inbound_event now k e t))"
  using same_inv [OF assms] settling_inv [OF assms reopening_settling(1)] settling_inv [OF assms reopening_settling(2)]
    settling_inv [OF assms reopening_settling(3)] settling_inv [OF assms reopening_settling(4)]
  by (simp add: requeue_inbound_event_def Let_def split: option.split)

lemma requeue_dead_inv:
  assumes "inbox_inv (c, t)" "c \<le> now"
  shows "inbox_inv (now, fst (requeue_dead_letter_event now k t))"
  using same_inv [OF assms] settling_inv [OF assms reopening_settling(1)] settling_inv [OF assms reopening_settling(2)]
    settling_inv [OF assms reopening_settling(3)] settling_inv [OF assms reopening_settling(4)]
  by (simp add: requeue_dead_letter_event_def Let_def split: option.split)

lemma discard_dead_inv:
  assumes "inbox_inv (c, t)" "c \<le> now"
  shows "inbox_inv (now, fst (discard_dead_letter_event now k r t))"
  using same_inv [OF assms] settling_inv [OF assms closing_settling(1)] settling_inv [OF assms closing_settling(2)]
  by (simp add: discard_dead_letter_event_def Let_def split: option.split)

lemma recover_inv:
  assumes "inbox_inv (c, t)" "c \<le> now"
  shows "inbox_inv (now, recover_inbound t)"
  using same_inv [OF assms] settling_inv [OF assms reopening_settling(1)] settling_inv [OF assms reopening_settling(2)]
    settling_inv [OF assms reopening_settling(3)] settling_inv [OF assms reopening_settling(4)]
  by (simp add: recover_inbound_def)

lemma record_inv:
  assumes "inbox_inv (c, t)" "c \<le> now"
  shows "inbox_inv (now, fst (record_inbound_event h now k ch p t))"
proof -
  have t1: "inbox_inv (c, expire_inbound now t)"
    using assms(1) by (simp add: expire_inbound_def delete_inv)
  from same_inv [OF t1 assms(2)] same_inv [OF assms] show ?thesis
    unfolding record_inbound_event_def Let_def
    by (auto split: sum.splits option.splits intro!: insert_inv [OF t1 assms(2)]
        simp: not_le not_less chat_active_def [abs_def])
qed

lemma inbound_apply_inv: "inbox_inv (c, t) \<Longrightarrow> c \<le> now \<Longrightarrow> inbox_inv (now, inbound_apply h now x t)"
  by (cases x) (auto intro: record_inv claim_inv complete_inv ignore_inv requeue_inv
      requeue_dead_inv discard_dead_inv recover_inv)

interpretation inbox: transition_system inbound_init "inbound_step h" inbox_inv for h
proof
  fix s :: "time \<times> inbox"
  assume "inbound_init s"
  then show "inbox_inv s"
    by (cases s) (auto simp: inbound_init_def inbox_inv_def unique_key_def fifo_def within_capacity_def)
next
  fix s s' :: "time \<times> inbox"
  assume "inbox_inv s" "inbound_step h s s'"
  then show "inbox_inv s'"
    by (auto elim!: inbound_stepE intro: inbound_apply_inv)
qed

end
