(* ===== verification/Inbound_Correctness.thy ===== *)
theory Inbound_Correctness
  imports Inbound_Invariants
begin

text \<open>
  What the inbound queue guarantees to its clients (the message loop of \<^verbatim>\<open>worker/main.py\<close> and the
  operator scripts), stated over the operations and over every reachable state.
\<close>

section \<open>Helper facts\<close>



lemma set_by_arrival [simp]: "set (by_arrival t) = set t"
  by (simp add: by_arrival_def)

lemma length_by_arrival [simp]: "length (by_arrival t) = length t"
  by (simp add: by_arrival_def)

definition ready :: "time \<Rightarrow> inbox \<Rightarrow> inbound_row \<Rightarrow> bool" where
  "ready now t c \<longleftrightarrow> ie_status c = Pending \<and> ie_next c \<le> now \<and>
     (\<forall>e \<in> set t. ie_chat e = ie_chat c \<and> active e \<longrightarrow> \<not> before e c)"

lemma pending_ready_def:
  "pending_inbound_events now True t =
     map event_of (take MAX_PENDING_SCAN (by_arrival (filter (ready now t) t)))"
  by (auto simp: pending_inbound_events_def ready_def active_def before_def
      intro!: arg_cong [where f = "\<lambda>x. map event_of (take MAX_PENDING_SCAN (by_arrival x))"]
        filter_cong)

lemma count_key_status:
  assumes "unique_key ie_key t" "inbound_by k t = Some row" "ie_status row = s"
  shows "sql_count (\<lambda>r. ie_key r = k \<and> ie_status r = s) t = 1"
  using count_key_le [OF assms(1), of k "\<lambda>r. ie_status r = s"] find_SomeD [OF assms(2)] assms(3) by auto

lemma claim_by_ready:
  assumes "unique_key ie_key t" "inbound_by k t = Some row"
  shows "snd (claim_inbound_event now k t) =
    Inr (if ready now t row then Some ((event_of row)\<lparr>ev_status := Processing\<rparr>) else None)"
proof (cases "ready now t row")
  case True
  then have "find (\<lambda>e. ie_chat e = ie_chat row \<and> active e \<and> before e row) t = None"
    by (auto simp: ready_def find_None_iff)
  with True assms(2) count_key_status [OF assms, of Pending] show ?thesis
    by (simp add: claim_inbound_event_def ready_def)
next
  case False
  show ?thesis
  proof (cases "ie_status row \<noteq> Pending \<or> ie_next row > now")
    case True
    with False assms(2) show ?thesis by (simp add: claim_inbound_event_def)
  next
    case pending: False
    with False have "find (\<lambda>e. ie_chat e = ie_chat row \<and> active e \<and> before e row) t \<noteq> None"
      by (auto simp: ready_def find_None_iff)
    with False pending assms(2) show ?thesis by (simp add: claim_inbound_event_def)
  qed
qed

lemma py_strip_clean_error [simp]: "py_strip (clean_error e) = clean_error e"
  by (rule py_strip_plain) (rule clean_error_plain)

text \<open>A concrete queue used by the witnesses.\<close>

definition demo_row :: inbound_row where
  "demo_row = \<lparr>ie_rowid = 1, ie_key = ''k1'', ie_chat = ''chat'', ie_payload = ''{}'',
     ie_hash = ''{}'', ie_status = Pending, ie_attempts = 0, ie_next = 0, ie_error = None,
     ie_created = 10, ie_updated = 10, ie_completed = None\<rparr>"

definition demo_row2 :: inbound_row where
  "demo_row2 = demo_row\<lparr>ie_status := Processing, ie_attempts := 1, ie_updated := 12\<rparr>"

lemma demo_lengths: "py_len ''k1'' = 2" "py_len ''chat'' = 4"
  by code_simp+

lemma demo_record:
  "record_inbound_event (\<lambda>x. x) 10 ''k1'' ''chat'' (PDict []) [] = ([demo_row], Inr (event_of demo_row))"
  by (simp add: record_inbound_event_def encode_inbound_payload_def commas_option_def demo_lengths
      store_limits Let_def expire_inbound_def demo_row_def active_bytes_def next_rowid_def)

lemma demo_claim: "fst (claim_inbound_event 12 ''k1'' [demo_row]) = [demo_row2]"
  by (simp add: claim_inbound_event_def demo_row_def demo_row2_def before_def Let_def)

lemma demo_run: "(inbound_step (\<lambda>x. x))\<^sup>*\<^sup>* (0, []) (12, [demo_row2])"
proof -
  have "inbound_step (\<lambda>x. x) (0, []) (10, [demo_row])"
    using inbound_step.op [of 0 10 "\<lambda>x. x" "[]" "OpRecord ''k1'' ''chat'' (PDict [])"]
    by (simp add: demo_record)
  moreover have "inbound_step (\<lambda>x. x) (10, [demo_row]) (12, [demo_row2])"
    using inbound_step.op [of 10 12 "\<lambda>x. x" "[demo_row]" "OpClaim ''k1''"]
    by (simp add: demo_claim)
  ultimately show ?thesis by (blast intro: converse_rtranclp_into_rtranclp)
qed

section \<open>Properties\<close>



text \<open>
  In every reachable state the open events (pending, processing or dead-lettered) are at most
  2048, hold at most 64 MiB of payload, and are at most 256 for any one chat.
\<close>

theorem inbound_capacity:
  assumes "inbound_init s" "(inbound_step h)\<^sup>*\<^sup>* s (c, t)"
  shows "sql_count active t \<le> 2048 \<and> active_bytes t \<le> 67108864 \<and>
         sql_count (\<lambda>r. ie_chat r = chat \<and> active r) t \<le> 256"
proof -
  from assms have "within_capacity t" using inbox.inv_reachable by (fastforce simp: inbox_inv_def)
  then have "sql_count (chat_active chat) t \<le> 256" "sql_count active t \<le> 2048"
    "active_bytes t \<le> 67108864"
    by (simp_all add: within_capacity_def store_limits)
  then show ?thesis by (simp add: chat_active_def [abs_def])
qed

theorem inbound_capacity_witness:
  "inbound_init (0, []) \<and> (inbound_step (\<lambda>x. x))\<^sup>*\<^sup>* (0, []) (12, [demo_row2]) \<and>
   sql_count active [demo_row2] = 1 \<and> sql_count active [demo_row2] \<le> 2048"
proof -
  have init: "inbound_init (0, [])" by (simp add: inbound_init_def)
  show ?thesis
    using init demo_run inbound_capacity [OF init demo_run]
    by (simp add: demo_row2_def demo_row_def active_def)
qed

text \<open>
  The scheduler's query and the claim agree.  On a table with unique keys, every event that
  \<^verbatim>\<open>pending_inbound_events(ready_only=True)\<close> lists is granted by \<^verbatim>\<open>claim_inbound_event\<close> at the
  same instant, and, while the table holds no more rows than one scan reads, every event whose
  claim would be granted is listed.
\<close>

theorem ready_listing_agrees_with_claim:
  assumes "unique_key ie_key t"
  shows "(k \<in> ev_key ` set (pending_inbound_events now True t) \<longrightarrow>
            (\<exists>e. snd (claim_inbound_event now k t) = Inr (Some e))) \<and>
         (length t \<le> MAX_PENDING_SCAN \<and> (\<exists>e. snd (claim_inbound_event now k t) = Inr (Some e)) \<longrightarrow>
            k \<in> ev_key ` set (pending_inbound_events now True t))"
proof (intro conjI impI)
  assume "k \<in> ev_key ` set (pending_inbound_events now True t)"
  then obtain row where row: "row \<in> set t" "ready now t row" "ie_key row = k"
    by (auto simp: pending_ready_def event_of_def dest!: in_set_takeD)
  then have "inbound_by k t = Some row" using inbound.find_iff [OF assms] by simp
  with row show "\<exists>e. snd (claim_inbound_event now k t) = Inr (Some e)"
    by (simp add: claim_by_ready [OF assms])
next
  assume h: "length t \<le> MAX_PENDING_SCAN \<and> (\<exists>e. snd (claim_inbound_event now k t) = Inr (Some e))"
  then obtain row where row: "inbound_by k t = Some row"
    by (cases "inbound_by k t") (auto simp: claim_inbound_event_def)
  with h have "ready now t row" by (auto simp: claim_by_ready [OF assms] split: if_splits)
  moreover have "length (filter (ready now t) t) \<le> MAX_PENDING_SCAN"
    using h length_filter_le [of "ready now t" t] by linarith
  ultimately have "event_of row \<in> set (pending_inbound_events now True t)"
    using row by (auto simp: pending_ready_def dest: find_SomeD)
  moreover have "ev_key (event_of row) = k"
    using row by (auto simp: event_of_def dest: find_SomeD)
  ultimately show "k \<in> ev_key ` set (pending_inbound_events now True t)" by force
qed

theorem ready_listing_agrees_with_claim_witness:
  "unique_key ie_key [demo_row] \<and> ''k1'' \<in> ev_key ` set (pending_inbound_events 12 True [demo_row]) \<and>
   (\<exists>e. snd (claim_inbound_event 12 ''k1'' [demo_row]) = Inr (Some e))"
proof -
  have u: "unique_key ie_key [demo_row]" by (simp add: unique_key_def)
  have "''k1'' \<in> ev_key ` set (pending_inbound_events 12 True [demo_row])"
    by (simp add: pending_inbound_events_def by_arrival_def order_by_def demo_row_def event_of_def
        store_limits)
  with u ready_listing_agrees_with_claim [OF u, of "''k1''" 12] show ?thesis by blast
qed

text \<open>
  Recording is idempotent and never overwrites.  Replaying the arguments of a successful
  \<^verbatim>\<open>record_inbound_event\<close>, while its row has not been removed by the retention sweep, inserts
  nothing and returns the same event; recording any other chat or payload under a key already in
  the table changes no row either.
\<close>

theorem record_inbound_idempotent:
  assumes "record_inbound_event h now k c p t = (t', Inr e)"
    and "inbound_by k (expire_inbound now' t') \<noteq> None" and "unique_key ie_key t"
  shows "record_inbound_event h now' k c p t' = (expire_inbound now' t', Inr e) \<and>
         fst (record_inbound_event h now' k c2 p2 t') \<in> {t', expire_inbound now' t'}"
proof -
  from assms(2) obtain r where r: "inbound_by k (expire_inbound now' t') = Some r" by blast
  have del: "unique_key ie_key (expire_inbound now t)"
    using assms(3) by (simp add: expire_inbound_def inbound.unique_delete)
  have ins: "unique_key ie_key (expire_inbound now t @ [new])"
    if "ie_key new = k" "inbound_by k (expire_inbound now t) = None" for new
    using that inbound.unique_insert [OF del] by simp
  obtain encoded where enc: "encode_inbound_payload p = Inr encoded"
    using assms(1) by (auto simp: record_inbound_event_def split: if_splits sum.splits)
  have "unique_key ie_key t' \<and> (\<exists>row \<in> set t'. ie_key row = k \<and> event_of row = e \<and>
      ie_chat row = c \<and> ie_hash row = h encoded)"
    using assms(1) del ins enc
    by (auto simp: record_inbound_event_def Let_def dest!: find_SomeD
        split: if_splits option.splits)
  then obtain row where row: "row \<in> set t'" "ie_key row = k" "event_of row = e" "ie_chat row = c"
      "ie_hash row = h encoded" and u: "unique_key ie_key t'"
    by blast
  have "r \<in> set t'" "ie_key r = k"
    using find_SomeD [OF r] by (auto simp: expire_inbound_def in_sql_delete)
  with row u have "r = row" using inbound.same_row by metis
  have ok: "k \<noteq> [] \<and> py_len k \<le> MAX_INBOUND_EVENT_KEY_LENGTH" "c \<noteq> [] \<and> py_len c \<le> MAX_CHAT_ID_LENGTH"
    using assms(1) by (auto simp: record_inbound_event_def split: if_splits)
  with r row enc \<open>r = row\<close> show ?thesis
    by (auto simp: record_inbound_event_def Let_def split: sum.split)
qed

theorem record_inbound_idempotent_witness:
  "record_inbound_event (\<lambda>x. x) 11 ''k1'' ''chat'' (PDict []) [demo_row] =
     ([demo_row], Inr (event_of demo_row))"
proof -
  have e: "expire_inbound 11 [demo_row] = [demo_row]"
    by (simp add: expire_inbound_def demo_row_def)
  have f: "inbound_by ''k1'' (expire_inbound 11 [demo_row]) \<noteq> None"
    unfolding e by (simp add: demo_row_def)
  have u: "unique_key ie_key []" by (simp add: unique_key_def)
  show ?thesis using record_inbound_idempotent [OF demo_record f u] e by simp
qed

text \<open>
  Retry policy of \<^verbatim>\<open>requeue_inbound_event\<close> for an event in processing: at the fifth or a later
  attempt the event is dead-lettered with its error recorded and its payload kept; before that it
  returns to pending and becomes claimable again exactly 5, 10, 20 or 40 seconds later, the error is
  recorded, and no other event is touched.
\<close>

theorem requeue_policy:
  assumes "unique_key ie_key t" "inbound_by k t = Some row" "ie_status row = Processing"
    "ie_attempts row \<ge> 1"
  shows "(ie_attempts row \<ge> 5 \<longrightarrow>
           requeue_inbound_event now k err t =
             (sql_update (\<lambda>r. ie_key r = k) (\<lambda>r. r\<lparr>ie_status := DeadLetter,
                ie_error := Some (clean_error err), ie_updated := now, ie_completed := Some now\<rparr>) t,
              Inr DeadLetter)) \<and>
         (ie_attempts row < 5 \<longrightarrow>
           requeue_inbound_event now k err t =
             (sql_update (\<lambda>r. ie_key r = k) (\<lambda>r. r\<lparr>ie_status := Pending,
                ie_error := Some (clean_error err),
                ie_next := now + 5 * 2 ^ (ie_attempts row - 1), ie_updated := now\<rparr>) t,
              Inr Pending))"
proof -
  have "(ie_key r = k \<and> ie_status r = Processing) = (ie_key r = k)" if "r \<in> set t" for r
    using inbound.same_row [OF assms(1) that, of row] find_SomeD [OF assms(2)] assms(3) by auto
  then have same: "sql_update (\<lambda>r. ie_key r = k \<and> ie_status r = Processing) f t =
      sql_update (\<lambda>r. ie_key r = k) f t" for f
    by (auto simp: sql_update_def)
  have "requeue_delay (ie_attempts row) = 5 * 2 ^ (ie_attempts row - 1)"
    if "ie_attempts row < 5"
  proof -
    from that assms(4) consider "ie_attempts row = 1" | "ie_attempts row = 2" | "ie_attempts row = 3"
      | "ie_attempts row = 4" by linarith
    then show ?thesis by cases (simp_all add: requeue_delay_def store_limits)
  qed
  with assms(2,3) same count_key_status [OF assms(1-3)] show ?thesis
    by (simp add: requeue_inbound_event_def Let_def store_limits)
qed

theorem requeue_policy_witness:
  "requeue_inbound_event 20 ''k1'' ''TimeoutError'' [demo_row2] =
     ([demo_row2\<lparr>ie_status := Pending, ie_error := Some (clean_error ''TimeoutError''),
        ie_next := 25, ie_updated := 20\<rparr>], Inr Pending)"
proof -
  have h: "unique_key ie_key [demo_row2]" "inbound_by ''k1'' [demo_row2] = Some demo_row2"
    "ie_status demo_row2 = Processing" "ie_attempts demo_row2 \<ge> 1"
    by (simp_all add: unique_key_def demo_row2_def demo_row_def)
  show ?thesis
    using requeue_policy [OF h, of 20 "''TimeoutError''"]
    by (simp add: demo_row2_def demo_row_def)
qed

text \<open>
  The guard "reason is required" of \<^verbatim>\<open>ignore_inbound_event\<close> and of
  \<^verbatim>\<open>discard_dead_letter_event\<close> can never fire: \<^verbatim>\<open>_clean_error\<close> turns every string, the empty one
  included, into a non-empty storable name, so an event in processing is ignored and a dead letter
  discarded whatever reason, even none, the caller gives.
\<close>

theorem reason_guard_unreachable:
  "(\<exists>v. snd (discard_dead_letter_event now k reason t) = Inr v) \<and>
   snd (ignore_inbound_event now k reason t)
     \<noteq> Inl (ValueError ''ignored inbound event reason is required'') \<and>
   clean_error [] = ''stored_error''"
proof -
  have "clean_error [] = ''stored_error''" by code_simp
  then show ?thesis
    by (auto simp: discard_dead_letter_event_def ignore_inbound_event_def Let_def
        split: option.splits if_splits)
qed

end
