(* ===== verification/Order_Store.thy ===== *)
theory Order_Store
  imports Store_Common
begin

text \<open>
  The order side of \<^verbatim>\<open>worker/delivery_store.py\<close>: the card inventory, the payment events with their
  delivery state, and the manual reviews (tables \<^verbatim>\<open>inventory\<close>, \<^verbatim>\<open>delivery_events\<close> and
  \<^verbatim>\<open>manual_reviews\<close>).  Every public method is one definition over \<open>order_db\<close>; the clock
  \<^verbatim>\<open>self.now_fn()\<close> is the argument \<open>now\<close>.  The text column \<^verbatim>\<open>inventory_ids\<close> is held as the value
  \<^verbatim>\<open>json.loads\<close> gives for it, \<open>None\<close> for a text it rejects.
\<close>

section \<open>State\<close>

datatype inv_status = InvAvailable | InvReserved | InvDelivered | InvQuarantined | InvLegacyUsed

datatype order_status =
    AwaitingBinding | Verified | Reserved | Retry | Sending
  | Delivered | ManualReview | Cancelled | Expired

datatype review_status = ReviewOpen | ReviewResolved

record inv_row =
  iv_id :: int
  iv_kind :: string
  iv_secret :: string
  iv_status :: inv_status
  iv_resv :: "string option"
  iv_buyer :: "string option"
  iv_created :: time
  iv_updated :: time

record order_row =
  od_key :: string
  od_platform_id :: "string option"
  od_chat :: string
  od_buyer :: "string option"
  od_item :: "string option"
  od_type :: "string option"
  od_payload :: "string option"
  od_quantity :: int
  od_status :: order_status
  od_inventory :: "pyval option"
  od_event_at :: time
  od_expires_at :: time
  od_error :: "string option"
  od_created :: time
  od_updated :: time
  od_send_started :: "time option"
  od_delivered :: "time option"
  od_verified :: "time option"
  od_platform_status :: "string option"
  od_paid :: "string option"
  od_shipped :: "time option"
  od_ship_attempts :: nat

record review_row =
  rv_key :: string
  rv_status :: review_status
  rv_reason :: string
  rv_resolution :: "string option"
  rv_created :: time
  rv_updated :: time
  rv_resolved :: "time option"

record order_db =
  inventory :: "inv_row list"
  inv_seq :: int
  orders :: "order_row list"
  reviews :: "review_row list"

record delivery_reservation =
  dr_key :: string
  dr_status :: order_status
  dr_type :: string
  dr_chat :: string
  dr_buyer :: string
  dr_item :: string
  dr_resources :: "string list"
  dr_quantity :: int
  dr_payload :: "string option"
  dr_reason :: "string option"
  dr_platform_id :: "string option"
  dr_verified :: "time option"
  dr_platform_status :: "string option"
  dr_paid :: "string option"

record payment_event =
  pe_key :: string
  pe_chat :: string
  pe_status :: order_status
  pe_event_at :: time
  pe_expires_at :: time

record manual_review =
  mr_key :: string
  mr_chat :: string
  mr_reason :: string
  mr_event_at :: time
  mr_created :: time
  mr_updated :: time

definition empty_order_db :: order_db where
  "empty_order_db = \<lparr>inventory = [], inv_seq = 0, orders = [], reviews = []\<rparr>"

interpretation inv_ids: keyed_table iv_id .
interpretation order_keys: keyed_table od_key .
interpretation review_keys: keyed_table rv_key .

abbreviation order_by_key :: "string \<Rightarrow> order_db \<Rightarrow> order_row option" where
  "order_by_key k db \<equiv> find (\<lambda>ow. od_key ow = k) (orders db)"

section \<open>Helpers\<close>

definition decode_ids :: "pyval option \<Rightarrow> int list result" where
  "decode_ids payload =
     (case payload of
        None \<Rightarrow> Inl (DeliveryStoreError ''delivery inventory state is corrupt'')
      | Some (PList vs) \<Rightarrow>
          if list_all (\<lambda>v. as_int v \<noteq> None) vs then Inr (map (the \<circ> as_int) vs)
          else Inl (DeliveryStoreError ''delivery inventory state is invalid'')
      | Some _ \<Rightarrow> Inl (DeliveryStoreError ''delivery inventory state is invalid''))"

definition encode_ids :: "int list \<Rightarrow> pyval option" where
  "encode_ids ids = Some (PList (map PInt ids))"

definition held_by :: "string \<Rightarrow> inv_row \<Rightarrow> bool" where
  \<comment> \<open>\<^verbatim>\<open>status = 'reserved' AND reservation_key = ?\<close>\<close>
  "held_by k r \<longleftrightarrow> iv_status r = InvReserved \<and> iv_resv r = Some k"

definition quarantine_ids :: "time \<Rightarrow> string \<Rightarrow> int list \<Rightarrow> inv_row list \<Rightarrow> inv_row list" where
  "quarantine_ids now k ids cards =
     fold (\<lambda>i. sql_update (\<lambda>r. iv_id r = i \<and> held_by k r)
        (\<lambda>r. r\<lparr>iv_status := InvQuarantined, iv_updated := now\<rparr>)) ids cards"

definition release_ids :: "time \<Rightarrow> string \<Rightarrow> int list \<Rightarrow> inv_row list \<Rightarrow> inv_row list" where
  "release_ids now k ids cards =
     fold (\<lambda>i. sql_update (\<lambda>r. iv_id r = i \<and> held_by k r)
        (\<lambda>r. r\<lparr>iv_status := InvAvailable, iv_resv := None, iv_buyer := None, iv_updated := now\<rparr>))
       ids cards"

definition upsert_manual_review :: "string \<Rightarrow> string \<Rightarrow> time \<Rightarrow> review_row list \<Rightarrow> review_row list" where
  "upsert_manual_review k reason now rvs =
     (if find (\<lambda>v. rv_key v = k) rvs = None
      then rvs @ [\<lparr>rv_key = k, rv_status = ReviewOpen, rv_reason = reason, rv_resolution = None,
                   rv_created = now, rv_updated = now, rv_resolved = None\<rparr>]
      else sql_update (\<lambda>v. rv_key v = k \<and> rv_status v = ReviewOpen)
             (\<lambda>v. v\<lparr>rv_reason := reason, rv_updated := now\<rparr>) rvs)"

definition reservation_from_row :: "order_db \<Rightarrow> order_row \<Rightarrow> delivery_reservation result" where
  "reservation_from_row db row =
     (case decode_ids (od_inventory row) of
        Inl e \<Rightarrow> Inl e
      | Inr ids \<Rightarrow> Inr \<lparr>dr_key = od_key row, dr_status = od_status row,
          dr_type = (case od_type row of None \<Rightarrow> [] | Some x \<Rightarrow> x), dr_chat = od_chat row,
          dr_buyer = (case od_buyer row of None \<Rightarrow> [] | Some x \<Rightarrow> x),
          dr_item = (case od_item row of None \<Rightarrow> [] | Some x \<Rightarrow> x),
          dr_resources = map iv_secret (order_by iv_id (filter (\<lambda>r. iv_id r \<in> set ids) (inventory db))),
          dr_quantity = od_quantity row, dr_payload = od_payload row, dr_reason = od_error row,
          dr_platform_id = od_platform_id row, dr_verified = od_verified row,
          dr_platform_status = od_platform_status row, dr_paid = od_paid row\<rparr>)"

definition payment_of :: "order_row \<Rightarrow> payment_event" where
  "payment_of ow = \<lparr>pe_key = od_key ow, pe_chat = od_chat ow, pe_status = od_status ow,
                   pe_event_at = od_event_at ow, pe_expires_at = od_expires_at ow\<rparr>"

section \<open>Inventory import\<close>

fun parse_inventory ::
  "string \<Rightarrow> string list \<Rightarrow> pyval list \<Rightarrow> (string \<times> inv_status) list result"
where
  "parse_inventory name seen [] = Inr []"
| "parse_inventory name seen (item # items) =
     (case item of
        PDict d \<Rightarrow>
          (case as_str (dict_get d ''code'') of
             None \<Rightarrow> Inl (DeliveryStoreError (''inventory item is invalid: '' @ name))
           | Some code \<Rightarrow>
               if py_strip code = []
               then Inl (DeliveryStoreError (''inventory item is invalid: '' @ name))
               else if ''used'' \<in> fst ` set d \<and> (\<forall>b. dict_get d ''used'' \<noteq> PBool b)
               then Inl (DeliveryStoreError (''inventory used flag is invalid: '' @ name))
               else if py_strip code \<in> set seen
               then Inl (DeliveryStoreError (''inventory contains duplicate entries: '' @ name))
               else (case parse_inventory name (py_strip code # seen) items of
                       Inl e \<Rightarrow> Inl e
                     | Inr rest \<Rightarrow>
                         Inr ((py_strip code,
                               if dict_get d ''used'' = PBool True then InvLegacyUsed
                               else InvAvailable) # rest)))
      | _ \<Rightarrow> Inl (DeliveryStoreError (''inventory item is invalid: '' @ name)))"

text \<open>
  The two loops of the import run over the snapshot \<open>existing\<close>, taken before the first write, and
  collect the ids whose cards were revoked, with the reason.
\<close>

type_synonym import_state = "inv_row list \<times> int \<times> (int \<times> string) list"

definition import_row ::
  "string \<Rightarrow> time \<Rightarrow> inv_row list \<Rightarrow> string \<times> inv_status \<Rightarrow> import_state \<Rightarrow> import_state"
where
  "import_row kind now existing = (\<lambda>(secret, st) (cards, seq, revoked).
     case find (\<lambda>r. iv_kind r = kind \<and> iv_secret r = secret) existing of
       None \<Rightarrow> (cards @ [\<lparr>iv_id = seq + 1, iv_kind = kind, iv_secret = secret, iv_status = st,
                        iv_resv = None, iv_buyer = None, iv_created = now, iv_updated = now\<rparr>],
                seq + 1, revoked)
     | Some cur \<Rightarrow>
         if st = InvLegacyUsed \<and> iv_status cur \<in> {InvAvailable, InvReserved}
         then (sql_update (\<lambda>r. iv_id r = iv_id cur)
                 (\<lambda>r. r\<lparr>iv_status := (if iv_status cur = InvAvailable then InvLegacyUsed
                                      else InvQuarantined), iv_updated := now\<rparr>) cards,
               seq, revoked @ [(iv_id cur, ''inventory_marked_used'')])
         else (cards, seq, revoked))"

definition revoke_missing ::
  "string \<Rightarrow> time \<Rightarrow> string list \<Rightarrow> inv_row \<Rightarrow> import_state \<Rightarrow> import_state"
where
  "revoke_missing kind now incoming = (\<lambda>cur (cards, seq, revoked).
     if iv_kind cur \<noteq> kind \<or> iv_secret cur \<in> set incoming \<or>
        iv_status cur \<notin> {InvAvailable, InvReserved}
     then (cards, seq, revoked)
     else (sql_update (\<lambda>r. iv_id r = iv_id cur)
             (\<lambda>r. r\<lparr>iv_status := InvQuarantined, iv_updated := now\<rparr>) cards,
           seq, revoked @ [(iv_id cur, ''inventory_removed_from_manifest'')]))"

definition in_flight :: "order_row \<Rightarrow> bool" where
  "in_flight ow \<longleftrightarrow> od_status ow \<in> {Reserved, Retry, Sending}"

fun quarantine_claims ::
  "(int \<times> string) list \<Rightarrow> time \<Rightarrow> order_row list \<Rightarrow> order_db \<Rightarrow> order_db result"
where
  "quarantine_claims reasons now [] db = Inr db"
| "quarantine_claims reasons now (row # rows) db =
     (case decode_ids (od_inventory row) of
        Inl e \<Rightarrow> Inl e
      | Inr ids \<Rightarrow>
          (case filter (\<lambda>i. i \<in> fst ` set reasons) ids of
             [] \<Rightarrow> quarantine_claims reasons now rows db
           | affected # _ \<Rightarrow>
               (let reason = the (map_of (rev reasons) affected) in
                quarantine_claims reasons now rows
                  (db\<lparr>orders := sql_update (\<lambda>ow. od_key ow = od_key row \<and> in_flight ow)
                        (\<lambda>ow. ow\<lparr>od_status := ManualReview, od_error := Some reason,
                               od_send_started := None, od_updated := now\<rparr>) (orders db),
                      inventory := quarantine_ids now (od_key row) ids (inventory db),
                      reviews := upsert_manual_review (od_key row) reason now (reviews db)\<rparr>))))"

definition quarantine_delivery_claims ::
  "(int \<times> string) list \<Rightarrow> time \<Rightarrow> order_db \<Rightarrow> order_db result"
where
  "quarantine_delivery_claims reasons now db =
     (if reasons = [] then Inr db
      else quarantine_claims reasons now
        (filter (\<lambda>ow. od_type ow = Some ''redeem'' \<and> in_flight ow) (orders db)) db)"

text \<open>
  A state file as \<^verbatim>\<open>_load_json\<close> finds it: missing, or with its kind (regular or not), its size and what
  reading it gives.  A decoding error of the text is neither an \<^verbatim>\<open>OSError\<close> nor a \<^verbatim>\<open>JSONDecodeError\<close>.
\<close>

datatype file_content = Unreadable | NotUtf8 | Json pyval
datatype state_file = NoFile | File bool nat file_content

definition load_json :: "string \<Rightarrow> state_file \<Rightarrow> pyval option result" where
  "load_json name f =
     (let invalid = Inl (DeliveryStoreError (''invalid state file: '' @ name)) in
      case f of
        NoFile \<Rightarrow> Inr None
      | File regular bytes content \<Rightarrow>
          if \<not> regular \<or> bytes > 16 * 1024 * 1024 then invalid
          else (case content of
                  Unreadable \<Rightarrow> invalid
                | NotUtf8 \<Rightarrow> Inl (UnicodeDecodeError name)
                | Json v \<Rightarrow> Inr (Some v)))"

definition import_inventory ::
  "time \<Rightarrow> string \<Rightarrow> state_file \<Rightarrow> string \<Rightarrow> order_db \<Rightarrow> (order_db, nat) outcome"
where
  "import_inventory now name file kind db =
     (if kind \<noteq> ''redeem'' then (db, Inl (ValueError ''unsupported inventory kind''))
      else case load_json name file of
        Inl e \<Rightarrow> (db, Inl e)
      | Inr None \<Rightarrow> (db, Inl (DeliveryStoreError (''required inventory file is missing: '' @ name)))
      | Inr (Some (PList items)) \<Rightarrow>
          (case parse_inventory name [] items of
             Inl e \<Rightarrow> (db, Inl e)
           | Inr rows \<Rightarrow>
               (let existing = filter (\<lambda>r. iv_kind r = kind) (inventory db);
                    s1 = fold (import_row kind now existing) rows (inventory db, inv_seq db, []);
                    (cards, seq, revoked) = fold (revoke_missing kind now (map fst rows)) existing s1
                in case quarantine_delivery_claims revoked now
                          (db\<lparr>inventory := cards, inv_seq := seq\<rparr>) of
                     Inl e \<Rightarrow> (db, Inl e)
                   | Inr db' \<Rightarrow> (db', Inr (length rows))))
      | Inr (Some _) \<Rightarrow> (db, Inl (DeliveryStoreError (''inventory file must contain a list: '' @ name))))"

definition inventory_counts :: "order_db \<Rightarrow> string \<Rightarrow> inv_status \<Rightarrow> nat" where
  "inventory_counts db kind st = sql_count (\<lambda>r. iv_kind r = kind \<and> iv_status r = st) (inventory db)"

end
