(* ===== verification/Order_Lifecycle.thy ===== *)
theory Order_Lifecycle
  imports Order_Store
begin

text \<open>
  The life of an order in \<^verbatim>\<open>worker/delivery_store.py\<close>: a payment notice is recorded, verified
  against the platform, given cards, claimed by one sender, delivered or returned for retry, moved to
  manual review, cancelled, quarantined or revived.
\<close>

section \<open>Payment events\<close>

definition record_payment_event ::
  "time \<Rightarrow> string \<Rightarrow> string \<Rightarrow> float_arg \<Rightarrow> time \<Rightarrow> order_db \<Rightarrow> (order_db, payment_event) outcome"
where
  "record_payment_event now order_key chat_id event_at ttl_seconds db =
     (if order_key = [] \<or> chat_id = []
      then (db, Inl (ValueError ''payment event requires a key and chat ID''))
      else if ttl_seconds \<le> 0 then (db, Inl (ValueError ''payment event TTL must be positive''))
      else case event_at of
        NotAFloat \<Rightarrow> (db, Inl (ValueError ''payment event timestamp is invalid''))
      | NotFinite \<Rightarrow> (db, Inl (ValueError ''payment event timestamp is invalid''))
      | Finite moment \<Rightarrow>
          if moment < 0 \<or> moment > now + 86400 \<or> now - moment > 10 * 365 * 86400
          then (db, Inl (ValueError ''payment event timestamp is outside the accepted range''))
          else
            (let expires_at = min (now + ttl_seconds) (moment + ttl_seconds);
                 new = \<lparr>od_key = order_key, od_platform_id = None, od_chat = chat_id,
                        od_buyer = None, od_item = None, od_type = None, od_payload = None,
                        od_quantity = 1,
                        od_status = (if expires_at \<ge> now then AwaitingBinding else Expired),
                        od_inventory = encode_ids [], od_event_at = moment, od_expires_at = expires_at,
                        od_error = None, od_created = now, od_updated = now,
                        od_send_started = None, od_delivered = None, od_verified = None,
                        od_platform_status = None, od_paid = None, od_shipped = None,
                        od_ship_attempts = 0\<rparr>
             in case order_by_key order_key db of
                  None \<Rightarrow> (db\<lparr>orders := orders db @ [new]\<rparr>, Inr (payment_of new))
                | Some row \<Rightarrow>
                    if od_chat row \<noteq> chat_id
                    then (db, Inl (DeliveryStoreError ''payment event key collision''))
                    else (db, Inr (payment_of row))))"

definition bind_platform_proof ::
  "time \<Rightarrow> string \<Rightarrow> string \<Rightarrow> string \<Rightarrow> string \<Rightarrow> string \<Rightarrow> int \<Rightarrow> order_db \<Rightarrow>
   (order_db, payment_event) outcome"
where
  \<comment> \<open>The second transaction of \<^verbatim>\<open>record_verified_payment_event\<close>\<close>
  "bind_platform_proof now order_key chat_id platform_order_id platform_status paid_amount quantity db =
     (case order_by_key order_key db of
        None \<Rightarrow> (db, Inl (DeliveryStoreError ''payment event disappeared''))
      | Some row \<Rightarrow>
          if od_chat row \<noteq> chat_id
          then (db, Inl (DeliveryStoreError ''payment event chat mismatch''))
          else if od_platform_id row \<notin> {None, Some platform_order_id}
          then (db, Inl (DeliveryStoreError ''payment event order identity mismatch''))
          else if od_platform_status row \<notin> {None, Some platform_status}
          then (db, Inl (DeliveryStoreError ''payment event platform status mismatch''))
          else if od_paid row \<notin> {None, Some paid_amount}
          then (db, Inl (DeliveryStoreError ''payment event paid amount mismatch''))
          else if od_quantity row \<notin> {quantity, 1} \<and> od_status row \<noteq> AwaitingBinding
          then (db, Inl (DeliveryStoreError ''payment event quantity mismatch''))
          else if \<exists>ow \<in> set (orders db). od_key ow \<noteq> order_key \<and> od_platform_id ow = Some platform_order_id
          then (db, Inl (DeliveryStoreError ''platform order is already bound''))
          else
            (let f = (\<lambda>ow. ow\<lparr>od_platform_id := Some platform_order_id,
                   od_verified := (case od_verified ow of None \<Rightarrow> Some now | Some v \<Rightarrow> Some v),
                   od_platform_status := Some platform_status, od_paid := Some paid_amount,
                   od_quantity := quantity,
                   od_status := (if od_status row = AwaitingBinding then Verified else od_status row),
                   od_updated := now\<rparr>)
             in (db\<lparr>orders := sql_update (\<lambda>ow. od_key ow = order_key) f (orders db)\<rparr>,
                 Inr (payment_of (f row)))))"

definition record_verified_payment_event ::
  "time \<Rightarrow> time \<Rightarrow> string \<Rightarrow> string \<Rightarrow> float_arg \<Rightarrow> time \<Rightarrow> string \<Rightarrow> string \<Rightarrow> string \<Rightarrow> pyval \<Rightarrow>
   order_db \<Rightarrow> (order_db, payment_event) outcome"
where
  "record_verified_payment_event now1 now2 order_key chat_id event_at ttl_seconds
     platform_order_id platform_status paid_amount quantity db =
     (if py_len platform_order_id > 64 \<or> \<not> ascii_digits platform_order_id
      then (db, Inl (ValueError ''platform order ID is invalid''))
      else
        (let pstatus = py_strip platform_status; paid = py_strip paid_amount in
         case as_int quantity of
           None \<Rightarrow> (db, Inl (ValueError ''order quantity is invalid''))
         | Some q \<Rightarrow>
             if pstatus = [] \<or> py_len pstatus > 64
             then (db, Inl (ValueError ''platform order status is invalid''))
             else if paid = [] \<or> py_len paid > 64
             then (db, Inl (ValueError ''paid amount is invalid''))
             else (case record_payment_event now1 order_key chat_id event_at ttl_seconds db of
                     (db1, Inl e) \<Rightarrow> (db1, Inl e)
                   | (db1, Inr _) \<Rightarrow>
                       bind_platform_proof now2 order_key chat_id platform_order_id pstatus paid q db1)))"

definition expire_awaiting :: "time \<Rightarrow> order_db \<Rightarrow> order_db" where
  "expire_awaiting now db =
     db\<lparr>orders := sql_update (\<lambda>ow. od_status ow = AwaitingBinding \<and> od_expires_at ow < now)
          (\<lambda>ow. ow\<lparr>od_status := Expired, od_updated := now\<rparr>) (orders db)\<rparr>"

definition awaiting_events_for_chat :: "time \<Rightarrow> string \<Rightarrow> order_db \<Rightarrow> (order_db, payment_event list) outcome" where
  "awaiting_events_for_chat now chat_id db =
     (let db' = expire_awaiting now db in
      (db', Inr (map payment_of (order_by od_created
         (filter (\<lambda>ow. od_chat ow = chat_id \<and> od_status ow = AwaitingBinding \<and> od_expires_at ow \<ge> now)
           (orders db'))))))"

definition awaiting_events :: "time \<Rightarrow> order_db \<Rightarrow> (order_db, payment_event list) outcome" where
  "awaiting_events now db =
     (let db' = expire_awaiting now db in
      (db', Inr (map payment_of (order_by od_created
         (filter (\<lambda>ow. od_status ow = AwaitingBinding \<and> od_expires_at ow \<ge> now) (orders db'))))))"

section \<open>Manual review\<close>

definition mark_order_manual_review :: "time \<Rightarrow> string \<Rightarrow> string \<Rightarrow> order_db \<Rightarrow> (order_db, unit) outcome" where
  "mark_order_manual_review now order_key reason db =
     (let clean_reason = clean_error reason in
      case order_by_key order_key db of
        None \<Rightarrow> (db, Inr ())
      | Some row \<Rightarrow>
          if od_status row = Delivered then (db, Inr ())
          else (case decode_ids (od_inventory row) of
                  Inl e \<Rightarrow> (db, Inl e)
                | Inr ids \<Rightarrow>
                    (db\<lparr>inventory := (if od_status row \<in> {Retry, Sending}
                           then quarantine_ids now order_key ids (inventory db)
                           else release_ids now order_key ids (inventory db)),
                        orders := sql_update (\<lambda>ow. od_key ow = order_key \<and> od_status ow \<noteq> Delivered)
                           (\<lambda>ow. ow\<lparr>od_status := ManualReview, od_error := Some clean_reason,
                                  od_send_started := None, od_updated := now\<rparr>) (orders db),
                        reviews := upsert_manual_review order_key clean_reason now (reviews db)\<rparr>,
                     Inr ())))"

definition pending_manual_reviews :: "pyval \<Rightarrow> order_db \<Rightarrow> manual_review list result" where
  "pending_manual_reviews limit db =
     (case as_int limit of
        None \<Rightarrow> Inl (ValueError ''manual review limit is invalid'')
      | Some n \<Rightarrow>
          if \<not> (1 \<le> n \<and> n \<le> 1000) then Inl (ValueError ''manual review limit is invalid'')
          else Inr (take (nat n) (List.map_filter
             (\<lambda>v. case order_by_key (rv_key v) db of
                    None \<Rightarrow> None
                  | Some ow \<Rightarrow> Some \<lparr>mr_key = rv_key v, mr_chat = od_chat ow, mr_reason = rv_reason v,
                      mr_event_at = od_event_at ow, mr_created = rv_created v,
                      mr_updated = rv_updated v\<rparr>)
             (order_by rv_created (order_by rv_key
                (filter (\<lambda>v. rv_status v = ReviewOpen) (reviews db)))))))"

definition manual_review_count :: "order_db \<Rightarrow> nat" where
  "manual_review_count db = sql_count (\<lambda>v. rv_status v = ReviewOpen) (reviews db)"

definition resolve_manual_review :: "time \<Rightarrow> string \<Rightarrow> string \<Rightarrow> order_db \<Rightarrow> (order_db, bool) outcome" where
  "resolve_manual_review now order_key resolution db =
     (let clean_resolution = py_strip (clean_error resolution) in
      if clean_resolution = [] then (db, Inl (ValueError ''manual review resolution is required''))
      else (let hit = (\<lambda>v. rv_key v = order_key \<and> rv_status v = ReviewOpen) in
        (db\<lparr>reviews := sql_update hit (\<lambda>v. v\<lparr>rv_status := ReviewResolved,
               rv_resolution := Some clean_resolution, rv_updated := now, rv_resolved := Some now\<rparr>)
               (reviews db)\<rparr>,
         Inr (sql_count hit (reviews db) = 1))))"

section \<open>Bulk transitions\<close>

fun each_order ::
  "(string \<Rightarrow> int list \<Rightarrow> inv_row list \<Rightarrow> inv_row list) \<Rightarrow> order_row list \<Rightarrow> inv_row list \<Rightarrow> inv_row list result"
where
  \<comment> \<open>\<^verbatim>\<open>for row in rows: for inventory_id in self._decode_ids(..): UPDATE inventory ..\<close>\<close>
  "each_order f [] cards = Inr cards"
| "each_order f (row # rows) cards =
     (case decode_ids (od_inventory row) of
        Inl e \<Rightarrow> Inl e
      | Inr ids \<Rightarrow> each_order f rows (f (od_key row) ids cards))"

definition unproven :: "order_row \<Rightarrow> bool" where
  "unproven ow \<longleftrightarrow> od_platform_id ow = None \<or> od_verified ow = None \<or>
     od_platform_status ow = None \<or> od_platform_status ow \<noteq> Some ''2''"

definition quarantine_automatic_orders :: "time \<Rightarrow> string \<Rightarrow> order_db \<Rightarrow> (order_db, nat) outcome" where
  "quarantine_automatic_orders now reason db =
     (let hit = (\<lambda>ow. od_status ow \<in> {AwaitingBinding, Verified, Reserved, Retry, Sending} \<and> unproven ow);
          rows = filter hit (orders db)
      in case each_order (quarantine_ids now) rows (inventory db) of
           Inl e \<Rightarrow> (db, Inl e)
         | Inr cards \<Rightarrow>
             (db\<lparr>inventory := cards,
                 orders := sql_update hit (\<lambda>ow. ow\<lparr>od_status := ManualReview,
                    od_error := Some (clean_error reason), od_send_started := None,
                    od_updated := now\<rparr>) (orders db),
                 reviews := fold (\<lambda>row. upsert_manual_review (od_key row) (clean_error reason) now)
                    rows (reviews db)\<rparr>,
              Inr (sql_count hit (orders db))))"

definition cancel_reason :: "order_status \<Rightarrow> string" where
  "cancel_reason st = (if st = Sending then ''cancelled_during_send''
                       else ''cancelled_after_send_attempt'')"

definition cancel_awaiting_for_chat :: "time \<Rightarrow> string \<Rightarrow> order_db \<Rightarrow> (order_db, nat) outcome" where
  "cancel_awaiting_for_chat now chat_id db =
     (let early = (\<lambda>ow. od_chat ow = chat_id \<and> od_status ow \<in> {AwaitingBinding, Verified, Reserved});
          unsure = (\<lambda>ow. od_chat ow = chat_id \<and> od_status ow \<in> {Retry, Sending})
      in case each_order (release_ids now) (filter early (orders db)) (inventory db) of
           Inl e \<Rightarrow> (db, Inl e)
         | Inr cards \<Rightarrow>
             (let orders1 = sql_update early
                    (\<lambda>ow. ow\<lparr>od_status := Cancelled, od_updated := now\<rparr>) (orders db);
                  rows = filter unsure orders1
              in case each_order (quarantine_ids now) rows cards of
                   Inl e \<Rightarrow> (db, Inl e)
                 | Inr cards2 \<Rightarrow>
                     (db\<lparr>inventory := cards2,
                         orders := sql_update unsure (\<lambda>ow. ow\<lparr>od_status := ManualReview,
                            od_error := Some (cancel_reason (od_status ow)),
                            od_send_started := None, od_updated := now\<rparr>) orders1,
                         reviews := fold (\<lambda>row. upsert_manual_review (od_key row)
                            (cancel_reason (od_status row)) now) rows (reviews db)\<rparr>,
                      Inr (sql_count early (orders db) + sql_count unsure orders1))))"

section \<open>Reservation, sending, delivery\<close>

fun reserve_cards :: "string \<Rightarrow> string \<Rightarrow> time \<Rightarrow> int list \<Rightarrow> inv_row list \<Rightarrow> inv_row list result" where
  "reserve_cards k buyer now [] cards = Inr cards"
| "reserve_cards k buyer now (i # ids) cards =
     (let hit = (\<lambda>r. iv_id r = i \<and> iv_status r = InvAvailable) in
      if sql_count hit cards \<noteq> 1 then Inl (DeliveryStoreError ''failed to reserve inventory'')
      else reserve_cards k buyer now ids (sql_update hit (\<lambda>r. r\<lparr>iv_status := InvReserved,
             iv_resv := Some k, iv_buyer := Some buyer, iv_updated := now\<rparr>) cards))"

definition has_proof :: "order_row \<Rightarrow> bool" where
  "has_proof ow \<longleftrightarrow> od_platform_id ow \<noteq> None \<and> od_verified ow \<noteq> None \<and>
     od_platform_status ow = Some ''2'' \<and> od_paid ow \<noteq> None"

definition write_order :: "string \<Rightarrow> (order_row \<Rightarrow> order_row) \<Rightarrow> order_db \<Rightarrow> order_db" where
  "write_order k f db = db\<lparr>orders := sql_update (\<lambda>ow. od_key ow = k) f (orders db)\<rparr>"

definition answer_order :: "order_db \<Rightarrow> string \<Rightarrow> order_db \<Rightarrow> (order_db, delivery_reservation) outcome" where
  \<comment> \<open>Re-read the row inside the transaction and return it; a raise rolls back to \<open>old\<close>\<close>
  "answer_order old k db =
     (case order_by_key k db of
        None \<Rightarrow> (old, Inl (TypeError ''NoneType''))
      | Some row \<Rightarrow> (case reservation_from_row db row of
            Inl e \<Rightarrow> (old, Inl e)
          | Inr res \<Rightarrow> (db, Inr res)))"

definition allocate_order ::
  "time \<Rightarrow> string \<Rightarrow> string \<Rightarrow> string \<Rightarrow> string \<Rightarrow> int \<Rightarrow> string option \<Rightarrow> order_row \<Rightarrow> order_db \<Rightarrow>
   (order_db, delivery_reservation) outcome"
where
  \<comment> \<open>The branch of \<^verbatim>\<open>prepare_order\<close> for a verified order: find cards, or hand over to a person\<close>
  "allocate_order now k buyer item dtype q payload row db =
     (case decode_ids (od_inventory row) of
        Inl e \<Rightarrow> (db, Inl e)
      | Inr old_ids \<Rightarrow>
          (let finish = (\<lambda>ids db'. answer_order db k (write_order k
                 (\<lambda>ow. ow\<lparr>od_buyer := Some buyer, od_item := Some item, od_type := Some dtype,
                        od_payload := payload, od_quantity := q, od_status := Reserved,
                        od_inventory := encode_ids ids, od_error := None, od_updated := now\<rparr>) db'))
           in if dtype = ''redeem'' \<and> old_ids = []
              then (let ids = map iv_id (take (nat q) (order_by iv_id (filter
                          (\<lambda>r. iv_kind r = ''redeem'' \<and> iv_status r = InvAvailable) (inventory db))))
                    in if int (length ids) < q
                       then answer_order db k
                         (let db' = write_order k
                            (\<lambda>ow. ow\<lparr>od_buyer := Some buyer, od_item := Some item,
                               od_type := Some dtype, od_status := ManualReview,
                               od_error := Some ''inventory_empty'', od_updated := now\<rparr>) db
                          in db'\<lparr>reviews := upsert_manual_review k ''inventory_empty'' now (reviews db')\<rparr>)
                       else (case reserve_cards k buyer now ids (inventory db) of
                               Inl e \<Rightarrow> (db, Inl e)
                             | Inr cards \<Rightarrow> finish ids (db\<lparr>inventory := cards\<rparr>)))
              else finish old_ids db))"

definition prepare_order ::
  "time \<Rightarrow> string \<Rightarrow> string \<Rightarrow> string \<Rightarrow> string \<Rightarrow> string \<Rightarrow> pyval \<Rightarrow> string option \<Rightarrow> order_db \<Rightarrow>
   (order_db, delivery_reservation) outcome"
where
  "prepare_order now k chat_id buyer item dtype quantity payload db =
     (if dtype \<notin> {''redeem'', ''pan'', ''material''}
      then (db, Inl (ValueError ''unsupported delivery type''))
      else case as_int quantity of
        None \<Rightarrow> (db, Inl (ValueError ''order quantity is invalid''))
      | Some q \<Rightarrow>
          if q < 1 \<or> q > 50
          then (db, Inl (ValueError ''automatic delivery supports 1..50 units per verified payment event''))
          else if dtype = ''material'' \<and> q \<noteq> 1
          then (db, Inl (ValueError ''material delivery supports exactly one unit''))
          else if dtype \<in> {''pan'', ''material''} \<and>
             (case payload of None \<Rightarrow> True
              | Some p \<Rightarrow> py_strip p = [] \<or> py_len (py_strip p) > MAX_DELIVERY_PAYLOAD_CHARS \<or>
                         CHR 0x00 \<in> set p)
          then (db, Inl (ValueError (dtype @ '' delivery requires a valid persisted payload'')))
          else
            (let pl = (if dtype \<in> {''pan'', ''material''} then map_option py_strip payload else payload) in
             case order_by_key k db of
               None \<Rightarrow> (db, Inl (DeliveryStoreError ''payment event was not recorded''))
             | Some row \<Rightarrow>
                 if od_chat row \<noteq> chat_id
                 then (db, Inl (DeliveryStoreError ''payment event chat mismatch''))
                 else if \<not> has_proof row
                 then (db, Inl (DeliveryStoreError ''payment event has no valid platform proof''))
                 else if od_status row \<in> {Cancelled, Expired, ManualReview, Delivered}
                 then answer_order db k db
                 else if od_buyer row \<notin> {None, Some buyer}
                 then (db, Inl (DeliveryStoreError ''payment event buyer_id mismatch''))
                 else if od_item row \<notin> {None, Some item}
                 then (db, Inl (DeliveryStoreError ''payment event item_id mismatch''))
                 else if od_type row \<notin> {None, Some dtype}
                 then (db, Inl (DeliveryStoreError ''payment event delivery_type mismatch''))
                 else if od_status row \<in> {Reserved, Retry, Sending}
                 then (if dtype \<in> {''pan'', ''material''} \<and> od_payload row = None \<and>
                          od_status row \<in> {Reserved, Retry}
                       then answer_order db k
                              (write_order k (\<lambda>ow. ow\<lparr>od_payload := pl, od_updated := now\<rparr>) db)
                       else answer_order db k db)
                 else if od_status row \<noteq> Verified
                 then (db, Inl (DeliveryStoreError ''payment event has an invalid state''))
                 else allocate_order now k buyer item dtype q pl row db))"

definition claim_order_for_send ::
  "time \<Rightarrow> string \<Rightarrow> order_db \<Rightarrow> (order_db, delivery_reservation option) outcome"
where
  "claim_order_for_send now k db =
     (case order_by_key k db of
        None \<Rightarrow> (db, Inl (DeliveryStoreError ''unknown payment event''))
      | Some row \<Rightarrow>
          if od_status row \<notin> {Reserved, Retry} then (db, Inr None)
          else (let hit = (\<lambda>ow. od_key ow = k \<and> od_status ow \<in> {Reserved, Retry}) in
            if sql_count hit (orders db) \<noteq> 1 then (db, Inr None)
            else (case answer_order db k (db\<lparr>orders := sql_update hit
                     (\<lambda>ow. ow\<lparr>od_status := Sending, od_send_started := Some now, od_updated := now\<rparr>)
                     (orders db)\<rparr>) of
                    (db', Inl e) \<Rightarrow> (db', Inl e)
                  | (db', Inr res) \<Rightarrow> (db', Inr (Some res)))))"

definition get_order :: "string \<Rightarrow> order_db \<Rightarrow> delivery_reservation option result" where
  "get_order k db =
     (case order_by_key k db of
        None \<Rightarrow> Inr None
      | Some row \<Rightarrow> (case reservation_from_row db row of Inl e \<Rightarrow> Inl e | Inr r \<Rightarrow> Inr (Some r)))"

definition order_inventory_is_sendable :: "string \<Rightarrow> order_db \<Rightarrow> bool result" where
  "order_inventory_is_sendable k db =
     (case order_by_key k db of
        None \<Rightarrow> Inr False
      | Some row \<Rightarrow>
          if od_status row \<noteq> Sending then Inr False
          else if od_type row \<noteq> Some ''redeem'' then Inr True
          else (case decode_ids (od_inventory row) of
                  Inl e \<Rightarrow> Inl e
                | Inr ids \<Rightarrow>
                    if int (length ids) \<noteq> (if od_quantity row = 0 then 1 else od_quantity row)
                    then Inr False
                    else if ids = [] then Inr False
                    else Inr (sql_count (\<lambda>r. iv_id r \<in> set ids \<and> held_by k r) (inventory db)
                              = length ids)))"

definition mark_order_retry :: "time \<Rightarrow> string \<Rightarrow> string \<Rightarrow> order_db \<Rightarrow> (order_db, unit) outcome" where
  "mark_order_retry now k error db =
     (db\<lparr>orders := sql_update (\<lambda>ow. od_key ow = k \<and> od_status ow = Sending)
           (\<lambda>ow. ow\<lparr>od_status := Retry, od_error := Some (clean_error error),
                  od_send_started := None, od_updated := now\<rparr>) (orders db)\<rparr>, Inr ())"

fun deliver_cards :: "string \<Rightarrow> time \<Rightarrow> int list \<Rightarrow> inv_row list \<Rightarrow> inv_row list result" where
  "deliver_cards k now [] cards = Inr cards"
| "deliver_cards k now (i # ids) cards =
     (let hit = (\<lambda>r. iv_id r = i \<and> held_by k r) in
      if sql_count hit cards \<noteq> 1
      then Inl (DeliveryStoreError ''reserved inventory state is inconsistent'')
      else deliver_cards k now ids
             (sql_update hit (\<lambda>r. r\<lparr>iv_status := InvDelivered, iv_updated := now\<rparr>) cards))"

definition mark_order_delivered :: "time \<Rightarrow> string \<Rightarrow> order_db \<Rightarrow> (order_db, unit) outcome" where
  "mark_order_delivered now k db =
     (case order_by_key k db of
        None \<Rightarrow> (db, Inl (DeliveryStoreError ''unknown payment event''))
      | Some row \<Rightarrow>
          if od_status row = Delivered then (db, Inr ())
          else if od_status row \<noteq> Sending
          then (db, Inl (DeliveryStoreError ''payment event is not owned by a sender''))
          else (case decode_ids (od_inventory row) of
                  Inl e \<Rightarrow> (db, Inl e)
                | Inr ids \<Rightarrow>
                    (case deliver_cards k now ids (inventory db) of
                       Inl e \<Rightarrow> (db, Inl e)
                     | Inr cards \<Rightarrow>
                         (write_order k (\<lambda>ow. ow\<lparr>od_status := Delivered, od_error := None,
                              od_send_started := None, od_updated := now, od_delivered := Some now\<rparr>)
                            (db\<lparr>inventory := cards\<rparr>), Inr ()))))"

section \<open>Platform shipment, recovery and queries\<close>

definition mark_platform_shipped :: "time \<Rightarrow> string \<Rightarrow> order_db \<Rightarrow> (order_db, unit) outcome" where
  "mark_platform_shipped now k db =
     (case order_by_key k db of
        None \<Rightarrow> (db, Inl (DeliveryStoreError ''unknown payment event''))
      | Some row \<Rightarrow>
          if od_status row \<noteq> Delivered
          then (db, Inl (DeliveryStoreError ''only delivered orders can be marked platform shipped''))
          else (db\<lparr>orders := sql_update (\<lambda>ow. od_key ow = k \<and> od_shipped ow = None)
                  (\<lambda>ow. ow\<lparr>od_shipped := Some now, od_error := None, od_updated := now\<rparr>) (orders db)\<rparr>,
                Inr ()))"

definition record_platform_ship_attempt ::
  "time \<Rightarrow> string \<Rightarrow> string \<Rightarrow> order_db \<Rightarrow> (order_db, unit) outcome"
where
  "record_platform_ship_attempt now k error db =
     (write_order k (\<lambda>ow. ow\<lparr>od_ship_attempts := od_ship_attempts ow + 1,
        od_error := Some (clean_error (''platform_ship:'' @ error)), od_updated := now\<rparr>) db, Inr ())"

fun reservations :: "order_db \<Rightarrow> order_row list \<Rightarrow> delivery_reservation list result" where
  "reservations db [] = Inr []"
| "reservations db (row # rows) =
     (case reservation_from_row db row of
        Inl e \<Rightarrow> Inl e
      | Inr r \<Rightarrow> (case reservations db rows of Inl e \<Rightarrow> Inl e | Inr rs \<Rightarrow> Inr (r # rs)))"

definition pending_platform_shipments :: "nat \<Rightarrow> order_db \<Rightarrow> delivery_reservation list result" where
  "pending_platform_shipments max_attempts db =
     reservations db (order_by (\<lambda>ow. od_delivered ow \<noteq> None)
       (order_by (\<lambda>ow. case od_delivered ow of None \<Rightarrow> 0 | Some d \<Rightarrow> d)
       (filter (\<lambda>ow. od_status ow = Delivered \<and> od_platform_id ow \<noteq> None \<and>
           od_shipped ow = None \<and> od_ship_attempts ow < max_attempts) (orders db))))"

definition revivable :: "order_row \<Rightarrow> bool" where
  "revivable ow \<longleftrightarrow> od_status ow = ManualReview \<and>
     od_error ow = Some ''manual_takeover_before_send'' \<and>
     od_platform_status ow = Some ''2'' \<and> od_verified ow \<noteq> None"

definition revive_step :: "time \<Rightarrow> string \<Rightarrow> order_db \<Rightarrow> order_db" where
  "revive_step now k db =
     (write_order k (\<lambda>ow. ow\<lparr>od_status := Verified, od_error := None, od_updated := now\<rparr>) db)
       \<lparr>reviews := sql_update (\<lambda>v. rv_key v = k \<and> rv_status v = ReviewOpen)
          (\<lambda>v. v\<lparr>rv_status := ReviewResolved, rv_resolution := Some ''auto_revived_fulfill'',
                 rv_resolved := Some now, rv_updated := now\<rparr>) (reviews db)\<rparr>"

definition revive_takeover_blocked_orders ::
  "time \<Rightarrow> order_db \<Rightarrow> (order_db, delivery_reservation list) outcome"
where
  "revive_takeover_blocked_orders now db =
     (let keys = map od_key (filter revivable (orders db));
          db' = fold (revive_step now) keys db
      in (db', reservations db' (List.map_filter (\<lambda>k. order_by_key k db') keys)))"

definition retryable_orders :: "order_db \<Rightarrow> delivery_reservation list result" where
  "retryable_orders db =
     reservations db (order_by od_created
       (filter (\<lambda>ow. od_status ow \<in> {Reserved, Retry} \<and> od_buyer ow \<noteq> None \<and> od_item ow \<noteq> None \<and>
          od_type ow \<noteq> None \<and> has_proof ow) (orders db)))"

definition recover_orders :: "order_db \<Rightarrow> order_db" where
  \<comment> \<open>The part of \<^verbatim>\<open>_init_db\<close> on orders: reopen reviews for reviewed orders, return interrupted sends\<close>
  "recover_orders db =
     db\<lparr>reviews := fold (\<lambda>ow rvs.
           if find (\<lambda>v. rv_key v = od_key ow) rvs \<noteq> None then rvs
           else rvs @ [\<lparr>rv_key = od_key ow, rv_status = ReviewOpen,
                  rv_reason = (case od_error ow of None \<Rightarrow> ''manual_review'' | Some e \<Rightarrow> e),
                  rv_resolution = None, rv_created = od_created ow, rv_updated = od_updated ow,
                  rv_resolved = None\<rparr>])
          (filter (\<lambda>ow. od_status ow = ManualReview) (orders db)) (reviews db),
        orders := sql_update (\<lambda>ow. od_status ow = Sending)
          (\<lambda>ow. ow\<lparr>od_status := Retry, od_error := Some ''interrupted_send'',
                 od_send_started := None\<rparr>) (orders db)\<rparr>"

end
