(* ===== verification/Order_Invariants.thy ===== *)
theory Order_Invariants
  imports Order_Lifecycle
begin

text \<open>
  The invariant of the order tables and its preservation by the operations that rewrite orders and
  let cards go.  Cards have unique ids and unique secrets per kind; orders have unique keys and
  platform ids; an order in flight or delivered carries the platform's proof; a reserved card belongs
  to an order in flight that lists it, a delivered card to a delivered order that lists it, and every
  card a delivered order lists is a delivered card held by that order.
\<close>

section \<open>The invariant\<close>

definition ids_of :: "order_row \<Rightarrow> int list" where
  "ids_of ow = (case decode_ids (od_inventory ow) of Inl _ \<Rightarrow> [] | Inr ids \<Rightarrow> ids)"

definition well_stored :: "order_row \<Rightarrow> bool" where
  "well_stored ow \<longleftrightarrow> (\<exists>ids. od_inventory ow = encode_ids ids)"

definition reserved_backed :: "order_row list \<Rightarrow> inv_row list \<Rightarrow> bool" where
  "reserved_backed os cs \<longleftrightarrow> (\<forall>r \<in> set cs. iv_status r = InvReserved \<longrightarrow>
     (\<exists>ow \<in> set os. iv_resv r = Some (od_key ow) \<and> in_flight ow \<and> iv_id r \<in> set (ids_of ow) \<and>
        od_type ow = Some ''redeem''))"

definition delivered_backed :: "order_row list \<Rightarrow> inv_row list \<Rightarrow> bool" where
  "delivered_backed os cs \<longleftrightarrow> (\<forall>ow \<in> set os. od_status ow = Delivered \<longrightarrow>
     (\<forall>i \<in> set (ids_of ow). \<exists>r \<in> set cs. iv_id r = i \<and> iv_status r = InvDelivered \<and>
        iv_resv r = Some (od_key ow)))"

definition delivered_owned :: "order_row list \<Rightarrow> inv_row list \<Rightarrow> bool" where
  "delivered_owned os cs \<longleftrightarrow> (\<forall>r \<in> set cs. iv_status r = InvDelivered \<longrightarrow>
     (\<exists>ow \<in> set os. iv_resv r = Some (od_key ow) \<and> od_status ow = Delivered \<and>
        iv_id r \<in> set (ids_of ow)))"

definition cards_ok :: "int \<Rightarrow> inv_row list \<Rightarrow> bool" where
  "cards_ok seq cs \<longleftrightarrow> unique_key iv_id cs \<and> unique_key (\<lambda>r. (iv_kind r, iv_secret r)) cs \<and>
     (\<forall>r \<in> set cs. iv_id r \<le> seq \<and> iv_kind r = ''redeem'') \<and>
     (\<forall>r \<in> set cs. iv_status r = InvAvailable \<longrightarrow> iv_resv r = None)"

definition platform_unique :: "order_row list \<Rightarrow> bool" where
  "platform_unique os \<longleftrightarrow> (\<forall>a \<in> set os. \<forall>b \<in> set os. \<forall>p.
     od_platform_id a = Some p \<and> od_platform_id b = Some p \<longrightarrow> od_key a = od_key b)"

definition row_ok :: "order_row \<Rightarrow> bool" where
  "row_ok ow \<longleftrightarrow> well_stored ow \<and> (ids_of ow \<noteq> [] \<longrightarrow> od_type ow = Some ''redeem'') \<and>
     (od_status ow \<in> {Reserved, Retry, Sending, Delivered} \<longrightarrow> has_proof ow)"

definition orders_ok :: "order_row list \<Rightarrow> bool" where
  "orders_ok os \<longleftrightarrow> unique_key od_key os \<and> platform_unique os \<and> (\<forall>ow \<in> set os. row_ok ow)"

definition order_inv :: "order_db \<Rightarrow> bool" where
  "order_inv db \<longleftrightarrow> cards_ok (inv_seq db) (inventory db) \<and> orders_ok (orders db) \<and>
     reserved_backed (orders db) (inventory db) \<and> delivered_backed (orders db) (inventory db) \<and>
     delivered_owned (orders db) (inventory db)"

lemmas order_inv_defs = order_inv_def cards_ok_def orders_ok_def reserved_backed_def
  delivered_backed_def delivered_owned_def

lemma decode_encode [simp]: "decode_ids (encode_ids ids) = Inr ids"
  by (simp add: decode_ids_def encode_ids_def list_all_iff comp_def)

lemma well_stored_decode: "well_stored ow \<Longrightarrow> decode_ids (od_inventory ow) = Inr (ids_of ow)"
  by (auto simp: well_stored_def ids_of_def)

lemma order_invD:
  assumes "order_inv db"
  shows "unique_key od_key (orders db)" "unique_key iv_id (inventory db)"
    "ow \<in> set (orders db) \<Longrightarrow> decode_ids (od_inventory ow) = Inr (ids_of ow)"
    "ow \<in> set (orders db) \<Longrightarrow> row_ok ow"
  using assms by (auto simp: order_inv_defs row_ok_def well_stored_decode)

lemma found_order:
  assumes "order_inv db" "order_by_key k db = Some row"
  shows "row \<in> set (orders db)" "od_key row = k"
    "decode_ids (od_inventory row) = Inr (ids_of row)"
    "ow \<in> set (orders db) \<Longrightarrow> od_key ow = k \<Longrightarrow> ow = row"
proof -
  show row: "row \<in> set (orders db)" "od_key row = k"
    using find_SomeD [OF assms(2)] by simp_all
  show "decode_ids (od_inventory row) = Inr (ids_of row)"
    by (rule order_invD(3) [OF assms(1) row(1)])
  show "ow = row" if "ow \<in> set (orders db)" "od_key ow = k"
    using order_keys.same_row [OF order_invD(1) [OF assms(1)] that(1) row(1)] that(2) row(2) by simp
qed

section \<open>Loops over cards as single statements\<close>

lemma fold_card_update:
  assumes "\<And>r. held_by k r \<Longrightarrow> \<not> held_by k (g r)"
  shows "fold (\<lambda>i. sql_update (\<lambda>r. iv_id r = i \<and> held_by k r) g) ids cs =
         sql_update (\<lambda>r. iv_id r \<in> set ids \<and> held_by k r) g cs"
proof (induction ids arbitrary: cs)
  case Nil
  then show ?case by (simp add: sql_update_none)
next
  case (Cons i ids)
  then show ?case using assms by (auto simp: sql_update_def)
qed

lemma quarantine_ids_set:
  "quarantine_ids now k ids cs =
     sql_update (\<lambda>r. iv_id r \<in> set ids \<and> held_by k r)
       (\<lambda>r. r\<lparr>iv_status := InvQuarantined, iv_updated := now\<rparr>) cs"
  unfolding quarantine_ids_def by (rule fold_card_update) (simp add: held_by_def)

lemma release_ids_set:
  "release_ids now k ids cs =
     sql_update (\<lambda>r. iv_id r \<in> set ids \<and> held_by k r)
       (\<lambda>r. r\<lparr>iv_status := InvAvailable, iv_resv := None, iv_buyer := None, iv_updated := now\<rparr>) cs"
  unfolding release_ids_def by (rule fold_card_update) (simp add: held_by_def)

definition held_among :: "order_row list \<Rightarrow> inv_row \<Rightarrow> bool" where
  "held_among rows r \<longleftrightarrow> (\<exists>row \<in> set rows. iv_id r \<in> set (ids_of row) \<and> held_by (od_key row) r)"

lemma each_order_update:
  assumes "\<And>row. row \<in> set rows \<Longrightarrow> decode_ids (od_inventory row) = Inr (ids_of row)"
    and "\<And>k ids cs. f k ids cs = sql_update (\<lambda>r. iv_id r \<in> set ids \<and> held_by k r) g cs"
    and "\<And>r k k'. held_by k r \<Longrightarrow> \<not> held_by k' (g r)"
  shows "each_order f rows cs = Inr (sql_update (held_among rows) g cs)"
  using assms(1)
proof (induction rows arbitrary: cs)
  case Nil
  then show ?case by (simp add: sql_update_none held_among_def)
next
  case (Cons row rows)
  have "sql_update (held_among rows) g (sql_update (\<lambda>r. iv_id r \<in> set (ids_of row) \<and> held_by (od_key row) r) g cs)
      = sql_update (held_among (row # rows)) g cs"
    using assms(3) by (auto simp: sql_update_def held_among_def)
  with Cons show ?case by (simp add: assms(2))
qed

lemma each_order_quarantine:
  assumes "\<And>row. row \<in> set rows \<Longrightarrow> decode_ids (od_inventory row) = Inr (ids_of row)"
  shows "each_order (quarantine_ids now) rows cs =
     Inr (sql_update (held_among rows) (\<lambda>r. r\<lparr>iv_status := InvQuarantined, iv_updated := now\<rparr>) cs)"
  using assms by (rule each_order_update) (auto simp: quarantine_ids_set held_by_def)

lemma each_order_release:
  assumes "\<And>row. row \<in> set rows \<Longrightarrow> decode_ids (od_inventory row) = Inr (ids_of row)"
  shows "each_order (release_ids now) rows cs =
     Inr (sql_update (held_among rows) (\<lambda>r. r\<lparr>iv_status := InvAvailable, iv_resv := None,
        iv_buyer := None, iv_updated := now\<rparr>) cs)"
  using assms by (rule each_order_update) (auto simp: release_ids_set held_by_def)

section \<open>Withdrawing orders\<close>

text \<open>
  The shape of most transitions: orders matching \<open>P\<close> are rewritten by \<open>f\<close> and cards matching \<open>Q\<close>
  by \<open>g\<close>.  \<open>withdraws\<close> says when this keeps the invariant: identities stay, nothing becomes reserved
  or delivered, and an order leaves the in-flight states only if the cards it held are let go.
\<close>

definition keeps_order :: "(order_row \<Rightarrow> order_row) \<Rightarrow> order_row \<Rightarrow> bool" where
  "keeps_order f ow \<longleftrightarrow> od_key (f ow) = od_key ow \<and> od_inventory (f ow) = od_inventory ow \<and>
     (in_flight ow \<longrightarrow> od_type (f ow) = od_type ow) \<and>
     (od_status (f ow) = Delivered \<longleftrightarrow> od_status ow = Delivered) \<and> (row_ok ow \<longrightarrow> row_ok (f ow))"

definition lets_go :: "(inv_row \<Rightarrow> inv_row) \<Rightarrow> inv_row \<Rightarrow> bool" where
  "lets_go g r \<longleftrightarrow> iv_status r \<noteq> InvDelivered \<and>
     iv_id (g r) = iv_id r \<and> iv_kind (g r) = iv_kind r \<and> iv_secret (g r) = iv_secret r \<and>
     iv_status (g r) \<notin> {InvReserved, InvDelivered} \<and>
     (iv_status (g r) = InvAvailable \<longrightarrow> iv_resv (g r) = None)"

lemma ids_of_keeps: "keeps_order f ow \<Longrightarrow> ids_of (f ow) = ids_of ow"
  by (simp add: keeps_order_def ids_of_def)

lemma map_sql_update_on:
  assumes "\<And>r. r \<in> set t \<Longrightarrow> P r \<Longrightarrow> h (f r) = h r"
  shows "map h (sql_update P f t) = map h t"
  using assms by (auto simp: sql_update_def)

lemma withdraw_cards_ok:
  assumes "cards_ok seq cs" "\<And>r. r \<in> set cs \<Longrightarrow> Q r \<Longrightarrow> lets_go g r"
  shows "cards_ok seq (sql_update Q g cs)"
proof -
  have "map iv_id (sql_update Q g cs) = map iv_id cs"
    "map (\<lambda>r. (iv_kind r, iv_secret r)) (sql_update Q g cs) = map (\<lambda>r. (iv_kind r, iv_secret r)) cs"
    using assms(2) by (auto intro!: map_sql_update_on simp: lets_go_def)
  with assms show ?thesis
    by (auto simp: cards_ok_def unique_key_def lets_go_def elim!: sql_updateE)
qed

lemma withdraw_orders_ok:
  assumes "orders_ok os" "\<And>ow. ow \<in> set os \<Longrightarrow> P ow \<Longrightarrow> keeps_order f ow"
    and "platform_unique (sql_update P f os)"
  shows "orders_ok (sql_update P f os)"
proof -
  have "map od_key (sql_update P f os) = map od_key os"
    using assms(2) by (auto intro!: map_sql_update_on simp: keeps_order_def)
  moreover have "\<exists>q \<in> set os. row_ok q \<longrightarrow> row_ok ow" if "ow \<in> set (sql_update P f os)" for ow
    using that assms(2) by (cases rule: sql_updateE) (force simp: keeps_order_def)+
  ultimately show ?thesis
    using assms(1,3) unfolding orders_ok_def unique_key_def by metis
qed

lemma platform_unique_update:
  assumes "platform_unique os"
    and same: "\<And>ow. od_key (f ow) = od_key ow" "\<And>ow. od_platform_id (f ow) = od_platform_id ow"
  shows "platform_unique (sql_update P f os)"
proof -
  have orig: "\<exists>q \<in> set os. od_key ow = od_key q \<and> od_platform_id ow = od_platform_id q"
    if "ow \<in> set (sql_update P f os)" for ow
    using that same by (cases rule: sql_updateE) auto
  show ?thesis
    using assms(1) orig unfolding platform_unique_def by metis
qed

lemma withdraw_reserved:
  assumes rb: "reserved_backed os cs"
    and f: "\<And>ow. ow \<in> set os \<Longrightarrow> P ow \<Longrightarrow> keeps_order f ow"
    and g: "\<And>r. r \<in> set cs \<Longrightarrow> Q r \<Longrightarrow> lets_go g r"
    and gone: "\<And>ow r. \<lbrakk>ow \<in> set os; r \<in> set cs; P ow; in_flight ow; \<not> in_flight (f ow);
        held_by (od_key ow) r; iv_id r \<in> set (ids_of ow)\<rbrakk> \<Longrightarrow> Q r"
  shows "reserved_backed (sql_update P f os) (sql_update Q g cs)"
  unfolding reserved_backed_def
proof (intro ballI impI)
  fix r
  assume r: "r \<in> set (sql_update Q g cs)" "iv_status r = InvReserved"
  from r have "r \<in> set cs" "\<not> Q r"
    using g by (auto elim!: sql_updateE simp: lets_go_def)
  with rb r obtain ow where ow: "ow \<in> set os" "iv_resv r = Some (od_key ow)" "in_flight ow"
    "iv_id r \<in> set (ids_of ow)" "od_type ow = Some ''redeem''"
    unfolding reserved_backed_def by blast
  let ?ow = "if P ow then f ow else ow"
  have "in_flight ?ow"
    using gone [OF ow(1) \<open>r \<in> set cs\<close>] ow r \<open>\<not> Q r\<close> by (auto simp: held_by_def)
  moreover have "?ow \<in> set (sql_update P f os)"
    using ow(1) by (auto simp: sql_update_def)
  moreover have "od_key ?ow = od_key ow" "ids_of ?ow = ids_of ow" "od_type ?ow = od_type ow"
    using f [OF ow(1)] ow(3) by (auto simp: keeps_order_def ids_of_keeps)
  ultimately show "\<exists>ow \<in> set (sql_update P f os). iv_resv r = Some (od_key ow) \<and> in_flight ow \<and>
      iv_id r \<in> set (ids_of ow) \<and> od_type ow = Some ''redeem''"
    using ow by metis
qed

lemma withdraw_delivered:
  assumes "delivered_backed os cs" "delivered_owned os cs"
    and f: "\<And>ow. ow \<in> set os \<Longrightarrow> P ow \<Longrightarrow> keeps_order f ow"
    and g: "\<And>r. r \<in> set cs \<Longrightarrow> Q r \<Longrightarrow> lets_go g r"
  shows "delivered_backed (sql_update P f os) (sql_update Q g cs)"
    and "delivered_owned (sql_update P f os) (sql_update Q g cs)"
proof -
  have keep: "r \<in> set (sql_update Q g cs)" if "r \<in> set cs" "iv_status r = InvDelivered" for r
    using that g [of r] by (auto simp: sql_update_def lets_go_def image_iff)
  have old: "r \<in> set cs" if "r \<in> set (sql_update Q g cs)" "iv_status r = InvDelivered" for r
    using that g by (auto elim!: sql_updateE simp: lets_go_def)
  have same: "\<exists>q \<in> set os. od_key ow = od_key q \<and> ids_of ow = ids_of q \<and>
      (od_status ow = Delivered \<longleftrightarrow> od_status q = Delivered)" if "ow \<in> set (sql_update P f os)" for ow
    using that f by (cases rule: sql_updateE) (force simp: keeps_order_def ids_of_keeps)+
  show "delivered_backed (sql_update P f os) (sql_update Q g cs)"
    unfolding delivered_backed_def
  proof (intro ballI impI)
    fix ow i
    assume "ow \<in> set (sql_update P f os)" "od_status ow = Delivered" "i \<in> set (ids_of ow)"
    with same assms(1) obtain r where "r \<in> set cs" "iv_id r = i" "iv_status r = InvDelivered"
      "iv_resv r = Some (od_key ow)"
      unfolding delivered_backed_def by metis
    with keep show "\<exists>r \<in> set (sql_update Q g cs). iv_id r = i \<and> iv_status r = InvDelivered \<and>
        iv_resv r = Some (od_key ow)" by blast
  qed
  have fwd: "\<exists>q \<in> set (sql_update P f os). od_key q = od_key ow \<and> ids_of q = ids_of ow \<and>
      (od_status q = Delivered \<longleftrightarrow> od_status ow = Delivered)" if "ow \<in> set os" for ow
    using that f [OF that] by (intro bexI [of _ "if P ow then f ow else ow"])
      (auto simp: sql_update_def keeps_order_def ids_of_keeps)
  show "delivered_owned (sql_update P f os) (sql_update Q g cs)"
    unfolding delivered_owned_def
  proof (intro ballI impI)
    fix r
    assume "r \<in> set (sql_update Q g cs)" "iv_status r = InvDelivered"
    with old assms(2) obtain ow where "ow \<in> set os" "iv_resv r = Some (od_key ow)"
      "od_status ow = Delivered" "iv_id r \<in> set (ids_of ow)"
      unfolding delivered_owned_def by blast
    with fwd show "\<exists>ow \<in> set (sql_update P f os). iv_resv r = Some (od_key ow) \<and>
        od_status ow = Delivered \<and> iv_id r \<in> set (ids_of ow)" by metis
  qed
qed

lemma withdraw_inv:
  assumes inv: "order_inv db"
    and f: "\<And>ow. ow \<in> set (orders db) \<Longrightarrow> P ow \<Longrightarrow> keeps_order f ow"
    and g: "\<And>r. r \<in> set (inventory db) \<Longrightarrow> Q r \<Longrightarrow> lets_go g r"
    and gone: "\<And>ow r. \<lbrakk>ow \<in> set (orders db); r \<in> set (inventory db); P ow; in_flight ow;
        \<not> in_flight (f ow); held_by (od_key ow) r; iv_id r \<in> set (ids_of ow)\<rbrakk> \<Longrightarrow> Q r"
    and plat: "platform_unique (sql_update P f (orders db))"
  shows "order_inv (db\<lparr>inventory := sql_update Q g (inventory db),
                       orders := sql_update P f (orders db), reviews := rvs\<rparr>)"
  using inv withdraw_cards_ok [OF _ g] withdraw_orders_ok [OF _ f plat] withdraw_reserved [OF _ f g gone]
    withdraw_delivered [OF _ _ f g]
  by (simp add: order_inv_def)


lemma inv_reviews [simp]: "order_inv (db\<lparr>reviews := rvs\<rparr>) = order_inv db"
  by (simp add: order_inv_def)

lemma inv_platform: "order_inv db \<Longrightarrow> platform_unique (orders db)"
  by (simp add: order_inv_def orders_ok_def)

text \<open>An update of the orders alone.\<close>

lemma rewrite_inv:
  assumes inv: "order_inv db"
    and f: "\<And>ow. ow \<in> set (orders db) \<Longrightarrow> P ow \<Longrightarrow> keeps_order f ow"
    and still: "\<And>ow. ow \<in> set (orders db) \<Longrightarrow> P ow \<Longrightarrow> in_flight ow \<Longrightarrow> in_flight (f ow)"
    and plat: "platform_unique (sql_update P f (orders db))"
  shows "order_inv (db\<lparr>orders := sql_update P f (orders db)\<rparr>)"
proof -
  have "order_inv (db\<lparr>inventory := sql_update (\<lambda>_. False) id (inventory db),
                     orders := sql_update P f (orders db), reviews := reviews db\<rparr>)"
    using inv by (rule withdraw_inv) (use f still plat in auto)
  then show ?thesis by (simp add: sql_update_none)
qed

lemma status_keeps:
  assumes "od_status (f ow) \<in> {Reserved, Retry, Sending, Delivered} \<Longrightarrow>
             od_status ow \<in> {Reserved, Retry, Sending, Delivered}"
    and "od_status (f ow) = Delivered \<longleftrightarrow> od_status ow = Delivered"
    and "od_key (f ow) = od_key ow" "od_inventory (f ow) = od_inventory ow" "od_type (f ow) = od_type ow"
    "od_platform_id (f ow) = od_platform_id ow" "od_verified (f ow) = od_verified ow"
    "od_platform_status (f ow) = od_platform_status ow" "od_paid (f ow) = od_paid ow"
  shows "keeps_order f ow"
  using assms by (auto simp: keeps_order_def row_ok_def well_stored_def has_proof_def ids_of_def)

lemma expire_inv: "order_inv db \<Longrightarrow> order_inv (expire_awaiting now db)"
  unfolding expire_awaiting_def
  by (rule rewrite_inv) (auto intro!: status_keeps platform_unique_update inv_platform simp: in_flight_def)

lemma write_inv:
  assumes "order_inv db" "order_by_key k db = Some row"
    and "keeps_order f row" "in_flight row \<Longrightarrow> in_flight (f row)"
    and "\<And>ow. od_platform_id (f ow) = od_platform_id ow" "\<And>ow. od_key (f ow) = od_key ow"
  shows "order_inv (write_order k f db)"
  unfolding write_order_def using assms(1)
proof (rule rewrite_inv)
  show "platform_unique (sql_update (\<lambda>ow. od_key ow = k) f (orders db))"
    using assms by (intro platform_unique_update inv_platform)
qed (use found_order(4) [OF assms(1,2)] assms(3,4) in auto)

lemma answer_cases: "fst (answer_order old k db) = old \<or> fst (answer_order old k db) = db"
  by (auto simp: answer_order_def split: option.split sum.split)

lemma answer_inv: "order_inv old \<Longrightarrow> order_inv db \<Longrightarrow> order_inv (fst (answer_order old k db))"
  using answer_cases [of old k db] by auto

lemma manual_review_inv:
  assumes "order_inv db"
  shows "order_inv (fst (mark_order_manual_review now k reason db))"
proof (cases "order_by_key k db")
  case None
  with assms show ?thesis by (simp add: mark_order_manual_review_def)
next
  case (Some row)
  note fo = found_order [OF assms Some]
  let ?f = "\<lambda>ow. ow\<lparr>od_status := ManualReview, od_error := Some (clean_error reason),
                  od_send_started := None, od_updated := now\<rparr>"
  have w: "order_inv (db\<lparr>inventory := sql_update (\<lambda>r. iv_id r \<in> set (ids_of row) \<and> held_by k r) g
          (inventory db), orders := sql_update (\<lambda>ow. od_key ow = k \<and> od_status ow \<noteq> Delivered) ?f
          (orders db), reviews := rvs\<rparr>)"
    if "\<And>r. held_by k r \<Longrightarrow> lets_go g r" for g rvs
    using assms
  proof (rule withdraw_inv)
    show "platform_unique (sql_update (\<lambda>ow. od_key ow = k \<and> od_status ow \<noteq> Delivered) ?f (orders db))"
      using assms by (intro platform_unique_update inv_platform) auto
  qed (use that fo(4) in \<open>auto intro: status_keeps\<close>)
  show ?thesis
    using w Some fo(3) assms
    by (auto simp: mark_order_manual_review_def Let_def quarantine_ids_set release_ids_set
        lets_go_def held_by_def)
qed


lemma quarantine_automatic_inv:
  assumes "order_inv db"
  shows "order_inv (fst (quarantine_automatic_orders now reason db))"
proof -
  let ?hit = "\<lambda>ow. od_status ow \<in> {AwaitingBinding, Verified, Reserved, Retry, Sending} \<and> unproven ow"
  let ?rows = "filter ?hit (orders db)"
  let ?f = "\<lambda>ow. ow\<lparr>od_status := ManualReview, od_error := Some (clean_error reason),
                  od_send_started := None, od_updated := now\<rparr>"
  let ?g = "\<lambda>r. r\<lparr>iv_status := InvQuarantined, iv_updated := now\<rparr>"
  have e: "each_order (quarantine_ids now) ?rows (inventory db) =
      Inr (sql_update (held_among ?rows) ?g (inventory db))"
    using assms by (intro each_order_quarantine) (auto intro: order_invD)
  have "order_inv (db\<lparr>inventory := sql_update (held_among ?rows) ?g (inventory db),
      orders := sql_update ?hit ?f (orders db), reviews := rvs\<rparr>)" for rvs
    using assms
  proof (rule withdraw_inv)
    show "platform_unique (sql_update ?hit ?f (orders db))"
      using assms by (intro platform_unique_update inv_platform) auto
  qed (auto intro!: status_keeps simp: held_among_def lets_go_def held_by_def)
  with e show ?thesis by (simp add: quarantine_automatic_orders_def Let_def)
qed

lemma cancel_inv:
  assumes "order_inv db"
  shows "order_inv (fst (cancel_awaiting_for_chat now chat db))"
proof -
  let ?early = "\<lambda>ow. od_chat ow = chat \<and> od_status ow \<in> {AwaitingBinding, Verified, Reserved}"
  let ?unsure = "\<lambda>ow. od_chat ow = chat \<and> od_status ow \<in> {Retry, Sending}"
  let ?f1 = "\<lambda>ow. ow\<lparr>od_status := Cancelled, od_updated := now\<rparr>"
  let ?g1 = "\<lambda>r. r\<lparr>iv_status := InvAvailable, iv_resv := None, iv_buyer := None, iv_updated := now\<rparr>"
  let ?f2 = "\<lambda>ow. ow\<lparr>od_status := ManualReview, od_error := Some (cancel_reason (od_status ow)),
                  od_send_started := None, od_updated := now\<rparr>"
  let ?g2 = "\<lambda>r. r\<lparr>iv_status := InvQuarantined, iv_updated := now\<rparr>"
  let ?cs1 = "sql_update (held_among (filter ?early (orders db))) ?g1 (inventory db)"
  let ?os1 = "sql_update ?early ?f1 (orders db)"
  let ?db1 = "db\<lparr>inventory := ?cs1, orders := ?os1, reviews := reviews db\<rparr>"
  have e1: "each_order (release_ids now) (filter ?early (orders db)) (inventory db) = Inr ?cs1"
    using assms by (intro each_order_release) (auto intro: order_invD)
  have inv1: "order_inv ?db1"
    using assms
  proof (rule withdraw_inv)
    show "platform_unique ?os1" using assms by (intro platform_unique_update inv_platform) auto
  qed (auto intro!: status_keeps simp: held_among_def lets_go_def held_by_def)
  then have e2: "each_order (quarantine_ids now) (filter ?unsure ?os1) ?cs1 =
      Inr (sql_update (held_among (filter ?unsure ?os1)) ?g2 ?cs1)"
    using order_invD(3) [OF inv1] by (intro each_order_quarantine) simp
  have inv2: "order_inv (?db1\<lparr>inventory := sql_update (held_among (filter ?unsure (orders ?db1))) ?g2
      (inventory ?db1), orders := sql_update ?unsure ?f2 (orders ?db1), reviews := rvs\<rparr>)" for rvs
    using inv1
  proof (rule withdraw_inv)
    show "platform_unique (sql_update ?unsure ?f2 (orders ?db1))"
      using inv1 by (intro platform_unique_update inv_platform) auto
  qed (auto intro!: status_keeps simp: held_among_def lets_go_def held_by_def)
  with e1 e2 show ?thesis by (simp add: cancel_awaiting_for_chat_def Let_def)
qed

lemma claim_order_inv:
  assumes "order_inv db"
  shows "order_inv (fst (claim_order_for_send now k db))"
proof -
  let ?hit = "\<lambda>ow. od_key ow = k \<and> od_status ow \<in> {Reserved, Retry}"
  let ?db = "db\<lparr>orders := sql_update ?hit
     (\<lambda>ow. ow\<lparr>od_status := Sending, od_send_started := Some now, od_updated := now\<rparr>) (orders db)\<rparr>"
  have "order_inv ?db"
    using assms by (intro rewrite_inv)
      (auto intro!: status_keeps platform_unique_update inv_platform simp: in_flight_def)
  with assms answer_inv [of db ?db k] show ?thesis
    by (auto simp: claim_order_for_send_def Let_def split: option.split sum.split prod.split)
qed

lemma retry_inv: "order_inv db \<Longrightarrow> order_inv (fst (mark_order_retry now k e db))"
  unfolding mark_order_retry_def fst_conv
  by (rule rewrite_inv) (auto intro!: status_keeps platform_unique_update inv_platform simp: in_flight_def)

lemma recover_orders_inv: "order_inv db \<Longrightarrow> order_inv (recover_orders db)"
proof -
  assume "order_inv db"
  then have "order_inv (db\<lparr>orders := sql_update (\<lambda>ow. od_status ow = Sending)
      (\<lambda>ow. ow\<lparr>od_status := Retry, od_error := Some ''interrupted_send'', od_send_started := None\<rparr>)
      (orders db)\<rparr>)"
    by (intro rewrite_inv)
      (auto intro!: status_keeps platform_unique_update inv_platform simp: in_flight_def)
  then show ?thesis by (simp add: recover_orders_def order_inv_def)
qed

lemma shipped_inv: "order_inv db \<Longrightarrow> order_inv (fst (mark_platform_shipped now k db))"
  unfolding mark_platform_shipped_def
  by (auto split: option.split intro!: rewrite_inv status_keeps platform_unique_update inv_platform
      simp: in_flight_def)

lemma ship_attempt_inv: "order_inv db \<Longrightarrow> order_inv (fst (record_platform_ship_attempt now k e db))"
  unfolding record_platform_ship_attempt_def write_order_def fst_conv
  by (rule rewrite_inv) (auto intro!: status_keeps platform_unique_update inv_platform simp: in_flight_def)

lemma resolve_inv: "order_inv db \<Longrightarrow> order_inv (fst (resolve_manual_review now k r db))"
  by (simp add: resolve_manual_review_def Let_def)

text \<open>Reviving runs one unguarded statement per key, over the keys selected before.\<close>

lemma fold_revive:
  "orders (fold (revive_step now) ks db) = sql_update (\<lambda>ow. od_key ow \<in> set ks)
     (\<lambda>ow. ow\<lparr>od_status := Verified, od_error := None, od_updated := now\<rparr>) (orders db) \<and>
   inventory (fold (revive_step now) ks db) = inventory db \<and>
   inv_seq (fold (revive_step now) ks db) = inv_seq db"
proof (induction ks arbitrary: db)
  case Nil
  then show ?case by (simp add: sql_update_none)
next
  case (Cons k ks)
  then show ?case by (auto simp: revive_step_def write_order_def sql_update_def)
qed

lemma revive_inv:
  assumes "order_inv db"
  shows "order_inv (fst (revive_takeover_blocked_orders now db))"
proof -
  let ?ks = "map od_key (filter revivable (orders db))"
  let ?f = "\<lambda>ow. ow\<lparr>od_status := Verified, od_error := None, od_updated := now\<rparr>"
  have rev: "revivable ow" if "ow \<in> set (orders db)" "od_key ow \<in> set ?ks" for ow
    using that order_keys.same_row [OF order_invD(1) [OF assms]] by auto
  have "order_inv (db\<lparr>orders := sql_update (\<lambda>ow. od_key ow \<in> set ?ks) ?f (orders db)\<rparr>)"
    using assms
  proof (rule rewrite_inv)
    show "platform_unique (sql_update (\<lambda>ow. od_key ow \<in> set ?ks) ?f (orders db))"
      using assms by (intro platform_unique_update inv_platform) auto
    fix ow
    assume "ow \<in> set (orders db)" "od_key ow \<in> set ?ks"
    then have "revivable ow" by (rule rev)
    then show "keeps_order ?f ow" "in_flight ow \<Longrightarrow> in_flight (?f ow)"
      by (auto intro!: status_keeps simp: revivable_def in_flight_def)
  qed
  then show ?thesis
    using fold_revive [of now ?ks db]
    by (simp add: revive_takeover_blocked_orders_def Let_def order_inv_def)
qed

end
