(* ===== verification/Order_Transfers.thy ===== *)
theory Order_Transfers
  imports Order_Invariants
begin

text \<open>
  Preservation of the order invariant by the operations that add orders and hand cards over: recording
  a payment, binding the platform's proof, reserving cards and delivering them.
\<close>

section \<open>Recording and proving an order\<close>

lemma append_order_inv:
  assumes "order_inv db" "order_by_key (od_key new) db = None" "row_ok new"
    "od_platform_id new = None" "od_status new \<noteq> Delivered"
  shows "order_inv (db\<lparr>orders := orders db @ [new]\<rparr>)"
proof -
  have "unique_key od_key (orders db @ [new])"
    using assms by (intro order_keys.unique_insert) (auto simp: order_invD)
  moreover have "platform_unique (orders db @ [new])"
    using inv_platform [OF assms(1)] assms(4) by (auto simp: platform_unique_def)
  ultimately have "orders_ok (orders db @ [new])"
    using assms(1,3) by (auto simp: order_inv_def orders_ok_def)
  moreover have "reserved_backed (orders db @ [new]) (inventory db)"
    using assms(1) by (auto simp: order_inv_def reserved_backed_def)
  moreover have "delivered_backed (orders db @ [new]) (inventory db)"
    using assms(1,5) by (simp add: order_inv_def delivered_backed_def)
  moreover have "delivered_owned (orders db @ [new]) (inventory db)"
    using assms(1) by (auto simp: order_inv_def delivered_owned_def)
  ultimately show ?thesis
    using assms(1) by (simp add: order_inv_def)
qed

lemma record_payment_inv:
  assumes "order_inv db"
  shows "order_inv (fst (record_payment_event now k chat ev ttl db))"
proof -
  have "order_inv (db\<lparr>orders := orders db @ [new]\<rparr>)"
    if "order_by_key k db = None" "od_key new = k" "od_platform_id new = None"
      "od_inventory new = encode_ids []" "od_status new \<in> {AwaitingBinding, Expired}" for new
    using assms that by (intro append_order_inv) (auto simp: row_ok_def well_stored_def ids_of_def)
  with assms show ?thesis
    by (simp add: record_payment_event_def Let_def split: float_arg.split option.split)
qed

lemma platform_unique_bind:
  assumes "platform_unique os" "\<And>ow. od_key (f ow) = od_key ow" "\<And>ow. od_platform_id (f ow) = Some pid"
    and "\<not> (\<exists>ow \<in> set os. od_key ow \<noteq> k \<and> od_platform_id ow = Some pid)"
  shows "platform_unique (sql_update (\<lambda>ow. od_key ow = k) f os)"
proof -
  have rows: "od_key ow = k \<and> od_platform_id ow = Some pid \<or> ow \<in> set os \<and> od_key ow \<noteq> k"
    if "ow \<in> set (sql_update (\<lambda>ow. od_key ow = k) f os)" for ow
    using that assms(2,3) by (auto elim!: sql_updateE)
  show ?thesis
    unfolding platform_unique_def
  proof (intro ballI allI impI)
    fix a b p
    assume a: "a \<in> set (sql_update (\<lambda>ow. od_key ow = k) f os)"
      and b: "b \<in> set (sql_update (\<lambda>ow. od_key ow = k) f os)"
      and p: "od_platform_id a = Some p \<and> od_platform_id b = Some p"
    from rows [OF a] rows [OF b] p assms(1,4) show "od_key a = od_key b"
      unfolding platform_unique_def by (elim disjE) auto
  qed
qed

lemma bind_inv:
  assumes "order_inv db"
  shows "order_inv (fst (bind_platform_proof now k chat pid ps paid q db))"
proof (cases "order_by_key k db")
  case None
  with assms show ?thesis by (simp add: bind_platform_proof_def)
next
  case (Some row)
  note fo = found_order [OF assms Some]
  let ?f = "\<lambda>ow. ow\<lparr>od_platform_id := Some pid,
       od_verified := (case od_verified ow of None \<Rightarrow> Some now | Some v \<Rightarrow> Some v),
       od_platform_status := Some ps, od_paid := Some paid, od_quantity := q,
       od_status := (if od_status row = AwaitingBinding then Verified else od_status row),
       od_updated := now\<rparr>"
  have "order_inv (db\<lparr>orders := sql_update (\<lambda>ow. od_key ow = k) ?f (orders db)\<rparr>)"
    if other: "\<not> (\<exists>ow \<in> set (orders db). od_key ow \<noteq> k \<and> od_platform_id ow = Some pid)"
      and ps: "od_platform_status row \<in> {None, Some ps}"
    using assms
  proof (rule rewrite_inv)
    show "platform_unique (sql_update (\<lambda>ow. od_key ow = k) ?f (orders db))"
      using inv_platform [OF assms] other by (intro platform_unique_bind) auto
    fix ow
    assume "ow \<in> set (orders db)" "od_key ow = k"
    then have "ow = row" by (rule fo(4))
    then show "in_flight ow \<Longrightarrow> in_flight (?f ow)" by (auto simp: in_flight_def)
    show "keeps_order ?f ow"
      using ps \<open>ow = row\<close>
      by (auto simp: keeps_order_def row_ok_def well_stored_def has_proof_def ids_of_def split: option.split)
  qed
  with Some assms show ?thesis
    by (auto simp: bind_platform_proof_def Let_def)
qed

lemma record_verified_inv:
  assumes "order_inv db"
  shows "order_inv (fst (record_verified_payment_event n1 n2 k chat ev ttl pid ps paid q db))"
proof -
  have 1: "order_inv (fst (record_payment_event n1 k chat ev ttl db))"
    using assms by (rule record_payment_inv)
  obtain db1 res where r: "record_payment_event n1 k chat ev ttl db = (db1, res)" by fastforce
  with 1 have "order_inv db1" by simp
  with assms r show ?thesis
    by (auto simp: record_verified_payment_event_def Let_def bind_inv split: option.split sum.split)
qed

section \<open>Giving cards to an order\<close>

lemma sql_count_pos: "sql_count P t \<noteq> 0 \<longleftrightarrow> (\<exists>r \<in> set t. P r)"
  by (simp add: sql_count_0_iff)

lemma reserve_cards_spec:
  assumes "reserve_cards k buyer now ids cs = Inr cs'"
  shows "cs' = sql_update (\<lambda>r. iv_id r \<in> set ids \<and> iv_status r = InvAvailable)
           (\<lambda>r. r\<lparr>iv_status := InvReserved, iv_resv := Some k, iv_buyer := Some buyer,
                  iv_updated := now\<rparr>) cs"
  using assms
proof (induction ids arbitrary: cs)
  case Nil
  then show ?case by (simp add: sql_update_none)
next
  case (Cons i ids)
  let ?g = "\<lambda>r. r\<lparr>iv_status := InvReserved, iv_resv := Some k, iv_buyer := Some buyer, iv_updated := now\<rparr>"
  from Cons.prems have "reserve_cards k buyer now ids
      (sql_update (\<lambda>r. iv_id r = i \<and> iv_status r = InvAvailable) ?g cs) = Inr cs'"
    by (simp add: Let_def split: if_splits)
  from Cons.IH [OF this] show ?case by (auto simp: sql_update_def)
qed

lemma deliver_cards_spec:
  assumes "deliver_cards k now ids cs = Inr cs'"
  shows "cs' = sql_update (\<lambda>r. iv_id r \<in> set ids \<and> held_by k r)
           (\<lambda>r. r\<lparr>iv_status := InvDelivered, iv_updated := now\<rparr>) cs \<and>
         (\<forall>i \<in> set ids. \<exists>r \<in> set cs. iv_id r = i \<and> held_by k r)"
  using assms
proof (induction ids arbitrary: cs)
  case Nil
  then show ?case by (simp add: sql_update_none)
next
  case (Cons i ids)
  let ?g = "\<lambda>r. r\<lparr>iv_status := InvDelivered, iv_updated := now\<rparr>"
  let ?cs = "sql_update (\<lambda>r. iv_id r = i \<and> held_by k r) ?g cs"
  from Cons.prems have one: "sql_count (\<lambda>r. iv_id r = i \<and> held_by k r) cs = 1"
    and rest: "deliver_cards k now ids ?cs = Inr cs'"
    by (simp_all add: Let_def split: if_splits)
  from one obtain r where "r \<in> set cs" "iv_id r = i" "held_by k r"
    using sql_count_pos [of "\<lambda>r. iv_id r = i \<and> held_by k r" cs] by auto
  moreover have "\<exists>r \<in> set cs. iv_id r = j \<and> held_by k r" if "j \<in> set ids" for j
  proof -
    from Cons.IH [OF rest] that obtain q where q: "q \<in> set ?cs" "iv_id q = j" "held_by k q"
      by blast
    then have "q \<in> set cs" by (auto elim!: sql_updateE simp: held_by_def)
    with q show ?thesis by blast
  qed
  moreover have "cs' = sql_update (\<lambda>r. iv_id r \<in> set (i # ids) \<and> held_by k r) ?g cs"
    using Cons.IH [OF rest] by (auto simp: sql_update_def held_by_def)
  ultimately show ?case by auto
qed

lemma other_rows_stay:
  "ow \<in> set os \<Longrightarrow> od_key ow \<noteq> k \<Longrightarrow> ow \<in> set (sql_update (\<lambda>ow. od_key ow = k) f os)"
  by (auto simp: sql_update_def image_iff)

text \<open>
  A step that rewrites one order and a set of cards in its favour: reserving cards for it and
  marking them delivered are the two instances.
\<close>

definition card_transfer ::
  "order_db \<Rightarrow> string \<Rightarrow> order_row \<Rightarrow> (order_row \<Rightarrow> order_row) \<Rightarrow> (inv_row \<Rightarrow> bool) \<Rightarrow>
   (inv_row \<Rightarrow> inv_row) \<Rightarrow> bool"
where
  "card_transfer db k row f Q g \<longleftrightarrow>
     order_inv db \<and> order_by_key k db = Some row \<and> row_ok (f row) \<and> od_status row \<noteq> Delivered \<and>
     (\<forall>ow. od_key (f ow) = od_key ow \<and> od_platform_id (f ow) = od_platform_id ow) \<and>
     (\<forall>r. iv_id (g r) = iv_id r \<and> iv_kind (g r) = iv_kind r \<and> iv_secret (g r) = iv_secret r) \<and>
     (\<forall>r. Q r \<longrightarrow> iv_status (g r) \<noteq> InvAvailable \<and> iv_status r \<noteq> InvDelivered \<and>
        iv_resv (g r) = Some k \<and> iv_id r \<in> set (ids_of (f row)) \<and>
        (iv_status (g r) = InvReserved \<longrightarrow> in_flight (f row) \<and> od_type (f row) = Some ''redeem'') \<and>
        (iv_status (g r) = InvDelivered \<longrightarrow> od_status (f row) = Delivered)) \<and>
     (\<forall>r \<in> set (inventory db). held_by k r \<and> in_flight row \<and> iv_id r \<in> set (ids_of row) \<longrightarrow> Q r) \<and>
     (od_status (f row) = Delivered \<longrightarrow> (\<forall>i \<in> set (ids_of (f row)).
        \<exists>r \<in> set (inventory db). Q r \<and> iv_id r = i \<and> iv_status (g r) = InvDelivered))"

lemma card_transferD:
  assumes "card_transfer db k row f Q g"
  shows "order_inv db" "order_by_key k db = Some row" "row_ok (f row)" "od_status row \<noteq> Delivered"
    "od_key (f ow) = od_key ow" "od_platform_id (f ow) = od_platform_id ow"
    "iv_id (g r) = iv_id r" "iv_kind (g r) = iv_kind r" "iv_secret (g r) = iv_secret r"
    "Q r \<Longrightarrow> iv_status (g r) \<noteq> InvAvailable" "Q r \<Longrightarrow> iv_status r \<noteq> InvDelivered"
    "Q r \<Longrightarrow> iv_resv (g r) = Some k" "Q r \<Longrightarrow> iv_id r \<in> set (ids_of (f row))"
    "Q r \<Longrightarrow> iv_status (g r) = InvReserved \<Longrightarrow> in_flight (f row) \<and> od_type (f row) = Some ''redeem''"
    "Q r \<Longrightarrow> iv_status (g r) = InvDelivered \<Longrightarrow> od_status (f row) = Delivered"
    "\<lbrakk>r \<in> set (inventory db); held_by k r; in_flight row; iv_id r \<in> set (ids_of row)\<rbrakk> \<Longrightarrow> Q r"
    "od_status (f row) = Delivered \<Longrightarrow> i \<in> set (ids_of (f row)) \<Longrightarrow>
      \<exists>r \<in> set (inventory db). Q r \<and> iv_id r = i \<and> iv_status (g r) = InvDelivered"
  using assms unfolding card_transfer_def by blast+

abbreviation rewritten :: "order_db \<Rightarrow> string \<Rightarrow> (order_row \<Rightarrow> order_row) \<Rightarrow> order_row list" where
  "rewritten db k f \<equiv> sql_update (\<lambda>ow. od_key ow = k) f (orders db)"

lemma new_row:
  assumes ct: "card_transfer db k row f Q g"
  shows "f row \<in> set (rewritten db k f)"
  using found_order(1,2) [OF card_transferD(1,2) [OF ct]] by (auto simp: sql_update_def)

lemma rows_cases:
  assumes ct: "card_transfer db k row f Q g"
  shows "ow \<in> set (rewritten db k f) \<Longrightarrow> ow = f row \<or> ow \<in> set (orders db) \<and> od_key ow \<noteq> k"
  using found_order(4) [OF card_transferD(1,2) [OF ct]] by (auto elim!: sql_updateE)

lemma other_row:
  "ow \<in> set (orders db) \<Longrightarrow> od_key ow \<noteq> k \<Longrightarrow> ow \<in> set (rewritten db k f)"
  by (auto simp: sql_update_def image_iff)

lemma new_cards_ok:
  assumes ct: "card_transfer db k row f Q g"
  shows "cards_ok (inv_seq db) (sql_update Q g (inventory db))"
proof -
  note D = card_transferD [OF ct] and fo = found_order [OF card_transferD(1,2) [OF ct]]
  have "map iv_id (sql_update Q g (inventory db)) = map iv_id (inventory db)"
    "map (\<lambda>r. (iv_kind r, iv_secret r)) (sql_update Q g (inventory db)) = map (\<lambda>r. (iv_kind r, iv_secret r)) (inventory db)"
    using D(7-9) by (auto intro!: map_sql_update_on)
  with D(1,7-10) show ?thesis
    by (auto simp: order_inv_def cards_ok_def unique_key_def elim!: sql_updateE)
qed

lemma new_orders_ok:
  assumes ct: "card_transfer db k row f Q g"
  shows "orders_ok (rewritten db k f)"
proof -
  note D = card_transferD [OF ct] and fo = found_order [OF card_transferD(1,2) [OF ct]]
  have "map od_key (rewritten db k f) = map od_key (orders db)"
    using D(5) by (auto intro!: map_sql_update_on)
  moreover have "row_ok ow" if "ow \<in> set (rewritten db k f)" for ow
    using rows_cases [OF ct that] order_invD(4) [OF D(1)] D(3) by auto
  moreover have "platform_unique (rewritten db k f)"
    using D(1,5,6) by (intro platform_unique_update inv_platform)
  ultimately show ?thesis
    using order_invD(1) [OF D(1)] by (simp add: orders_ok_def unique_key_def)
qed

lemma new_reserved:
  assumes ct: "card_transfer db k row f Q g"
  shows "reserved_backed (rewritten db k f) (sql_update Q g (inventory db))"
  unfolding reserved_backed_def
proof (intro ballI impI)
  note D = card_transferD [OF ct] and fo = found_order [OF card_transferD(1,2) [OF ct]]
  fix r
  assume r: "r \<in> set (sql_update Q g (inventory db))" "iv_status r = InvReserved"
  from r(1) show "\<exists>ow \<in> set (rewritten db k f). iv_resv r = Some (od_key ow) \<and> in_flight ow \<and>
      iv_id r \<in> set (ids_of ow) \<and> od_type ow = Some ''redeem''"
  proof (cases rule: sql_updateE)
    case (hit q)
    with r D(5,7) D(12,13,14) [of q] new_row [OF ct] fo(2) show ?thesis by metis
  next
    case miss
    with D(1) r obtain ow where ow: "ow \<in> set (orders db)" "iv_resv r = Some (od_key ow)"
      "in_flight ow" "iv_id r \<in> set (ids_of ow)" "od_type ow = Some ''redeem''"
      by (auto simp: order_inv_def reserved_backed_def)
    with fo(4) miss r D(16) have "od_key ow \<noteq> k" by (auto simp: held_by_def)
    with ow other_row show ?thesis by blast
  qed
qed

lemma new_delivered_backed:
  assumes ct: "card_transfer db k row f Q g"
  shows "delivered_backed (rewritten db k f) (sql_update Q g (inventory db))"
  unfolding delivered_backed_def
proof (intro ballI impI)
  note D = card_transferD [OF ct] and fo = found_order [OF card_transferD(1,2) [OF ct]]
  fix ow i
  assume ow: "ow \<in> set (rewritten db k f)" "od_status ow = Delivered" "i \<in> set (ids_of ow)"
  from rows_cases [OF ct ow(1)] show "\<exists>r \<in> set (sql_update Q g (inventory db)). iv_id r = i \<and> iv_status r = InvDelivered \<and>
      iv_resv r = Some (od_key ow)"
  proof
    assume eq: "ow = f row"
    with ow D(17) obtain r where r: "r \<in> set (inventory db)" "Q r" "iv_id r = i"
      "iv_status (g r) = InvDelivered" by blast
    then have "g r \<in> set (sql_update Q g (inventory db))" by (auto simp: sql_update_def image_iff)
    with r eq D(5,7) D(12) [of r] fo(2) show ?thesis by metis
  next
    assume "ow \<in> set (orders db) \<and> od_key ow \<noteq> k"
    with D(1) ow obtain r where "r \<in> set (inventory db)" "iv_id r = i" "iv_status r = InvDelivered"
      "iv_resv r = Some (od_key ow)"
      by (auto simp: order_inv_def delivered_backed_def)
    with D(11) show ?thesis
      by (intro bexI [of _ r]) (auto simp: sql_update_def image_iff)
  qed
qed

lemma new_delivered_owned:
  assumes ct: "card_transfer db k row f Q g"
  shows "delivered_owned (rewritten db k f) (sql_update Q g (inventory db))"
  unfolding delivered_owned_def
proof (intro ballI impI)
  note D = card_transferD [OF ct] and fo = found_order [OF card_transferD(1,2) [OF ct]]
  fix r
  assume r: "r \<in> set (sql_update Q g (inventory db))" "iv_status r = InvDelivered"
  from r(1) show "\<exists>ow \<in> set (rewritten db k f). iv_resv r = Some (od_key ow) \<and>
      od_status ow = Delivered \<and> iv_id r \<in> set (ids_of ow)"
  proof (cases rule: sql_updateE)
    case (hit q)
    with r D(5,7) D(12,13,15) [of q] new_row [OF ct] fo(2) show ?thesis by metis
  next
    case miss
    with D(1) r obtain ow where ow: "ow \<in> set (orders db)" "iv_resv r = Some (od_key ow)"
      "od_status ow = Delivered" "iv_id r \<in> set (ids_of ow)"
      by (auto simp: order_inv_def delivered_owned_def)
    with fo(4) D(4) have "od_key ow \<noteq> k" by auto
    with ow other_row show ?thesis by blast
  qed
qed

lemma transfer_inv:
  assumes ct: "card_transfer db k row f Q g"
  shows "order_inv (write_order k f (db\<lparr>inventory := (sql_update Q g (inventory db))\<rparr>))"
  using new_cards_ok [OF ct] new_orders_ok [OF ct] new_reserved [OF ct]
    new_delivered_backed [OF ct] new_delivered_owned [OF ct]
  by (simp add: order_inv_def write_order_def)


lemma grant_inv:
  assumes "order_inv db" "order_by_key k db = Some row" "od_status row = Verified" "has_proof row"
    and cs: "reserve_cards k buyer now ids (inventory db) = Inr cs"
    and f: "\<And>ow. od_key (f ow) = od_key ow" "\<And>ow. od_platform_id (f ow) = od_platform_id ow"
      "\<And>ow. od_status (f ow) = Reserved" "\<And>ow. od_inventory (f ow) = encode_ids ids"
      "\<And>ow. od_type (f ow) = Some ''redeem''" "\<And>ow. has_proof ow \<Longrightarrow> has_proof (f ow)"
  shows "order_inv (write_order k f (db\<lparr>inventory := cs\<rparr>))"
proof -
  have "ids_of (f row) = ids" "row_ok (f row)"
    using f assms(4) by (auto simp: ids_of_def row_ok_def well_stored_def)
  then have "card_transfer db k row f (\<lambda>r. iv_id r \<in> set ids \<and> iv_status r = InvAvailable)
      (\<lambda>r. r\<lparr>iv_status := InvReserved, iv_resv := Some k, iv_buyer := Some buyer, iv_updated := now\<rparr>)"
    using assms(1-3) f(1-3,5) by (simp add: card_transfer_def in_flight_def)
  from transfer_inv [OF this] show ?thesis by (simp add: reserve_cards_spec [OF cs])
qed

lemma deliver_inv:
  assumes inv: "order_inv db"
  shows "order_inv (fst (mark_order_delivered now k db))"
proof (cases "\<exists>row cs. order_by_key k db = Some row \<and> od_status row = Sending \<and>
    deliver_cards k now (ids_of row) (inventory db) = Inr cs")
  case False
  then show ?thesis
    using inv found_order(3) [OF inv]
    by (auto simp: mark_order_delivered_def split: option.split sum.split)
next
  case True
  then obtain row cs where row: "order_by_key k db = Some row" and st: "od_status row = Sending"
    and cs: "deliver_cards k now (ids_of row) (inventory db) = Inr cs" by blast
  let ?f = "\<lambda>ow. ow\<lparr>od_status := Delivered, od_error := None, od_send_started := None,
                  od_updated := now, od_delivered := Some now\<rparr>"
  have "row_ok row" using order_invD(4) [OF inv] found_order(1) [OF inv row] by blast
  then have "row_ok (?f row)" "ids_of (?f row) = ids_of row"
    using st by (auto simp: row_ok_def well_stored_def has_proof_def ids_of_def)
  then have "card_transfer db k row ?f (\<lambda>r. iv_id r \<in> set (ids_of row) \<and> held_by k r)
      (\<lambda>r. r\<lparr>iv_status := InvDelivered, iv_updated := now\<rparr>)"
    using inv row st deliver_cards_spec [OF cs]
    by (auto simp: card_transfer_def held_by_def)
  from transfer_inv [OF this] deliver_cards_spec [OF cs]
  have "order_inv (write_order k ?f (db\<lparr>inventory := cs\<rparr>))" by simp
  with row st cs found_order(3) [OF inv row] show ?thesis by (simp add: mark_order_delivered_def)
qed

section \<open>Preparing an order\<close>

lemma encode_ids_of: "row_ok row \<Longrightarrow> encode_ids (ids_of row) = od_inventory row"
  by (auto simp: row_ok_def well_stored_def ids_of_def)

lemma allocate_inv:
  assumes inv: "order_inv db" and row: "order_by_key k db = Some row"
    and st: "od_status row = Verified" and pf: "has_proof row" and ty: "od_type row \<in> {None, Some dtype}"
  shows "order_inv (fst (allocate_order now k buyer item dtype q pl row db))"
proof -
  note fo = found_order [OF inv row]
  have ok: "row_ok row" using order_invD(4) [OF inv fo(1)] .
  let ?f = "\<lambda>ids ow. ow\<lparr>od_buyer := Some buyer, od_item := Some item, od_type := Some dtype,
        od_payload := pl, od_quantity := q, od_status := Reserved, od_inventory := encode_ids ids,
        od_error := None, od_updated := now\<rparr>"
  let ?e = "\<lambda>ow. ow\<lparr>od_buyer := Some buyer, od_item := Some item, od_type := Some dtype,
        od_status := ManualReview, od_error := Some ''inventory_empty'', od_updated := now\<rparr>"
  have old: "order_inv (write_order k (?f (ids_of row)) db)"
    using inv row by (rule write_inv)
      (use ok st pf ty in \<open>auto simp: keeps_order_def encode_ids_of row_ok_def well_stored_def has_proof_def in_flight_def ids_of_def\<close>)
  have empty: "order_inv (write_order k ?e db)"
    using inv row by (rule write_inv)
      (use ok st ty in \<open>auto simp: keeps_order_def row_ok_def well_stored_def in_flight_def ids_of_def\<close>)
  have fresh: "order_inv (write_order k (?f ids) (db\<lparr>inventory := cs\<rparr>))"
    if "reserve_cards k buyer now ids (inventory db) = Inr cs" "dtype = ''redeem''" for ids cs
    using inv row st pf that(1) by (rule grant_inv) (use that(2) in \<open>auto simp: has_proof_def\<close>)
  have "order_inv (fst (answer_order db k (write_order k (?f (ids_of row)) db)))"
    "\<And>rvs. order_inv (fst (answer_order db k ((write_order k ?e db)\<lparr>reviews := rvs\<rparr>)))"
    using answer_inv [OF inv] old empty by simp_all
  moreover have "order_inv (fst (answer_order db k (write_order k (?f ids) (db\<lparr>inventory := cs\<rparr>))))"
    if "reserve_cards k buyer now ids (inventory db) = Inr cs" "dtype = ''redeem''" for ids cs
    using answer_inv [OF inv] fresh [OF that] by simp
  ultimately show ?thesis
    using inv fo(3)
    by (cases "dtype = ''redeem''") (simp_all add: allocate_order_def Let_def split: sum.split)
qed

lemma if_inv:
  "(b \<Longrightarrow> order_inv (fst x)) \<Longrightarrow> (\<not> b \<Longrightarrow> order_inv (fst y)) \<Longrightarrow> order_inv (fst (if b then x else y))"
  by simp

lemma prepare_inv:
  assumes inv: "order_inv db"
  shows "order_inv (fst (prepare_order now k chat buyer item dtype quantity payload db))"
proof (cases "order_by_key k db")
  case None
  with inv show ?thesis by (simp add: prepare_order_def Let_def split: option.split)
next
  case (Some row)
  have pay: "order_inv (write_order k (\<lambda>ow. ow\<lparr>od_payload := pl, od_updated := now\<rparr>) db)" for pl
    using inv Some by (rule write_inv) (auto intro!: status_keeps simp: in_flight_def)
  have a: "order_inv (fst (answer_order db k db))"
    "\<And>pl. order_inv (fst (answer_order db k
       (write_order k (\<lambda>ow. ow\<lparr>od_payload := pl, od_updated := now\<rparr>) db)))"
    using answer_inv [OF inv inv] answer_inv [OF inv pay] by blast+
  have b: "order_inv (fst (allocate_order now k buyer item dtype q pl row db))"
    if "has_proof row" "od_status row = Verified" "od_type row \<in> {None, Some dtype}" for q pl
    using allocate_inv [OF inv Some that(2,1,3)] .
  show ?thesis
  proof (cases "as_int quantity")
    case None
    with inv show ?thesis by (simp add: prepare_order_def)
  next
    case q: (Some q)
    show ?thesis
      unfolding prepare_order_def Let_def Some q option.case
      by (intro if_inv) (simp_all add: inv a b)
  qed
qed

end
