(* ===== verification/Order_Import.thy ===== *)
theory Order_Import
  imports Order_Transfers
begin

text \<open>
  The inventory import: it keeps the order invariant, it never fails on a manifest that parses, and
  afterwards only cards the manifest lists as unused are available or reserved.
\<close>

section \<open>Inventory import\<close>

lemma parse_inventory_rows:
  assumes "parse_inventory name seen items = Inr rows"
  shows "distinct (map fst rows) \<and> set (map fst rows) \<inter> set seen = {} \<and>
         snd ` set rows \<subseteq> {InvAvailable, InvLegacyUsed}"
  using assms
proof (induction items arbitrary: seen rows)
  case Nil
  then show ?case by simp
next
  case (Cons item items)
  from Cons.prems obtain d code rest where d: "item = PDict d" "as_str (dict_get d ''code'') = Some code"
    "py_strip code \<notin> set seen" "parse_inventory name (py_strip code # seen) items = Inr rest"
    "rows = (py_strip code, if dict_get d ''used'' = PBool True then InvLegacyUsed else InvAvailable) # rest"
    by (auto split: pyval.splits option.splits if_splits sum.splits)
  from Cons.IH [OF d(4)] d(3,5) show ?case by auto
qed

definition import_ok :: "order_db \<Rightarrow> inv_row list \<Rightarrow> string \<Rightarrow> string set \<Rightarrow> import_state \<Rightarrow> bool" where
  "import_ok db existing kind seen = (\<lambda>(cards, seq, revoked).
     order_inv (db\<lparr>inventory := cards, inv_seq := seq\<rparr>) \<and>
     (\<forall>cur \<in> set existing. iv_kind cur = kind \<and> iv_id cur \<le> seq \<and> (iv_status cur \<in> {InvAvailable, InvReserved} \<longrightarrow>
        (\<forall>r \<in> set cards. iv_id r = iv_id cur \<longrightarrow> iv_status r \<noteq> InvDelivered))) \<and>
     (\<forall>r \<in> set cards. iv_kind r = kind \<longrightarrow> iv_secret r \<in> iv_secret ` set existing \<union> seen))"

lemma revoke_card_ok:
  assumes ok: "import_ok db existing kind seen (cards, seq, rv)"
    and cur: "cur \<in> set existing" "iv_status cur \<in> {InvAvailable, InvReserved}"
    and st: "st \<in> {InvQuarantined, InvLegacyUsed}"
  shows "import_ok db existing kind seen (sql_update (\<lambda>r. iv_id r = iv_id cur)
           (\<lambda>r. r\<lparr>iv_status := st, iv_updated := now\<rparr>) cards, seq, rv')"
proof -
  let ?cs = "sql_update (\<lambda>r. iv_id r = iv_id cur) (\<lambda>r. r\<lparr>iv_status := st, iv_updated := now\<rparr>) cards"
  have inv: "order_inv (db\<lparr>inventory := cards, inv_seq := seq\<rparr>)"
    using ok by (simp add: import_ok_def)
  have "order_inv ((db\<lparr>inventory := cards, inv_seq := seq\<rparr>)
      \<lparr>inventory := sql_update (\<lambda>r. iv_id r = iv_id cur) (\<lambda>r. r\<lparr>iv_status := st, iv_updated := now\<rparr>)
         (inventory (db\<lparr>inventory := cards, inv_seq := seq\<rparr>)),
       orders := sql_update (\<lambda>_. False) id (orders (db\<lparr>inventory := cards, inv_seq := seq\<rparr>)),
       reviews := reviews db\<rparr>)"
    using inv
  proof (rule withdraw_inv)
    fix r assume "r \<in> set (inventory (db\<lparr>inventory := cards, inv_seq := seq\<rparr>))" "iv_id r = iv_id cur"
    then show "lets_go (\<lambda>r. r\<lparr>iv_status := st, iv_updated := now\<rparr>) r"
      using ok cur st by (auto simp: import_ok_def lets_go_def)
  qed (use inv_platform [OF inv] in \<open>simp_all add: sql_update_none\<close>)
  then have "order_inv (db\<lparr>inventory := ?cs, inv_seq := seq\<rparr>)"
    by (simp add: sql_update_none order_inv_def)
  moreover have "\<forall>c \<in> set existing. iv_kind c = kind \<and> iv_id c \<le> seq \<and> (iv_status c \<in> {InvAvailable, InvReserved} \<longrightarrow>
        (\<forall>r \<in> set ?cs. iv_id r = iv_id c \<longrightarrow> iv_status r \<noteq> InvDelivered))"
    using ok st by (auto simp: import_ok_def elim!: sql_updateE)
  moreover have "\<forall>r \<in> set ?cs. iv_kind r = kind \<longrightarrow> iv_secret r \<in> iv_secret ` set existing \<union> seen"
    using ok by (fastforce simp: import_ok_def elim!: sql_updateE)
  ultimately show ?thesis by (simp add: import_ok_def)
qed

lemma append_card_inv:
  assumes inv: "order_inv db" and new: "iv_id new = inv_seq db + 1" "iv_resv new = None"
      "iv_status new \<in> {InvAvailable, InvLegacyUsed}" "iv_kind new = ''redeem''"
    and fresh: "\<And>r. r \<in> set (inventory db) \<Longrightarrow> iv_kind r = iv_kind new \<Longrightarrow> iv_secret r \<noteq> iv_secret new"
  shows "order_inv (db\<lparr>inventory := inventory db @ [new], inv_seq := inv_seq db + 1\<rparr>)"
proof -
  have c: "cards_ok (inv_seq db) (inventory db)" using inv by (simp add: order_inv_def)
  then have "cards_ok (inv_seq db + 1) (inventory db @ [new])"
    using new fresh by (fastforce simp: cards_ok_def unique_key_def)
  moreover have "reserved_backed (orders db) (inventory db @ [new])"
    "delivered_backed (orders db) (inventory db @ [new])"
    "delivered_owned (orders db) (inventory db @ [new])"
    using inv new(3) by (fastforce simp: order_inv_def reserved_backed_def delivered_backed_def delivered_owned_def)+
  ultimately show ?thesis using inv by (simp add: order_inv_def)
qed

lemma import_row_ok:
  assumes ok: "import_ok db existing kind seen s" and new: "secret \<notin> seen"
    and st: "st \<in> {InvAvailable, InvLegacyUsed}" and kind: "kind = ''redeem''"
  shows "import_ok db existing kind (insert secret seen) (import_row kind now existing (secret, st) s)"
proof -
  obtain cards seq rv where s: "s = (cards, seq, rv)" by (cases s) auto
  have grow: "import_ok db existing kind (insert secret seen) s'" if "import_ok db existing kind seen s'" for s'
    using that by (auto simp: import_ok_def split: prod.splits)
  show ?thesis
  proof (cases "find (\<lambda>r. iv_kind r = kind \<and> iv_secret r = secret) existing")
    case None
    let ?db = "db\<lparr>inventory := cards, inv_seq := seq\<rparr>"
    let ?new = "\<lparr>iv_id = seq + 1, iv_kind = kind, iv_secret = secret, iv_status = st,
                 iv_resv = None, iv_buyer = None, iv_created = now, iv_updated = now\<rparr>"
    have "iv_secret r \<noteq> secret" if "r \<in> set cards" "iv_kind r = kind" for r
      using find_NoneD [OF None] ok s new that by (fastforce simp: import_ok_def)
    then have "order_inv (?db\<lparr>inventory := inventory ?db @ [?new], inv_seq := inv_seq ?db + 1\<rparr>)"
      using ok s st kind by (intro append_card_inv) (auto simp: import_ok_def)
    with ok s st None show ?thesis
      by (auto simp: import_row_def import_ok_def)
  next
    case (Some cur)
    then have "cur \<in> set existing" by (auto dest: find_SomeD)
    with ok s Some grow revoke_card_ok [of db existing kind seen cards seq rv cur] show ?thesis
      by (simp add: import_row_def)
  qed
qed

lemma import_rows_ok:
  assumes "import_ok db existing kind seen s" "distinct (map fst rows)"
    "set (map fst rows) \<inter> seen = {}" "snd ` set rows \<subseteq> {InvAvailable, InvLegacyUsed}" "kind = ''redeem''"
  shows "import_ok db existing kind (seen \<union> fst ` set rows) (fold (import_row kind now existing) rows s)"
  using assms
proof (induction rows arbitrary: seen s)
  case Nil
  then show ?case by simp
next
  case (Cons row rows)
  obtain secret st where row: "row = (secret, st)" by (cases row) auto
  have "import_ok db existing kind (insert secret seen) (import_row kind now existing (secret, st) s)"
    using Cons.prems row by (intro import_row_ok) auto
  with Cons.IH [OF this] Cons.prems row show ?case by (auto simp: Un_commute)
qed

lemma revoke_missing_ok:
  assumes "import_ok db existing kind seen s" "set curs \<subseteq> set existing"
  shows "import_ok db existing kind seen (fold (revoke_missing kind now incoming) curs s)"
  using assms
proof (induction curs arbitrary: s)
  case Nil
  then show ?case by simp
next
  case (Cons cur curs)
  obtain cards seq rv where s: "s = (cards, seq, rv)" by (cases s) auto
  have "import_ok db existing kind seen (revoke_missing kind now incoming cur s)"
    using Cons.prems s revoke_card_ok [of db existing kind seen cards seq rv cur InvQuarantined]
    by (simp add: revoke_missing_def)
  with Cons.IH [OF this] Cons.prems show ?case by simp
qed

text \<open>
  The loop over the in-flight orders works on the rows read before it; the rows it meets later
  still have the key and the card list they had then.
\<close>

lemma quarantine_claims_inv:
  assumes "order_inv db"
    and "\<And>row. row \<in> set rows \<Longrightarrow> \<exists>ow \<in> set (orders db). od_key ow = od_key row \<and> od_inventory ow = od_inventory row"
  shows "\<exists>db'. quarantine_claims reasons now rows db = Inr db' \<and> order_inv db' \<and> inv_seq db' = inv_seq db"
  using assms
proof (induction rows arbitrary: db)
  case Nil
  then show ?case by simp
next
  case (Cons row rows)
  from Cons.prems(2) obtain ow where ow: "ow \<in> set (orders db)" "od_key ow = od_key row"
    "od_inventory ow = od_inventory row" by auto
  then have dec: "decode_ids (od_inventory row) = Inr (ids_of row)"
    using order_invD(3) [OF Cons.prems(1) ow(1)] by (simp add: ids_of_def)
  show ?case
  proof (cases "filter (\<lambda>i. i \<in> fst ` set reasons) (ids_of row)")
    case Nil
    with dec Cons show ?thesis by simp
  next
    case (Cons a as)
    let ?r = "the (map_of (rev reasons) a)"
    let ?P = "\<lambda>ow. od_key ow = od_key row \<and> in_flight ow"
    let ?f = "\<lambda>ow. ow\<lparr>od_status := ManualReview, od_error := Some ?r, od_send_started := None, od_updated := now\<rparr>"
    let ?db = "db\<lparr>orders := sql_update ?P ?f (orders db),
       inventory := quarantine_ids now (od_key row) (ids_of row) (inventory db),
       reviews := upsert_manual_review (od_key row) ?r now (reviews db)\<rparr>"
    have same: "q = ow" if "q \<in> set (orders db)" "od_key q = od_key row" for q
      using order_keys.same_row [OF order_invD(1) [OF Cons.prems(1)] that(1) ow(1)] that(2) ow(2) by simp
    have "order_inv (db\<lparr>inventory := sql_update (\<lambda>r. iv_id r \<in> set (ids_of row) \<and> held_by (od_key row) r)
        (\<lambda>r. r\<lparr>iv_status := InvQuarantined, iv_updated := now\<rparr>) (inventory db),
        orders := sql_update ?P ?f (orders db), reviews := upsert_manual_review (od_key row) ?r now (reviews db)\<rparr>)"
      using Cons.prems(1)
    proof (rule withdraw_inv)
      show "platform_unique (sql_update ?P ?f (orders db))"
        using Cons.prems(1) by (intro platform_unique_update inv_platform) auto
    qed (use same ow(3) in \<open>auto intro!: status_keeps simp: lets_go_def held_by_def ids_of_def in_flight_def\<close>)
    then have "order_inv ?db" by (simp add: quarantine_ids_set order_inv_def)
    moreover have "\<exists>ow \<in> set (orders ?db). od_key ow = od_key row' \<and> od_inventory ow = od_inventory row'"
      if "row' \<in> set rows" for row'
    proof -
      from that Cons.prems(2) obtain q where "q \<in> set (orders db)" "od_key q = od_key row'"
        "od_inventory q = od_inventory row'" by auto
      then show ?thesis
        by (intro bexI [of _ "if ?P q then ?f q else q"]) (auto simp: sql_update_def)
    qed
    ultimately have "\<exists>db'. quarantine_claims reasons now rows ?db = Inr db' \<and> order_inv db' \<and> inv_seq db' = inv_seq ?db"
      by (rule Cons.IH)
    with dec Cons show ?thesis by (simp add: Let_def)
  qed
qed


section \<open>What an import leaves for sale\<close>

definition sellable :: "string \<Rightarrow> inv_row \<Rightarrow> bool" where
  "sellable kind r \<longleftrightarrow> iv_kind r = kind \<and> iv_status r \<in> {InvAvailable, InvReserved}"

text \<open>Every card still for sale is listed as unused, or not decided yet and as it was at the start.\<close>

definition undecided :: "inv_row list \<Rightarrow> string \<Rightarrow> (string \<times> inv_status) list \<Rightarrow> inv_row list \<Rightarrow> bool" where
  "undecided existing kind rows cards \<longleftrightarrow> (\<forall>r \<in> set cards. sellable kind r \<longrightarrow>
     (iv_secret r, InvAvailable) \<in> set rows \<or>
     iv_secret r \<notin> fst ` set rows \<and> (\<exists>cur \<in> set existing. iv_id cur = iv_id r \<and>
        iv_secret cur = iv_secret r \<and> iv_kind cur = kind \<and> iv_status cur = iv_status r))"

lemma undecidedI:
  assumes "\<And>r. r \<in> set cards' \<Longrightarrow> sellable kind r \<Longrightarrow> (iv_secret r, InvAvailable) \<notin> set rows' \<Longrightarrow>
     r \<in> set cards \<and> (\<forall>cur \<in> set existing. iv_id cur = iv_id r \<and>
        iv_secret cur = iv_secret r \<and> iv_kind cur = kind \<and> iv_status cur = iv_status r \<longrightarrow> iv_secret r \<notin> fst ` (set rows' - set rows))"
    and "undecided existing kind rows cards" "set rows \<subseteq> set rows'"
  shows "undecided existing kind rows' cards'"
  unfolding undecided_def
proof (intro ballI impI)
  fix r assume r: "r \<in> set cards'" "sellable kind r"
  show "(iv_secret r, InvAvailable) \<in> set rows' \<or>
     iv_secret r \<notin> fst ` set rows' \<and> (\<exists>cur \<in> set existing. iv_id cur = iv_id r \<and>
        iv_secret cur = iv_secret r \<and> iv_kind cur = kind \<and> iv_status cur = iv_status r)"
  proof (cases "(iv_secret r, InvAvailable) \<in> set rows'")
    case False
    with assms(1) [OF r] have c: "r \<in> set cards" by simp
    with assms(2,3) r False obtain cur where cur: "cur \<in> set existing" "iv_id cur = iv_id r"
      "iv_secret cur = iv_secret r" "iv_kind cur = kind" "iv_status cur = iv_status r"
      "iv_secret r \<notin> fst ` set rows"
      by (auto simp: undecided_def)
    with assms(1) [OF r False] have "iv_secret r \<notin> fst ` (set rows' - set rows)" by blast
    with cur have "iv_secret r \<notin> fst ` set rows'" by blast
    with cur show ?thesis by blast
  qed simp
qed

lemma import_row_undecided:
  assumes "undecided existing kind rows cards" "distinct (map iv_secret existing)"
    "import_row kind now existing (secret, st) (cards, seq, rv) = (cards', seq', rv')"
    "st \<in> {InvAvailable, InvLegacyUsed}"
  shows "undecided existing kind (rows @ [(secret, st)]) cards'"
proof (rule undecidedI [OF _ assms(1)])
  fix r assume r: "r \<in> set cards'" "sellable kind r" "(iv_secret r, InvAvailable) \<notin> set (rows @ [(secret, st)])"
  show "r \<in> set cards \<and> (\<forall>cur \<in> set existing. iv_id cur = iv_id r \<and>
        iv_secret cur = iv_secret r \<and> iv_kind cur = kind \<and> iv_status cur = iv_status r \<longrightarrow>
        iv_secret r \<notin> fst ` (set (rows @ [(secret, st)]) - set rows))"
  proof (cases "find (\<lambda>r. iv_kind r = kind \<and> iv_secret r = secret) existing")
    case None
    let ?new = "\<lparr>iv_id = seq + 1, iv_kind = kind, iv_secret = secret, iv_status = st,
                 iv_resv = None, iv_buyer = None, iv_created = now, iv_updated = now\<rparr>"
    have "(iv_secret ?new, InvAvailable) \<in> set (rows @ [(secret, st)]) \<or> \<not> sellable kind ?new"
      using assms(4) by (auto simp: sellable_def)
    with r(2,3) have "r \<noteq> ?new" by blast
    with None assms(3) r(1) have "r \<in> set cards" by (auto simp: import_row_def)
    with find_NoneD [OF None] show ?thesis by fastforce
  next
    case (Some c)
    then have c: "c \<in> set existing" "iv_secret c = secret" "iv_kind c = kind" by (auto dest: find_SomeD)
    have one: "cur = c" if "cur \<in> set existing" "iv_secret cur = secret" for cur
      using distinct_map_eqD [OF assms(2) that(1) c(1)] that(2) c(2) by simp
    have "r \<in> set cards \<and> (iv_id r = iv_id c \<longrightarrow> st = InvAvailable \<or> \<not> sellable kind c)"
      using assms(3,4) Some r(1,2) c(3)
      by (auto simp: import_row_def sellable_def split: if_splits elim!: sql_updateE)
    with one r(2,3) c(2) show ?thesis by (fastforce simp: sellable_def)
  qed
qed auto

lemma import_rows_undecided:
  assumes "undecided existing kind done cards" "distinct (map iv_secret existing)"
    "fold (import_row kind now existing) rows (cards, seq, rv) = (cards', seq', rv')"
    "snd ` set rows \<subseteq> {InvAvailable, InvLegacyUsed}"
  shows "undecided existing kind (done @ rows) cards'"
  using assms
proof (induction rows arbitrary: "done" cards seq rv)
  case Nil
  then show ?case by simp
next
  case (Cons row rows)
  obtain secret st where row: "row = (secret, st)" by (cases row) auto
  obtain c1 s1 r1 where 1: "import_row kind now existing (secret, st) (cards, seq, rv) = (c1, s1, r1)"
    by (cases "import_row kind now existing (secret, st) (cards, seq, rv)") auto
  have "undecided existing kind (done @ [(secret, st)]) c1"
    using Cons.prems row by (intro import_row_undecided [OF _ _ 1]) auto
  from Cons.IH [OF this Cons.prems(2), of s1 r1] Cons.prems(3,4) row 1 show ?case by simp
qed

lemma revoke_missing_undecided:
  assumes "fold (revoke_missing kind now (map fst rows)) curs (cards, seq, rv) = (cards', seq', rv')"
    and "r \<in> set cards'" "sellable kind r"
  shows "r \<in> set cards \<and> (\<forall>cur \<in> set curs. iv_id cur = iv_id r \<and> sellable kind cur \<longrightarrow>
           iv_secret cur \<in> fst ` set rows)"
  using assms
proof (induction curs arbitrary: cards seq rv)
  case Nil
  then show ?case by simp
next
  case (Cons cur curs)
  obtain c1 s1 r1 where 1: "revoke_missing kind now (map fst rows) cur (cards, seq, rv) = (c1, s1, r1)"
    by (cases "revoke_missing kind now (map fst rows) cur (cards, seq, rv)") auto
  from Cons 1 have "r \<in> set c1 \<and> (\<forall>cur \<in> set curs. iv_id cur = iv_id r \<and> sellable kind cur \<longrightarrow>
           iv_secret cur \<in> fst ` set rows)" by simp
  moreover from this 1 Cons.prems(3)
  have "r \<in> set cards \<and> (iv_id cur = iv_id r \<and> sellable kind cur \<longrightarrow> iv_secret cur \<in> fst ` set rows)"
  proof (cases "sellable kind cur \<and> iv_secret cur \<notin> fst ` set rows")
    case True
    with 1 have "c1 = sql_update (\<lambda>r. iv_id r = iv_id cur)
        (\<lambda>r. r\<lparr>iv_status := InvQuarantined, iv_updated := now\<rparr>) cards"
      by (auto simp: revoke_missing_def sellable_def)
    with calculation have "r \<in> set cards" "iv_id r \<noteq> iv_id cur"
      using Cons.prems(3) by (auto simp: sellable_def elim!: sql_updateE)
    then show ?thesis by simp
  next
    case False
    with 1 have "c1 = cards" by (auto simp: revoke_missing_def sellable_def split: if_splits)
    with calculation False show ?thesis by blast
  qed
  ultimately show ?case by simp
qed

lemma quarantine_claims_sellable:
  assumes "quarantine_claims reasons now rows db = Inr db'" "r \<in> set (inventory db')" "sellable kind r"
  shows "r \<in> set (inventory db)"
  using assms
proof (induction rows arbitrary: db)
  case Nil
  then show ?case by simp
next
  case (Cons row rows)
  have keep: "r \<in> set cs" if "r \<in> set (quarantine_ids now k ids cs)" for k ids cs
    using that Cons.prems(3) by (auto simp: quarantine_ids_set sellable_def elim!: sql_updateE)
  show ?case
  proof (cases "decode_ids (od_inventory row)")
    case (Inl e)
    with Cons.prems(1) show ?thesis by simp
  next
    case (Inr ids)
    show ?thesis
    proof (cases "filter (\<lambda>i. i \<in> fst ` set reasons) ids")
      case Nil
      with Inr Cons show ?thesis by simp
    next
      case (Cons a as)
      with Inr Cons.prems(1) Cons.IH [OF _ Cons.prems(2,3)] keep show ?thesis
        by (fastforce simp: Let_def)
    qed
  qed
qed

lemma import_start:
  assumes "order_inv db"
  shows "import_ok db (filter (\<lambda>r. iv_kind r = kind) (inventory db)) kind {}
           (inventory db, inv_seq db, [])"
  using assms distinct_map_eqD [of iv_id "inventory db"]
  by (fastforce simp: import_ok_def order_inv_def cards_ok_def unique_key_def)

lemma import_result:
  assumes inv: "order_inv db" and loaded: "load_json name file = Inr (Some (PList items))"
    and rows: "parse_inventory name [] items = Inr rows"
  shows "\<exists>db'. import_inventory now name file ''redeem'' db = (db', Inr (length rows)) \<and>
     order_inv db' \<and> (\<forall>r \<in> set (inventory db'). sellable ''redeem'' r \<longrightarrow> (iv_secret r, InvAvailable) \<in> set rows)"
proof -
  let ?ex = "filter (\<lambda>r. iv_kind r = ''redeem'') (inventory db)"
  note pr = parse_inventory_rows [OF rows]
  obtain c1 q1 v1 where 1: "fold (import_row ''redeem'' now ?ex) rows (inventory db, inv_seq db, []) = (c1, q1, v1)"
    by (metis prod_cases3)
  obtain c2 q2 v2 where 2: "fold (revoke_missing ''redeem'' now (map fst rows)) ?ex (c1, q1, v1) = (c2, q2, v2)"
    by (metis prod_cases3)
  have "import_ok db ?ex ''redeem'' ({} \<union> fst ` set rows) (c1, q1, v1)"
    using import_rows_ok [OF import_start [OF inv, of "''redeem''"], of rows now] pr 1 by simp
  then have "import_ok db ?ex ''redeem'' ({} \<union> fst ` set rows) (c2, q2, v2)"
    using revoke_missing_ok [of db ?ex "''redeem''" _ "(c1, q1, v1)" ?ex now "map fst rows"] 2 by simp
  then have inv2: "order_inv (db\<lparr>inventory := c2, inv_seq := q2\<rparr>)" by (simp add: import_ok_def)
  let ?os = "filter (\<lambda>ow. od_type ow = Some ''redeem'' \<and> in_flight ow) (orders db)"
  obtain db' where q: "quarantine_claims v2 now ?os (db\<lparr>inventory := c2, inv_seq := q2\<rparr>) = Inr db'"
    and "order_inv db'"
    using quarantine_claims_inv [OF inv2, of ?os v2 now] by auto
  have sec: "distinct (map iv_secret ?ex)"
    using inv by (auto simp: order_inv_def cards_ok_def unique_key_def distinct_map inj_on_def)
  have "undecided ?ex ''redeem'' [] (inventory db)" by (auto simp: undecided_def sellable_def)
  from import_rows_undecided [OF this sec 1] pr have u: "undecided ?ex ''redeem'' rows c1" by simp
  have c2: "(iv_secret r, InvAvailable) \<in> set rows" if "r \<in> set c2" "sellable ''redeem'' r" for r
    using revoke_missing_undecided [OF 2 that] u that(2) unfolding undecided_def sellable_def by metis
  have sell: "(iv_secret r, InvAvailable) \<in> set rows" if "r \<in> set (inventory db')" "sellable ''redeem'' r" for r
    using c2 quarantine_claims_sellable [OF q that] that(2) by simp
  have "quarantine_delivery_claims v2 now (db\<lparr>inventory := c2, inv_seq := q2\<rparr>) =
      Inr (if v2 = [] then db\<lparr>inventory := c2, inv_seq := q2\<rparr> else db')"
    using q by (simp add: quarantine_delivery_claims_def)
  with loaded rows 1 2 have "import_inventory now name file ''redeem'' db =
      (if v2 = [] then db\<lparr>inventory := c2, inv_seq := q2\<rparr> else db', Inr (length rows))"
    by (simp add: import_inventory_def Let_def)
  with inv2 \<open>order_inv db'\<close> c2 sell show ?thesis by auto
qed

lemma import_inv:
  assumes "order_inv db"
  shows "order_inv (fst (import_inventory now name file kind db))"
proof (cases "\<exists>items rows. load_json name file = Inr (Some (PList items)) \<and> kind = ''redeem'' \<and> parse_inventory name [] items = Inr rows")
  case True
  then obtain items rows where i: "load_json name file = Inr (Some (PList items))" "kind = ''redeem''"
    "parse_inventory name [] items = Inr rows" by blast
  from import_result [OF assms i(1,3), of now] i(2) show ?thesis by auto
next
  case False
  with assms show ?thesis
    by (cases "kind = ''redeem''") (auto simp: import_inventory_def split: option.split pyval.split sum.split)
qed

end
