(* ===== verification/Order_System.thy ===== *)
theory Order_System
  imports Order_Import
begin

text \<open>
  The order tables as a transition system: any sequence of the store's operations, restarts included,
  from the empty database.  The invariant holds in every reachable state, and the status of an order
  moves only along \<open>order_allowed\<close>.
\<close>

section \<open>Operations and steps\<close>

datatype order_op =
    OpImport time string state_file string
  | OpRecord time string string float_arg time
  | OpRecordVerified time time string string float_arg time string string string pyval
  | OpAwaiting time
  | OpManualReview time string string
  | OpResolve time string string
  | OpQuarantineAutomatic time string
  | OpCancelChat time string
  | OpPrepare time string string string string string pyval "string option"
  | OpClaim time string
  | OpRetry time string string
  | OpDelivered time string
  | OpShipped time string
  | OpShipAttempt time string string
  | OpRevive time
  | OpRestart

fun order_apply :: "order_op \<Rightarrow> order_db \<Rightarrow> order_db" where
  "order_apply (OpImport now name file kind) db = fst (import_inventory now name file kind db)"
| "order_apply (OpRecord now k chat ev ttl) db = fst (record_payment_event now k chat ev ttl db)"
| "order_apply (OpRecordVerified n1 n2 k chat ev ttl pid ps paid q) db =
     fst (record_verified_payment_event n1 n2 k chat ev ttl pid ps paid q db)"
| "order_apply (OpAwaiting now) db = fst (awaiting_events now db)"
| "order_apply (OpManualReview now k reason) db = fst (mark_order_manual_review now k reason db)"
| "order_apply (OpResolve now k r) db = fst (resolve_manual_review now k r db)"
| "order_apply (OpQuarantineAutomatic now r) db = fst (quarantine_automatic_orders now r db)"
| "order_apply (OpCancelChat now chat) db = fst (cancel_awaiting_for_chat now chat db)"
| "order_apply (OpPrepare now k chat buyer item dtype q pl) db =
     fst (prepare_order now k chat buyer item dtype q pl db)"
| "order_apply (OpClaim now k) db = fst (claim_order_for_send now k db)"
| "order_apply (OpRetry now k e) db = fst (mark_order_retry now k e db)"
| "order_apply (OpDelivered now k) db = fst (mark_order_delivered now k db)"
| "order_apply (OpShipped now k) db = fst (mark_platform_shipped now k db)"
| "order_apply (OpShipAttempt now k e) db = fst (record_platform_ship_attempt now k e db)"
| "order_apply (OpRevive now) db = fst (revive_takeover_blocked_orders now db)"
| "order_apply OpRestart db = recover_orders db"

inductive order_step :: "order_db \<Rightarrow> order_db \<Rightarrow> bool" where
  "order_step db (order_apply opr db)"

inductive_cases order_stepE: "order_step db db'"

definition order_run :: "order_op list \<Rightarrow> order_db \<Rightarrow> order_db" where
  "order_run ops db = fold order_apply ops db"

lemma order_run_steps: "order_step\<^sup>*\<^sup>* db (order_run ops db)"
proof (induction ops arbitrary: db)
  case Nil
  then show ?case by (simp add: order_run_def)
next
  case (Cons opr ops)
  have "order_step db (order_apply opr db)" by (rule order_step.intros)
  with Cons [of "order_apply opr db"] show ?case
    by (simp add: order_run_def converse_rtranclp_into_rtranclp)
qed

lemma apply_inv: "order_inv db \<Longrightarrow> order_inv (order_apply opr db)"
  by (cases opr) (simp_all add: import_inv record_payment_inv record_verified_inv awaiting_events_def
      Let_def expire_inv manual_review_inv resolve_inv quarantine_automatic_inv cancel_inv prepare_inv
      claim_order_inv retry_inv deliver_inv shipped_inv ship_attempt_inv revive_inv recover_orders_inv)

lemma empty_inv: "order_inv empty_order_db"
  by (simp add: order_inv_defs empty_order_db_def unique_key_def platform_unique_def)

section \<open>The status machine\<close>

fun order_allowed :: "order_status \<Rightarrow> order_status \<Rightarrow> bool" where
  "order_allowed AwaitingBinding b = (b \<in> {Verified, Expired, Cancelled, ManualReview})"
| "order_allowed Verified b = (b \<in> {Reserved, Cancelled, ManualReview})"
| "order_allowed Reserved b = (b \<in> {Sending, Cancelled, ManualReview})"
| "order_allowed Retry b = (b \<in> {Sending, ManualReview})"
| "order_allowed Sending b = (b \<in> {Delivered, Retry, ManualReview})"
| "order_allowed ManualReview b = (b = Verified)"
| "order_allowed Cancelled b = (b = ManualReview)"
| "order_allowed Expired b = (b = ManualReview)"
| "order_allowed Delivered b = False"

definition order_status_of :: "order_db \<Rightarrow> string \<Rightarrow> order_status option" where
  "order_status_of db k = map_option od_status (order_by_key k db)"

definition may_move :: "order_row \<Rightarrow> order_row \<Rightarrow> bool" where
  \<comment> \<open>The status follows the machine, and the cards once given to an order stay its cards\<close>
  "may_move a b \<longleftrightarrow> od_key b = od_key a \<and> (od_status a = od_status b \<or> order_allowed (od_status a) (od_status b)) \<and>
     (ids_of a \<noteq> [] \<longrightarrow> od_inventory b = od_inventory a)"

definition rows_move :: "order_row list \<Rightarrow> order_row list \<Rightarrow> bool" where
  "rows_move os os' \<longleftrightarrow> (\<exists>ys ext. os' = ys @ ext \<and> list_all2 may_move os ys)"

lemma rows_move_row:
  assumes "rows_move (orders db) (orders db')" "order_by_key k db = Some x"
  shows "\<exists>y. order_by_key k db' = Some y \<and> may_move x y"
proof -
  have "\<exists>y. find (\<lambda>ow. od_key ow = k) (ys @ ext) = Some y \<and> may_move x y"
    if "list_all2 may_move os ys" "find (\<lambda>ow. od_key ow = k) os = Some x" for os ys ext x
    using that by (induction rule: list_all2_induct) (auto simp: may_move_def split: if_splits)
  with assms show ?thesis unfolding rows_move_def by fastforce
qed

lemma rows_move_status:
  assumes "rows_move (orders db) (orders db')" "order_status_of db k = Some a"
  shows "\<exists>b. order_status_of db' k = Some b \<and> (a = b \<or> order_allowed a b)"
  using assms(2) rows_move_row [OF assms(1), of k] by (auto simp: order_status_of_def may_move_def)

lemma rows_move_refl [simp]: "rows_move os os"
  unfolding rows_move_def
  by (intro exI [of _ os] exI [of _ "[]"]) (auto simp: may_move_def intro: list_all2_refl)

lemma rows_move_append [simp]: "rows_move os (os @ [x])"
  unfolding rows_move_def
  by (intro exI [of _ os] exI [of _ "[x]"]) (auto simp: may_move_def intro: list_all2_refl)

lemma rows_move_map:
  assumes "\<And>ow. ow \<in> set os \<Longrightarrow> may_move ow (h ow)"
  shows "rows_move os (map h os)"
  unfolding rows_move_def
  by (intro exI [of _ "map h os"] exI [of _ "[]"]) (auto simp: assms list.rel_map intro: list.rel_refl_strong)

lemma rows_move_update:
  assumes "\<And>ow. ow \<in> set os \<Longrightarrow> P ow \<Longrightarrow> may_move ow (f ow)"
  shows "rows_move os (sql_update P f os)"
  unfolding sql_update_def by (rule rows_move_map) (use assms in \<open>auto simp: may_move_def\<close>)

lemma rows_move_answer:
  assumes "rows_move (orders old) (orders db)"
  shows "rows_move (orders old) (orders (fst (answer_order old k db)))"
  using answer_cases [of old k db] assms by auto

lemma rows_move_write:
  assumes "order_inv db" "order_by_key k db = Some row" "may_move row (f row)"
    "orders db' = orders db"
  shows "rows_move (orders db) (orders (write_order k f db'))"
  unfolding write_order_def using assms found_order(4) [OF assms(1,2)]
  by (auto intro!: rows_move_update)

lemma record_payment_moves: "rows_move (orders db) (orders (fst (record_payment_event now k chat ev ttl db)))"
  by (simp add: record_payment_event_def Let_def split: float_arg.split option.split)

lemma record_payment_orders:
  "\<exists>ext. orders (fst (record_payment_event now k chat ev ttl db)) = orders db @ ext"
  by (simp add: record_payment_event_def Let_def split: float_arg.split option.split)

lemma bind_moves:
  assumes "order_inv db"
  shows "rows_move (orders db) (orders (fst (bind_platform_proof now k chat pid ps paid q db)))"
proof (cases "order_by_key k db")
  case None
  then show ?thesis by (simp add: bind_platform_proof_def)
next
  case (Some row)
  note fo = found_order [OF assms Some]
  have "rows_move (orders db) (sql_update (\<lambda>ow. od_key ow = k) f (orders db))"
    if "\<And>ow. od_key (f ow) = od_key ow"
      "\<And>ow. od_inventory (f ow) = od_inventory ow"
      "\<And>ow. od_status (f ow) = (if od_status row = AwaitingBinding then Verified else od_status row)" for f
    using fo(4) that by (intro rows_move_update) (auto simp: may_move_def)
  then show ?thesis using Some by (auto simp: bind_platform_proof_def Let_def)
qed

lemma rows_move_after_append: "rows_move (os @ ext) os' \<Longrightarrow> rows_move os os'"
  unfolding rows_move_def by (metis append.assoc list_all2_append1)

lemma record_verified_moves:
  assumes "order_inv db"
  shows "rows_move (orders db) (orders (fst (record_verified_payment_event n1 n2 k chat ev ttl pid ps paid q db)))"
proof -
  obtain db1 res where r: "record_payment_event n1 k chat ev ttl db = (db1, res)" by fastforce
  have "order_inv db1" using record_payment_inv [OF assms, of n1 k chat ev ttl] r by simp
  moreover obtain ext where "orders db1 = orders db @ ext"
    using record_payment_orders [of n1 k chat ev ttl db] r by auto
  ultimately have "rows_move (orders db) (orders db1)"
    "\<And>p s a. rows_move (orders db) (orders (fst (bind_platform_proof n2 k chat pid p s a db1)))"
    using bind_moves [of db1] by (metis rows_move_after_append rows_move_refl)+
  with r show ?thesis
    by (auto simp: record_verified_payment_event_def Let_def split: option.split sum.split)
qed

lemma awaiting_moves: "rows_move (orders db) (orders (expire_awaiting now db))"
  by (auto simp: expire_awaiting_def may_move_def intro!: rows_move_update)

lemma allowed_review [simp]: "order_allowed a ManualReview \<longleftrightarrow> a \<notin> {ManualReview, Delivered}"
  by (cases a) auto

lemma manual_review_moves:
  assumes "order_inv db"
  shows "rows_move (orders db) (orders (fst (mark_order_manual_review now k reason db)))"
proof (cases "order_by_key k db")
  case None
  then show ?thesis by (simp add: mark_order_manual_review_def)
next
  case (Some row)
  then show ?thesis
    using found_order(3) [OF assms Some]
    by (auto simp: mark_order_manual_review_def Let_def may_move_def intro!: rows_move_update)
qed

lemma quarantine_automatic_moves:
  "rows_move (orders db) (orders (fst (quarantine_automatic_orders now reason db)))"
  by (auto simp: quarantine_automatic_orders_def Let_def may_move_def split: sum.split
      intro!: rows_move_update)

lemma cancel_moves: "rows_move (orders db) (orders (fst (cancel_awaiting_for_chat now chat db)))"
proof -
  let ?early = "\<lambda>ow. od_chat ow = chat \<and> od_status ow \<in> {AwaitingBinding, Verified, Reserved}"
  let ?unsure = "\<lambda>ow. od_chat ow = chat \<and> od_status ow \<in> {Retry, Sending}"
  have "rows_move (orders db) (sql_update ?unsure f (sql_update ?early g (orders db)))"
    if "\<And>ow. od_key (f ow) = od_key ow" "\<And>ow. od_status (f ow) = ManualReview"
      "\<And>ow. od_inventory (f ow) = od_inventory ow" "\<And>ow. od_inventory (g ow) = od_inventory ow"
      "\<And>ow. od_key (g ow) = od_key ow" "\<And>ow. od_status (g ow) = Cancelled" for f g
    unfolding sql_update_def map_map
    by (rule rows_move_map) (use that in \<open>auto simp: may_move_def\<close>)
  then show ?thesis
    by (simp add: cancel_awaiting_for_chat_def Let_def split: sum.split)
qed

lemma prepare_moves:
  assumes inv: "order_inv db"
  shows "rows_move (orders db) (orders (fst (prepare_order now k chat buyer item dtype quantity payload db)))"
proof (cases "order_by_key k db")
  case None
  then show ?thesis by (simp add: prepare_order_def Let_def split: option.split)
next
  case (Some row)
  note w = rows_move_answer [OF rows_move_write [OF inv Some]]
  have a: "rows_move (orders db) (orders (fst (answer_order db k db)))"
    "\<And>pl. rows_move (orders db) (orders (fst (answer_order db k
       (write_order k (\<lambda>ow. ow\<lparr>od_payload := pl, od_updated := now\<rparr>) db))))"
    by (rule rows_move_answer, simp) (rule w, simp_all add: may_move_def)
  have b: "rows_move (orders db) (orders (fst (allocate_order now k buyer item dtype q pl row db)))"
    if st: "od_status row = Verified" for q pl
  proof -
    have ok: "row_ok row" using order_invD(4) [OF inv found_order(1) [OF inv Some]] .
    have r: "rows_move (orders db) (orders (fst (answer_order db k (write_order k f db'))))"
      if "\<And>ow. od_key (f ow) = od_key ow" "\<And>ow. od_status (f ow) = Reserved" "orders db' = orders db"
        "ids_of row \<noteq> [] \<Longrightarrow> od_inventory (f row) = od_inventory row" for f db'
      using that st by (intro w) (simp_all add: may_move_def)
    have e: "rows_move (orders db) (orders (fst (answer_order db k ((write_order k f db)\<lparr>reviews := rvs\<rparr>))))"
      if "\<And>ow. od_key (f ow) = od_key ow" "\<And>ow. od_status (f ow) = ManualReview"
        "\<And>ow. od_inventory (f ow) = od_inventory ow" for f rvs
      using rows_move_write [OF inv Some, of f db] that st
      by (intro rows_move_answer) (simp add: may_move_def)
    show ?thesis
      using found_order(3) [OF inv Some]
      by (cases "dtype = ''redeem''")
        (simp_all add: allocate_order_def Let_def r e encode_ids_of ok split: sum.split)
  qed
  show ?thesis
  proof (cases "as_int quantity")
    case None
    then show ?thesis by (simp add: prepare_order_def)
  next
    case q: (Some q)
    have i: "rows_move (orders db) (orders (fst (if c then x else y)))"
      if "c \<Longrightarrow> rows_move (orders db) (orders (fst x))" "\<not> c \<Longrightarrow> rows_move (orders db) (orders (fst y))"
      for c and x y :: "(order_db, delivery_reservation) outcome"
      using that by simp
    show ?thesis
      unfolding prepare_order_def Let_def Some q option.case
      by (intro i) (simp_all add: a b)
  qed
qed

lemma claim_moves: "rows_move (orders db) (orders (fst (claim_order_for_send now k db)))"
proof -
  let ?hit = "\<lambda>ow. od_key ow = k \<and> od_status ow \<in> {Reserved, Retry}"
  let ?db = "db\<lparr>orders := sql_update ?hit
     (\<lambda>ow. ow\<lparr>od_status := Sending, od_send_started := Some now, od_updated := now\<rparr>) (orders db)\<rparr>"
  have "rows_move (orders db) (orders ?db)"
    by (auto simp: may_move_def intro!: rows_move_update)
  with rows_move_answer [of db ?db k] show ?thesis
    by (auto simp: claim_order_for_send_def Let_def split: option.split sum.split prod.split)
qed

lemma deliver_moves:
  assumes "order_inv db"
  shows "rows_move (orders db) (orders (fst (mark_order_delivered now k db)))"
proof (cases "order_by_key k db")
  case None
  then show ?thesis by (simp add: mark_order_delivered_def)
next
  case (Some row)
  have "rows_move (orders db) (orders (write_order k (\<lambda>ow. ow\<lparr>od_status := Delivered, od_error := None,
      od_send_started := None, od_updated := now, od_delivered := Some now\<rparr>) (db\<lparr>inventory := cs\<rparr>)))"
    if "od_status row = Sending" for cs
    using assms Some by (rule rows_move_write) (simp_all add: may_move_def that)
  with Some show ?thesis
    by (auto simp: mark_order_delivered_def split: sum.split)
qed

lemma revive_moves:
  assumes "order_inv db"
  shows "rows_move (orders db) (orders (fst (revive_takeover_blocked_orders now db)))"
proof -
  let ?ks = "map od_key (filter revivable (orders db))"
  have rev: "revivable ow" if "ow \<in> set (orders db)" "od_key ow \<in> set ?ks" for ow
    using that order_keys.same_row [OF order_invD(1) [OF assms]] by auto
  have "rows_move (orders db) (sql_update (\<lambda>ow. od_key ow \<in> set ?ks)
      (\<lambda>ow. ow\<lparr>od_status := Verified, od_error := None, od_updated := now\<rparr>) (orders db))"
  proof (rule rows_move_update)
    fix ow assume "ow \<in> set (orders db)" "od_key ow \<in> set ?ks"
    then have "revivable ow" by (rule rev)
    then show "may_move ow (ow\<lparr>od_status := Verified, od_error := None, od_updated := now\<rparr>)"
      by (simp add: may_move_def revivable_def)
  qed
  then have "rows_move (orders db) (orders (fold (revive_step now) ?ks db))"
    using fold_revive [of now ?ks db] by simp
  then show ?thesis by (simp add: revive_takeover_blocked_orders_def Let_def)
qed

definition withdrawn :: "order_row \<Rightarrow> order_row \<Rightarrow> bool" where
  "withdrawn a b \<longleftrightarrow> od_key b = od_key a \<and> od_inventory b = od_inventory a \<and> (od_status a = od_status b \<or> in_flight a \<and> od_status b = ManualReview)"

lemma quarantine_claims_moves:
  "quarantine_claims reasons now rows db = Inr db' \<Longrightarrow> list_all2 withdrawn (orders db) (orders db')"
proof (induction rows arbitrary: db)
  case Nil
  then show ?case by (auto simp: withdrawn_def intro: list_all2_refl)
next
  case (Cons row rows)
  have one: "list_all2 withdrawn os (sql_update (\<lambda>ow. od_key ow = od_key row \<and> in_flight ow)
      (\<lambda>ow. ow\<lparr>od_status := ManualReview, od_error := Some e, od_send_started := None, od_updated := now\<rparr>) os)" for os e
    by (auto simp: sql_update_def list.rel_map withdrawn_def intro!: list.rel_refl_strong)
  have tr: "withdrawn a c" if "withdrawn a b" "withdrawn b c" for a b c
    using that by (auto simp: withdrawn_def in_flight_def)
  show ?case
  proof (cases "decode_ids (od_inventory row)")
    case (Inr ids)
    show ?thesis
    proof (cases "filter (\<lambda>i. i \<in> fst ` set reasons) ids")
      case Nil
      with Inr Cons show ?thesis by simp
    next
      case (Cons a as)
      with Inr Cons.prems(1) Cons.IH have "\<exists>e. list_all2 withdrawn (sql_update (\<lambda>ow. od_key ow = od_key row \<and> in_flight ow)
        (\<lambda>ow. ow\<lparr>od_status := ManualReview, od_error := Some e, od_send_started := None, od_updated := now\<rparr>) (orders db)) (orders db')"
        by (fastforce simp: Let_def)
      then show ?thesis using list_all2_trans [OF _ one] tr by blast
    qed
  qed (use Cons.prems in simp)
qed

lemma import_moves: "rows_move (orders db) (orders (fst (import_inventory now name file kind db)))"
proof -
  have "rows_move (orders db) (orders db')"
    if "quarantine_delivery_claims rv now (db\<lparr>inventory := cs, inv_seq := sq\<rparr>) = Inr db'" for rv cs sq db'
  proof (cases "rv = []")
    case False
    with that quarantine_claims_moves [of rv now _ "db\<lparr>inventory := cs, inv_seq := sq\<rparr>" db']
    have "list_all2 withdrawn (orders db) (orders db')" by (simp add: quarantine_delivery_claims_def)
    then have "list_all2 may_move (orders db) (orders db')"
      by (rule list_all2_mono) (auto simp: withdrawn_def may_move_def in_flight_def)
    then show ?thesis unfolding rows_move_def by (intro exI [of _ "orders db'"] exI [of _ "[]"]) simp
  qed (use that in \<open>auto simp: quarantine_delivery_claims_def\<close>)
  then show ?thesis
    by (auto simp: import_inventory_def Let_def split: option.split pyval.split sum.split prod.split)
qed

lemma plain_moves:
  "rows_move (orders db) (orders (fst (resolve_manual_review now k r db)))"
  "rows_move (orders db) (orders (fst (mark_order_retry now k e db)))"
  "rows_move (orders db) (orders (fst (mark_platform_shipped now k db)))"
  "rows_move (orders db) (orders (fst (record_platform_ship_attempt now k e db)))"
  "rows_move (orders db) (orders (recover_orders db))"
  by (simp_all add: resolve_manual_review_def mark_order_retry_def mark_platform_shipped_def Let_def
      record_platform_ship_attempt_def write_order_def recover_orders_def may_move_def
      rows_move_update split: option.split)
    (rule rows_move_update, simp add: may_move_def)+

lemma apply_moves: "order_inv db \<Longrightarrow> rows_move (orders db) (orders (order_apply opr db))"
  by (cases opr) (simp_all add: import_moves record_payment_moves record_verified_moves
      awaiting_events_def Let_def awaiting_moves manual_review_moves quarantine_automatic_moves
      cancel_moves prepare_moves claim_moves deliver_moves revive_moves plain_moves)

interpretation order_sys: status_machine "\<lambda>db. db = empty_order_db" order_step order_inv order_status_of order_allowed
proof
  show "order_inv s'" if "order_inv s" "order_step s s'" for s s'
    using that by (auto elim!: order_stepE intro: apply_inv)
  show "\<exists>b. order_status_of s' k = Some b \<and> (a = b \<or> order_allowed a b)"
    if "order_inv s" "order_step s s'" "order_status_of s k = Some a" for s s' k a
    using that by (auto elim!: order_stepE intro: rows_move_status apply_moves)
qed (simp add: empty_inv)

end
