(* ===== verification/Order_Facts.thy ===== *)
theory Order_Facts
  imports Order_System
begin

text \<open>
  What a client of the order tables observes in a reachable state (\<open>order_secrets\<close>, \<open>handed_out\<close>,
  \<open>stock\<close>) and the facts on reserving, delivering and cancelling that the properties rest on.
\<close>

lemma reserve_cards_total:
  assumes "unique_key iv_id cs" "distinct ids"
    "\<And>i. i \<in> set ids \<Longrightarrow> \<exists>r \<in> set cs. iv_id r = i \<and> iv_status r = InvAvailable"
  shows "\<exists>cs'. reserve_cards k buyer now ids cs = Inr cs'"
  using assms
proof (induction ids arbitrary: cs)
  case (Cons i ids)
  let ?hit = "\<lambda>r. iv_id r = i \<and> iv_status r = InvAvailable"
  let ?cs = "sql_update ?hit (\<lambda>r. r\<lparr>iv_status := InvReserved, iv_resv := Some k, iv_buyer := Some buyer, iv_updated := now\<rparr>) cs"
  have "sql_count ?hit cs = 1"
    using count_key_le [OF Cons.prems(1)] Cons.prems(3) by simp
  moreover have "unique_key iv_id ?cs"
    using Cons.prems(1) by (intro inv_ids.unique_update) simp_all
  moreover have "\<exists>r \<in> set ?cs. iv_id r = j \<and> iv_status r = InvAvailable" if j: "j \<in> set ids" for j
  proof -
    from j Cons.prems obtain r where "r \<in> set cs" "iv_id r = j" "iv_status r = InvAvailable" "j \<noteq> i" by auto
    then show ?thesis by (intro bexI [of _ r]) (auto simp: sql_update_def image_iff)
  qed
  ultimately show ?case using Cons by (simp add: Let_def)
qed simp

lemma deliver_cards_total:
  assumes "unique_key iv_id cs" "distinct ids"
    "\<And>i. i \<in> set ids \<Longrightarrow> \<exists>r \<in> set cs. iv_id r = i \<and> held_by k r"
  shows "\<exists>cs'. deliver_cards k now ids cs = Inr cs'"
  using assms
proof (induction ids arbitrary: cs)
  case (Cons i ids)
  let ?hit = "\<lambda>r. iv_id r = i \<and> held_by k r"
  let ?cs = "sql_update ?hit (\<lambda>r. r\<lparr>iv_status := InvDelivered, iv_updated := now\<rparr>) cs"
  have "sql_count ?hit cs = 1"
    using count_key_le [OF Cons.prems(1)] Cons.prems(3) by simp
  moreover have "unique_key iv_id ?cs"
    using Cons.prems(1) by (intro inv_ids.unique_update) simp_all
  moreover have "\<exists>r \<in> set ?cs. iv_id r = j \<and> held_by k r" if j: "j \<in> set ids" for j
  proof -
    from j Cons.prems obtain r where "r \<in> set cs" "iv_id r = j" "held_by k r" "j \<noteq> i" by auto
    then show ?thesis by (intro bexI [of _ r]) (auto simp: sql_update_def image_iff)
  qed
  ultimately show ?case using Cons by (simp add: Let_def)
qed simp

section \<open>Cards are handed out once\<close>

abbreviation reachable_orders :: "order_db \<Rightarrow> bool" where
  "reachable_orders db \<equiv> order_step\<^sup>*\<^sup>* empty_order_db db"

lemma reachable_inv: "reachable_orders db \<Longrightarrow> order_inv db"
  by (rule order_sys.inv_reachable) simp_all

definition handed_out :: "string \<Rightarrow> order_db \<Rightarrow> bool" where
  "handed_out k db \<longleftrightarrow> order_status_of db k = Some Delivered \<or> order_inventory_is_sendable k db = Inr True"

definition order_secrets :: "string \<Rightarrow> order_db \<Rightarrow> string list" where
  "order_secrets k db = (case get_order k db of Inr (Some r) \<Rightarrow> dr_resources r | _ \<Rightarrow> [])"

lemma order_secrets_eq:
  assumes "order_inv db" "order_by_key k db = Some row"
  shows "order_secrets k db =
    map iv_secret (order_by iv_id (filter (\<lambda>r. iv_id r \<in> set (ids_of row)) (inventory db)))"
  using assms found_order(3) [OF assms] by (simp add: order_secrets_def get_order_def reservation_from_row_def)

lemma sendable_holds:
  assumes inv: "order_inv db" and row: "order_by_key k db = Some row"
    and s: "order_inventory_is_sendable k db = Inr True"
  shows "od_status row = Sending \<and> distinct (ids_of row) \<and>
    (\<forall>i \<in> set (ids_of row). \<exists>r \<in> set (inventory db). iv_id r = i \<and> held_by k r)"
proof (cases "od_type row = Some ''redeem''")
  case True
  with s row found_order(3) [OF inv row]
  have "od_status row = Sending"
    "sql_count (\<lambda>r. iv_id r \<in> set (ids_of row) \<and> held_by k r) (inventory db) = length (ids_of row)"
    by (auto simp: order_inventory_is_sendable_def split: if_splits)
  with count_keys_all [OF order_invD(2) [OF inv], of "ids_of row"] show ?thesis by simp
next
  case False
  with order_invD(4) [OF inv found_order(1) [OF inv row]] have "ids_of row = []"
    by (auto simp: row_ok_def)
  with s row show ?thesis by (auto simp: order_inventory_is_sendable_def split: if_splits)
qed

lemma handed_out_holds:
  assumes inv: "order_inv db" and h: "handed_out k db" and s: "s \<in> set (order_secrets k db)"
  shows "\<exists>r \<in> set (inventory db). iv_secret r = s \<and> iv_resv r = Some k"
proof -
  obtain row where row: "order_by_key k db = Some row"
    using h by (auto simp: handed_out_def order_status_of_def order_inventory_is_sendable_def split: option.splits)
  note fo = found_order [OF inv row]
  from s obtain r where r: "r \<in> set (inventory db)" "iv_id r \<in> set (ids_of row)" "iv_secret r = s"
    by (auto simp: order_secrets_eq [OF inv row])
  have "\<exists>q \<in> set (inventory db). iv_id q = iv_id r \<and> iv_resv q = Some k"
  proof (cases "od_status row = Delivered")
    case True
    with inv fo(1,2) r(2) show ?thesis by (auto simp: order_inv_def delivered_backed_def)
  next
    case False
    with h row have "order_inventory_is_sendable k db = Inr True" by (simp add: handed_out_def order_status_of_def)
    from sendable_holds [OF inv row this] r(2) show ?thesis by (auto simp: held_by_def)
  qed
  with inv_ids.same_row [OF order_invD(2) [OF inv]] r show ?thesis by metis
qed

section \<open>Reserving cards\<close>

definition stock :: "order_db \<Rightarrow> inv_row list" where
  "stock db = order_by iv_id (filter (\<lambda>r. iv_kind r = ''redeem'' \<and> iv_status r = InvAvailable) (inventory db))"

definition may_allocate :: "string \<Rightarrow> string \<Rightarrow> string \<Rightarrow> string \<Rightarrow> order_db \<Rightarrow> bool" where
  "may_allocate k chat buyer item db = (case order_by_key k db of None \<Rightarrow> False
     | Some row \<Rightarrow> od_status row = Verified \<and> has_proof row \<and> od_chat row = chat \<and>
         od_buyer row \<in> {None, Some buyer} \<and> od_item row \<in> {None, Some item} \<and>
         od_type row \<in> {None, Some ''redeem''} \<and> decode_ids (od_inventory row) = Inr [])"

lemma prepare_allocates:
  assumes "may_allocate k chat buyer item db" "1 \<le> q" "q \<le> 50" "order_by_key k db = Some row"
  shows "prepare_order now k chat buyer item ''redeem'' (PInt q) pl db =
    allocate_order now k buyer item ''redeem'' q pl row db"
  using assms by (simp add: prepare_order_def may_allocate_def Let_def as_int.simps)

lemma take_stock_available:
  assumes "i \<in> set (map iv_id (take n (stock db)))"
  shows "\<exists>r \<in> set (inventory db). iv_id r = i \<and> iv_status r = InvAvailable"
  using assms by (auto simp: stock_def dest!: in_set_takeD)

lemma distinct_stock: "order_inv db \<Longrightarrow> distinct (map iv_id (stock db))"
  using order_invD(2) [of db] by (simp add: stock_def unique_key_def distinct_map_filter)

lemma secrets_sql_update:
  assumes "\<And>r. iv_id (g r) = iv_id r" "\<And>r. iv_secret (g r) = iv_secret r"
  shows "map iv_secret (order_by iv_id (filter (\<lambda>r. iv_id r \<in> S) (sql_update P g cs))) =
         map iv_secret (order_by iv_id (filter (\<lambda>r. iv_id r \<in> S) cs))"
proof -
  let ?h = "\<lambda>r. if P r then g r else r"
  have h: "iv_id (?h r) = iv_id r" "iv_secret (?h r) = iv_secret r" for r by (simp_all add: assms)
  have "filter (\<lambda>r. iv_id r \<in> S) (map ?h cs) = map ?h (filter (\<lambda>r. iv_id r \<in> S) cs)"
    by (simp only: filter_map comp_def h)
  then show ?thesis
    using order_by_map [of iv_id ?h, OF h(1)] by (simp add: sql_update_def comp_def h(2))
qed

lemma chosen_rows:
  fixes n :: nat
  assumes "order_inv db"
  defines "ids \<equiv> map iv_id (take n (stock db))"
  shows "order_by iv_id (filter (\<lambda>r. iv_id r \<in> set ids) (inventory db)) = take n (stock db)"
proof -
  have eq: "iv_id r \<in> set ids \<longleftrightarrow>
      (iv_kind r = ''redeem'' \<and> iv_status r = InvAvailable) \<and> iv_id r \<in> set ids"
    if r: "r \<in> set (inventory db)" for r
  proof
    assume i: "iv_id r \<in> set ids"
    then obtain p where p: "p \<in> set (stock db)" "iv_id p = iv_id r"
      by (auto simp: ids_def dest!: in_set_takeD)
    then have "p = r"
      using inv_ids.same_row [OF order_invD(2) [OF assms(1)] _ r] by (simp add: stock_def)
    with p(1) i show "(iv_kind r = ''redeem'' \<and> iv_status r = InvAvailable) \<and> iv_id r \<in> set ids"
      by (simp add: stock_def)
  qed simp
  have "filter (\<lambda>r. iv_id r \<in> set ids) (inventory db) =
      filter (\<lambda>r. iv_id r \<in> set ids) (filter (\<lambda>r. iv_kind r = ''redeem'' \<and> iv_status r = InvAvailable) (inventory db))"
    unfolding filter_filter by (rule filter_cong [OF refl eq])
  then have "order_by iv_id (filter (\<lambda>r. iv_id r \<in> set ids) (inventory db)) = filter (\<lambda>r. iv_id r \<in> set ids) (stock db)"
    by (simp add: stock_def order_by_def filter_sort)
  then show ?thesis
    unfolding ids_def using filter_keys_take [OF distinct_stock [OF assms(1)]] by simp
qed

lemma reserved_inventory:
  fixes n :: nat and k buyer :: string and now :: time
  assumes inv: "order_inv db"
  defines "got \<equiv> take n (stock db)"
  defines "g \<equiv> \<lambda>r. r\<lparr>iv_status := InvReserved, iv_resv := Some k, iv_buyer := Some buyer, iv_updated := now\<rparr>"
  shows "reserve_cards k buyer now (map iv_id got) (inventory db) = Inr (sql_update (\<lambda>r. r \<in> set got) g (inventory db))"
    and "map iv_secret (order_by iv_id (filter (\<lambda>r. iv_id r \<in> set (map iv_id got))
           (sql_update (\<lambda>r. r \<in> set got) g (inventory db)))) = map iv_secret got"
proof -
  obtain cs where cs: "reserve_cards k buyer now (map iv_id got) (inventory db) = Inr cs"
    using reserve_cards_total [OF order_invD(2) [OF inv], of "map iv_id got" k buyer now]
      take_stock_available [of _ n db] distinct_stock [OF inv]
    unfolding got_def by (metis distinct_take take_map)
  have got: "r \<in> set got \<Longrightarrow> r \<in> set (inventory db) \<and> iv_status r = InvAvailable" for r
    by (auto simp: got_def stock_def dest!: in_set_takeD)
  have mem: "iv_id r \<in> set (map iv_id got) \<and> iv_status r = InvAvailable \<longleftrightarrow> r \<in> set got"
    if "r \<in> set (inventory db)" for r
    using got inv_ids.same_row [OF order_invD(2) [OF inv] that] by (metis (mono_tags) image_iff list.set_map)
  then have "cs = sql_update (\<lambda>r. r \<in> set got) g (inventory db)"
    using reserve_cards_spec [OF cs] by (simp add: sql_update_def g_def)
  with cs show "reserve_cards k buyer now (map iv_id got) (inventory db) =
      Inr (sql_update (\<lambda>r. r \<in> set got) g (inventory db))" by simp
  show "map iv_secret (order_by iv_id (filter (\<lambda>r. iv_id r \<in> set (map iv_id got))
      (sql_update (\<lambda>r. r \<in> set got) g (inventory db)))) = map iv_secret got"
    using secrets_sql_update [of g "set (map iv_id got)"] chosen_rows [OF inv, of n]
    by (simp add: g_def got_def)
qed

lemma answer_found:
  assumes "order_by_key k db' = Some ow" "decode_ids (od_inventory ow) = Inr ids"
  shows "\<exists>res. answer_order old k db' = (db', Inr res) \<and> dr_status res = od_status ow \<and>
    dr_reason res = od_error ow \<and> dr_key res = od_key ow \<and>
    dr_resources res = map iv_secret (order_by iv_id (filter (\<lambda>r. iv_id r \<in> set ids) (inventory db')))"
  using assms by (simp add: answer_order_def reservation_from_row_def)

lemma find_write:
  assumes "order_by_key k db = Some row" "orders db' = orders db" "\<And>ow. od_key (f ow) = od_key ow"
  shows "order_by_key k (write_order k f db') = Some (f row)"
  using order_keys.find_update [of f k "\<lambda>ow. od_key ow = k" "orders db", OF assms(3)] assms
    find_SomeD [OF assms(1)] by (simp add: write_order_def)

section \<open>Sending and delivering\<close>

lemma claim_result:
  assumes inv: "order_inv db" and row: "order_by_key k db = Some row" "od_status row \<in> {Reserved, Retry}"
  shows "\<exists>db' res. claim_order_for_send now k db = (db', Inr (Some res)) \<and> dr_status res = Sending \<and>
    order_by_key k db' = Some (row\<lparr>od_status := Sending, od_send_started := Some now, od_updated := now\<rparr>) \<and>
    inventory db' = inventory db"
proof -
  let ?hit = "\<lambda>ow. od_key ow = k \<and> od_status ow \<in> {Reserved, Retry}"
  let ?f = "\<lambda>ow. ow\<lparr>od_status := Sending, od_send_started := Some now, od_updated := now\<rparr>"
  let ?db = "db\<lparr>orders := sql_update ?hit ?f (orders db)\<rparr>"
  note fo = found_order [OF inv row(1)]
  have w: "order_by_key k ?db = Some (?f row)"
    using order_keys.find_update [of ?f k ?hit "orders db"] row fo(2) by simp
  have "sql_count ?hit (orders db) = 1"
    using count_key_le [OF order_invD(1) [OF inv], of k "\<lambda>ow. od_status ow \<in> {Reserved, Retry}"] fo(1,2) row(2)
    by auto
  with answer_found [OF w, of "ids_of row" db] fo(3) row w show ?thesis
    by (auto simp: claim_order_for_send_def Let_def)
qed

section \<open>Withdrawing\<close>

lemma cancel_result:
  fixes chat :: string
  assumes inv: "order_inv db"
  defines "early \<equiv> filter (\<lambda>ow. od_chat ow = chat \<and> od_status ow \<in> {AwaitingBinding, Verified, Reserved}) (orders db)"
    and "unsure \<equiv> filter (\<lambda>ow. od_chat ow = chat \<and> od_status ow \<in> {Retry, Sending}) (orders db)"
  shows "\<exists>rvs n. cancel_awaiting_for_chat now chat db = (db\<lparr>
      inventory := sql_update (held_among unsure) (\<lambda>r. r\<lparr>iv_status := InvQuarantined, iv_updated := now\<rparr>)
        (sql_update (held_among early) (\<lambda>r. r\<lparr>iv_status := InvAvailable, iv_resv := None,
           iv_buyer := None, iv_updated := now\<rparr>) (inventory db)),
      orders := sql_update (\<lambda>ow. od_chat ow = chat \<and> od_status ow \<in> {Retry, Sending})
        (\<lambda>ow. ow\<lparr>od_status := ManualReview, od_error := Some (cancel_reason (od_status ow)),
               od_send_started := None, od_updated := now\<rparr>)
        (sql_update (\<lambda>ow. od_chat ow = chat \<and> od_status ow \<in> {AwaitingBinding, Verified, Reserved})
          (\<lambda>ow. ow\<lparr>od_status := Cancelled, od_updated := now\<rparr>) (orders db)),
      reviews := rvs\<rparr>, Inr n)"
proof -
  let ?E = "\<lambda>ow. od_chat ow = chat \<and> od_status ow \<in> {AwaitingBinding, Verified, Reserved}"
  let ?U = "\<lambda>ow. od_chat ow = chat \<and> od_status ow \<in> {Retry, Sending}"
  let ?f = "\<lambda>ow. ow\<lparr>od_status := Cancelled, od_updated := now\<rparr>"
  have u: "filter ?U (sql_update ?E ?f os) = filter ?U os" for os
    by (induction os) auto
  have e1: "each_order (release_ids now) early cs = Inr (sql_update (held_among early) (\<lambda>r. r\<lparr>iv_status := InvAvailable, iv_resv := None,
        iv_buyer := None, iv_updated := now\<rparr>) cs)" for cs
    using inv by (intro each_order_release) (auto simp: early_def intro: order_invD)
  have e2: "each_order (quarantine_ids now) unsure cs =
      Inr (sql_update (held_among unsure) (\<lambda>r. r\<lparr>iv_status := InvQuarantined, iv_updated := now\<rparr>) cs)" for cs
    using inv by (intro each_order_quarantine) (auto simp: unsure_def intro: order_invD)
  show ?thesis
    unfolding cancel_awaiting_for_chat_def Let_def u early_def [symmetric] unsure_def [symmetric] e1 sum.case e2
    by blast
qed

lemma held_listed:
  assumes inv: "order_inv db" and "ow \<in> set (orders db)" "r \<in> set (inventory db)" "held_by (od_key ow) r"
  shows "in_flight ow \<and> iv_id r \<in> set (ids_of ow)"
proof -
  from assms obtain p where "p \<in> set (orders db)" "iv_resv r = Some (od_key p)" "in_flight p"
    "iv_id r \<in> set (ids_of p)"
    by (auto simp: order_inv_def reserved_backed_def held_by_def)
  moreover from this assms have "p = ow"
    using order_keys.same_row [OF order_invD(1) [OF inv], of p ow] by (simp add: held_by_def)
  ultimately show ?thesis by simp
qed

lemma held_among_iff:
  assumes inv: "order_inv db" and ow: "ow \<in> set (orders db)" and r: "r \<in> set (inventory db)"
    and held: "held_by (od_key ow) r"
  shows "held_among (filter P (orders db)) r \<longleftrightarrow> P ow"
proof
  assume "held_among (filter P (orders db)) r"
  then obtain p where "p \<in> set (orders db)" "P p" "held_by (od_key p) r"
    by (auto simp: held_among_def)
  with held order_keys.same_row [OF order_invD(1) [OF inv] _ ow] show "P ow"
    by (auto simp: held_by_def)
next
  assume "P ow"
  with held_listed [OF inv ow r held] held ow show "held_among (filter P (orders db)) r"
    by (auto simp: held_among_def)
qed

lemma find_fold_reviews:
  "find (\<lambda>v. rv_key v = k) rvs \<noteq> None \<or> k \<in> od_key ` set rows \<Longrightarrow>
   find (\<lambda>v. rv_key v = k) (fold (\<lambda>ow rvs. if find (\<lambda>v. rv_key v = od_key ow) rvs \<noteq> None then rvs
      else rvs @ [mk ow]) rows rvs) \<noteq> None" if "\<And>ow. rv_key (mk ow) = od_key ow"
proof (induction rows arbitrary: rvs)
  case (Cons ow rows)
  have "find (\<lambda>v. rv_key v = k) (rvs @ [mk ow]) \<noteq> None" if "find (\<lambda>v. rv_key v = k) rvs \<noteq> None \<or> k = od_key ow"
    using that \<open>\<And>ow. rv_key (mk ow) = od_key ow\<close> by (auto simp: find_None_iff)
  with Cons show ?case by fastforce
qed simp

lemma step_to: "order_step\<^sup>*\<^sup>* a b \<Longrightarrow> order_apply opr b = c \<Longrightarrow> order_step\<^sup>*\<^sup>* a c"
  by (metis order_step.intros rtranclp.rtrancl_into_rtrancl)

end
