(* ===== verification/Order_Shop.thy ===== *)
theory Order_Shop
  imports Order_Facts
begin

text \<open>
  A concrete run used by the witnesses: two cards are imported, two payments are recorded with the
  platform's proof, the first order is reserved, claimed and delivered, or handed to a person while it
  is being sent and revived later.
\<close>

section \<open>A concrete shop\<close>

text \<open>Two cards and two verified orders; the first order is reserved, claimed and delivered.\<close>

definition shop_card :: "int \<Rightarrow> string \<Rightarrow> inv_row" where
  "shop_card i secret = \<lparr>iv_id = i, iv_kind = ''redeem'', iv_secret = secret, iv_status = InvAvailable,
     iv_resv = None, iv_buyer = None, iv_created = 1000, iv_updated = 1000\<rparr>"

definition shop_order :: "string \<Rightarrow> string \<Rightarrow> order_row" where
  "shop_order k pid = \<lparr>od_key = k, od_platform_id = Some pid, od_chat = ''c1'', od_buyer = None,
     od_item = None, od_type = None, od_payload = None, od_quantity = 1, od_status = Verified,
     od_inventory = encode_ids [], od_event_at = 1000, od_expires_at = 4600, od_error = None,
     od_created = 1000, od_updated = 1000, od_send_started = None, od_delivered = None,
     od_verified = Some 1000, od_platform_status = Some ''2'', od_paid = Some ''9.90'',
     od_shipped = None, od_ship_attempts = 0\<rparr>"

definition shop_stocked :: order_db where
  "shop_stocked = \<lparr>inventory = [shop_card 1 ''AAA'', shop_card 2 ''BBB''], inv_seq = 2, orders = [], reviews = []\<rparr>"

definition shop_db :: order_db where
  "shop_db = shop_stocked\<lparr>orders := [shop_order ''k1'' ''101'', shop_order ''k2'' ''102'']\<rparr>"

definition shop_reserved :: order_db where
  "shop_reserved = shop_db\<lparr>
     inventory := [(shop_card 1 ''AAA'')\<lparr>iv_status := InvReserved, iv_resv := Some ''k1'',
         iv_buyer := Some ''77'', iv_updated := 1001\<rparr>, shop_card 2 ''BBB''],
     orders := [(shop_order ''k1'' ''101'')\<lparr>od_buyer := Some ''77'', od_item := Some ''55'',
         od_type := Some ''redeem'', od_status := Reserved, od_inventory := encode_ids [1],
         od_updated := 1001\<rparr>, shop_order ''k2'' ''102'']\<rparr>"

definition shop_sending :: order_db where
  "shop_sending = shop_reserved\<lparr>orders := [(hd (orders shop_reserved))\<lparr>od_status := Sending,
     od_send_started := Some 1002, od_updated := 1002\<rparr>, shop_order ''k2'' ''102'']\<rparr>"

definition shop_delivered :: order_db where
  "shop_delivered = shop_sending\<lparr>
     inventory := [(hd (inventory shop_sending))\<lparr>iv_status := InvDelivered, iv_updated := 1003\<rparr>,
         shop_card 2 ''BBB''],
     orders := [(hd (orders shop_sending))\<lparr>od_status := Delivered, od_error := None,
         od_send_started := None, od_updated := 1003, od_delivered := Some 1003\<rparr>, shop_order ''k2'' ''102'']\<rparr>"

lemmas shop_defs = shop_card_def shop_order_def shop_stocked_def shop_db_def shop_reserved_def
  shop_sending_def shop_delivered_def

lemma shop_strings:
  "py_strip ''AAA'' = ''AAA''" "py_strip ''BBB'' = ''BBB''" "py_strip ''2'' = ''2''"
  "py_strip ''9.90'' = ''9.90''"
  by (rule py_strip_plain, code_simp)+

lemma shop_digits: "ascii_digits ''101''" "ascii_digits ''102''"
  "py_len ''101'' = 3" "py_len ''102'' = 3" "py_len ''2'' = 1" "py_len ''9.90'' = 4"
  by code_simp+

definition shop_manifest :: "pyval list" where
  "shop_manifest = [PDict [(''code'', PStr ''AAA'')], PDict [(''code'', PStr ''BBB'')]]"

lemma shop_parse: "parse_inventory ''cards'' [] shop_manifest = Inr [(''AAA'', InvAvailable), (''BBB'', InvAvailable)]"
  by (simp add: shop_manifest_def dict_get_def shop_strings)

lemma shop_import: "order_apply (OpImport 1000 ''cards'' (File True 90 (Json (PList shop_manifest))) ''redeem'') empty_order_db = shop_stocked"
  by (simp add: import_inventory_def load_json_def shop_parse empty_order_db_def import_row_def Let_def
      quarantine_delivery_claims_def shop_stocked_def shop_card_def)

lemma shop_record:
  "order_apply (OpRecordVerified 1000 1000 ''k2'' ''c1'' (Finite 1000) 3600 ''102'' ''2'' ''9.90'' (PInt 1))
    (order_apply (OpRecordVerified 1000 1000 ''k1'' ''c1'' (Finite 1000) 3600 ''101'' ''2'' ''9.90'' (PInt 1))
      shop_stocked) = shop_db"
  by (simp add: record_verified_payment_event_def record_payment_event_def bind_platform_proof_def
      Let_def shop_strings shop_digits shop_stocked_def shop_db_def shop_order_def)

lemma shop_prepare:
  "prepare_order 1001 ''k1'' ''c1'' ''77'' ''55'' ''redeem'' (PInt 1) None shop_db =
    (shop_reserved, snd (answer_order shop_db ''k1'' shop_reserved))"
  by (simp add: prepare_order_def has_proof_def allocate_order_def decode_ids_def encode_ids_def
      order_by_def answer_order_def write_order_def reservation_from_row_def Let_def shop_db_def
      shop_stocked_def shop_order_def shop_card_def shop_reserved_def)

lemma shop_claim:
  "claim_order_for_send 1002 ''k1'' shop_reserved = (shop_sending,
     Inr (Some (projr (snd (answer_order shop_reserved ''k1'' shop_sending)))))"
  by (simp add: claim_order_for_send_def decode_ids_def encode_ids_def
      order_by_def answer_order_def reservation_from_row_def Let_def shop_defs)

lemma shop_deliver: "mark_order_delivered 1003 ''k1'' shop_sending = (shop_delivered, Inr ())"
  by (simp add: mark_order_delivered_def decode_ids_def encode_ids_def held_by_def write_order_def Let_def shop_defs)

lemma shop_reach:
  "reachable_orders shop_stocked" "reachable_orders shop_db" "reachable_orders shop_reserved"
  "reachable_orders shop_sending" "reachable_orders shop_delivered"
proof -
  show s: "reachable_orders shop_stocked" by (rule step_to [OF rtranclp.rtrancl_refl shop_import])
  show d: "reachable_orders shop_db" by (rule step_to [OF step_to [OF s refl] shop_record])
  show r: "reachable_orders shop_reserved"
    by (rule step_to [OF d, of "OpPrepare 1001 ''k1'' ''c1'' ''77'' ''55'' ''redeem'' (PInt 1) None"])
      (simp add: shop_prepare)
  show c: "reachable_orders shop_sending"
    by (rule step_to [OF r, of "OpClaim 1002 ''k1''"]) (simp add: shop_claim)
  show "reachable_orders shop_delivered"
    by (rule step_to [OF c, of "OpDelivered 1003 ''k1''"]) (simp add: shop_deliver)
qed

lemmas shop_eval = order_secrets_def get_order_def reservation_from_row_def decode_ids_def encode_ids_def
  order_by_def held_by_def shop_defs

lemma shop_handed: "handed_out ''k1'' shop_delivered" "order_secrets ''k1'' shop_delivered = [''AAA'']"
  by (simp_all add: handed_out_def order_status_of_def shop_eval)

lemma takeover_reason: "clean_error ''manual_takeover_before_send'' = ''manual_takeover_before_send''"
  "clean_error ''order_reverification_failed'' = ''order_reverification_failed''"
  by (rule clean_error_safe; code_simp)+

definition shop_blocked :: order_db where
  "shop_blocked = shop_sending\<lparr>
     inventory := [(hd (inventory shop_sending))\<lparr>iv_status := InvQuarantined, iv_updated := 1003\<rparr>, shop_card 2 ''BBB''],
     orders := [(hd (orders shop_sending))\<lparr>od_status := ManualReview,
        od_error := Some ''manual_takeover_before_send'', od_send_started := None, od_updated := 1003\<rparr>,
        shop_order ''k2'' ''102''],
     reviews := [\<lparr>rv_key = ''k1'', rv_status = ReviewOpen, rv_reason = ''manual_takeover_before_send'',
        rv_resolution = None, rv_created = 1003, rv_updated = 1003, rv_resolved = None\<rparr>]\<rparr>"

definition shop_revived :: order_db where
  "shop_revived = shop_blocked\<lparr>
     orders := [(hd (orders shop_blocked))\<lparr>od_status := Verified, od_error := None, od_updated := 1004\<rparr>,
        shop_order ''k2'' ''102''],
     reviews := [(hd (reviews shop_blocked))\<lparr>rv_status := ReviewResolved,
        rv_resolution := Some ''auto_revived_fulfill'', rv_resolved := Some 1004, rv_updated := 1004\<rparr>]\<rparr>"

definition shop_again :: order_db where
  "shop_again = shop_revived\<lparr>
     orders := [(hd (orders shop_revived))\<lparr>od_status := Sending, od_send_started := Some 1006, od_updated := 1006\<rparr>,
        shop_order ''k2'' ''102'']\<rparr>"

lemmas shop_late = shop_blocked_def shop_revived_def shop_again_def shop_eval

lemma shop_block:
  "order_apply (OpManualReview 1003 ''k1'' ''manual_takeover_before_send'') shop_sending = shop_blocked"
  by (simp add: mark_order_manual_review_def takeover_reason quarantine_ids_def upsert_manual_review_def
      Let_def shop_late)

lemma shop_revive: "order_apply (OpRevive 1004) shop_blocked = shop_revived"
  by (simp add: revive_takeover_blocked_orders_def revivable_def revive_step_def write_order_def
      Let_def shop_late)

lemma shop_retry:
  "order_apply (OpClaim 1006 ''k1'') (order_apply
     (OpPrepare 1005 ''k1'' ''c1'' ''77'' ''55'' ''redeem'' (PInt 1) None) shop_revived) = shop_again"
  by (simp add: prepare_order_def has_proof_def allocate_order_def answer_order_def write_order_def
      claim_order_for_send_def Let_def shop_late)

end
