(* ===== verification/Order_Correctness.thy ===== *)
theory Order_Correctness
  imports Order_Shop
begin

text \<open>
  What the order side of the delivery store guarantees to the fulfilment code of
  \<^verbatim>\<open>worker/main.py\<close>, over every reachable state of its tables.
\<close>

text \<open>C2: A card is sold once.  In every reachable state, two orders that were delivered or that the sender may deliver now never share a card secret.\<close>

theorem card_handed_out_once:
  assumes "reachable_orders db" "handed_out k1 db" "handed_out k2 db"
    and "s \<in> set (order_secrets k1 db)" "s \<in> set (order_secrets k2 db)"
  shows "k1 = k2"
proof -
  have inv: "order_inv db" using assms(1) by (rule reachable_inv)
  obtain a b where "a \<in> set (inventory db)" "iv_secret a = s" "iv_resv a = Some k1"
    "b \<in> set (inventory db)" "iv_secret b = s" "iv_resv b = Some k2"
    using handed_out_holds [OF inv] assms(2-5) by metis
  moreover from this inv have "a = b"
    using distinct_map_eqD [of "\<lambda>r. (iv_kind r, iv_secret r)" "inventory db" a b]
    by (auto simp: order_inv_def cards_ok_def unique_key_def)
  ultimately show ?thesis by simp
qed

theorem card_handed_out_once_witness:
  "reachable_orders shop_delivered \<and> handed_out ''k1'' shop_delivered \<and>
   ''AAA'' \<in> set (order_secrets ''k1'' shop_delivered) \<and>
   \<not> (handed_out ''k2'' shop_delivered \<and> ''AAA'' \<in> set (order_secrets ''k2'' shop_delivered))"
  using card_handed_out_once [OF shop_reach(5) shop_handed(1), of "''k2''" "''AAA''"] shop_reach(5) shop_handed
  by auto

text \<open>C3: Only paid orders get goods.  In every reachable state an order that holds, sends or has delivered goods carries the verified platform status 2, a paid amount and a platform order id, and no other order carries that platform id.\<close>

theorem only_proven_orders_sell:
  assumes "reachable_orders db" "order_by_key k db = Some ow"
    and "od_status ow \<in> {Reserved, Retry, Sending, Delivered}"
  shows "od_verified ow \<noteq> None \<and> od_platform_status ow = Some ''2'' \<and> od_paid ow \<noteq> None \<and>
    (\<exists>pid. od_platform_id ow = Some pid \<and>
       (\<forall>other \<in> set (orders db). od_platform_id other = Some pid \<longrightarrow> od_key other = k))"
proof -
  have inv: "order_inv db" using assms(1) by (rule reachable_inv)
  note fo = found_order [OF inv assms(2)]
  have "has_proof ow" using order_invD(4) [OF inv fo(1)] assms(3) by (auto simp: row_ok_def)
  with inv_platform [OF inv] fo(1,2) show ?thesis
    unfolding platform_unique_def has_proof_def by blast
qed

theorem only_proven_orders_sell_witness:
  "\<exists>ow. order_by_key ''k1'' shop_sending = Some ow \<and> od_status ow = Sending \<and> od_paid ow \<noteq> None"
proof -
  obtain ow where "order_by_key ''k1'' shop_sending = Some ow" "od_status ow = Sending"
    by (simp add: shop_defs)
  with only_proven_orders_sell [OF shop_reach(4), of "''k1''" ow] show ?thesis by simp
qed

text \<open>C8: Every card is accounted for.  In every reachable state an available card has no holder, a reserved card belongs to an order in flight whose resources list it, and a delivered card to a delivered order whose resources list it.\<close>

theorem no_card_is_lost:
  assumes "reachable_orders db" "r \<in> set (inventory db)"
  shows "(iv_status r = InvAvailable \<longrightarrow> iv_resv r = None) \<and>
    (iv_status r = InvReserved \<longrightarrow> (\<exists>ow \<in> set (orders db). iv_resv r = Some (od_key ow) \<and>
        in_flight ow \<and> od_type ow = Some ''redeem'' \<and> iv_secret r \<in> set (order_secrets (od_key ow) db))) \<and>
    (iv_status r = InvDelivered \<longrightarrow> (\<exists>ow \<in> set (orders db). iv_resv r = Some (od_key ow) \<and>
        od_status ow = Delivered \<and> iv_secret r \<in> set (order_secrets (od_key ow) db)))"
proof -
  have inv: "order_inv db" using assms(1) by (rule reachable_inv)
  have sec: "iv_secret r \<in> set (order_secrets (od_key ow) db)"
    if "ow \<in> set (orders db)" "iv_id r \<in> set (ids_of ow)" for ow
  proof -
    have "order_by_key (od_key ow) db = Some ow"
      using order_keys.find_iff [OF order_invD(1) [OF inv]] that(1) by simp
    from order_secrets_eq [OF inv this] that(2) assms(2) show ?thesis by auto
  qed
  show ?thesis
    using inv assms(2) sec
    unfolding order_inv_def cards_ok_def reserved_backed_def delivered_owned_def by blast
qed

theorem no_card_is_lost_witness:
  "\<exists>r \<in> set (inventory shop_reserved). iv_status r = InvReserved \<and>
     (\<exists>ow \<in> set (orders shop_reserved). iv_resv r = Some (od_key ow) \<and> in_flight ow)"
proof -
  have r: "hd (inventory shop_reserved) \<in> set (inventory shop_reserved)"
    "iv_status (hd (inventory shop_reserved)) = InvReserved" by (simp_all add: shop_defs)
  with no_card_is_lost [OF shop_reach(3) r(1)] show ?thesis by blast
qed



text \<open>C11: Reserving is all or nothing.  For a verified redeem order without cards, \<^verbatim>\<open>prepare_order\<close> reserves exactly the \<open>q\<close> oldest available cards and returns their secrets, or touches no card and hands the order to manual review when fewer than \<open>q\<close> are left.\<close>

theorem prepare_all_or_nothing:
  fixes q :: int
  assumes "reachable_orders db" "may_allocate k chat buyer item db" "1 \<le> q" "q \<le> 50"
  defines "got \<equiv> take (nat q) (stock db)"
  shows "\<exists>db' res. prepare_order now k chat buyer item ''redeem'' (PInt q) pl db = (db', Inr res) \<and>
    (if int (length (stock db)) < q
     then dr_status res = ManualReview \<and> dr_reason res = Some ''inventory_empty'' \<and>
          order_status_of db' k = Some ManualReview \<and> inventory db' = inventory db
     else dr_status res = Reserved \<and> order_status_of db' k = Some Reserved \<and>
          length got = nat q \<and> dr_resources res = map iv_secret got \<and>
          inventory db' = sql_update (\<lambda>r. r \<in> set got) (\<lambda>r. r\<lparr>iv_status := InvReserved,
             iv_resv := Some k, iv_buyer := Some buyer, iv_updated := now\<rparr>) (inventory db))"
proof -
  have inv: "order_inv db" using assms(1) by (rule reachable_inv)
  from assms(2) obtain row where row: "order_by_key k db = Some row" "decode_ids (od_inventory row) = Inr []"
    by (auto simp: may_allocate_def split: option.splits)
  note alloc = prepare_allocates [OF assms(2-4) row(1), of now pl]
  have ids: "map iv_id (take (nat q) (order_by iv_id (filter
      (\<lambda>r. iv_kind r = ''redeem'' \<and> iv_status r = InvAvailable) (inventory db)))) = map iv_id got"
    by (simp add: got_def stock_def)
  have len: "int (length (map iv_id got)) < q \<longleftrightarrow> int (length (stock db)) < q"
    using assms(3) by (auto simp: got_def)
  show ?thesis
  proof (cases "int (length (stock db)) < q")
    case True
    let ?f = "\<lambda>ow. ow\<lparr>od_buyer := Some buyer, od_item := Some item, od_type := Some ''redeem'',
        od_status := ManualReview, od_error := Some ''inventory_empty'', od_updated := now\<rparr>"
    let ?w = "write_order k ?f db"
    let ?db = "?w\<lparr>reviews := upsert_manual_review k ''inventory_empty'' now (reviews ?w)\<rparr>"
    have w: "order_by_key k ?db = Some (?f row)" using find_write [OF row(1), of db ?f] by simp
    from answer_found [OF w, of "[]" db] row(2) obtain res where
      "answer_order db k ?db = (?db, Inr res)" "dr_status res = ManualReview" "dr_reason res = Some ''inventory_empty''"
      by auto
    moreover have "allocate_order now k buyer item ''redeem'' q pl row db = answer_order db k ?db"
      using True len ids row(2) by (simp add: allocate_order_def Let_def)
    moreover have "order_status_of ?db k = Some ManualReview" using w by (simp add: order_status_of_def)
    moreover have "inventory ?db = inventory db" by (simp add: write_order_def)
    ultimately show ?thesis using alloc True by auto
  next
    case False
    let ?g = "\<lambda>r. r\<lparr>iv_status := InvReserved, iv_resv := Some k, iv_buyer := Some buyer, iv_updated := now\<rparr>"
    let ?cs = "sql_update (\<lambda>r. r \<in> set got) ?g (inventory db)"
    let ?f = "\<lambda>ow. ow\<lparr>od_buyer := Some buyer, od_item := Some item, od_type := Some ''redeem'',
        od_payload := pl, od_quantity := q, od_status := Reserved, od_inventory := encode_ids (map iv_id got),
        od_error := None, od_updated := now\<rparr>"
    let ?db = "write_order k ?f (db\<lparr>inventory := ?cs\<rparr>)"
    note ri = reserved_inventory [OF inv, where n = "nat q" and k = k and buyer = buyer and now = now, folded got_def]
    have w: "order_by_key k ?db = Some (?f row)" using find_write [OF row(1), of "db\<lparr>inventory := ?cs\<rparr>" ?f] by simp
    have i: "inventory ?db = ?cs" by (simp add: write_order_def)
    from answer_found [OF w, of "map iv_id got" db] i ri(2) obtain res where
      "answer_order db k ?db = (?db, Inr res)" "dr_status res = Reserved" "dr_resources res = map iv_secret got"
      by auto
    moreover have "allocate_order now k buyer item ''redeem'' q pl row db = answer_order db k ?db"
      using False len ids row(2) ri(1) by (simp add: allocate_order_def Let_def)
    moreover have "order_status_of ?db k = Some Reserved" using w by (simp add: order_status_of_def)
    moreover have "length got = nat q" using False by (simp add: got_def)
    ultimately show ?thesis using alloc i False by auto
  qed
qed

theorem prepare_all_or_nothing_witness:
  "may_allocate ''k1'' ''c1'' ''77'' ''55'' shop_db \<and> int (length (stock shop_db)) = 2 \<and>
   (\<exists>db' res. prepare_order 1001 ''k1'' ''c1'' ''77'' ''55'' ''redeem'' (PInt 2) None shop_db = (db', Inr res) \<and>
      dr_resources res = [''AAA'', ''BBB'']) \<and>
   (\<exists>db' res. prepare_order 1001 ''k1'' ''c1'' ''77'' ''55'' ''redeem'' (PInt 3) None shop_db = (db', Inr res) \<and>
      dr_reason res = Some ''inventory_empty'')"
proof -
  have m: "may_allocate ''k1'' ''c1'' ''77'' ''55'' shop_db"
    by (simp add: may_allocate_def has_proof_def shop_eval)
  have s: "stock shop_db = [shop_card 1 ''AAA'', shop_card 2 ''BBB'']"
    by (simp add: stock_def order_by_def shop_defs)
  show ?thesis
    using prepare_all_or_nothing [OF shop_reach(2) m, of 2 1001 None] prepare_all_or_nothing [OF shop_reach(2) m, of 3 1001 None] m s
    by (fastforce simp: shop_card_def)
qed

text \<open>C12: \<^verbatim>\<open>claim_order_for_send\<close> succeeds exactly on a reserved or retried order, makes it \<open>Sending\<close>, and gives a second sender nothing.\<close>

theorem claim_is_exclusive:
  assumes "reachable_orders db" "order_status_of db k = Some st"
  shows "\<exists>db' got. claim_order_for_send now k db = (db', Inr got) \<and>
    (got \<noteq> None \<longleftrightarrow> st \<in> {Reserved, Retry}) \<and>
    order_status_of db' k = Some (if st \<in> {Reserved, Retry} then Sending else st) \<and>
    inventory db' = inventory db \<and>
    claim_order_for_send later k db' = (db', Inr None)"
proof -
  have inv: "order_inv db" using assms(1) by (rule reachable_inv)
  obtain row where row: "order_by_key k db = Some row" "od_status row = st"
    using assms(2) by (auto simp: order_status_of_def)
  show ?thesis
  proof (cases "st \<in> {Reserved, Retry}")
    case True
    with claim_result [OF inv row(1)] row(2) obtain db' res where
      c: "claim_order_for_send now k db = (db', Inr (Some res))" "inventory db' = inventory db"
      "order_by_key k db' = Some (row\<lparr>od_status := Sending, od_send_started := Some now, od_updated := now\<rparr>)"
      by metis
    then have "claim_order_for_send later k db' = (db', Inr None)" "order_status_of db' k = Some Sending"
      by (simp_all add: claim_order_for_send_def order_status_of_def)
    with c True show ?thesis by simp
  next
    case False
    with row show ?thesis by (simp add: claim_order_for_send_def order_status_of_def)
  qed
qed

theorem claim_is_exclusive_witness:
  "order_status_of shop_reserved ''k1'' = Some Reserved \<and>
   (\<exists>db' res. claim_order_for_send 1002 ''k1'' shop_reserved = (db', Inr (Some res)) \<and>
      claim_order_for_send 1003 ''k1'' db' = (db', Inr None))"
proof -
  have r: "order_status_of shop_reserved ''k1'' = Some Reserved" by (simp add: order_status_of_def shop_defs)
  with claim_is_exclusive [OF shop_reach(3) r, of 1002 1003] show ?thesis by auto
qed

text \<open>C13: When \<^verbatim>\<open>order_inventory_is_sendable\<close> said yes, \<^verbatim>\<open>mark_order_delivered\<close> succeeds: the order is delivered, exactly its cards become delivered, and its resources stay the same.\<close>

theorem sendable_order_delivers:
  assumes "reachable_orders db" "order_inventory_is_sendable k db = Inr True"
  shows "\<exists>db'. mark_order_delivered now k db = (db', Inr ()) \<and> order_status_of db' k = Some Delivered \<and>
    order_secrets k db' = order_secrets k db \<and>
    inventory db' = sql_update (\<lambda>r. iv_secret r \<in> set (order_secrets k db))
       (\<lambda>r. r\<lparr>iv_status := InvDelivered, iv_updated := now\<rparr>) (inventory db)"
proof -
  have inv: "order_inv db" using assms(1) by (rule reachable_inv)
  obtain row where row: "order_by_key k db = Some row"
    using assms(2) by (auto simp: order_inventory_is_sendable_def split: option.splits)
  note fo = found_order [OF inv row] and sh = sendable_holds [OF inv row assms(2)]
  let ?f = "\<lambda>ow. ow\<lparr>od_status := Delivered, od_error := None, od_send_started := None,
                  od_updated := now, od_delivered := Some now\<rparr>"
  let ?g = "\<lambda>r. r\<lparr>iv_status := InvDelivered, iv_updated := now\<rparr>"
  let ?cs = "sql_update (\<lambda>r. iv_secret r \<in> set (order_secrets k db)) ?g (inventory db)"
  let ?db = "write_order k ?f (db\<lparr>inventory := ?cs\<rparr>)"
  obtain cs where cs: "deliver_cards k now (ids_of row) (inventory db) = Inr cs"
    using deliver_cards_total [OF order_invD(2) [OF inv], of "ids_of row" k now] sh by auto
  have listed: "iv_id r \<in> set (ids_of row) \<and> held_by k r \<longleftrightarrow> iv_secret r \<in> set (order_secrets k db)"
    if r: "r \<in> set (inventory db)" for r
  proof
    assume "iv_secret r \<in> set (order_secrets k db)"
    then obtain p where p: "p \<in> set (inventory db)" "iv_id p \<in> set (ids_of row)" "iv_secret p = iv_secret r"
      by (auto simp: order_secrets_eq [OF inv row])
    have "p = r" using distinct_map_eqD [OF _ p(1) r, of "\<lambda>r. (iv_kind r, iv_secret r)"] inv p r
      by (simp add: order_inv_def cards_ok_def unique_key_def)
    moreover obtain q where "q \<in> set (inventory db)" "iv_id q = iv_id r" "held_by k q"
      using sh p(2) \<open>p = r\<close> by auto
    ultimately show "iv_id r \<in> set (ids_of row) \<and> held_by k r"
      using inv_ids.same_row [OF order_invD(2) [OF inv] _ r] p(2) by metis
  qed (use r in \<open>auto simp: order_secrets_eq [OF inv row]\<close>)
  have cs_eq: "cs = ?cs"
    using deliver_cards_spec [OF cs] listed by (simp add: sql_update_def)
  have w: "order_by_key k ?db = Some (?f row)" using find_write [OF row, of "db\<lparr>inventory := ?cs\<rparr>" ?f] by simp
  have res: "mark_order_delivered now k db = (?db, Inr ())"
    using row sh fo(3) cs cs_eq by (simp add: mark_order_delivered_def)
  moreover have "order_inv ?db" using deliver_inv [OF inv, of now k] res by simp
  moreover have i: "inventory ?db = ?cs" by (simp add: write_order_def)
  moreover have "order_secrets k ?db = order_secrets k db"
    using order_secrets_eq [OF \<open>order_inv ?db\<close> w] order_secrets_eq [OF inv row]
      secrets_sql_update [of ?g "set (ids_of row)"] i by (simp add: ids_of_def)
  moreover have "order_status_of ?db k = Some Delivered" using w by (simp add: order_status_of_def)
  ultimately show ?thesis by blast
qed

theorem sendable_order_delivers_witness:
  "order_inventory_is_sendable ''k1'' shop_sending = Inr True \<and>
   order_status_of (fst (mark_order_delivered 1003 ''k1'' shop_sending)) ''k1'' = Some Delivered"
proof -
  have s: "order_inventory_is_sendable ''k1'' shop_sending = Inr True"
    by (simp add: order_inventory_is_sendable_def shop_eval)
  with sendable_order_delivers [OF shop_reach(4) s, of 1003] show ?thesis by auto
qed

text \<open>Cancelling a chat leaves no order of the chat open and no card held by one; a card of an order that was only reserved is for sale again, a card of an order whose sending was tried is quarantined.\<close>

theorem cancel_settles_chat:
  assumes "reachable_orders db"
  shows "\<exists>db' n. cancel_awaiting_for_chat now chat db = (db', Inr n) \<and>
    (\<forall>ow \<in> set (orders db'). od_chat ow = chat \<longrightarrow>
       od_status ow \<in> {Cancelled, ManualReview, Delivered, Expired} \<and>
       (\<forall>r \<in> set (inventory db'). \<not> held_by (od_key ow) r)) \<and>
    (\<forall>ow \<in> set (orders db). \<forall>r \<in> set (inventory db). od_chat ow = chat \<and> held_by (od_key ow) r \<longrightarrow>
       (\<exists>r' \<in> set (inventory db'). iv_id r' = iv_id r \<and> iv_status r' =
          (if od_status ow = Reserved then InvAvailable else InvQuarantined)))"
proof -
  have inv: "order_inv db" using assms by (rule reachable_inv)
  let ?E = "\<lambda>ow. od_chat ow = chat \<and> od_status ow \<in> {AwaitingBinding, Verified, Reserved}"
  let ?U = "\<lambda>ow. od_chat ow = chat \<and> od_status ow \<in> {Retry, Sending}"
  let ?g1 = "\<lambda>r. r\<lparr>iv_status := InvAvailable, iv_resv := None, iv_buyer := None, iv_updated := now\<rparr>"
  let ?g2 = "\<lambda>r. r\<lparr>iv_status := InvQuarantined, iv_updated := now\<rparr>"
  obtain rvs n where c: "cancel_awaiting_for_chat now chat db = (db\<lparr>
      inventory := sql_update (held_among (filter ?U (orders db))) ?g2
        (sql_update (held_among (filter ?E (orders db))) ?g1 (inventory db)),
      orders := sql_update ?U (\<lambda>ow. ow\<lparr>od_status := ManualReview, od_error := Some (cancel_reason (od_status ow)),
               od_send_started := None, od_updated := now\<rparr>)
        (sql_update ?E (\<lambda>ow. ow\<lparr>od_status := Cancelled, od_updated := now\<rparr>) (orders db)),
      reviews := rvs\<rparr>, Inr n)" (is "_ = (?db, _)")
    using cancel_result [OF inv, where chat = chat and now = now] by blast
  then have inv': "order_inv ?db" using cancel_inv [OF inv, of now chat] by simp
  have st: "od_status ow \<in> {Cancelled, ManualReview, Delivered, Expired}"
    if "ow \<in> set (orders ?db)" "od_chat ow = chat" for ow
  proof -
    from that(1) have "ow \<in> set (sql_update ?U (\<lambda>ow. ow\<lparr>od_status := ManualReview,
        od_error := Some (cancel_reason (od_status ow)), od_send_started := None, od_updated := now\<rparr>)
        (sql_update ?E (\<lambda>ow. ow\<lparr>od_status := Cancelled, od_updated := now\<rparr>) (orders db)))" by simp
    then show ?thesis
    proof (cases rule: sql_updateE)
      case miss
      from miss(1) show ?thesis
      proof (cases rule: sql_updateE)
        case early: miss
        with miss(2) that(2) show ?thesis by (cases "od_status ow") simp_all
      qed simp
    qed simp
  qed
  have free: "\<not> held_by (od_key ow) r" if "ow \<in> set (orders ?db)" "od_chat ow = chat" "r \<in> set (inventory ?db)" for ow r
    using held_listed [OF inv' that(1,3)] st [OF that(1,2)] by (auto simp: in_flight_def)
  have cards: "\<exists>r' \<in> set (inventory ?db). iv_id r' = iv_id r \<and> iv_status r' =
          (if od_status ow = Reserved then InvAvailable else InvQuarantined)"
    if a: "ow \<in> set (orders db)" "r \<in> set (inventory db)" "od_chat ow = chat" "held_by (od_key ow) r" for ow r
  proof -
    let ?h1 = "\<lambda>r. if held_among (filter ?E (orders db)) r then ?g1 r else r"
    let ?h2 = "\<lambda>r. if held_among (filter ?U (orders db)) r then ?g2 r else r"
    have fl: "in_flight ow" using held_listed [OF inv a(1,2,4)] by simp
    note E = held_among_iff [OF inv a(1,2,4), of ?E] and U = held_among_iff [OF inv a(1,2,4), of ?U]
    have no: "\<not> held_among rows (?g1 r)" for rows by (auto simp: held_among_def held_by_def)
    have "iv_id (?h2 (?h1 r)) = iv_id r \<and> iv_status (?h2 (?h1 r)) =
        (if od_status ow = Reserved then InvAvailable else InvQuarantined)"
    proof (cases "od_status ow = Reserved")
      case True
      with E a(3) have "?h1 r = ?g1 r" by simp
      then have "?h2 (?h1 r) = ?g1 r" using no by (simp only: if_False)
      with True show ?thesis by simp
    next
      case False
      with fl have "od_status ow \<in> {Retry, Sending}" by (simp add: in_flight_def)
      with E U a(3) have "\<not> held_among (filter ?E (orders db)) r" "held_among (filter ?U (orders db)) r"
        by fastforce+
      then have "?h2 (?h1 r) = ?g2 r" by (simp only: if_True if_False)
      with False show ?thesis by simp
    qed
    moreover have "?h2 (?h1 r) \<in> set (inventory ?db)"
      using a(2) by (simp add: sql_update_def)
    ultimately show ?thesis by blast
  qed
  show ?thesis using c st free cards by blast
qed

theorem cancel_settles_chat_witness:
  "held_by ''k1'' (hd (inventory shop_sending)) \<and>
   (\<exists>db' n. cancel_awaiting_for_chat 1010 ''c1'' shop_sending = (db', Inr n) \<and>
      (\<exists>r' \<in> set (inventory db'). iv_id r' = 1 \<and> iv_status r' = InvQuarantined))"
proof -
  have h: "hd (orders shop_sending) \<in> set (orders shop_sending)" "hd (inventory shop_sending) \<in> set (inventory shop_sending)"
    "od_chat (hd (orders shop_sending)) = ''c1''" "held_by (od_key (hd (orders shop_sending))) (hd (inventory shop_sending))"
    "od_status (hd (orders shop_sending)) = Sending" "iv_id (hd (inventory shop_sending)) = 1"
    "od_key (hd (orders shop_sending)) = ''k1''"
    by (simp_all add: shop_defs held_by_def)
  from cancel_settles_chat [OF shop_reach(4), of 1010 "''c1''"] obtain db' n where
    c: "cancel_awaiting_for_chat 1010 ''c1'' shop_sending = (db', Inr n)"
    "\<forall>ow \<in> set (orders shop_sending). \<forall>r \<in> set (inventory shop_sending). od_chat ow = ''c1'' \<and> held_by (od_key ow) r \<longrightarrow>
       (\<exists>r' \<in> set (inventory db'). iv_id r' = iv_id r \<and> iv_status r' =
          (if od_status ow = Reserved then InvAvailable else InvQuarantined))" by blast
  from bspec [OF bspec [OF c(2) h(1)] h(2)] have "\<exists>r' \<in> set (inventory db'). iv_id r' = 1 \<and> iv_status r' = InvQuarantined"
    by (simp add: h(3,4,5,6,7)) (use h(4,7) in simp)
  with c(1) h(4,7) show ?thesis by auto
qed

text \<open>An import of a manifest that parses never fails, and afterwards every available or reserved card is listed in the manifest as unused: removed and used cards are withdrawn even from orders in flight.\<close>

theorem import_reconciles_stock:
  assumes "reachable_orders db" "load_json name file = Inr (Some (PList items))"
    and "parse_inventory name [] items = Inr rows"
  shows "\<exists>db'. import_inventory now name file ''redeem'' db = (db', Inr (length rows)) \<and>
    distinct (map fst rows) \<and> reachable_orders db' \<and>
    (\<forall>r \<in> set (inventory db'). iv_status r \<in> {InvAvailable, InvReserved} \<longrightarrow>
       (iv_secret r, InvAvailable) \<in> set rows)"
proof -
  have inv: "order_inv db" using assms(1) by (rule reachable_inv)
  from import_result [OF inv assms(2,3), of now] obtain db' where
    d: "import_inventory now name file ''redeem'' db = (db', Inr (length rows))"
    "order_inv db'" "\<forall>r \<in> set (inventory db'). sellable ''redeem'' r \<longrightarrow> (iv_secret r, InvAvailable) \<in> set rows"
    by blast
  have "reachable_orders db'"
    by (rule step_to [OF assms(1), of "OpImport now name file ''redeem''"]) (simp add: d(1))
  moreover have "sellable ''redeem'' r" if "r \<in> set (inventory db')" "iv_status r \<in> {InvAvailable, InvReserved}" for r
    using d(2) that by (auto simp: sellable_def order_inv_def cards_ok_def)
  ultimately show ?thesis using d(1,3) parse_inventory_rows [OF assms(3)] by blast
qed

theorem import_reconciles_stock_witness:
  "\<exists>db'. import_inventory 1500 ''cards'' (File True 40 (Json (PList [PDict [(''code'', PStr ''BBB'')]]))) ''redeem'' shop_sending = (db', Inr 1) \<and>
     \<not> (\<exists>r \<in> set (inventory db'). iv_secret r = ''AAA'' \<and> iv_status r \<in> {InvAvailable, InvReserved})"
proof -
  have p: "parse_inventory ''cards'' [] [PDict [(''code'', PStr ''BBB'')]] = Inr [(''BBB'', InvAvailable)]"
    by (simp add: dict_get_def shop_strings)
  have f: "load_json ''cards'' (File True 40 (Json (PList [PDict [(''code'', PStr ''BBB'')]]))) =
      Inr (Some (PList [PDict [(''code'', PStr ''BBB'')]]))" by (simp add: load_json_def)
  from import_reconciles_stock [OF shop_reach(4) f p, of 1500] show ?thesis by fastforce
qed

text \<open>After a restart no order is left in sending: interrupted sends are up for retry, every other status and every card is unchanged, and each order under manual review has a review record.\<close>

theorem restart_recovers_orders:
  "(\<forall>ow \<in> set (orders (recover_orders db)). od_status ow \<noteq> Sending \<and>
      (od_status ow = ManualReview \<longrightarrow> (\<exists>v \<in> set (reviews (recover_orders db)). rv_key v = od_key ow))) \<and>
   (\<forall>k. order_status_of (recover_orders db) k =
      map_option (\<lambda>st. if st = Sending then Retry else st) (order_status_of db k)) \<and>
   inventory (recover_orders db) = inventory db"
proof (intro conjI ballI allI impI)
  let ?mk = "\<lambda>ow. \<lparr>rv_key = od_key ow, rv_status = ReviewOpen,
      rv_reason = (case od_error ow of None \<Rightarrow> ''manual_review'' | Some e \<Rightarrow> e),
      rv_resolution = None, rv_created = od_created ow, rv_updated = od_updated ow, rv_resolved = None\<rparr>"
  fix ow assume ow: "ow \<in> set (orders (recover_orders db))"
  then show "od_status ow \<noteq> Sending" by (auto simp: recover_orders_def elim!: sql_updateE)
  assume "od_status ow = ManualReview"
  with ow have "od_key ow \<in> od_key ` set (filter (\<lambda>ow. od_status ow = ManualReview) (orders db))"
    by (auto simp: recover_orders_def elim!: sql_updateE)
  then have "find (\<lambda>v. rv_key v = od_key ow) (fold (\<lambda>ow rvs. if find (\<lambda>v. rv_key v = od_key ow) rvs \<noteq> None then rvs
      else rvs @ [?mk ow]) (filter (\<lambda>ow. od_status ow = ManualReview) (orders db)) (reviews db)) \<noteq> None"
    by (intro find_fold_reviews) simp_all
  then have "find (\<lambda>v. rv_key v = od_key ow) (reviews (recover_orders db)) \<noteq> None"
    by (simp add: recover_orders_def)
  then show "\<exists>v \<in> set (reviews (recover_orders db)). rv_key v = od_key ow" by (auto simp: find_None_iff)
next
  fix k
  show "order_status_of (recover_orders db) k = map_option (\<lambda>st. if st = Sending then Retry else st) (order_status_of db k)"
    by (cases "order_by_key k db") (simp_all add: recover_orders_def order_status_of_def order_keys.find_update)
qed (simp add: recover_orders_def)

theorem restart_recovers_orders_witness:
  "order_status_of shop_sending ''k1'' = Some Sending \<and>
   order_status_of (recover_orders shop_sending) ''k1'' = Some Retry"
proof -
  have "order_status_of shop_sending ''k1'' = Some Sending" by (simp add: order_status_of_def shop_defs)
  with restart_recovers_orders [of shop_sending] show ?thesis by simp
qed


end
