(* ===== verification/Chat_Control.thy ===== *)
theory Chat_Control
  imports Store_Common
begin

text \<open>
  The per-chat tables of \<^verbatim>\<open>worker/delivery_store.py\<close>: which buyer and item a chat belongs to
  (\<^verbatim>\<open>chat_bindings\<close>), whether a person has taken it over (\<^verbatim>\<open>manual_modes\<close> and
  \<^verbatim>\<open>manual_control_events\<close>), when the bot last replied (\<^verbatim>\<open>automation_reply_state\<close>) and how much of
  the model budget is spent (\<^verbatim>\<open>llm_usage\<close>).  The argument \<open>digest\<close> stands for
  \<^verbatim>\<open>sha256(f"{chat_id}:{exited_at:.6f}")[:24]\<close>.
\<close>

section \<open>State\<close>

record binding_row =
  cb_chat :: string
  cb_buyer :: string
  cb_item :: string
  cb_observed :: time
  cb_conflicted :: bool

record manual_row =
  mm_chat :: string
  mm_expires :: time
  mm_updated :: time

datatype control_mode = Manual | Auto

record control_row =
  mc_key :: string
  mc_chat :: string
  mc_mode :: control_mode
  mc_created :: time

record reply_row =
  ar_chat :: string
  ar_last :: time
  ar_updated :: time

record usage_row =
  lu_scope :: string
  lu_window :: int
  lu_calls :: int
  lu_chars :: int
  lu_updated :: time

record manual_db =
  modes :: "manual_row list"
  controls :: "control_row list"

record chat_binding =
  bd_buyer :: string
  bd_item :: string
  bd_observed :: time

interpretation binding_chats: keyed_table cb_chat .
interpretation mode_chats: keyed_table mm_chat .
interpretation control_keys: keyed_table mc_key .
interpretation reply_chats: keyed_table ar_chat .
interpretation usage_scopes: keyed_table lu_scope .

section \<open>Chat bindings\<close>

definition record_chat_binding ::
  "time \<Rightarrow> string \<Rightarrow> string \<Rightarrow> string \<Rightarrow> float_arg option \<Rightarrow> binding_row list \<Rightarrow>
   (binding_row list, bool) outcome"
where
  "record_chat_binding now chat_id buyer_id item_id observed_at t =
     (if chat_id = [] \<or> buyer_id = [] \<or> item_id = []
      then (t, Inl (ValueError ''chat binding requires chat, buyer, and item IDs''))
      else case (case observed_at of None \<Rightarrow> Finite now | Some a \<Rightarrow> a) of
        NotAFloat \<Rightarrow> (t, Inl (ValueError ''chat binding timestamp is invalid''))
      | NotFinite \<Rightarrow> (t, Inl (ValueError ''chat binding timestamp is invalid''))
      | Finite moment \<Rightarrow>
          (case find (\<lambda>r. cb_chat r = chat_id) t of
             Some existing \<Rightarrow>
               if cb_buyer existing \<noteq> buyer_id \<or> cb_item existing \<noteq> item_id \<or> cb_conflicted existing
               then (sql_update (\<lambda>r. cb_chat r = chat_id)
                       (\<lambda>r. r\<lparr>cb_conflicted := True, cb_observed := moment\<rparr>) t, Inr False)
               else (sql_update (\<lambda>r. cb_chat r = chat_id)
                       (\<lambda>r. r\<lparr>cb_buyer := buyer_id, cb_item := item_id, cb_observed := moment,
                             cb_conflicted := False\<rparr>) t, Inr True)
           | None \<Rightarrow>
               (t @ [\<lparr>cb_chat = chat_id, cb_buyer = buyer_id, cb_item = item_id,
                      cb_observed = moment, cb_conflicted = False\<rparr>], Inr True)))"

definition get_chat_binding ::
  "time \<Rightarrow> string \<Rightarrow> time \<Rightarrow> time option \<Rightarrow> time option \<Rightarrow> binding_row list \<Rightarrow> chat_binding option result"
where
  "get_chat_binding now chat_id max_age event_at max_event_delta t =
     (if max_age \<le> 0 then Inl (ValueError ''chat binding max age must be positive'')
      else if (case max_event_delta of None \<Rightarrow> False | Some d \<Rightarrow> d \<le> 0)
      then Inl (ValueError ''chat binding event delta must be positive'')
      else case find (\<lambda>r. cb_chat r = chat_id \<and> \<not> cb_conflicted r) t of
        None \<Rightarrow> Inr None
      | Some row \<Rightarrow>
          if now - cb_observed row > max_age then Inr None
          else if (case (event_at, max_event_delta) of
                     (Some e, Some d) \<Rightarrow> \<bar>cb_observed row - e\<bar> > d
                   | _ \<Rightarrow> False)
          then Inr None
          else Inr (Some \<lparr>bd_buyer = cb_buyer row, bd_item = cb_item row, bd_observed = cb_observed row\<rparr>))"

definition find_chat_binding ::
  "time \<Rightarrow> string \<Rightarrow> string \<Rightarrow> time \<Rightarrow> binding_row list \<Rightarrow> string option result"
where
  "find_chat_binding now buyer_id item_id max_age t =
     (if max_age \<le> 0 then Inl (ValueError ''chat binding max age must be positive'')
      else if buyer_id = [] \<or> item_id = [] then Inr None
      else (case filter (\<lambda>r. now - cb_observed r \<le> max_age)
                   (order_by (\<lambda>r. - cb_observed r)
                     (filter (\<lambda>r. cb_buyer r = buyer_id \<and> cb_item r = item_id \<and> \<not> cb_conflicted r) t)) of
              [row] \<Rightarrow> Inr (Some (cb_chat row))
            | _ \<Rightarrow> Inr None))"

section \<open>Model budget\<close>

definition usage_of :: "int \<Rightarrow> string \<Rightarrow> usage_row list \<Rightarrow> int \<times> int" where
  \<comment> \<open>\<^verbatim>\<open>current[scope]\<close>: calls and characters of the window\<close>
  "usage_of window scope t =
     (case find (\<lambda>r. lu_scope r = scope) t of
        None \<Rightarrow> (0, 0)
      | Some r \<Rightarrow> if lu_window r \<noteq> window then (0, 0) else (lu_calls r, lu_chars r))"

definition llm_window :: "time \<Rightarrow> int" where
  "llm_window now = \<lfloor>now / of_int LLM_WINDOW_SECONDS\<rfloor> * LLM_WINDOW_SECONDS"

definition llm_limits :: "string \<Rightarrow> (string \<times> int \<times> int) list" where
  "llm_limits chat_id =
     [(''chat:'' @ chat_id, MAX_LLM_CALLS_PER_CHAT, MAX_LLM_INPUT_CHARS_PER_CHAT),
      (''global'', MAX_LLM_CALLS_GLOBAL, MAX_LLM_INPUT_CHARS_GLOBAL)]"

definition reserve_llm_budget ::
  "time \<Rightarrow> string \<Rightarrow> pyval \<Rightarrow> usage_row list \<Rightarrow> (usage_row list, bool) outcome"
where
  "reserve_llm_budget now chat_id input_chars t =
     (case as_int input_chars of
        None \<Rightarrow> (t, Inl (ValueError ''LLM input size is invalid''))
      | Some n \<Rightarrow>
          if n < 0 \<or> n > MAX_LLM_INPUT_CHARS_GLOBAL
          then (t, Inl (ValueError ''LLM input size is out of range''))
          else
            (let window = llm_window now;
                 t1 = sql_delete (\<lambda>r. lu_window r < window) t;
                 current = map (\<lambda>(scope, _). (scope, usage_of window scope t1)) (llm_limits chat_id)
             in if list_ex (\<lambda>((_, calls, chars), (_, call_limit, char_limit)).
                       calls + 1 > call_limit \<or> chars + n > char_limit)
                     (zip current (llm_limits chat_id))
                then (t1, Inr False)
                else (fold (\<lambda>(scope, calls, chars). sql_upsert lu_scope
                         \<lparr>lu_scope = scope, lu_window = window, lu_calls = calls + 1,
                          lu_chars = chars + n, lu_updated = now\<rparr>
                         (\<lambda>r. r\<lparr>lu_window := window, lu_calls := calls + 1, lu_chars := chars + n,
                               lu_updated := now\<rparr>)) current t1,
                      Inr True)))"

section \<open>Replies\<close>

definition mark_automation_reply_sent ::
  "time \<Rightarrow> string \<Rightarrow> time option \<Rightarrow> reply_row list \<Rightarrow> reply_row list \<times> time"
where
  "mark_automation_reply_sent now chat_id sent_at t =
     (let timestamp = (case sent_at of None \<Rightarrow> now | Some s \<Rightarrow> s) in
      (sql_upsert ar_chat \<lparr>ar_chat = chat_id, ar_last = timestamp, ar_updated = timestamp\<rparr>
         (\<lambda>r. r\<lparr>ar_last := timestamp, ar_updated := timestamp\<rparr>)
         (sql_delete (\<lambda>r. ar_updated r < timestamp - 7 * 86400) t),
       timestamp))"

definition automation_last_reply_at :: "string \<Rightarrow> reply_row list \<Rightarrow> time option" where
  "automation_last_reply_at chat_id t = map_option ar_last (find (\<lambda>r. ar_chat r = chat_id) t)"

section \<open>Manual mode\<close>

definition manual_exit_key :: "(string \<Rightarrow> time \<Rightarrow> string) \<Rightarrow> string \<Rightarrow> time \<Rightarrow> string \<Rightarrow> string" where
  "manual_exit_key digest chat_id exited_at source = source @ '':'' @ digest chat_id exited_at"

definition record_exit :: "(string \<Rightarrow> time \<Rightarrow> string) \<Rightarrow> string \<Rightarrow> string \<Rightarrow> time \<Rightarrow> control_row list \<Rightarrow> control_row list" where
  "record_exit digest source chat_id exited_at =
     sql_insert_ignore mc_key \<lparr>mc_key = manual_exit_key digest chat_id exited_at source, mc_chat = chat_id,
       mc_mode = Auto, mc_created = exited_at\<rparr>"

definition set_manual_mode ::
  "(string \<Rightarrow> time \<Rightarrow> string) \<Rightarrow> time \<Rightarrow> string \<Rightarrow> bool \<Rightarrow> time \<Rightarrow> manual_db \<Rightarrow> (manual_db, unit) outcome"
where
  "set_manual_mode digest now chat_id enabled timeout_seconds db =
     (if enabled \<and> timeout_seconds \<le> 0
      then (db, Inl (ValueError ''manual mode timeout must be positive''))
      else if enabled
      then (db\<lparr>modes := sql_upsert mm_chat
                  \<lparr>mm_chat = chat_id, mm_expires = now + timeout_seconds, mm_updated = now\<rparr>
                  (\<lambda>r. r\<lparr>mm_expires := now + timeout_seconds, mm_updated := now\<rparr>) (modes db)\<rparr>, Inr ())
      else (db\<lparr>modes := sql_delete (\<lambda>r. mm_chat r = chat_id) (modes db),
               controls := (if find (\<lambda>r. mm_chat r = chat_id) (modes db) = None then controls db
                            else record_exit digest ''direct-auto'' chat_id now (controls db))\<rparr>,
            Inr ()))"

definition toggle_manual_mode_once ::
  "time \<Rightarrow> string \<Rightarrow> string \<Rightarrow> time \<Rightarrow> manual_db \<Rightarrow> (manual_db, control_mode \<times> bool) outcome"
where
  "toggle_manual_mode_once now control_key chat_id timeout_seconds db =
     (if control_key = [] \<or> chat_id = []
      then (db, Inl (ValueError ''manual control key and chat ID are required''))
      else if timeout_seconds \<le> 0
      then (db, Inl (ValueError ''manual mode timeout must be positive''))
      else
        (let events = sql_delete (\<lambda>r. mc_created r < now - IDEMPOTENCY_RETENTION_SECONDS) (controls db) in
         case find (\<lambda>r. mc_key r = control_key) events of
           Some previous \<Rightarrow>
             if mc_chat previous \<noteq> chat_id
             then (db, Inl (DeliveryStoreError ''manual control key collision''))
             else (db\<lparr>controls := events\<rparr>, Inr (mc_mode previous, False))
         | None \<Rightarrow>
             (let live = sql_delete (\<lambda>r. mm_expires r \<le> now) (modes db);
                  mode = (if find (\<lambda>r. mm_chat r = chat_id) live = None then Manual else Auto)
              in (db\<lparr>modes := (if mode = Manual
                        then live @ [\<lparr>mm_chat = chat_id, mm_expires = now + timeout_seconds, mm_updated = now\<rparr>]
                        else sql_delete (\<lambda>r. mm_chat r = chat_id) live),
                     controls := events @ [\<lparr>mc_key = control_key, mc_chat = chat_id, mc_mode = mode,
                                            mc_created = now\<rparr>]\<rparr>,
                  Inr (mode, True)))))"

definition is_manual_mode ::
  "(string \<Rightarrow> time \<Rightarrow> string) \<Rightarrow> time \<Rightarrow> string \<Rightarrow> manual_db \<Rightarrow> manual_db \<times> bool"
where
  "is_manual_mode digest now chat_id db =
     (let live = sql_delete (\<lambda>r. mm_expires r \<le> now) (modes db) in
      (db\<lparr>modes := live,
          controls := fold (\<lambda>r. record_exit digest ''expiry-auto'' (mm_chat r) (mm_expires r))
            (filter (\<lambda>r. mm_expires r \<le> now) (modes db)) (controls db)\<rparr>,
       find (\<lambda>r. mm_chat r = chat_id) live \<noteq> None))"

definition manual_exit_at :: "string \<Rightarrow> manual_db \<Rightarrow> time option" where
  "manual_exit_at chat_id db =
     (case map mc_created (filter (\<lambda>r. mc_chat r = chat_id \<and> mc_mode r = Auto) (controls db)) of
        [] \<Rightarrow> None
      | ts \<Rightarrow> Some (foldr max ts (hd ts)))"

end
