(* ===== verification/Chat_Correctness.thy ===== *)
theory Chat_Correctness
  imports Chat_Control
begin

text \<open>
  What the per-chat tables guarantee: the model budget is never exceeded, a chat is bound to one buyer
  and item only as long as every observation agrees, a takeover lasts exactly its timeout, and a
  toggle is executed once per control event.
\<close>

section \<open>Model budget\<close>

type_synonym llm_request = "time \<times> string \<times> pyval"

fun granted :: "llm_request list \<Rightarrow> usage_row list \<Rightarrow> (string \<times> int) list" where
  "granted [] t = []"
| "granted ((now, chat, n) # reqs) t =
     (case reserve_llm_budget now chat n t of
        (t', Inr True) \<Rightarrow> (chat, the (as_int n)) # granted reqs t'
      | (t', _) \<Rightarrow> granted reqs t')"

definition llm_after :: "llm_request list \<Rightarrow> usage_row list \<Rightarrow> usage_row list" where
  "llm_after reqs t = fold (\<lambda>(now, chat, n) t. fst (reserve_llm_budget now chat n t)) reqs t"

definition usage_inv :: "usage_row list \<Rightarrow> bool" where
  "usage_inv t \<longleftrightarrow> unique_key lu_scope t \<and> (\<forall>r \<in> set t. 0 \<le> lu_calls r \<and> 0 \<le> lu_chars r)"

definition charge :: "time \<Rightarrow> int \<Rightarrow> string \<times> int \<times> int \<Rightarrow> usage_row list \<Rightarrow> usage_row list" where
  "charge now n = (\<lambda>(scope, calls, chars). sql_upsert lu_scope
     \<lparr>lu_scope = scope, lu_window = llm_window now, lu_calls = calls + 1, lu_chars = chars + n, lu_updated = now\<rparr>
     (\<lambda>r. r\<lparr>lu_window := llm_window now, lu_calls := calls + 1, lu_chars := chars + n, lu_updated := now\<rparr>))"

lemma reserve_cases:
  obtains (refused) t' where "\<forall>r. r \<in> set t' \<longrightarrow> r \<in> set t" "unique_key lu_scope t \<Longrightarrow> unique_key lu_scope t'"
      "unique_key lu_scope t \<Longrightarrow> usage_of (llm_window now) s t' = usage_of (llm_window now) s t"
      "\<exists>r. reserve_llm_budget now chat n t = (t', r) \<and> r \<noteq> Inr True"
  | (ok) k cc ch gc gh where "as_int n = Some k" "0 \<le> k" "reserve_llm_budget now chat n t =
       (charge now k (''global'', gc, gh) (charge now k (''chat:'' @ chat, cc, ch)
          (sql_delete (\<lambda>r. lu_window r < llm_window now) t)), Inr True)"
      "unique_key lu_scope t \<Longrightarrow> usage_of (llm_window now) (''chat:'' @ chat) t = (cc, ch)"
      "unique_key lu_scope t \<Longrightarrow> usage_of (llm_window now) ''global'' t = (gc, gh)"
      "cc + 1 \<le> 30" "ch + k \<le> 120000" "gc + 1 \<le> 500" "gh + k \<le> 2000000"
proof -
  let ?w = "llm_window now" and ?t = "sql_delete (\<lambda>r. lu_window r < llm_window now) t"
  have del: "usage_of ?w x ?t = usage_of ?w x t" if "unique_key lu_scope t" for x
    using usage_scopes.find_delete [OF that, of x] by (simp add: usage_of_def split: option.split)
  have sub: "\<forall>r. r \<in> set ?t \<longrightarrow> r \<in> set t" by (simp add: in_sql_delete)
  have uq: "unique_key lu_scope ?t" if "unique_key lu_scope t"
    using that by (rule usage_scopes.unique_delete)
  consider "as_int n = None" | k where "as_int n = Some k" "k < 0 \<or> k > MAX_LLM_INPUT_CHARS_GLOBAL"
    | k where "as_int n = Some k" "0 \<le> k" "k \<le> MAX_LLM_INPUT_CHARS_GLOBAL"
    by (cases "as_int n") (auto, linarith)
  then show thesis
  proof cases
    case 1
    then have "reserve_llm_budget now chat n t = (t, Inl (ValueError ''LLM input size is invalid''))"
      by (simp add: reserve_llm_budget_def)
    then show thesis using refused [of t] by simp
  next
    case (2 k)
    then have "reserve_llm_budget now chat n t = (t, Inl (ValueError ''LLM input size is out of range''))"
      by (simp add: reserve_llm_budget_def)
    then show thesis using refused [of t] by simp
  next
    case (3 k)
    obtain cc ch where c: "usage_of ?w (''chat:'' @ chat) ?t = (cc, ch)" by fastforce
    obtain gc gh where g: "usage_of ?w ''global'' ?t = (gc, gh)" by fastforce
    show thesis
    proof (cases "cc + 1 > 30 \<or> ch + k > 120000 \<or> gc + 1 > 500 \<or> gh + k > 2000000")
      case True
      then have "reserve_llm_budget now chat n t = (?t, Inr False)"
        using 3 c g by (auto simp: reserve_llm_budget_def llm_limits_def Let_def store_limits)
      then show thesis using refused [OF sub uq del] by simp
    next
      case False
      then have "reserve_llm_budget now chat n t =
         (charge now k (''global'', gc, gh) (charge now k (''chat:'' @ chat, cc, ch) ?t), Inr True)"
        using 3 c g by (simp add: reserve_llm_budget_def llm_limits_def Let_def store_limits charge_def)
      moreover have "unique_key lu_scope t \<Longrightarrow> usage_of ?w (''chat:'' @ chat) t = (cc, ch)"
        "unique_key lu_scope t \<Longrightarrow> usage_of ?w ''global'' t = (gc, gh)" using del c g by simp_all
      ultimately show thesis using ok [OF 3(1,2)] False by simp
    qed
  qed
qed


lemma usage_charge:
  "usage_of (llm_window now) scope (charge now n (s, c, h) t) =
     (if scope = s then (c + 1, h + n) else usage_of (llm_window now) scope t)"
  by (cases "find (\<lambda>r. lu_scope r = s) t") (simp_all add: usage_of_def charge_def usage_scopes.find_upsert)

lemma unique_charge: "unique_key lu_scope t \<Longrightarrow> unique_key lu_scope (charge now n (s, c, h) t)"
  unfolding charge_def prod.case by (rule usage_scopes.unique_upsert) simp_all

lemma reserve_inv:
  assumes "usage_inv t"
  shows "usage_inv (fst (reserve_llm_budget now chat n t))"
proof (cases rule: reserve_cases [where t = t and now = now and n = n and chat = chat and s = "''global''"])
  case (refused t')
  with assms show ?thesis by (auto simp: usage_inv_def)
next
  case (ok k cc ch gc gh)
  have u: "unique_key lu_scope t" "\<forall>r \<in> set t. 0 \<le> lu_calls r \<and> 0 \<le> lu_chars r" using assms by (simp_all add: usage_inv_def)
  have pos: "0 \<le> fst (usage_of w s t)" "0 \<le> snd (usage_of w s t)" for w s
    using u(2) by (auto simp: usage_of_def split: option.split dest!: find_SomeD)
  have ch: "usage_inv (charge now k (s, c, h) t0)" if "usage_inv t0" "0 \<le> c" "0 \<le> h" for s c h t0
    using that ok(2) unique_charge [of t0 now k s c h]
    by (auto simp: usage_inv_def charge_def sql_upsert_def elim!: sql_updateE)
  have "usage_inv (sql_delete (\<lambda>r. lu_window r < llm_window now) t)"
    using assms usage_scopes.unique_delete by (auto simp: usage_inv_def in_sql_delete)
  with ch ok(3) pos ok(4,5) u(1) show ?thesis by (metis fst_conv snd_conv)
qed

lemma llm_after_inv: "usage_inv t \<Longrightarrow> usage_inv (llm_after reqs t)"
  unfolding llm_after_def by (induction reqs arbitrary: t) (auto simp: reserve_inv)

lemma budget_step:
  fixes chat :: string and n :: pyval
  assumes "unique_key lu_scope t" "llm_window now = w"
    and "(scope, sel, L, H) \<in> {(''chat:'' @ c, (\<lambda>chat. chat = c), 30, 120000), (''global'', (\<lambda>_. True), 500, 2000000)}"
  defines "t' \<equiv> fst (reserve_llm_budget now chat n t)"
  shows "unique_key lu_scope t' \<and>
    (if sel chat \<and> snd (reserve_llm_budget now chat n t) = Inr True
     then usage_of w scope t' = (fst (usage_of w scope t) + 1, snd (usage_of w scope t) + the (as_int n)) \<and>
          fst (usage_of w scope t') \<le> L \<and> snd (usage_of w scope t') \<le> H
     else usage_of w scope t' = usage_of w scope t)"
proof (cases rule: reserve_cases [where t = t and now = now and n = n and chat = chat and s = scope])
  case (refused t1)
  with assms show ?thesis by auto
next
  case (ok k cc ch gc gh)
  have d: "unique_key lu_scope (sql_delete (\<lambda>r. lu_window r < llm_window now) t)"
    "\<And>s. usage_of w s (sql_delete (\<lambda>r. lu_window r < llm_window now) t) = usage_of w s t"
    using usage_scopes.unique_delete [OF assms(1)] usage_scopes.find_delete [OF assms(1)] assms(2)
    by (auto simp: usage_of_def split: option.split)
  have t': "t' = charge now k (''global'', gc, gh) (charge now k (''chat:'' @ chat, cc, ch)
          (sql_delete (\<lambda>r. lu_window r < llm_window now) t))" using ok(3) by (simp add: t'_def)
  have "unique_key lu_scope t'" unfolding t' using d(1) by (intro unique_charge)
  moreover have "usage_of w s t' = (if s = ''global'' then (gc + 1, gh + k)
      else if s = ''chat:'' @ chat then (cc + 1, ch + k) else usage_of w s t)" for s
    unfolding t' assms(2) [symmetric] usage_charge using d(2) assms(2) by simp
  ultimately show ?thesis
    using ok assms(1,2,3) by auto
qed

lemma budget_run:
  assumes "unique_key lu_scope t" "\<forall>(now, _) \<in> set reqs. llm_window now = w"
    and sc: "(scope, sel, L, H) \<in> {(''chat:'' @ c, (\<lambda>chat. chat = c), 30, 120000), (''global'', (\<lambda>_. True), 500, 2000000)}"
  shows "int (length (filter (\<lambda>g. sel (fst g)) (granted reqs t))) + fst (usage_of w scope t) \<le> max (fst (usage_of w scope t)) L \<and>
    sum_list (map snd (filter (\<lambda>g. sel (fst g)) (granted reqs t))) + snd (usage_of w scope t) \<le> max (snd (usage_of w scope t)) H"
  using assms(1,2)
proof (induction reqs arbitrary: t)
  case (Cons req reqs)
  obtain now chat n where req: "req = (now, chat, n)" by (cases req)
  obtain t' r where r: "reserve_llm_budget now chat n t = (t', r)" by fastforce
  have w: "llm_window now = w" using Cons.prems(2) req by auto
  from budget_step [OF Cons.prems(1) w sc, of chat n, unfolded r fst_conv snd_conv]
  have st: "unique_key lu_scope t'" "if sel chat \<and> r = Inr True
     then usage_of w scope t' = (fst (usage_of w scope t) + 1, snd (usage_of w scope t) + the (as_int n)) \<and>
          fst (usage_of w scope t') \<le> L \<and> snd (usage_of w scope t') \<le> H
     else usage_of w scope t' = usage_of w scope t" by blast+
  have IH: "int (length (filter (\<lambda>g. sel (fst g)) (granted reqs t'))) + fst (usage_of w scope t') \<le> max (fst (usage_of w scope t')) L \<and>
    sum_list (map snd (filter (\<lambda>g. sel (fst g)) (granted reqs t'))) + snd (usage_of w scope t') \<le> max (snd (usage_of w scope t')) H"
    using Cons.IH [OF st(1)] Cons.prems(2) by simp
  have g: "granted (req # reqs) t = (if r = Inr True then (chat, the (as_int n)) # granted reqs t' else granted reqs t')"
    using r req by (auto split: sum.split bool.split)
  show ?case
  proof (cases "sel chat \<and> r = Inr True")
    case True
    with st(2) IH show ?thesis unfolding g by auto
  next
    case False
    with st(2) IH show ?thesis unfolding g by auto
  qed
qed simp

text \<open>C7: The model budget holds.  Whatever happened before, the requests granted within one hour-long window are at most 30 calls and 120000 characters for each chat and 500 calls and 2000000 characters in total.\<close>

theorem llm_budget_enforced:
  fixes earlier reqs :: "llm_request list"
  assumes "\<forall>(now, _) \<in> set reqs. llm_window now = w"
  defines "spent \<equiv> granted reqs (llm_after earlier [])"
  shows "length (filter (\<lambda>(chat, _). chat = c) spent) \<le> 30 \<and>
    sum_list (map snd (filter (\<lambda>(chat, _). chat = c) spent)) \<le> 120000 \<and>
    length spent \<le> 500 \<and> sum_list (map snd spent) \<le> 2000000"
proof -
  let ?t = "llm_after earlier []"
  have inv: "usage_inv ?t" by (rule llm_after_inv) (simp add: usage_inv_def unique_key_def)
  then have u: "unique_key lu_scope ?t" by (simp add: usage_inv_def)
  have pos: "0 \<le> fst (usage_of w s ?t)" "0 \<le> snd (usage_of w s ?t)" for s
    using inv by (auto simp: usage_inv_def usage_of_def split: option.split dest!: find_SomeD)
  have f: "filter (\<lambda>(chat, _). chat = c) spent = filter (\<lambda>g. fst g = c) spent"
    by (rule filter_cong) auto
  have lim: "a \<le> L" if "a + b \<le> max b L" "0 \<le> b" "0 \<le> L" for a b L :: int using that by linarith
  note chat = budget_run [OF u assms(1), of "''chat:'' @ c" "\<lambda>chat. chat = c" 30 120000 c, simplified, folded spent_def]
    and global = budget_run [OF u assms(1), of "''global''" "\<lambda>_. True" 500 2000000 c, simplified, folded spent_def]
  have "int (length (filter (\<lambda>g. fst g = c) spent)) \<le> 30" "sum_list (map snd (filter (\<lambda>g. fst g = c) spent)) \<le> 120000"
    "int (length spent) \<le> 500" "sum_list (map snd spent) \<le> 2000000"
    using lim [OF chat [THEN conjunct1]] lim [OF chat [THEN conjunct2]]
      lim [OF global [THEN conjunct1]] lim [OF global [THEN conjunct2]] pos by simp_all
  then show ?thesis by (simp add: f)
qed

theorem llm_budget_enforced_witness:
  "granted [(7200, ''c'', PInt 10)] (llm_after [] []) = [(''c'', 10)] \<and>
   length (granted (replicate 600 (7200, ''c'', PInt 10)) (llm_after [] [])) \<le> 500"
proof -
  have "llm_window 7200 = 7200" by (simp add: llm_window_def LLM_WINDOW_SECONDS_def)
  then have w: "\<forall>(now, _) \<in> set (replicate 600 (7200, ''c'', PInt 10)). llm_window now = 7200" by simp
  have "granted [(7200, ''c'', PInt 10)] (llm_after [] []) = [(''c'', 10)]"
    by (simp add: llm_after_def reserve_llm_budget_def llm_limits_def usage_of_def Let_def store_limits)
  with llm_budget_enforced [OF w, of "[]"] show ?thesis by blast
qed

section \<open>Chat bindings\<close>

record observation =
  ob_now :: time
  ob_chat :: string
  ob_buyer :: string
  ob_item :: string
  ob_at :: "float_arg option"

definition observe :: "observation \<Rightarrow> binding_row list \<Rightarrow> binding_row list" where
  "observe ob t = fst (record_chat_binding (ob_now ob) (ob_chat ob) (ob_buyer ob) (ob_item ob) (ob_at ob) t)"

definition accepted :: "observation \<Rightarrow> bool" where
  "accepted ob \<longleftrightarrow> ob_chat ob \<noteq> [] \<and> ob_buyer ob \<noteq> [] \<and> ob_item ob \<noteq> [] \<and>
     ob_at ob \<notin> {Some NotAFloat, Some NotFinite}"

text \<open>What the table knows of the accepted observations: a row per chat, conflicted as soon as two differ.\<close>

definition bindings_sound :: "observation list \<Rightarrow> binding_row list \<Rightarrow> bool" where
  "bindings_sound obs t \<longleftrightarrow> unique_key cb_chat t \<and>
     (\<forall>ob \<in> set obs. accepted ob \<longrightarrow> (\<exists>r \<in> set t. cb_chat r = ob_chat ob \<and>
        (cb_conflicted r \<or> cb_buyer r = ob_buyer ob \<and> cb_item r = ob_item ob))) \<and>
     (\<forall>r \<in> set t. \<exists>ob \<in> set obs. accepted ob \<and> ob_chat ob = cb_chat r)"

lemma observe_rejected: "\<not> accepted ob \<Longrightarrow> observe ob t = t"
  by (auto simp: observe_def record_chat_binding_def accepted_def)

lemma observe_accepted:
  assumes "accepted ob"
  obtains moment where "observe ob t = (case find (\<lambda>r. cb_chat r = ob_chat ob) t of
      None \<Rightarrow> t @ [\<lparr>cb_chat = ob_chat ob, cb_buyer = ob_buyer ob, cb_item = ob_item ob,
                 cb_observed = moment, cb_conflicted = False\<rparr>]
    | Some r \<Rightarrow> sql_update (\<lambda>r. cb_chat r = ob_chat ob)
        (if cb_buyer r = ob_buyer ob \<and> cb_item r = ob_item ob \<and> \<not> cb_conflicted r
         then (\<lambda>r. r\<lparr>cb_buyer := ob_buyer ob, cb_item := ob_item ob, cb_observed := moment, cb_conflicted := False\<rparr>)
         else (\<lambda>r. r\<lparr>cb_conflicted := True, cb_observed := moment\<rparr>)) t)"
proof -
  from assms obtain moment where "(case ob_at ob of None \<Rightarrow> Finite (ob_now ob) | Some a \<Rightarrow> a) = Finite moment"
    by (cases "ob_at ob") (auto simp: accepted_def split: float_arg.splits, metis float_arg.exhaust)
  with assms show thesis
    by (intro that [of moment]) (auto simp: observe_def record_chat_binding_def accepted_def split: option.split)
qed

lemma observe_sound:
  assumes s: "bindings_sound obs t"
  shows "bindings_sound (obs @ [ob]) (observe ob t)"
proof (cases "accepted ob")
  case False
  with s show ?thesis by (auto simp: observe_rejected bindings_sound_def)
next
  case acc: True
  from observe_accepted [OF acc, of t] obtain moment where o: "observe ob t = (case find (\<lambda>r. cb_chat r = ob_chat ob) t of
      None \<Rightarrow> t @ [\<lparr>cb_chat = ob_chat ob, cb_buyer = ob_buyer ob, cb_item = ob_item ob,
                 cb_observed = moment, cb_conflicted = False\<rparr>]
    | Some r \<Rightarrow> sql_update (\<lambda>r. cb_chat r = ob_chat ob)
        (if cb_buyer r = ob_buyer ob \<and> cb_item r = ob_item ob \<and> \<not> cb_conflicted r
         then (\<lambda>r. r\<lparr>cb_buyer := ob_buyer ob, cb_item := ob_item ob, cb_observed := moment, cb_conflicted := False\<rparr>)
         else (\<lambda>r. r\<lparr>cb_conflicted := True, cb_observed := moment\<rparr>)) t)" by blast
  have u: "unique_key cb_chat t" using s by (simp add: bindings_sound_def)
  show ?thesis
  proof (cases "find (\<lambda>r. cb_chat r = ob_chat ob) t")
    case None
    with o s acc binding_chats.unique_insert [OF u] show ?thesis by (fastforce simp: bindings_sound_def)
  next
    case (Some r)
    then have r: "r \<in> set t" "cb_chat r = ob_chat ob" by (auto dest: find_SomeD)
    have one: "q = r" if "q \<in> set t" "cb_chat q = ob_chat ob" for q
      using binding_chats.same_row [OF u that(1) r(1)] that(2) r(2) by simp
    define f :: "binding_row \<Rightarrow> binding_row" where "f = (if cb_buyer r = ob_buyer ob \<and> cb_item r = ob_item ob \<and> \<not> cb_conflicted r
         then (\<lambda>r. r\<lparr>cb_buyer := ob_buyer ob, cb_item := ob_item ob, cb_observed := moment, cb_conflicted := False\<rparr>)
         else (\<lambda>r. r\<lparr>cb_conflicted := True, cb_observed := moment\<rparr>))"
    have f: "cb_chat (f q) = cb_chat q" "cb_conflicted (f r) \<or> cb_buyer (f r) = ob_buyer ob \<and> cb_item (f r) = ob_item ob"
      "cb_conflicted (f r) \<or> \<not> cb_conflicted r \<and> cb_buyer (f r) = cb_buyer r \<and> cb_item (f r) = cb_item r" for q
      by (simp_all add: f_def)
    let ?t = "sql_update (\<lambda>r. cb_chat r = ob_chat ob) f t"
    have o': "observe ob t = ?t" using o Some by (simp add: f_def)
    have new: "f r \<in> set ?t" using r by (auto simp: sql_update_def)
    have keep: "q \<in> set ?t" if "q \<in> set t" "cb_chat q \<noteq> ob_chat ob" for q
      using that by (auto simp: sql_update_def image_iff)
    have "\<exists>q \<in> set ?t. cb_chat q = ob_chat oc \<and>
        (cb_conflicted q \<or> cb_buyer q = ob_buyer oc \<and> cb_item q = ob_item oc)"
      if "oc \<in> set (obs @ [ob])" "accepted oc" for oc
    proof (cases "ob_chat oc = ob_chat ob")
      case True
      with that s one have "oc = ob \<or> (cb_conflicted r \<or> cb_buyer r = ob_buyer oc \<and> cb_item r = ob_item oc)"
        by (auto simp: bindings_sound_def)
      with True new f r show ?thesis by metis
    next
      case False
      with that s obtain q where "q \<in> set t" "cb_chat q = ob_chat oc"
        "cb_conflicted q \<or> cb_buyer q = ob_buyer oc \<and> cb_item q = ob_item oc" by (auto simp: bindings_sound_def)
      with False keep show ?thesis by metis
    qed
    moreover have "\<exists>oc \<in> set (obs @ [ob]). accepted oc \<and> ob_chat oc = cb_chat q" if "q \<in> set ?t" for q
      using that f(1) acc s by (cases rule: sql_updateE) (auto simp: bindings_sound_def)
    moreover have "unique_key cb_chat ?t" using u f(1) by (rule binding_chats.unique_update)
    ultimately show ?thesis unfolding o' bindings_sound_def by blast
  qed
qed

lemma observations_sound: "bindings_sound obs (fold observe obs [])"
proof (induction obs rule: rev_induct)
  case Nil
  show ?case by (simp add: bindings_sound_def unique_key_def)
next
  case (snoc ob obs)
  then show ?case using observe_sound by simp
qed

lemma binding_agrees:
  assumes "bindings_sound obs t" "r \<in> set t" "\<not> cb_conflicted r" "ob \<in> set obs" "accepted ob" "ob_chat ob = cb_chat r"
  shows "ob_buyer ob = cb_buyer r \<and> ob_item ob = cb_item r"
  using assms binding_chats.same_row [of t] unfolding bindings_sound_def by metis

text \<open>A chat binding is unanimous.  When \<^verbatim>\<open>get_chat_binding\<close> returns a buyer and an item, the chat was observed, every accepted observation of it named that buyer and item, and the last one is fresh.\<close>

theorem chat_binding_is_unanimous:
  assumes "get_chat_binding now chat max_age event_at delta (fold observe obs []) = Inr (Some b)"
  shows "(\<exists>ob \<in> set obs. accepted ob \<and> ob_chat ob = chat) \<and>
    (\<forall>ob \<in> set obs. accepted ob \<and> ob_chat ob = chat \<longrightarrow> ob_buyer ob = bd_buyer b \<and> ob_item ob = bd_item b) \<and>
    now - bd_observed b \<le> max_age"
proof -
  let ?t = "fold observe obs []"
  from assms obtain r where r: "find (\<lambda>r. cb_chat r = chat \<and> \<not> cb_conflicted r) ?t = Some r"
    "b = \<lparr>bd_buyer = cb_buyer r, bd_item = cb_item r, bd_observed = cb_observed r\<rparr>"
    "now - cb_observed r \<le> max_age"
    by (auto simp: get_chat_binding_def split: if_splits option.splits)
  then have m: "r \<in> set ?t" "cb_chat r = chat" "\<not> cb_conflicted r" by (auto dest: find_SomeD)
  moreover have "\<exists>ob \<in> set obs. accepted ob \<and> ob_chat ob = cb_chat r"
    using observations_sound [of obs] m(1) unfolding bindings_sound_def by blast
  ultimately show ?thesis
    using binding_agrees [OF observations_sound m(1,3)] r by auto
qed

theorem chat_binding_is_unanimous_witness:
  "get_chat_binding 100 ''c'' 50 None None (fold observe
      [\<lparr>ob_now = 90, ob_chat = ''c'', ob_buyer = ''b'', ob_item = ''i'', ob_at = None\<rparr>] []) =
      Inr (Some \<lparr>bd_buyer = ''b'', bd_item = ''i'', bd_observed = 90\<rparr>) \<and>
   (100 :: time) - 90 \<le> 50"
proof -
  have g: "get_chat_binding 100 ''c'' 50 None None (fold observe
      [\<lparr>ob_now = 90, ob_chat = ''c'', ob_buyer = ''b'', ob_item = ''i'', ob_at = None\<rparr>] []) =
      Inr (Some \<lparr>bd_buyer = ''b'', bd_item = ''i'', bd_observed = 90\<rparr>)"
    by (simp add: observe_def record_chat_binding_def get_chat_binding_def)
  from chat_binding_is_unanimous [OF g] g show ?thesis by simp
qed

text \<open>When \<^verbatim>\<open>find_chat_binding\<close> resolves a buyer and an item to a chat, every accepted observation of that chat named them, and no other chat has a fresh binding to them.\<close>

theorem found_chat_is_the_only_one:
  assumes "find_chat_binding now buyer item max_age (fold observe obs []) = Inr (Some chat)"
  shows "(\<forall>ob \<in> set obs. accepted ob \<and> ob_chat ob = chat \<longrightarrow> ob_buyer ob = buyer \<and> ob_item ob = item) \<and>
    (\<forall>other b. other \<noteq> chat \<and> get_chat_binding now other max_age None None (fold observe obs []) = Inr (Some b) \<longrightarrow>
       \<not> (bd_buyer b = buyer \<and> bd_item b = item))"
proof -
  let ?t = "fold observe obs []"
  let ?P = "\<lambda>r. (cb_buyer r = buyer \<and> cb_item r = item \<and> \<not> cb_conflicted r) \<and> now - cb_observed r \<le> max_age"
  from assms obtain r where one: "filter (\<lambda>r. now - cb_observed r \<le> max_age) (order_by (\<lambda>r. - cb_observed r)
      (filter (\<lambda>r. cb_buyer r = buyer \<and> cb_item r = item \<and> \<not> cb_conflicted r) ?t)) = [r]" "cb_chat r = chat"
    by (auto simp: find_chat_binding_def split: if_splits list.splits)
  have only: "q \<in> set ?t \<and> ?P q \<longleftrightarrow> q = r" for q
    using arg_cong [OF one(1), of set] by auto
  then have r: "r \<in> set ?t" "?P r" by blast+
  have "ob_buyer ob = buyer \<and> ob_item ob = item" if "ob \<in> set obs" "accepted ob" "ob_chat ob = chat" for ob
    using binding_agrees [OF observations_sound r(1)] r(2) that one(2) by auto
  moreover have "\<not> (bd_buyer b = buyer \<and> bd_item b = item)"
    if "other \<noteq> chat" "get_chat_binding now other max_age None None ?t = Inr (Some b)" for other b
  proof
    assume b: "bd_buyer b = buyer \<and> bd_item b = item"
    from that(2) obtain q where q: "find (\<lambda>r. cb_chat r = other \<and> \<not> cb_conflicted r) ?t = Some q"
      "b = \<lparr>bd_buyer = cb_buyer q, bd_item = cb_item q, bd_observed = cb_observed q\<rparr>"
      "now - cb_observed q \<le> max_age"
      by (auto simp: get_chat_binding_def split: if_splits option.splits)
    then have "q = r" using only [of q] b by (auto dest: find_SomeD)
    with q(1) one(2) that(1) show False by (auto dest: find_SomeD)
  qed
  ultimately show ?thesis by blast
qed


definition two_chats :: "observation list" where
  "two_chats = [\<lparr>ob_now = 90, ob_chat = ''c'', ob_buyer = ''b'', ob_item = ''i'', ob_at = None\<rparr>,
     \<lparr>ob_now = 20, ob_chat = ''d'', ob_buyer = ''b'', ob_item = ''i'', ob_at = None\<rparr>]"

theorem found_chat_is_the_only_one_witness:
  "find_chat_binding 100 ''b'' ''i'' 50 (fold observe two_chats []) = Inr (Some ''c'') \<and>
   get_chat_binding 100 ''d'' 50 None None (fold observe two_chats []) \<noteq>
     Inr (Some \<lparr>bd_buyer = ''b'', bd_item = ''i'', bd_observed = 20\<rparr>)"
proof -
  have g: "find_chat_binding 100 ''b'' ''i'' 50 (fold observe two_chats []) = Inr (Some ''c'')"
    by (simp add: two_chats_def observe_def record_chat_binding_def find_chat_binding_def order_by_def)
  have "''d'' \<noteq> ''c''" by simp
  with found_chat_is_the_only_one [OF g, THEN conjunct2, THEN spec, of "''d''"] g show ?thesis
    by fastforce
qed

section \<open>Manual mode\<close>

text \<open>A takeover lasts exactly its timeout: after \<^verbatim>\<open>set_manual_mode\<close> switched it on, \<^verbatim>\<open>is_manual_mode\<close> answers yes until the timeout has passed and no from then on.\<close>

theorem manual_takeover_lasts:
  assumes "set_manual_mode digest now chat True timeout db = (db', Inr ())" "unique_key mm_chat (modes db)"
  shows "snd (is_manual_mode digest later chat db') \<longleftrightarrow> later < now + timeout"
proof -
  let ?f = "\<lambda>r. r\<lparr>mm_expires := now + timeout, mm_updated := now\<rparr>"
  let ?new = "\<lparr>mm_chat = chat, mm_expires = now + timeout, mm_updated = now\<rparr>"
  have m: "modes db' = sql_upsert mm_chat ?new ?f (modes db)"
    using assms(1) by (auto simp: set_manual_mode_def split: if_splits)
  have u: "unique_key mm_chat (modes db')" unfolding m using assms(2) by (rule mode_chats.unique_upsert) simp
  obtain r where "find (\<lambda>r. mm_chat r = chat) (modes db') = Some r" "mm_expires r = now + timeout"
    unfolding m using mode_chats.find_upsert [of ?f chat ?new "modes db"]
    by (cases "find (\<lambda>r. mm_chat r = chat) (modes db)") auto
  with mode_chats.find_delete [OF u, of chat "\<lambda>r. mm_expires r \<le> later"] show ?thesis
    by (auto simp: is_manual_mode_def Let_def)
qed

theorem manual_takeover_lasts_witness:
  "snd (is_manual_mode (\<lambda>_ _. []) 109 ''c''
      (fst (set_manual_mode (\<lambda>_ _. []) 100 ''c'' True 10 \<lparr>modes = [], controls = []\<rparr>))) \<and>
   \<not> snd (is_manual_mode (\<lambda>_ _. []) 110 ''c''
      (fst (set_manual_mode (\<lambda>_ _. []) 100 ''c'' True 10 \<lparr>modes = [], controls = []\<rparr>)))"
proof -
  let ?db = "fst (set_manual_mode (\<lambda>_ _. []) 100 ''c'' True 10 \<lparr>modes = [], controls = []\<rparr>)"
  have s: "set_manual_mode (\<lambda>_ _. []) 100 ''c'' True 10 \<lparr>modes = [], controls = []\<rparr> = (?db, Inr ())"
    by (simp add: set_manual_mode_def)
  have u: "unique_key mm_chat (modes \<lparr>modes = [], controls = []\<rparr>)" by (simp add: unique_key_def)
  show ?thesis using manual_takeover_lasts [OF s u, of 109] manual_takeover_lasts [OF s u, of 110] by simp
qed

text \<open>A control event toggles once: repeating \<^verbatim>\<open>toggle_manual_mode_once\<close> with the same key within the retention period returns the mode chosen the first time and changes no takeover.\<close>

theorem toggle_is_idempotent:
  assumes "toggle_manual_mode_once now key chat timeout db = (db', Inr (mode, True))"
    and "now \<le> later" "later \<le> now + IDEMPOTENCY_RETENTION_SECONDS" "0 < timeout'"
  shows "\<exists>db''. toggle_manual_mode_once later key chat timeout' db' = (db'', Inr (mode, False)) \<and>
    modes db'' = modes db'"
proof -
  let ?ev = "sql_delete (\<lambda>r. mc_created r < now - IDEMPOTENCY_RETENTION_SECONDS) (controls db)"
  have nk: "key \<noteq> []" "chat \<noteq> []" and none: "find (\<lambda>r. mc_key r = key) ?ev = None"
    and c: "controls db' = ?ev @ [\<lparr>mc_key = key, mc_chat = chat, mc_mode = mode, mc_created = now\<rparr>]"
    using assms(1) by (auto simp: toggle_manual_mode_once_def Let_def split: if_splits option.splits)
  let ?late = "\<lambda>r. mc_created r < later - IDEMPOTENCY_RETENTION_SECONDS"
  have "find (\<lambda>r. mc_key r = key) (sql_delete ?late ?ev) = None"
    using none by (auto simp: find_None_iff in_sql_delete)
  then have "find (\<lambda>r. mc_key r = key) (sql_delete ?late (controls db')) =
      Some \<lparr>mc_key = key, mc_chat = chat, mc_mode = mode, mc_created = now\<rparr>"
    using assms(3) unfolding c by (simp add: sql_delete_def control_keys.find_append_new)
  with nk assms(4) show ?thesis by (simp add: toggle_manual_mode_once_def Let_def)
qed


theorem toggle_is_idempotent_witness:
  "\<exists>db' db''. toggle_manual_mode_once 100 ''e1'' ''c'' 60 \<lparr>modes = [], controls = []\<rparr> = (db', Inr (Manual, True)) \<and>
     toggle_manual_mode_once 130 ''e1'' ''c'' 60 db' = (db'', Inr (Manual, False)) \<and> modes db'' = modes db'"
proof -
  obtain db' where t: "toggle_manual_mode_once 100 ''e1'' ''c'' 60 \<lparr>modes = [], controls = []\<rparr> = (db', Inr (Manual, True))"
    by (simp add: toggle_manual_mode_once_def Let_def)
  from toggle_is_idempotent [OF t, of 130 60] t show ?thesis
    by (auto simp: IDEMPOTENCY_RETENTION_SECONDS_def)
qed

end
