(* ===== verification/Order_Verification.thy ===== *)
theory Order_Verification
  imports Order_Lifecycle Chat_Control
begin

text \<open>
  The checks of \<^verbatim>\<open>worker/main.py\<close> on what the platform says about an order: the payment reminder, the
  message head, the order detail and the list of sold orders.  The arguments \<open>loads\<close>, \<open>decimal\<close> and
  \<open>sha\<close> stand for \<^verbatim>\<open>json.loads\<close> (\<open>None\<close> when it raises), \<^verbatim>\<open>Decimal(str(x))\<close> and
  \<^verbatim>\<open>sha256(..).hexdigest()\<close>; nothing is assumed of them.
\<close>

section \<open>Values from the platform\<close>

record decimal =
  dc_finite :: bool
  dc_negative :: bool
  dc_plain :: string \<comment> \<open>\<^verbatim>\<open>format(x.normalize(), "f")\<close>\<close>

definition JSON_TEXT_LIMIT :: nat where
  "JSON_TEXT_LIMIT = 2 * 1024 * 1024"

definition json_step :: "(string \<Rightarrow> pyval option) \<Rightarrow> pyval \<Rightarrow> pyval option" where
  "json_step loads v =
     (case v of
        PStr s \<Rightarrow> if py_len s > JSON_TEXT_LIMIT then None else loads s
      | _ \<Rightarrow> None)"

definition json_object :: "(string \<Rightarrow> pyval option) \<Rightarrow> pyval \<Rightarrow> dict option" where
  \<comment> \<open>Two rounds of the loop, then the final test\<close>
  "json_object loads v =
     (case v of PDict d \<Rightarrow> Some d | _ \<Rightarrow>
        (case json_step loads v of
           None \<Rightarrow> None
         | Some (PDict d) \<Rightarrow> Some d
         | Some v1 \<Rightarrow>
             (case json_step loads v1 of
                Some (PDict d) \<Rightarrow> Some d
              | _ \<Rightarrow> None)))"

definition sub_object :: "(string \<Rightarrow> pyval option) \<Rightarrow> dict option \<Rightarrow> string \<Rightarrow> dict option" where
  \<comment> \<open>\<^verbatim>\<open>cls._json_object(d.get(k)) if d else None\<close>\<close>
  "sub_object loads d k =
     (case d of
        None \<Rightarrow> None
      | Some e \<Rightarrow> if e = [] then None else json_object loads (dict_get e k))"

definition numeric_identifier :: "pyval \<Rightarrow> string option" where
  "numeric_identifier v =
     (case (case v of PInt i \<Rightarrow> PStr (str_int i) | _ \<Rightarrow> v) of
        PStr s \<Rightarrow> if py_len s > 64 \<or> \<not> ascii_digits s then None else Some s
      | _ \<Rightarrow> None)"

definition platform_boolean :: "pyval \<Rightarrow> bool option" where
  "platform_boolean v =
     (case v of
        PBool b \<Rightarrow> Some b
      | PInt i \<Rightarrow> if i = 1 then Some True else if i = 0 then Some False else None
      | PFloat x _ \<Rightarrow> if x = 1 then Some True else if x = 0 then Some False else None
      | PStr s \<Rightarrow>
          (let lowered = ascii_lower (py_strip s) in
           if lowered = ''true'' then Some True else if lowered = ''false'' then Some False else None)
      | _ \<Rightarrow> None)"

section \<open>Head information\<close>

record head_info =
  hi_order :: string
  hi_item :: string
  hi_seller :: bool

definition parse_message_head_info :: "(string \<Rightarrow> pyval option) \<Rightarrow> pyval \<Rightarrow> head_info result" where
  "parse_message_head_info loads response =
     (let resp = json_object loads response;
          data = sub_object loads resp ''data'';
          common = sub_object loads data ''commonData''
      in case common of
           None \<Rightarrow> Inl (RuntimeError ''headinfo_invalid'')
         | Some c \<Rightarrow>
             if c = [] then Inl (RuntimeError ''headinfo_invalid'')
             else
               (case (numeric_identifier (py_or (dict_get c ''orderId'') (dict_get c ''bizOrderId'')),
                      numeric_identifier (dict_get c ''itemId''),
                      platform_boolean (dict_get c ''seller'')) of
                  (Some oid, Some iid, Some sl) \<Rightarrow>
                    Inr \<lparr>hi_order = oid, hi_item = iid, hi_seller = sl\<rparr>
                | _ \<Rightarrow> Inl (RuntimeError ''headinfo_invalid'')))"

section \<open>Order detail\<close>

record order_detail =
  de_order :: string
  de_item :: string
  de_buyer :: string
  de_seller :: bool
  de_status :: int
  de_quantity :: int
  de_paid :: string
  de_ut_status :: string

definition MAX_INT_DIGITS :: nat where
  \<comment> \<open>\<^verbatim>\<open>int(s)\<close> raises \<^verbatim>\<open>ValueError\<close> beyond this many digits\<close>
  "MAX_INT_DIGITS = 4300"

definition count_value :: "pyval \<Rightarrow> int option result" where
  \<comment> \<open>An \<^verbatim>\<open>int\<close> that is no \<^verbatim>\<open>bool\<close>, or a text of ASCII digits\<close>
  "count_value v =
     (case v of
        PInt i \<Rightarrow> Inr (Some i)
      | PStr s \<Rightarrow>
          if \<not> ascii_digits s then Inr None
          else if length s > MAX_INT_DIGITS then Inl (ValueError ''integer string conversion'')
          else Inr (Some (int (nat_of_digits s)))
      | _ \<Rightarrow> Inr None)"

fun find_component :: "(string \<Rightarrow> pyval option) \<Rightarrow> pyval list \<Rightarrow> dict option" where
  "find_component loads [] = None"
| "find_component loads (c # cs) =
     (case c of
        PDict d \<Rightarrow>
          if dict_get d ''render'' = PStr ''orderInfoVO'' then json_object loads (dict_get d ''data'')
          else find_component loads cs
      | _ \<Rightarrow> find_component loads cs)"

definition order_info_of :: "(string \<Rightarrow> pyval option) \<Rightarrow> dict \<Rightarrow> dict option" where
  "order_info_of loads data =
     (case (case dict_get data ''components'' of PList cs \<Rightarrow> find_component loads cs | _ \<Rightarrow> None) of
        Some d \<Rightarrow> Some d
      | None \<Rightarrow>
          (case json_object loads (dict_get data ''orderInfoVO'') of
             None \<Rightarrow> None
           | Some d \<Rightarrow> (case dict_get d ''data'' of PDict e \<Rightarrow> Some e | _ \<Rightarrow> Some d)))"

definition ut_status_text :: "pyval \<Rightarrow> string option" where
  "ut_status_text v =
     (case v of
        PStr s \<Rightarrow> if py_strip s = [] then None else Some (py_take 64 (py_strip s))
      | PInt i \<Rightarrow> Some (py_take 64 (str_int i))
      | _ \<Rightarrow> None)"

definition parse_order_detail ::
  "(string \<Rightarrow> pyval option) \<Rightarrow> (pyval \<Rightarrow> decimal option) \<Rightarrow> pyval \<Rightarrow> order_detail result"
where
  "parse_order_detail loads decimal response =
     (let invalid = Inl (RuntimeError ''order_detail_invalid'') in
      case sub_object loads (json_object loads response) ''data'' of
        None \<Rightarrow> invalid
      | Some data \<Rightarrow>
          if data = [] then invalid
          else (case json_object loads (dict_get data ''utArgs'') of
            None \<Rightarrow> invalid
          | Some ut \<Rightarrow>
              if ut = [] then invalid
              else
                (let info = order_info_of loads data;
                     item_info = sub_object loads info ''itemInfo'';
                     amount = sub_object loads (sub_object loads info ''priceInfo'') ''amount'';
                     amount_value = (case amount of None \<Rightarrow> PNone
                                     | Some a \<Rightarrow> if a = [] then PNone else dict_get a ''value'');
                     order_id = numeric_identifier (py_or (dict_get data ''orderId'')
                       (py_or (dict_get data ''bizOrderId'')
                         (py_or (dict_get ut ''orderId'') (dict_get ut ''bizOrderId''))));
                     item_id = numeric_identifier (py_or (dict_get data ''itemId'') (dict_get ut ''itemId''));
                     buyer_id = numeric_identifier
                       (py_or (dict_get data ''peerUserId'') (dict_get ut ''peerUserId''));
                     seller = platform_boolean (dict_get data ''seller'')
                 in case count_value (dict_get data ''status'') of
                      Inl e \<Rightarrow> Inl e
                    | Inr status \<Rightarrow>
                        (case count_value (case item_info of None \<Rightarrow> PNone
                                 | Some i \<Rightarrow> if i = [] then PNone else dict_get i ''buyAmount'') of
                           Inl e \<Rightarrow> Inl e
                         | Inr quantity \<Rightarrow>
                             (case (order_id, item_id, buyer_id, seller, status, quantity,
                                    decimal amount_value, ut_status_text (dict_get ut ''orderStatus'')) of
                                (Some oid, Some iid, Some bid, Some sl, Some st, Some q, Some paid, Some us) \<Rightarrow>
                                  if dc_finite paid \<and> \<not> dc_negative paid
                                  then Inr \<lparr>de_order = oid, de_item = iid, de_buyer = bid, de_seller = sl,
                                         de_status = st, de_quantity = q, de_paid = dc_plain paid,
                                         de_ut_status = us\<rparr>
                                  else invalid
                              | _ \<Rightarrow> invalid)))))"

section \<open>Eligibility\<close>

definition canonical_order_key :: "(string \<Rightarrow> string) \<Rightarrow> string \<Rightarrow> string" where
  "canonical_order_key sha order_id = ''goofish:'' @ sha order_id"

definition verification_rejection ::
  "head_info \<Rightarrow> order_detail \<Rightarrow> chat_binding \<Rightarrow> dict option \<Rightarrow> string option"
where
  "verification_rejection head detail binding item_config =
     (if hi_item head \<noteq> bd_item binding then Some ''headinfo_item_mismatch''
      else if \<not> hi_seller head then Some ''seller_identity_mismatch''
      else if de_order detail \<noteq> hi_order head then Some ''order_identity_mismatch''
      else if de_item detail \<noteq> bd_item binding then Some ''order_item_mismatch''
      else if de_buyer detail \<noteq> bd_buyer binding then Some ''order_buyer_mismatch''
      else if \<not> de_seller detail then Some ''seller_identity_mismatch''
      else if de_status detail \<noteq> 2 then Some ''order_not_awaiting_shipment''
      else if de_quantity detail < 1 \<or> de_quantity detail > 50 then Some ''unsupported_quantity''
      else if (case item_config of None \<Rightarrow> False
               | Some c \<Rightarrow> c \<noteq> [] \<and> dict_get c ''delivery'' = PStr ''material'' \<and> de_quantity detail \<noteq> 1)
      then Some ''unsupported_quantity''
      else None)"

definition reverify_order :: "order_detail \<Rightarrow> delivery_reservation \<Rightarrow> unit result" where
  \<comment> \<open>The checks of \<^verbatim>\<open>_reverify_order\<close> on the parsed detail\<close>
  "reverify_order detail res =
     (if Some (de_order detail) \<noteq> dr_platform_id res
      then Inl (OrderVerificationRejected ''order_identity_mismatch'')
      else if de_item detail \<noteq> dr_item res then Inl (OrderVerificationRejected ''order_item_mismatch'')
      else if de_buyer detail \<noteq> dr_buyer res then Inl (OrderVerificationRejected ''order_buyer_mismatch'')
      else if \<not> de_seller detail then Inl (OrderVerificationRejected ''seller_identity_mismatch'')
      else if de_status detail \<noteq> 2 then Inl (OrderVerificationRejected ''order_not_awaiting_shipment'')
      else if de_quantity detail \<noteq> dr_quantity res
      then Inl (OrderVerificationRejected ''unsupported_quantity'')
      else if dr_type res = ''material'' \<and> de_quantity detail \<noteq> 1
      then Inl (OrderVerificationRejected ''unsupported_quantity'')
      else if Some (de_paid detail) \<noteq> dr_paid res
      then Inl (OrderVerificationRejected ''order_reverification_failed'')
      else Inr ())"

section \<open>Payment reminders\<close>

record paid_event =
  pv_key :: string
  pv_session :: string
  pv_event_at :: time

definition AWAITING_SHIPMENT :: string where
  \<comment> \<open>The UTF-8 bytes of the reminder text\<close>
  "AWAITING_SHIPMENT = map char_of
     [231, 173, 137, 229, 190, 133, 229, 141, 150, 229, 174, 182, 229, 143, 145, 232, 180, 167 :: nat]"

definition event_float :: "pyval \<Rightarrow> time option result" where
  "event_float v =
     (case v of
        PInt i \<Rightarrow> if \<bar>i\<bar> \<ge> 2 ^ 1024 then Inl (OverflowError ''int too large to convert to float'')
                  else Inr (Some (of_int i))
      | PFloat x _ \<Rightarrow> Inr (Some x)
      | _ \<Rightarrow> Inr None)"

definition parse_paid_order_event :: "(string \<Rightarrow> string) \<Rightarrow> time \<Rightarrow> pyval \<Rightarrow> paid_event option result" where
  "parse_paid_order_event sha now message =
     (case message of
        PDict m \<Rightarrow>
          (case (dict_get m ''3'', dict_get m ''1'') of
             (PDict reminder, PStr account) \<Rightarrow>
               if dict_get reminder ''redReminder'' \<noteq> PStr AWAITING_SHIPMENT then Inr None
               else if dict_get reminder ''redReminderStyle'' \<notin> {PStr ''1'', PInt 1} then Inr None
               else if dict_get m ''2'' \<noteq> PInt 1 then Inr None
               else if \<not> suffix ''@goofish'' account then Inr None
               else (case event_float (dict_get m ''4'') of
                       Inl e \<Rightarrow> Inl e
                     | Inr None \<Rightarrow> Inr None
                     | Inr (Some at4) \<Rightarrow>
                         (let session_id = take (length account - 8) account;
                              ts = (if at4 > 100000000000 then at4 / 1000 else at4)
                          in if session_id = [] \<or> py_len session_id > 128 then Inr None
                             else if ts < 0 \<or> ts > now + 86400 \<or> now - ts > 10 * 365 * 86400 then Inr None
                             else (case json_dumps (PDict
                                     [(''session_id'', PStr session_id), (''event_type'', PInt 1),
                                      (''reminder'', PStr AWAITING_SHIPMENT), (''style'', PStr ''1''),
                                      (''timestamp'', dict_get m ''4'')]) of
                                     None \<Rightarrow> Inr None
                                   | Some canonical \<Rightarrow>
                                       Inr (Some \<lparr>pv_key = ''goofish:'' @ sha canonical,
                                                  pv_session = session_id, pv_event_at = ts\<rparr>))))
           | _ \<Rightarrow> Inr None)
      | _ \<Rightarrow> Inr None)"

section \<open>Sold orders\<close>

record sold_order =
  so_order :: string
  so_item :: string
  so_buyer :: string
  so_quantity :: int
  so_paid :: string
  so_in_refund :: bool

definition id_text :: "pyval \<Rightarrow> string option" where
  \<comment> \<open>\<^verbatim>\<open>str(v or "")\<close> when \<^verbatim>\<open>isdigit()\<close> holds of it\<close>
  "id_text v =
     (case v of
        PStr s \<Rightarrow> if str_isdigit s then Some s else None
      | PInt i \<Rightarrow> if 0 < i then Some (str_int i) else None
      | _ \<Rightarrow> None)"

definition parse_sold_order :: "(pyval \<Rightarrow> string) \<Rightarrow> pyval \<Rightarrow> sold_order result" where
  \<comment> \<open>\<open>text\<close> is Python's \<^verbatim>\<open>str\<close>\<close>
  "parse_sold_order text item =
     (case item of
        PDict d \<Rightarrow>
          (case (dict_get d ''commonData'', dict_get d ''buyerInfoVO'') of
             (PDict common, PDict buyer) \<Rightarrow>
               (let price = (case dict_get d ''priceVO'' of PDict p \<Rightarrow> p | _ \<Rightarrow> []);
                    raw = (if ''buyNum'' \<in> fst ` set price then dict_get price ''buyNum'' else PInt 1);
                    buy_num = (if raw \<in> {PNone, PStr []} then PInt 1 else raw)
                in case (id_text (dict_get common ''orderId''), id_text (dict_get common ''itemId''),
                         id_text (dict_get buyer ''buyerId''), as_int buy_num) of
                     (Some oid, Some iid, Some bid, Some q) \<Rightarrow>
                       if 1 \<le> q \<and> q \<le> 50
                       then Inr \<lparr>so_order = oid, so_item = iid, so_buyer = bid, so_quantity = q,
                              so_paid = text (py_or (dict_get price ''totalPrice'') (PStr [])),
                              so_in_refund = truthy (dict_get common ''inRefund'')\<rparr>
                       else Inl (RuntimeError ''sold_order_invalid'')
                   | _ \<Rightarrow> Inl (RuntimeError ''sold_order_invalid''))
           | _ \<Rightarrow> Inl (RuntimeError ''sold_order_invalid''))
      | _ \<Rightarrow> Inl (RuntimeError ''sold_order_invalid''))"

end
