(* ===== verification/Fulfilment.thy ===== *)
theory Fulfilment
  imports Order_Verification Order_System
begin

text \<open>
  The delivery of one order in \<^verbatim>\<open>worker/main.py\<close>: \<^verbatim>\<open>_fulfill_order\<close> with its check before each send
  attempt, \<^verbatim>\<open>send_text_reliably\<close> and \<^verbatim>\<open>_ship_platform_order\<close>.  Everything outside the worker is an
  input: what the configuration files hold at a refresh, what the platform answers, whether a send is
  acknowledged, and which store operations other tasks run while this one awaits.  The result is the
  worker's state, the value or the exception, and the messages handed to the connection.
\<close>

section \<open>Worker state\<close>

record pan_resource =
  pr_match :: "string list"
  pr_host :: string
  pr_remark :: string
  pr_url :: string
  pr_code :: string

record worker =
  wk_store :: order_db
  wk_bindings :: "binding_row list"
  wk_products :: "(string \<times> dict) list"
  wk_pan :: "pan_resource list"
  wk_redeem_available :: bool
  wk_pool_signature :: "(bool \<times> string option) option"
  wk_scanning :: bool \<comment> \<open>\<^verbatim>\<open>_pending_order_scan_running\<close>\<close>
  wk_auth_closed :: bool \<comment> \<open>\<^verbatim>\<open>authentication_failure_code\<close> is set or \<^verbatim>\<open>token_circuit_open\<close>\<close>

datatype product_files = ProductsUnchanged | ProductsInvalid
  | ProductsLoaded "(string \<times> dict) list" "pan_resource list"

record refresh_input =
  ri_now :: time
  ri_products :: product_files
  ri_signature :: "string option" \<comment> \<open>of \<^verbatim>\<open>redeem_codes.json\<close>, \<open>None\<close> if missing\<close>
  ri_file :: state_file

record attempt_input =
  ai_waiting :: "order_op list"
  ai_connect :: "py_error option"
  ai_response :: "pyval result"
  ai_checking :: "order_op list"
  ai_refresh :: refresh_input
  ai_sent :: "unit result"
  ai_sending :: "order_op list"

record fulfil_input =
  fi_clock :: "nat \<Rightarrow> time"
  fi_refresh :: refresh_input
  fi_first :: attempt_input
  fi_second :: attempt_input
  fi_ship :: "unit result"
  fi_shipping :: "order_op list"

record sent_message =
  sm_key :: string
  sm_chat :: string
  sm_to :: string
  sm_text :: string
  sm_cards :: "string list" \<comment> \<open>Not part of the message: the cards the text was written from\<close>

datatype fulfil_status = FStatus order_status | FBusy

abbreviation on_store :: "(order_db \<Rightarrow> (order_db, 'a) outcome) \<Rightarrow> worker \<Rightarrow> (worker, 'a) outcome" where
  "on_store f w \<equiv> (case f (wk_store w) of (db, r) \<Rightarrow> (w\<lparr>wk_store := db\<rparr>, r))"

definition run_others :: "order_op list \<Rightarrow> worker \<Rightarrow> worker" where
  "run_others ops w = w\<lparr>wk_store := order_run ops (wk_store w)\<rparr>"

section \<open>Configuration\<close>

definition has_delivery :: "string \<Rightarrow> dict \<Rightarrow> bool" where
  "has_delivery t c \<longleftrightarrow> dict_get c ''delivery'' = PStr t"

definition dict_eq :: "dict \<Rightarrow> dict \<Rightarrow> bool" where
  \<comment> \<open>\<^verbatim>\<open>==\<close> on dictionaries\<close>
  "dict_eq c d \<longleftrightarrow> list_all (\<lambda>(k, _). map_of (rev c) k = map_of (rev d) k) (c @ d)"

definition classify_item :: "worker \<Rightarrow> string \<Rightarrow> dict option" where
  "classify_item w item_id = map_of (rev (wk_products w)) item_id"

definition refresh_products :: "refresh_input \<Rightarrow> worker \<Rightarrow> worker" where
  "refresh_products inp w =
     (case ri_products inp of
        ProductsUnchanged \<Rightarrow> w
      | ProductsInvalid \<Rightarrow> w\<lparr>wk_products := [], wk_pan := []\<rparr>
      | ProductsLoaded products pan \<Rightarrow> w\<lparr>wk_products := products, wk_pan := pan\<rparr>)"

definition refresh_redeem_inventory :: "refresh_input \<Rightarrow> worker \<Rightarrow> (worker, unit) outcome" where
  \<comment> \<open>Only a \<^verbatim>\<open>DeliveryStoreError\<close> of the import is caught\<close>
  "refresh_redeem_inventory inp w =
     (let needed = list_ex (\<lambda>(_, c). has_delivery ''redeem'' c) (wk_products w);
          file_signature = (if needed then ri_signature inp else None);
          signature = (needed, file_signature)
      in if wk_pool_signature w = Some signature then (w, Inr ())
         else if needed \<and> file_signature \<noteq> None
         then (case import_inventory (ri_now inp) ''redeem_codes.json'' (ri_file inp) ''redeem'' (wk_store w) of
                 (db, Inr _) \<Rightarrow> (w\<lparr>wk_store := db, wk_redeem_available := True,
                                  wk_pool_signature := Some signature\<rparr>, Inr ())
               | (db, Inl (DeliveryStoreError _)) \<Rightarrow>
                   (w\<lparr>wk_store := db, wk_redeem_available := False,
                      wk_pool_signature := Some signature\<rparr>, Inr ())
               | (db, Inl e) \<Rightarrow> (w\<lparr>wk_store := db, wk_redeem_available := False\<rparr>, Inl e))
         else (w\<lparr>wk_redeem_available := False, wk_pool_signature := Some signature\<rparr>, Inr ()))"

definition refresh :: "refresh_input \<Rightarrow> worker \<Rightarrow> (worker, unit) outcome" where
  "refresh inp w = refresh_redeem_inventory inp (refresh_products inp w)"

abbreviation LF :: string where "LF \<equiv> [CHR 0x0A]"

definition provider_name :: "string \<Rightarrow> string" where
  "provider_name host = map char_of
     (if host = ''pan.baidu.com'' then [231, 153, 190, 229, 186, 166, 231, 189, 145, 231, 155, 152]
      else if host = ''pan.quark.cn'' then [229, 164, 184, 229, 133, 139, 231, 189, 145, 231, 155, 152]
      else [231, 189, 145, 231, 155, 152 :: nat])"

definition LINK_LABEL :: string where
  "LINK_LABEL = map char_of [233, 147, 190, 230, 142, 165, 239, 188, 154 :: nat]"

definition CODE_LABEL :: string where
  "CODE_LABEL = map char_of [230, 143, 144, 229, 143, 150, 231, 160, 129, 239, 188, 154 :: nat]"

definition pan_block :: "pan_resource \<Rightarrow> string" where
  "pan_block r = pr_remark r @ LF @ provider_name (pr_host r) @ LINK_LABEL @ pr_url r @ LF @
     CODE_LABEL @ pr_code r"

fun join_with :: "string \<Rightarrow> string list \<Rightarrow> string" where
  "join_with sep [] = []"
| "join_with sep [x] = x"
| "join_with sep (x # y # xs) = x @ sep @ join_with sep (y # xs)"

definition pan_payload_for :: "worker \<Rightarrow> dict \<Rightarrow> string result" where
  "pan_payload_for w item_config =
     (let required = (case dict_get item_config ''resource_match'' of
            PList tags \<Rightarrow> map (\<lambda>t. case t of PStr s \<Rightarrow> py_strip s | _ \<Rightarrow> []) tags | _ \<Rightarrow> []);
          matches = filter (\<lambda>r. required \<noteq> [] \<and> set required = set (pr_match r)) (wk_pan w)
      in if matches = [] then Inl (RuntimeError ''configured pan resource is unavailable'')
         else Inr (join_with (LF @ LF) (map pan_block matches)))"

section \<open>Text of a delivery\<close>

definition REDEEM_INTRO :: string where
  "REDEEM_INTRO = map char_of [228, 187, 152, 230, 172, 190, 229, 183, 178, 231, 187, 143, 230, 160, 184,
     233, 170, 140, 239, 188, 140, 232, 191, 153, 230, 152, 175, 228, 189, 160, 231, 154, 132, 229, 133,
     145, 230, 141, 162, 231, 160, 129, 239, 188, 154 :: nat]"

definition PAN_INTRO :: string where
  "PAN_INTRO = map char_of [228, 187, 152, 230, 172, 190, 229, 183, 178, 231, 187, 143, 230, 160, 184, 233,
     170, 140, 239, 188, 140, 232, 191, 153, 230, 152, 175, 228, 189, 160, 232, 180, 173, 228, 185, 176,
     231, 154, 132, 232, 181, 132, 230, 186, 144, 239, 188, 154 :: nat]"

definition nonempty :: "string option \<Rightarrow> bool" where
  "nonempty p = (case p of None \<Rightarrow> False | Some s \<Rightarrow> s \<noteq> [])"

definition delivery_text :: "delivery_reservation \<Rightarrow> string result" where
  "delivery_text res =
     (if dr_type res = ''redeem'' then
        (if int (length (dr_resources res)) \<noteq> dr_quantity res
         then Inl (RuntimeError ''reserved redeem inventory is unavailable'')
         else (let given = py_strip (case dr_payload res of None \<Rightarrow> [] | Some p \<Rightarrow> p);
                   intro = (if given = [] then REDEEM_INTRO else given)
               in if dr_quantity res = 1 then Inr (intro @ LF @ hd (dr_resources res))
                  else Inr (intro @ LF @ join_with LF (map (\<lambda>(i, code). str_nat i @ ''. '' @ code)
                         (List.enumerate 1 (dr_resources res))))))
      else if dr_type res = ''material'' \<and> dr_quantity res = 1 \<and> nonempty (dr_payload res)
      then Inr (the (dr_payload res))
      else if dr_type res = ''pan'' \<and> nonempty (dr_payload res)
      then Inr (PAN_INTRO @ LF @ the (dr_payload res))
      else Inl (RuntimeError ''delivery payload is unavailable''))"

section \<open>The check before an attempt\<close>

definition stock_reason :: "order_db \<Rightarrow> string \<Rightarrow> unit result" where
  \<comment> \<open>Why the cards of an order can no longer be sent\<close>
  "stock_reason db k =
     (case get_order k db of
        Inl e \<Rightarrow> Inl e
      | Inr latest \<Rightarrow> Inl (OrderVerificationRejected
          (case latest of
             Some r \<Rightarrow> if dr_reason r \<in> {Some ''inventory_marked_used'', Some ''inventory_removed_from_manifest''}
                       then the (dr_reason r) else ''inventory_state_changed''
           | None \<Rightarrow> ''inventory_state_changed'')))"

definition local_check :: "string \<Rightarrow> delivery_reservation \<Rightarrow> worker \<Rightarrow> unit result" where
  \<comment> \<open>The part of \<^verbatim>\<open>verify_before_attempt\<close> after the refresh\<close>
  "local_check k res w =
     (case classify_item w (dr_item res) of
        None \<Rightarrow> Inl (OrderVerificationRejected ''unsupported_item'')
      | Some config \<Rightarrow>
          if \<not> has_delivery (dr_type res) config
          then Inl (OrderVerificationRejected ''unsupported_item'')
          else if dr_type res = ''pan'' \<and>
             (case pan_payload_for w config of Inl _ \<Rightarrow> True | Inr p \<Rightarrow> Some p \<noteq> dr_payload res)
          then Inl (OrderVerificationRejected ''pan_resource_unavailable'')
          else if dr_type res = ''redeem''
          then (if \<not> wk_redeem_available w then stock_reason (wk_store w) k
                else case order_inventory_is_sendable k (wk_store w) of
                  Inl e \<Rightarrow> Inl e
                | Inr sendable \<Rightarrow> if sendable then Inr () else stock_reason (wk_store w) k)
          else Inr ())"

definition verify_before_attempt ::
  "(string \<Rightarrow> pyval option) \<Rightarrow> (pyval \<Rightarrow> decimal option) \<Rightarrow> string \<Rightarrow> delivery_reservation \<Rightarrow>
   attempt_input \<Rightarrow> worker \<Rightarrow> (worker, unit) outcome"
where
  "verify_before_attempt loads decimal k res inp w =
     (let w1 = run_others (ai_checking inp) w in
      case ai_response inp of
        Inl e \<Rightarrow> (w1, Inl e)
      | Inr response \<Rightarrow>
          (case parse_order_detail loads decimal response of
             Inl e \<Rightarrow> (w1, Inl e)
           | Inr detail \<Rightarrow>
               (case reverify_order detail res of
                  Inl e \<Rightarrow> (w1, Inl e)
                | Inr _ \<Rightarrow>
                    (case refresh (ai_refresh inp) w1 of
                       (w2, Inl e) \<Rightarrow> (w2, Inl e)
                     | (w2, Inr _) \<Rightarrow> (w2, local_check k res w2)))))"

section \<open>Sending\<close>

definition cards_of :: "delivery_reservation \<Rightarrow> string list" where
  "cards_of res = (if dr_type res = ''redeem'' then dr_resources res else [])"

definition attempt_send ::
  "(string \<Rightarrow> pyval option) \<Rightarrow> (pyval \<Rightarrow> decimal option) \<Rightarrow> string \<Rightarrow> delivery_reservation \<Rightarrow> string \<Rightarrow>
   attempt_input \<Rightarrow> worker \<Rightarrow> (worker, unit) outcome \<times> sent_message list"
where
  "attempt_send loads decimal k res text inp w =
     (let w1 = run_others (ai_waiting inp) w in
      case ai_connect inp of
        Some e \<Rightarrow> ((w1, Inl e), [])
      | None \<Rightarrow>
          (case verify_before_attempt loads decimal k res inp w1 of
             (w2, Inl e) \<Rightarrow> ((w2, Inl e), [])
           | (w2, Inr _) \<Rightarrow>
               ((run_others (ai_sending inp) w2, ai_sent inp),
                [\<lparr>sm_key = ''order:'' @ k, sm_chat = dr_chat res, sm_to = dr_buyer res, sm_text = text, sm_cards = cards_of res\<rparr>])))"

definition gives_up :: "py_error \<Rightarrow> bool" where
  \<comment> \<open>Not an \<^verbatim>\<open>Exception\<close>, or re-raised at once\<close>
  "gives_up e \<longleftrightarrow> (case e of CancelledError \<Rightarrow> True | ManualTakeoverError _ \<Rightarrow> True | AutomationReplySuppressed _ \<Rightarrow> True | _ \<Rightarrow> False)"

definition send_text_reliably ::
  "(string \<Rightarrow> pyval option) \<Rightarrow> (pyval \<Rightarrow> decimal option) \<Rightarrow> string \<Rightarrow> delivery_reservation \<Rightarrow> string \<Rightarrow>
   attempt_input \<Rightarrow> attempt_input \<Rightarrow> worker \<Rightarrow> (worker, unit) outcome \<times> sent_message list"
where
  "send_text_reliably loads decimal k res text first second w =
     (case attempt_send loads decimal k res text first w of
        ((w1, Inr u), msgs1) \<Rightarrow> ((w1, Inr u), msgs1)
      | ((w1, Inl e), msgs1) \<Rightarrow>
          if gives_up e then ((w1, Inl e), msgs1)
          else (case attempt_send loads decimal k res text second w1 of
                  (out, msgs2) \<Rightarrow> (out, msgs1 @ msgs2)))"

section \<open>Fulfilment of one order\<close>

definition error_name :: "py_error \<Rightarrow> string" where
  \<comment> \<open>\<^verbatim>\<open>type(exc).__name__\<close>\<close>
  "error_name e = (case e of
     ValueError _ \<Rightarrow> ''ValueError'' | TypeError _ \<Rightarrow> ''TypeError'' | KeyError _ \<Rightarrow> ''KeyError''
   | DeliveryStoreError _ \<Rightarrow> ''DeliveryStoreError'' | RuntimeError _ \<Rightarrow> ''RuntimeError''
   | IntegrityError _ \<Rightarrow> ''IntegrityError'' | OrderVerificationRejected _ \<Rightarrow> ''OrderVerificationRejected''
   | OverflowError _ \<Rightarrow> ''OverflowError'' | UnicodeDecodeError _ \<Rightarrow> ''UnicodeDecodeError''
   | ConnectionError _ \<Rightarrow> ''ConnectionError''
   | TimeoutError _ \<Rightarrow> ''TimeoutError'' | CancelledError \<Rightarrow> ''CancelledError''
   | ManualTakeoverError _ \<Rightarrow> ''ManualTakeoverError''
   | AuthenticationUnavailable _ \<Rightarrow> ''AuthenticationUnavailableError'' | XianyuApiError _ \<Rightarrow> ''XianyuApiError''
   | LLMServiceError _ \<Rightarrow> ''LLMServiceError'' | LLMConfigurationError _ \<Rightarrow> ''LLMConfigurationError''
   | AutomationReplySuppressed _ \<Rightarrow> ''AutomationReplySuppressed'')"

definition settled :: "order_status \<Rightarrow> bool" where
  "settled st \<longleftrightarrow> st \<in> {Delivered, ManualReview, Cancelled, Expired}"

definition to_review :: "time \<Rightarrow> string \<Rightarrow> string \<Rightarrow> worker \<Rightarrow> (worker, fulfil_status) outcome" where
  "to_review now k reason w =
     (case on_store (mark_order_manual_review now k reason) w of
        (w', Inl e) \<Rightarrow> (w', Inl e)
      | (w', Inr _) \<Rightarrow> (w', Inr (FStatus ManualReview)))"

definition ship_platform_order ::
  "time \<Rightarrow> string \<Rightarrow> unit result \<Rightarrow> order_op list \<Rightarrow> worker \<Rightarrow> (worker, unit) outcome"
where
  "ship_platform_order now k answer others w =
     (let w1 = run_others others w in
      case answer of
        Inl e \<Rightarrow> if e = CancelledError then (w1, Inl e)
                 else on_store (record_platform_ship_attempt now k (error_name e)) w1
      | Inr _ \<Rightarrow> on_store (mark_platform_shipped now k) w1)"

definition conclude_send ::
  "fulfil_input \<Rightarrow> string \<Rightarrow> (worker, unit) outcome \<Rightarrow> (worker, fulfil_status) outcome"
where
  \<comment> \<open>The \<^verbatim>\<open>try\<close> statement around the send, from its result on\<close>
  "conclude_send inp k sent =
     (case (case sent of
              (w, Inr _) \<Rightarrow> on_store (mark_order_delivered (fi_clock inp 3) k) w
            | (w, Inl e) \<Rightarrow> (w, Inl e)) of
        (w, Inr _) \<Rightarrow>
          (case ship_platform_order (fi_clock inp 5) k (fi_ship inp) (fi_shipping inp) w of
             (w', Inl e) \<Rightarrow> (w', Inl e)
           | (w', Inr _) \<Rightarrow> (w', Inr (FStatus Delivered)))
      | (w, Inl e) \<Rightarrow>
          (case e of
             OrderVerificationRejected reason \<Rightarrow> to_review (fi_clock inp 4) k reason w
           | ManualTakeoverError _ \<Rightarrow> to_review (fi_clock inp 4) k ''manual_takeover_before_send'' w
           | CancelledError \<Rightarrow>
               (fst (on_store (mark_order_retry (fi_clock inp 4) k ''worker_cancelled'') w), Inl e)
           | _ \<Rightarrow> (fst (on_store (mark_order_retry (fi_clock inp 4) k (error_name e)) w), Inl e)))"

definition deliver_prepared ::
  "(string \<Rightarrow> pyval option) \<Rightarrow> (pyval \<Rightarrow> decimal option) \<Rightarrow> fulfil_input \<Rightarrow> string \<Rightarrow> worker \<Rightarrow>
   (worker, fulfil_status) outcome \<times> sent_message list"
where
  \<comment> \<open>From \<^verbatim>\<open>claim_order_for_send\<close> on\<close>
  "deliver_prepared loads decimal inp k w =
     (case on_store (claim_order_for_send (fi_clock inp 2) k) w of
        (w1, Inl e) \<Rightarrow> ((w1, Inl e), [])
      | (w1, Inr None) \<Rightarrow> ((w1, Inr FBusy), [])
      | (w1, Inr (Some res)) \<Rightarrow>
          (case delivery_text res of
             Inl e \<Rightarrow> ((w1, Inl e), [])
           | Inr text \<Rightarrow>
               (case send_text_reliably loads decimal k res text (fi_first inp) (fi_second inp) w1 of
                  (sent, msgs) \<Rightarrow> (conclude_send inp k sent, msgs))))"

definition delivery_payload ::
  "worker \<Rightarrow> dict \<Rightarrow> string \<Rightarrow> delivery_reservation \<Rightarrow> string + string option"
where
  \<comment> \<open>The payload to persist, or the reason for manual review\<close>
  "delivery_payload w item_config dtype current =
     (if dtype = ''pan'' then
        (if nonempty (dr_payload current) then Inr (dr_payload current)
         else case pan_payload_for w item_config of
                Inl _ \<Rightarrow> Inl ''pan_resource_unavailable''
              | Inr p \<Rightarrow> Inr (Some p))
      else if dtype = ''material'' then
        (let raw = (if nonempty (dr_payload current) then PStr (the (dr_payload current))
                    else dict_get item_config ''payload'')
         in case raw of
              PStr p \<Rightarrow>
                if py_strip p = [] \<or> py_len (py_strip p) > MAX_DELIVERY_PAYLOAD_CHARS \<or> CHR 0x00 \<in> set p
                then Inl ''material_payload_unavailable'' else Inr (Some (py_strip p))
            | _ \<Rightarrow> Inl ''material_payload_unavailable'')
      else Inr None)"

definition order_parties ::
  "time \<Rightarrow> (string \<times> string) option \<Rightarrow> delivery_reservation \<Rightarrow> worker \<Rightarrow> (string \<times> string) option result"
where
  \<comment> \<open>Buyer and item: from the row, from the caller, or from the chat binding\<close>
  "order_parties now given current w =
     (if dr_buyer current \<noteq> [] \<and> dr_item current \<noteq> [] then Inr (Some (dr_buyer current, dr_item current))
      else case (case given of
                   Some (b, i) \<Rightarrow> if b \<noteq> [] \<and> i \<noteq> [] then given else None
                 | None \<Rightarrow> None) of
        Some (b, i) \<Rightarrow>
          Inr (Some (if dr_buyer current \<noteq> [] then dr_buyer current else b,
                     if dr_item current \<noteq> [] then dr_item current else i))
      | None \<Rightarrow>
          (case get_chat_binding now (dr_chat current) (30 * 86400) None None (wk_bindings w) of
             Inl e \<Rightarrow> Inl e
           | Inr None \<Rightarrow> Inr None
           | Inr (Some bd) \<Rightarrow>
               Inr (Some (if dr_buyer current \<noteq> [] then dr_buyer current else bd_buyer bd,
                          if dr_item current \<noteq> [] then dr_item current else bd_item bd))))"

definition prepare_and_deliver ::
  "(string \<Rightarrow> pyval option) \<Rightarrow> (pyval \<Rightarrow> decimal option) \<Rightarrow> fulfil_input \<Rightarrow> string \<Rightarrow> delivery_reservation \<Rightarrow>
   string \<Rightarrow> string \<Rightarrow> string \<Rightarrow> string option \<Rightarrow> worker \<Rightarrow> (worker, fulfil_status) outcome \<times> sent_message list"
where
  \<comment> \<open>From \<^verbatim>\<open>prepare_order\<close> on\<close>
  "prepare_and_deliver loads decimal inp k current buyer item dtype payload w =
     (case on_store (prepare_order (fi_clock inp 1) k (dr_chat current) buyer item dtype
             (PInt (if dr_quantity current = 0 then 1 else dr_quantity current)) payload) w of
        (w2, Inl e) \<Rightarrow> ((w2, Inl e), [])
      | (w2, Inr res) \<Rightarrow>
          if settled (dr_status res) \<or> dr_resources res = [] \<and> dtype = ''redeem''
          then ((w2, Inr (FStatus (dr_status res))), [])
          else deliver_prepared loads decimal inp k w2)"

definition fulfill_order ::
  "(string \<Rightarrow> pyval option) \<Rightarrow> (pyval \<Rightarrow> decimal option) \<Rightarrow> fulfil_input \<Rightarrow> string \<Rightarrow> dict \<Rightarrow>
   (string \<times> string) option \<Rightarrow> worker \<Rightarrow> (worker, fulfil_status) outcome \<times> sent_message list"
where
  "fulfill_order loads decimal inp k item_config given w =
     (case get_order k (wk_store w) of
        Inl e \<Rightarrow> ((w, Inl e), [])
      | Inr None \<Rightarrow> ((w, Inl (RuntimeError ''verified order disappeared'')), [])
      | Inr (Some current) \<Rightarrow>
          if settled (dr_status current) then ((w, Inr (FStatus (dr_status current))), [])
          else (case refresh (fi_refresh inp) w of
            (w1, Inl e) \<Rightarrow> ((w1, Inl e), [])
          | (w1, Inr _) \<Rightarrow>
            (let review = (\<lambda>reason. (to_review (fi_clock inp 0) k reason w1, []));
                 dtype = (case dict_get item_config ''delivery'' of PStr s \<Rightarrow> s | _ \<Rightarrow> [])
             in case order_parties (fi_clock inp 0) given current w1 of
                  Inl e \<Rightarrow> ((w1, Inl e), [])
                | Inr None \<Rightarrow> review ''chat_binding_unavailable''
                | Inr (Some (buyer, item)) \<Rightarrow>
                    if \<not> (case classify_item w1 item of None \<Rightarrow> False | Some c \<Rightarrow> dict_eq c item_config)
                    then review ''unsupported_item''
                    else if dtype = ''redeem'' \<and> \<not> wk_redeem_available w1
                    then review ''inventory_state_changed''
                    else if dtype = ''material'' \<and> dr_quantity current \<noteq> 1
                    then review ''unsupported_quantity''
                    else (case delivery_payload w1 item_config dtype current of
                            Inl reason \<Rightarrow> review reason
                          | Inr payload \<Rightarrow>
                              prepare_and_deliver loads decimal inp k current buyer item dtype payload w1))))"

end
