(* ===== verification/Order_Cards.thy ===== *)
theory Order_Cards
  imports Order_Facts
begin

text \<open>
  The life of one card: a card that was reserved by an order whose sending was started is never for
  sale again and never belongs to another order.
\<close>

section \<open>Moves of a card\<close>

definition tried :: "order_db \<Rightarrow> string \<Rightarrow> bool" where
  \<comment> \<open>The delivery of the order may have reached the buyer\<close>
  "tried db k \<longleftrightarrow> order_status_of db k \<in> {Some Sending, Some Retry}"

definition card_step :: "order_db \<Rightarrow> inv_row \<Rightarrow> inv_row \<Rightarrow> bool" where
  "card_step db a b \<longleftrightarrow> iv_id b = iv_id a \<and> iv_secret b = iv_secret a \<and>
     (iv_status a = InvAvailable \<or>
      iv_status a = InvReserved \<and> (\<forall>k. iv_resv a = Some k \<longrightarrow> \<not> tried db k) \<or>
      iv_resv b = iv_resv a \<and> (iv_status b = iv_status a \<or>
        iv_status a = InvReserved \<and> iv_status b \<in> {InvDelivered, InvQuarantined}))"

definition cards_moved :: "order_db \<Rightarrow> inv_row list \<Rightarrow> bool" where
  "cards_moved db cs \<longleftrightarrow> (\<forall>a \<in> set (inventory db). \<exists>b \<in> set cs. card_step db a b)"

lemma cards_moved_refl [simp]: "cards_moved db (inventory db)"
  unfolding cards_moved_def card_step_def by blast

lemma cards_moved_append: "cards_moved db cs \<Longrightarrow> cards_moved db (cs @ ext)"
  unfolding cards_moved_def by auto

lemma cards_moved_update:
  assumes "cards_moved db cs"
    and step: "\<And>a r. a \<in> set (inventory db) \<Longrightarrow> r \<in> set cs \<Longrightarrow> card_step db a r \<Longrightarrow> P r \<Longrightarrow> card_step db a (f r)"
  shows "cards_moved db (sql_update P f cs)"
  unfolding cards_moved_def
proof
  fix a assume a: "a \<in> set (inventory db)"
  with assms(1) obtain r where r: "r \<in> set cs" "card_step db a r" by (auto simp: cards_moved_def)
  have "(if P r then f r else r) \<in> set (sql_update P f cs)" using r(1) by (auto simp: sql_update_def)
  moreover have "card_step db a (if P r then f r else r)" using step [OF a r] r(2) by simp
  ultimately show "\<exists>b \<in> set (sql_update P f cs). card_step db a b" by blast
qed

lemma card_step_retire:
  assumes "card_step db a r" "iv_status r = InvReserved" "st \<in> {InvDelivered, InvQuarantined}"
  shows "card_step db a (r\<lparr>iv_status := st, iv_updated := now\<rparr>)"
  using assms by (auto simp: card_step_def)

lemma card_step_free:
  assumes "card_step db a r" "iv_id b = iv_id r" "iv_secret b = iv_secret r"
    and "iv_status r = InvAvailable \<or> (\<exists>k. held_by k r \<and> \<not> tried db k)"
  shows "card_step db a b"
  using assms by (auto simp: card_step_def held_by_def)

section \<open>Every operation\<close>

lemma moved_quarantine:
  assumes "cards_moved db cs"
  shows "cards_moved db (sql_update (held_among rows) (\<lambda>r. r\<lparr>iv_status := InvQuarantined, iv_updated := now\<rparr>) cs)"
    "cards_moved db (quarantine_ids now k ids cs)"
  unfolding quarantine_ids_set using assms
  by (auto intro!: cards_moved_update card_step_retire simp: held_among_def held_by_def)

lemma moved_release:
  assumes "cards_moved db cs" "\<And>row. row \<in> set rows \<Longrightarrow> \<not> tried db (od_key row)"
  shows "cards_moved db (sql_update (held_among rows) (\<lambda>r. r\<lparr>iv_status := InvAvailable, iv_resv := None,
     iv_buyer := None, iv_updated := now\<rparr>) cs)"
  using assms(1)
proof (rule cards_moved_update)
  fix a r assume c: "card_step db a r" and h: "held_among rows r"
  from h assms(2) have "\<exists>k. held_by k r \<and> \<not> tried db k" unfolding held_among_def by blast
  then show "card_step db a (r\<lparr>iv_status := InvAvailable, iv_resv := None, iv_buyer := None, iv_updated := now\<rparr>)"
    by (intro card_step_free [OF c]) simp_all
qed

lemma tried_row:
  assumes "order_inv db" "row \<in> set (orders db)"
  shows "tried db (od_key row) \<longleftrightarrow> od_status row \<in> {Sending, Retry}"
proof -
  have "order_by_key (od_key row) db = Some row"
    using order_keys.find_iff [OF order_invD(1) [OF assms(1)], of "od_key row" row] assms(2) by simp
  then show ?thesis by (simp add: tried_def order_status_of_def)
qed

lemma manual_review_cards:
  assumes inv: "order_inv db"
  shows "cards_moved db (inventory (fst (mark_order_manual_review now k reason db)))"
proof (cases "order_by_key k db")
  case None
  then show ?thesis by (simp add: mark_order_manual_review_def)
next
  case (Some row)
  note fo = found_order [OF inv Some]
  have "cards_moved db (release_ids now k (ids_of row) (inventory db))" if "od_status row \<notin> {Retry, Sending}"
  proof -
    have "held_among [row] = (\<lambda>r. iv_id r \<in> set (ids_of row) \<and> held_by k r)"
      using fo(2) by (simp add: held_among_def fun_eq_iff)
    with moved_release [OF cards_moved_refl, of "[row]" db now] tried_row [OF inv fo(1)] fo(2) that show ?thesis
      by (simp add: release_ids_set)
  qed
  with Some fo(3) moved_quarantine(2) [OF cards_moved_refl] show ?thesis
    by (simp add: mark_order_manual_review_def Let_def)
qed

lemma quarantine_automatic_cards:
  assumes inv: "order_inv db"
  shows "cards_moved db (inventory (fst (quarantine_automatic_orders now reason db)))"
  using each_order_quarantine [where rows = "filter _ (orders db)"] order_invD(3) [OF inv] moved_quarantine(1) [OF cards_moved_refl]
  by (simp add: quarantine_automatic_orders_def Let_def)

lemma cancel_cards:
  assumes inv: "order_inv db"
  shows "cards_moved db (inventory (fst (cancel_awaiting_for_chat now chat db)))"
proof -
  let ?early = "\<lambda>ow. od_chat ow = chat \<and> od_status ow \<in> {AwaitingBinding, Verified, Reserved}"
  let ?os1 = "sql_update ?early (\<lambda>ow. ow\<lparr>od_status := Cancelled, od_updated := now\<rparr>) (orders db)"
  have ids: "decode_ids (od_inventory ow) = Inr (ids_of ow)" if "ow \<in> set (orders db) \<or> ow \<in> set ?os1" for ow
    using that order_invD(3) [OF inv] by (auto elim!: sql_updateE simp: ids_of_def)
  let ?cs = "sql_update (held_among (filter ?early (orders db))) (\<lambda>r. r\<lparr>iv_status := InvAvailable, iv_resv := None,
     iv_buyer := None, iv_updated := now\<rparr>) (inventory db)"
  have "cards_moved db ?cs"
    using tried_row [OF inv] by (intro moved_release) auto
  from moved_quarantine(1) [OF this] show ?thesis
    using each_order_release [of "filter ?early (orders db)" now "inventory db"] ids
      each_order_quarantine [of "filter (\<lambda>ow. od_chat ow = chat \<and> od_status ow \<in> {Retry, Sending}) ?os1" now ?cs]
    by (simp add: cancel_awaiting_for_chat_def Let_def)
qed

lemma reserve_cards_moved:
  assumes "reserve_cards k buyer now ids (inventory db) = Inr cs"
  shows "cards_moved db cs"
  unfolding reserve_cards_spec [OF assms]
  by (rule cards_moved_update) (auto intro: card_step_free)

lemma allocate_cards: "cards_moved db (inventory (fst (allocate_order now k buyer item dtype q pl row db)))"
proof -
  have "cards_moved db (inventory (fst (answer_order db k db')))" if "cards_moved db (inventory db')" for db'
    using answer_cases [of db k db'] that by auto
  then show ?thesis
    by (auto simp: allocate_order_def Let_def write_order_def reserve_cards_moved split: sum.split)
qed

lemma prepare_cards: "cards_moved db (inventory (fst (prepare_order now k chat buyer item dtype quantity payload db)))"
proof -
  have a: "cards_moved db (inventory (fst (answer_order db k db')))" if "inventory db' = inventory db" for db'
    using answer_cases [of db k db'] that by auto
  have i: "cards_moved db (inventory (fst (if c then x else y)))"
    if "c \<Longrightarrow> cards_moved db (inventory (fst x))" "\<not> c \<Longrightarrow> cards_moved db (inventory (fst y))"
    for c and x y :: "(order_db, delivery_reservation) outcome"
    using that by simp
  show ?thesis
  proof (cases "as_int quantity")
    case None
    then show ?thesis by (simp add: prepare_order_def)
  next
    case q: (Some q)
    show ?thesis
    proof (cases "order_by_key k db")
      case None
      show ?thesis unfolding prepare_order_def Let_def None q option.case by (intro i) simp_all
    next
      case (Some row)
      show ?thesis unfolding prepare_order_def Let_def Some q option.case
        by (intro i) (simp_all add: a allocate_cards write_order_def)
    qed
  qed
qed

lemma deliver_cards_moved:
  assumes inv: "order_inv db"
  shows "cards_moved db (inventory (fst (mark_order_delivered now k db)))"
proof -
  have "cards_moved db cs" if "deliver_cards k now ids (inventory db) = Inr cs" for ids cs
    using deliver_cards_spec [OF that] by (auto intro!: cards_moved_update card_step_retire simp: held_by_def)
  then show ?thesis
    by (auto simp: mark_order_delivered_def write_order_def split: option.split sum.split)
qed

definition import_moved :: "order_db \<Rightarrow> import_state \<Rightarrow> bool" where
  "import_moved db = (\<lambda>(cards, seq, revoked). cards_moved db cards)"

lemma card_step_revoke:
  assumes inv: "order_inv db" and a: "a \<in> set (inventory db)" and cur: "cur \<in> set (inventory db)"
    and c: "card_step db a r" "iv_id r = iv_id cur" "iv_status cur \<in> {InvAvailable, InvReserved}"
    and st: "iv_status cur = InvReserved \<longrightarrow> st = InvQuarantined"
  shows "card_step db a (r\<lparr>iv_status := st, iv_updated := now\<rparr>)"
proof -
  have "iv_id a = iv_id cur" using c by (simp add: card_step_def)
  then have "a = cur" using inv_ids.same_row [OF order_invD(2) [OF inv] a cur] by simp
  with c st show ?thesis by (auto simp: card_step_def)
qed

lemma import_row_moved:
  assumes inv: "order_inv db" and m: "import_moved db s"
  shows "import_moved db (import_row kind now (filter (\<lambda>r. iv_kind r = kind) (inventory db)) row s)"
proof -
  obtain secret st where row: "row = (secret, st)" by fastforce
  obtain cards seq rv where s: "s = (cards, seq, rv)" by (metis prod_cases3)
  let ?ex = "filter (\<lambda>r. iv_kind r = kind) (inventory db)"
  show ?thesis
  proof (cases "find (\<lambda>r. iv_kind r = kind \<and> iv_secret r = secret) ?ex")
    case None
    with m row s show ?thesis by (simp add: import_row_def import_moved_def cards_moved_append)
  next
    case (Some cur)
    have cur: "cur \<in> set (inventory db)" using find_SomeD [OF Some] by simp
    have "cards_moved db (sql_update (\<lambda>r. iv_id r = iv_id cur)
        (\<lambda>r. r\<lparr>iv_status := (if iv_status cur = InvAvailable then InvLegacyUsed else InvQuarantined), iv_updated := now\<rparr>) cards)"
      if "iv_status cur \<in> {InvAvailable, InvReserved}"
      using m s that by (intro cards_moved_update card_step_revoke [OF inv _ cur]) (auto simp: import_moved_def)
    with m row s Some show ?thesis by (auto simp: import_row_def import_moved_def)
  qed
qed

lemma import_rows_moved:
  "order_inv db \<Longrightarrow> import_moved db s \<Longrightarrow>
   import_moved db (fold (import_row kind now (filter (\<lambda>r. iv_kind r = kind) (inventory db))) rows s)"
  by (induction rows arbitrary: s) (simp_all add: import_row_moved)

lemma revoke_missing_moved:
  assumes inv: "order_inv db"
  shows "import_moved db s \<Longrightarrow> set ex \<subseteq> set (inventory db) \<Longrightarrow> import_moved db (fold (revoke_missing kind now incoming) ex s)"
proof (induction ex arbitrary: s)
  case Nil
  then show ?case by simp
next
  case (Cons cur ex)
  obtain cards seq rv where s: "s = (cards, seq, rv)" by (metis prod_cases3)
  have "cards_moved db (sql_update (\<lambda>r. iv_id r = iv_id cur) (\<lambda>r. r\<lparr>iv_status := InvQuarantined, iv_updated := now\<rparr>) cards)"
    if "iv_status cur \<in> {InvAvailable, InvReserved}"
    using Cons.prems s that by (intro cards_moved_update card_step_revoke [OF inv, of _ cur]) (auto simp: import_moved_def)
  then have "import_moved db (revoke_missing kind now incoming cur s)"
    using Cons.prems(1) s by (auto simp: revoke_missing_def import_moved_def)
  with Cons show ?case by simp
qed

lemma quarantine_claims_moved:
  "quarantine_claims reasons now rows db' = Inr db2 \<Longrightarrow> cards_moved db (inventory db') \<Longrightarrow> cards_moved db (inventory db2)"
proof (induction rows arbitrary: db')
  case Nil
  then show ?case by simp
next
  case (Cons row rows)
  show ?case
  proof (cases "decode_ids (od_inventory row)")
    case (Inr ids)
    show ?thesis
    proof (cases "filter (\<lambda>i. i \<in> fst ` set reasons) ids")
      case Nil
      with Inr Cons show ?thesis by simp
    next
      case (Cons a as)
      with Inr Cons.prems Cons.IH moved_quarantine(2) show ?thesis by (simp add: Let_def)
    qed
  qed (use Cons.prems in simp)
qed

lemma import_cards:
  assumes inv: "order_inv db"
  shows "cards_moved db (inventory (fst (import_inventory now name f kind db)))"
proof -
  let ?ex = "filter (\<lambda>r. iv_kind r = kind) (inventory db)"
  have "cards_moved db cs"
    if "fold (revoke_missing kind now inc) ?ex (fold (import_row kind now ?ex) rows (inventory db, inv_seq db, [])) = (cs, sq, rv)"
    for inc rows cs sq rv
    using revoke_missing_moved [OF inv import_rows_moved [OF inv], of "(inventory db, inv_seq db, [])" ?ex kind now inc kind now rows]
      that by (simp add: import_moved_def)
  moreover have "cards_moved db (inventory db2)"
    if "quarantine_delivery_claims rv now (db\<lparr>inventory := cs, inv_seq := sq\<rparr>) = Inr db2" "cards_moved db cs" for rv cs sq db2
    using that quarantine_claims_moved [of rv now _ "db\<lparr>inventory := cs, inv_seq := sq\<rparr>" db2 db]
    by (auto simp: quarantine_delivery_claims_def split: if_splits)
  ultimately show ?thesis
    by (auto simp: import_inventory_def Let_def split: option.split pyval.split sum.split prod.split)
qed

lemma revive_cards: "inventory (fst (revive_takeover_blocked_orders now db)) = inventory db"
proof -
  have "inventory (fold (revive_step now) ks db') = inventory db'" for ks db'
    by (induction ks arbitrary: db') (simp_all add: revive_step_def write_order_def)
  then show ?thesis by (simp add: revive_takeover_blocked_orders_def Let_def)
qed

lemma bind_cards: "inventory (fst (bind_platform_proof now k chat pid ps paid q db)) = inventory db"
  by (simp add: bind_platform_proof_def Let_def split: option.split)

lemma record_payment_cards: "inventory (fst (record_payment_event now k chat ev ttl db)) = inventory db"
  by (simp add: record_payment_event_def Let_def split: float_arg.split option.split)

lemma record_verified_cards:
  "inventory (fst (record_verified_payment_event n1 n2 k chat ev ttl pid ps paid q db)) = inventory db"
proof -
  obtain db1 r where r: "record_payment_event n1 k chat ev ttl db = (db1, r)" by fastforce
  have "inventory db1 = inventory db" using record_payment_cards [of n1 k chat ev ttl db] r by simp
  with r show ?thesis
    by (simp add: record_verified_payment_event_def Let_def bind_cards split: option.split sum.split)
qed

lemma claim_cards: "inventory (fst (claim_order_for_send now k db)) = inventory db"
proof -
  let ?db = "db\<lparr>orders := sql_update (\<lambda>ow. od_key ow = k \<and> od_status ow \<in> {Reserved, Retry})
     (\<lambda>ow. ow\<lparr>od_status := Sending, od_send_started := Some now, od_updated := now\<rparr>) (orders db)\<rparr>"
  obtain db' r where r: "answer_order db k ?db = (db', r)" by fastforce
  have "inventory db' = inventory db" using answer_cases [of db k ?db] r by auto
  with r show ?thesis by (simp add: claim_order_for_send_def Let_def split: option.split sum.split)
qed

lemma other_cards:
  "inventory (fst (awaiting_events now db)) = inventory db"
  "inventory (fst (resolve_manual_review now k r db)) = inventory db"
  "inventory (fst (mark_order_retry now k e db)) = inventory db"
  "inventory (fst (mark_platform_shipped now k db)) = inventory db"
  "inventory (fst (record_platform_ship_attempt now k e db)) = inventory db"
  "inventory (recover_orders db) = inventory db"
  by (simp_all add: awaiting_events_def expire_awaiting_def resolve_manual_review_def mark_order_retry_def
      mark_platform_shipped_def record_platform_ship_attempt_def recover_orders_def write_order_def Let_def split: option.split)

lemma apply_cards: "order_inv db \<Longrightarrow> cards_moved db (inventory (order_apply opr db))"
  by (cases opr) (simp_all add: import_cards record_payment_cards record_verified_cards other_cards
      manual_review_cards quarantine_automatic_cards cancel_cards prepare_cards claim_cards
      deliver_cards_moved revive_cards)

section \<open>A card once sent\<close>

definition spent_on :: "string \<Rightarrow> string \<Rightarrow> order_db \<Rightarrow> bool" where
  \<comment> \<open>The card with the given secret may have been sent for the order\<close>
  "spent_on k secret db \<longleftrightarrow> (\<exists>r \<in> set (inventory db). iv_secret r = secret \<and> iv_resv r = Some k \<and>
     (iv_status r \<in> {InvDelivered, InvQuarantined} \<or> iv_status r = InvReserved \<and> tried db k))"

lemma spent_step:
  assumes inv: "order_inv db" and step: "order_step db db'" and sp: "spent_on k s db"
  shows "spent_on k s db'"
proof -
  from step obtain opr where db': "db' = order_apply opr db" by (auto elim: order_stepE)
  have inv': "order_inv db'" unfolding db' using inv by (rule apply_inv)
  from sp obtain a where a: "a \<in> set (inventory db)" "iv_secret a = s" "iv_resv a = Some k"
    "iv_status a \<in> {InvDelivered, InvQuarantined} \<or> iv_status a = InvReserved \<and> tried db k"
    by (auto simp: spent_on_def)
  obtain b where b: "b \<in> set (inventory db')" "card_step db a b"
    using apply_cards [OF inv, of opr] a(1) unfolding cards_moved_def db' by blast
  from b(2) a have eq: "iv_secret b = s" "iv_resv b = Some k"
    "iv_status b \<in> {InvDelivered, InvQuarantined} \<or> iv_status b = InvReserved \<and> tried db k"
    by (auto simp: card_step_def)
  have "tried db' k" if r: "iv_status b = InvReserved" "tried db k"
  proof -
    obtain ow where ow: "ow \<in> set (orders db')" "od_key ow = k" "in_flight ow"
      using inv' b(1) r(1) eq(2) by (auto simp: order_inv_def reserved_backed_def)
    obtain st where st: "order_status_of db k = Some st" "st \<in> {Sending, Retry}"
      using r(2) by (auto simp: tried_def)
    have "order_status_of db' k = Some (od_status ow)"
      using order_keys.find_iff [OF order_invD(1) [OF inv'], of k ow] ow by (simp add: order_status_of_def)
    with order_sys.status_step [OF inv step st(1)] st(2) ow(3) show ?thesis
      by (auto simp: tried_def in_flight_def)
  qed
  with b(1) eq show ?thesis unfolding spent_on_def by blast
qed

lemma spent_run:
  assumes "order_step\<^sup>*\<^sup>* db db'" "order_inv db" "spent_on k s db"
  shows "spent_on k s db'"
  using assms
proof (induction rule: rtranclp_induct)
  case (step y z)
  then show ?case using spent_step order_sys.inv_run by blast
qed

lemma secret_unique:
  assumes "order_inv db" "r \<in> set (inventory db)" "q \<in> set (inventory db)" "iv_secret r = iv_secret q"
  shows "r = q"
  using assms by (auto simp: order_inv_def cards_ok_def unique_key_def dest: distinct_map_eqD)

lemma spent_unique:
  assumes "order_inv db" "spent_on k s db" "spent_on k' s db"
  shows "k' = k"
  using assms secret_unique [OF assms(1)] unfolding spent_on_def by (metis option.inject)

lemma sendable_held:
  assumes inv: "order_inv db" and s: "order_inventory_is_sendable k db = Inr True" "x \<in> set (order_secrets k db)"
  obtains r where "r \<in> set (inventory db)" "iv_secret r = x" "held_by k r" "tried db k"
proof -
  obtain row where row: "order_by_key k db = Some row"
    using s by (auto simp: order_inventory_is_sendable_def split: option.splits)
  note h = sendable_holds [OF inv row s(1)]
  from s(2) obtain r where r: "r \<in> set (inventory db)" "iv_id r \<in> set (ids_of row)" "iv_secret r = x"
    by (auto simp: order_secrets_eq [OF inv row])
  with h obtain q where "q \<in> set (inventory db)" "iv_id q = iv_id r" "held_by k q" by blast
  with r(1) have "held_by k r" using inv_ids.same_row [OF order_invD(2) [OF inv]] by metis
  moreover have "tried db k" using h row by (simp add: tried_def order_status_of_def)
  ultimately show thesis using r that by blast
qed

lemma sendable_spent:
  assumes inv: "order_inv db" and s: "order_inventory_is_sendable k db = Inr True" "x \<in> set (order_secrets k db)"
  shows "spent_on k x db"
  using sendable_held [OF assms] unfolding spent_on_def held_by_def by metis

lemma card_persists:
  assumes "order_step\<^sup>*\<^sup>* db db'" "order_inv db" "r \<in> set (inventory db)"
  shows "\<exists>q \<in> set (inventory db'). iv_id q = iv_id r \<and> iv_secret q = iv_secret r"
  using assms
proof (induction rule: rtranclp_induct)
  case (step y z)
  then obtain q where q: "q \<in> set (inventory y)" "iv_id q = iv_id r" "iv_secret q = iv_secret r" by blast
  have "order_inv y" using order_sys.inv_run [OF step(1)] step.prems(1) .
  from apply_cards [OF this] step(2) q show ?case
    by (auto simp: cards_moved_def card_step_def elim!: order_stepE) metis
qed blast

lemma ids_persist:
  assumes "order_step\<^sup>*\<^sup>* db db'" "order_inv db" "order_by_key k db = Some row" "ids_of row \<noteq> []"
  shows "\<exists>row'. order_by_key k db' = Some row' \<and> ids_of row' = ids_of row"
  using assms
proof (induction rule: rtranclp_induct)
  case (step y z)
  then obtain ry where ry: "order_by_key k y = Some ry" "ids_of ry = ids_of row" by blast
  have inv: "order_inv y" using order_sys.inv_run [OF step(1)] step.prems(1) .
  from step(2) obtain opr where z: "z = order_apply opr y" by (auto elim: order_stepE)
  have "\<exists>x. order_by_key k z = Some x \<and> may_move ry x"
    unfolding z by (rule rows_move_row [OF apply_moves [OF inv] ry(1)])
  then show ?case using ry step.prems(3) by (auto simp: may_move_def ids_of_def)
qed blast

text \<open>The cards a sender was given stay the cards of its order.\<close>

lemma secrets_persist:
  assumes inv: "order_inv db" and x: "x \<in> set (order_secrets k db)" and run: "order_step\<^sup>*\<^sup>* db db'"
  shows "x \<in> set (order_secrets k db')"
proof -
  have inv': "order_inv db'" using order_sys.inv_run [OF run inv] .
  obtain row where row: "order_by_key k db = Some row"
    using x by (auto simp: order_secrets_def get_order_def split: sum.splits option.splits)
  from x obtain r where r: "r \<in> set (inventory db)" "iv_id r \<in> set (ids_of row)" "iv_secret r = x"
    by (auto simp: order_secrets_eq [OF inv row])
  obtain q where q: "q \<in> set (inventory db')" "iv_id q = iv_id r" "iv_secret q = x"
    using card_persists [OF run inv r(1)] r(3) by blast
  have "ids_of row \<noteq> []" using r(2) by auto
  then obtain row' where row': "order_by_key k db' = Some row'" "ids_of row' = ids_of row"
    using ids_persist [OF run inv row] by blast
  then show ?thesis
    using q r(2) by (auto simp: order_secrets_eq [OF inv' row'(1)])
qed

end
