(* ===== verification/Fulfilment_Facts.thy ===== *)
theory Fulfilment_Facts
  imports Fulfilment Order_Cards
begin

text \<open>
  Facts on a fulfilment: every state it passes is reachable by store operations, and every message it
  hands over follows a successful check.
\<close>

section \<open>Every state of a fulfilment is reachable\<close>

abbreviation leads_to :: "worker \<Rightarrow> worker \<Rightarrow> bool" where
  "leads_to w w' \<equiv> order_step\<^sup>*\<^sup>* (wk_store w) (wk_store w')"

lemma leads_trans: "leads_to a b \<Longrightarrow> leads_to b c \<Longrightarrow> leads_to a c"
  by (rule rtranclp_trans)

lemma leads_op: "order_step\<^sup>*\<^sup>* db (order_apply opr db)"
  by (rule r_into_rtranclp) (rule order_step.intros)

lemma leads_others: "leads_to w (run_others ops w)"
  by (simp add: run_others_def order_run_steps)

lemma leads_refresh: "leads_to w (fst (refresh inp w))"
proof -
  have p: "wk_store (refresh_products inp w) = wk_store w"
    by (simp add: refresh_products_def split: product_files.split)
  have "order_step\<^sup>*\<^sup>* (wk_store v) (wk_store (fst (refresh_redeem_inventory inp v)))" for v
    using leads_op [of "wk_store v" "OpImport (ri_now inp) ''redeem_codes.json'' (ri_file inp) ''redeem''"]
    by (auto simp: refresh_redeem_inventory_def Let_def split: prod.split sum.split py_error.split)
  from this [of "refresh_products inp w"] p show ?thesis by (simp add: refresh_def)
qed

lemma refresh_leads: "refresh inp w = (w', r) \<Longrightarrow> leads_to w w'"
  using leads_refresh [of w inp] by simp

lemma leads_store:
  assumes "\<And>db. fst (f db) = order_apply opr db"
  shows "leads_to w (fst (on_store f w))"
  using leads_op [of "wk_store w" opr] assms [of "wk_store w"] by (auto split: prod.split)

lemma leads_to_review: "leads_to w (fst (to_review now k reason w))"
proof -
  have "leads_to w (fst (on_store (mark_order_manual_review now k reason) w))"
    by (rule leads_store [where opr = "OpManualReview now k reason"]) simp
  then show ?thesis by (auto simp: to_review_def split: prod.splits sum.splits)
qed

lemma leads_ship: "leads_to w (fst (ship_platform_order now k answer others w))"
proof -
  let ?w = "run_others others w"
  have "leads_to ?w (fst (on_store (record_platform_ship_attempt now k e) ?w))" for e
    by (rule leads_store [where opr = "OpShipAttempt now k e"]) simp
  moreover have "leads_to ?w (fst (on_store (mark_platform_shipped now k) ?w))"
    by (rule leads_store [where opr = "OpShipped now k"]) simp
  ultimately show ?thesis
    using leads_others [of w others] unfolding ship_platform_order_def Let_def
    by (auto split: sum.split intro: leads_trans)
qed

lemma leads_verify: "leads_to w (fst (verify_before_attempt loads decimal k res inp w))"
proof -
  obtain w2 r where r: "refresh (ai_refresh inp) (run_others (ai_checking inp) w) = (w2, r)" by fastforce
  show ?thesis
    using leads_trans [OF leads_others refresh_leads [OF r]] leads_others [of w "ai_checking inp"] r
    by (auto simp: verify_before_attempt_def Let_def split: sum.split)
qed

lemma leads_attempt: "leads_to w (fst (fst (attempt_send loads decimal k res body inp w)))"
proof -
  let ?w1 = "run_others (ai_waiting inp) w"
  obtain w2 r where v: "verify_before_attempt loads decimal k res inp ?w1 = (w2, r)" by fastforce
  have "leads_to w ?w1" by (rule leads_others)
  moreover have "leads_to ?w1 w2" using leads_verify [of ?w1 loads decimal k res inp] v by simp
  moreover have "leads_to w2 (run_others (ai_sending inp) w2)" by (rule leads_others)
  ultimately show ?thesis
    using v by (auto simp: attempt_send_def Let_def split: option.split sum.split intro: leads_trans)
qed

lemma leads_send: "leads_to w (fst (fst (send_text_reliably loads decimal k res body a b w)))"
proof -
  obtain w1 r m where 1: "attempt_send loads decimal k res body a w = ((w1, r), m)" by (metis prod.exhaust)
  have "leads_to w w1" using leads_attempt [of w loads decimal k res body a] 1 by simp
  moreover have "leads_to w1 (fst (fst (attempt_send loads decimal k res body b w1)))" by (rule leads_attempt)
  ultimately show ?thesis
    using 1 by (auto simp: send_text_reliably_def split: sum.split prod.split intro: leads_trans)
qed

lemma leads_conclude: "leads_to (fst sent) (fst (conclude_send inp k sent))"
proof -
  obtain w r where s: "sent = (w, r)" by fastforce
  obtain w1 d where d: "on_store (mark_order_delivered (fi_clock inp 3) k) w = (w1, d)" by fastforce
  have 1: "leads_to w w1"
    using leads_store [where opr = "OpDelivered (fi_clock inp 3) k" and f = "mark_order_delivered (fi_clock inp 3) k" and w = w] d by simp
  have 2: "leads_to v (fst (on_store (mark_order_retry (fi_clock inp 4) k e) v))" for v e
    by (rule leads_store [where opr = "OpRetry (fi_clock inp 4) k e"]) simp
  have 3: "leads_to v (fst (case e of
             OrderVerificationRejected reason \<Rightarrow> to_review (fi_clock inp 4) k reason v
           | ManualTakeoverError _ \<Rightarrow> to_review (fi_clock inp 4) k ''manual_takeover_before_send'' v
           | CancelledError \<Rightarrow>
               (fst (on_store (mark_order_retry (fi_clock inp 4) k ''worker_cancelled'') v), Inl e)
           | _ \<Rightarrow> (fst (on_store (mark_order_retry (fi_clock inp 4) k (error_name e)) v), Inl e)))" for v e
    using leads_to_review 2 by (cases e) simp_all
  have 4: "leads_to v (fst (case ship_platform_order (fi_clock inp 5) k (fi_ship inp) (fi_shipping inp) v of
             (w', Inl e) \<Rightarrow> (w', Inl e) | (w', Inr _) \<Rightarrow> (w', Inr (FStatus Delivered))))" for v
    using leads_ship [of v "fi_clock inp 5" k "fi_ship inp" "fi_shipping inp"]
    by (auto split: prod.split sum.split)
  show ?thesis
  proof (cases r)
    case (Inl e)
    then show ?thesis using 3 [of w e] s by (simp add: conclude_send_def)
  next
    case (Inr u)
    show ?thesis
    proof (cases d)
      case e: (Inl e)
      then show ?thesis using leads_trans [OF 1 3 [of w1 e]] s Inr d by (simp add: conclude_send_def)
    next
      case (Inr u)
      then show ?thesis using leads_trans [OF 1 4 [of w1]] s \<open>r = Inr _\<close> d by (simp add: conclude_send_def)
    qed
  qed
qed

lemma leads_deliver: "leads_to w (fst (fst (deliver_prepared loads decimal inp k w)))"
proof -
  obtain w1 r where c: "on_store (claim_order_for_send (fi_clock inp 2) k) w = (w1, r)" by fastforce
  have 1: "leads_to w w1"
    using leads_store [where opr = "OpClaim (fi_clock inp 2) k" and f = "claim_order_for_send (fi_clock inp 2) k" and w = w] c by simp
  have 2: "leads_to w (fst (conclude_send inp k sent))"
    if "send_text_reliably loads decimal k res body a b w1 = (sent, ms)" for res body a b sent ms
    using leads_trans [OF leads_trans [OF 1 leads_send] leads_conclude] that by (metis fst_conv)
  show ?thesis
    using c 1 2 by (simp add: deliver_prepared_def split: sum.split option.split prod.split)
qed

lemma leads_prepared:
  "leads_to w (fst (fst (prepare_and_deliver loads decimal inp k current buyer item dtype payload w)))"
proof -
  let ?q = "PInt (if dr_quantity current = 0 then 1 else dr_quantity current)"
  let ?f = "prepare_order (fi_clock inp 1) k (dr_chat current) buyer item dtype ?q payload"
  obtain w2 x where x: "on_store ?f w = (w2, x)" by fastforce
  have "leads_to w (fst (on_store ?f w))"
    by (rule leads_store [where opr = "OpPrepare (fi_clock inp 1) k (dr_chat current) buyer item dtype ?q payload"]) simp
  then have w2: "leads_to w w2" unfolding x by simp
  from leads_trans [OF w2 leads_deliver] w2 show ?thesis
    unfolding prepare_and_deliver_def x by (simp split: sum.split)
qed

lemma one_of_two:
  "(\<exists>x. (if a then R p else if b then R q else if c then R r
         else (case s of Inl x \<Rightarrow> R x | Inr y \<Rightarrow> G y)) = R x) \<or>
   (\<exists>y. (if a then R p else if b then R q else if c then R r
         else (case s of Inl x \<Rightarrow> R x | Inr y \<Rightarrow> G y)) = G y)"
  by (cases s) auto

text \<open>A fulfilment either stops early, in its own state, with a review, or goes on to \<open>prepare_order\<close>.\<close>

lemma fulfil_cases:
  obtains (early) r where "fulfill_order loads decimal inp k cfg given w = ((w, r), [])"
      "r = Inr (FStatus Delivered) \<Longrightarrow> order_status_of (wk_store w) k = Some Delivered"
    | (failed) w1 r e where "refresh (fi_refresh inp) w = (w1, r)"
      "fulfill_order loads decimal inp k cfg given w = ((w1, Inl e), [])"
    | (review) w1 reason where "refresh (fi_refresh inp) w = (w1, Inr ())"
      "fulfill_order loads decimal inp k cfg given w = (to_review (fi_clock inp 0) k reason w1, [])"
    | (go) w1 current buyer item dtype payload where "refresh (fi_refresh inp) w = (w1, Inr ())"
      "fulfill_order loads decimal inp k cfg given w =
        prepare_and_deliver loads decimal inp k current buyer item dtype payload w1"
proof (cases "get_order k (wk_store w)")
  case (Inl e)
  then show thesis by (intro early [of "Inl e"]) (simp_all add: fulfill_order_def)
next
  case (Inr c)
  show thesis
  proof (cases c)
    case None
    with Inr show thesis
      by (intro early [of "Inl (RuntimeError ''verified order disappeared'')"]) (simp_all add: fulfill_order_def)
  next
    case (Some current)
    obtain w1 rr where w1: "refresh (fi_refresh inp) w = (w1, rr)" by fastforce
    let ?w1 = w1
    let ?d = "case dict_get cfg ''delivery'' of PStr s \<Rightarrow> s | _ \<Rightarrow> []"
    have st: "order_status_of (wk_store w) k = Some (dr_status current)"
      using Inr Some by (auto simp: get_order_def order_status_of_def reservation_from_row_def
          split: option.splits sum.splits)
    show thesis
    proof (cases "settled (dr_status current)")
      case True
      with Inr Some st show thesis
        by (intro early [of "Inr (FStatus (dr_status current))"]) (simp_all add: fulfill_order_def)
    next
      case False
      show thesis
      proof (cases rr)
        case e: (Inl e)
        with Inr Some False w1 show thesis by (intro failed [OF w1]) (simp add: fulfill_order_def)
      next
      case ok: (Inr u)
      have w1: "refresh (fi_refresh inp) w = (w1, Inr ())" using w1 ok by simp
      note base = Inr Some False w1
      show thesis
      proof (cases "order_parties (fi_clock inp 0) given current ?w1")
        case (Inl e)
        with base show thesis by (intro failed [OF w1]) (simp add: fulfill_order_def Let_def)
      next
        case p: (Inr ps)
        show thesis
        proof (cases ps)
          case None
          with base p show thesis by (intro review [OF w1]) (simp add: fulfill_order_def Let_def)
        next
          case (Some bi)
          obtain buyer item where bi: "bi = (buyer, item)" by fastforce
          define F where "F = fulfill_order loads decimal inp k cfg given w"
          define R where "R = (\<lambda>reason. (to_review (fi_clock inp 0) k reason ?w1, [] :: sent_message list))"
          define G where "G = (\<lambda>payload. prepare_and_deliver loads decimal inp k current buyer item ?d payload ?w1)"
          have eq: "F = (if \<not> (case classify_item ?w1 item of None \<Rightarrow> False | Some c \<Rightarrow> dict_eq c cfg)
              then R ''unsupported_item''
              else if ?d = ''redeem'' \<and> \<not> wk_redeem_available ?w1 then R ''inventory_state_changed''
              else if ?d = ''material'' \<and> dr_quantity current \<noteq> 1 then R ''unsupported_quantity''
              else (case delivery_payload ?w1 cfg ?d current of Inl reason \<Rightarrow> R reason | Inr payload \<Rightarrow> G payload))"
            using base p Some bi by (simp add: fulfill_order_def Let_def F_def R_def G_def split: sum.split)
          have "(\<exists>reason. F = R reason) \<or> (\<exists>payload. F = G payload)"
            unfolding eq by (rule one_of_two)
          then show thesis
            using review [OF w1] go [OF w1, of current buyer item ?d] unfolding F_def R_def G_def by blast
        qed
      qed
      qed
    qed
  qed
qed

lemma fulfil_leads: "leads_to w (fst (fst (fulfill_order loads decimal inp k cfg given w)))"
proof (cases rule: fulfil_cases [of loads decimal inp k cfg given w])
  case (go w1 current buyer item dtype payload)
  then show ?thesis using leads_trans [OF refresh_leads leads_prepared] by simp
next
  case (review w1 reason)
  then show ?thesis using leads_trans [OF refresh_leads leads_to_review] by simp
qed (auto dest: refresh_leads)

section \<open>What is sent\<close>

definition checked_send ::
  "(string \<Rightarrow> pyval option) \<Rightarrow> (pyval \<Rightarrow> decimal option) \<Rightarrow> string \<Rightarrow> delivery_reservation \<Rightarrow> attempt_input \<Rightarrow> worker \<Rightarrow> bool"
where
  "checked_send loads decimal k res inp w \<longleftrightarrow>
     (\<exists>response detail. ai_response inp = Inr response \<and> parse_order_detail loads decimal response = Inr detail \<and>
        reverify_order detail res = Inr ()) \<and> local_check k res w = Inr ()"

lemma attempt_messages:
  assumes "m \<in> set (snd (attempt_send loads decimal k res body inp w))"
  shows "m = \<lparr>sm_key = ''order:'' @ k, sm_chat = dr_chat res, sm_to = dr_buyer res, sm_text = body, sm_cards = cards_of res\<rparr> \<and>
    (\<exists>w'. leads_to w w' \<and> leads_to w' (fst (fst (attempt_send loads decimal k res body inp w))) \<and>
      checked_send loads decimal k res inp w')"
proof -
  let ?w1 = "run_others (ai_waiting inp) w"
  obtain w2 r where v: "verify_before_attempt loads decimal k res inp ?w1 = (w2, r)" by fastforce
  from assms v have m: "m = \<lparr>sm_key = ''order:'' @ k, sm_chat = dr_chat res, sm_to = dr_buyer res, sm_text = body, sm_cards = cards_of res\<rparr>"
      "r = Inr ()" "ai_connect inp = None"
    by (auto simp: attempt_send_def Let_def split: option.splits sum.splits)
  have "leads_to w w2"
    using leads_trans [OF leads_others leads_verify [of ?w1 loads decimal k res inp]] v by simp
  moreover have "leads_to w2 (fst (fst (attempt_send loads decimal k res body inp w)))"
    using leads_others [of w2 "ai_sending inp"] v m by (simp add: attempt_send_def Let_def)
  moreover have "checked_send loads decimal k res inp w2"
    using v m(2) by (auto simp: verify_before_attempt_def checked_send_def Let_def split: sum.splits prod.splits)
  ultimately show ?thesis using m by blast
qed

lemma send_messages:
  assumes "m \<in> set (snd (send_text_reliably loads decimal k res body a b w))"
  shows "m = \<lparr>sm_key = ''order:'' @ k, sm_chat = dr_chat res, sm_to = dr_buyer res, sm_text = body, sm_cards = cards_of res\<rparr> \<and>
    (\<exists>w' inp. inp \<in> {a, b} \<and> leads_to w w' \<and> leads_to w' (fst (fst (send_text_reliably loads decimal k res body a b w))) \<and>
      checked_send loads decimal k res inp w')"
proof -
  obtain w1 r m1 where 1: "attempt_send loads decimal k res body a w = ((w1, r), m1)" by (metis prod.exhaust)
  let ?final = "fst (fst (send_text_reliably loads decimal k res body a b w))"
  have w1: "leads_to w w1" using leads_attempt [of w loads decimal k res body a] 1 by simp
  have e1: "leads_to w1 ?final"
    using 1 leads_attempt [of w1 loads decimal k res body b]
    by (auto simp: send_text_reliably_def split: sum.split prod.split)
  from assms 1 have "m \<in> set m1 \<or>
      m \<in> set (snd (attempt_send loads decimal k res body b w1)) \<and> ?final = fst (fst (attempt_send loads decimal k res body b w1))"
    by (auto simp: send_text_reliably_def split: sum.splits prod.splits if_splits)
  then show ?thesis
  proof
    assume "m \<in> set m1"
    then have "m \<in> set (snd (attempt_send loads decimal k res body a w))" using 1 by simp
    from attempt_messages [OF this] 1 obtain w' where w': "leads_to w w'" "leads_to w' w1"
      "checked_send loads decimal k res a w'"
      and m: "m = \<lparr>sm_key = ''order:'' @ k, sm_chat = dr_chat res, sm_to = dr_buyer res, sm_text = body, sm_cards = cards_of res\<rparr>" by auto
    have "leads_to w' ?final" using w'(2) e1 by (rule leads_trans)
    with w' m show ?thesis by blast
  next
    assume b: "m \<in> set (snd (attempt_send loads decimal k res body b w1)) \<and> ?final = fst (fst (attempt_send loads decimal k res body b w1))"
    from attempt_messages [OF conjunct1 [OF b]] obtain w' where w': "leads_to w1 w'"
      "leads_to w' (fst (fst (attempt_send loads decimal k res body b w1)))" "checked_send loads decimal k res b w'"
      and m: "m = \<lparr>sm_key = ''order:'' @ k, sm_chat = dr_chat res, sm_to = dr_buyer res, sm_text = body, sm_cards = cards_of res\<rparr>" by blast
    have "leads_to w w'" using w1 w'(1) by (rule leads_trans)
    with w' m b show ?thesis by auto
  qed
qed

lemma deliver_messages:
  assumes "m \<in> set (snd (deliver_prepared loads decimal inp k w))"
  obtains w1 w' res ai where "claim_order_for_send (fi_clock inp 2) k (wk_store w) = (wk_store w1, Inr (Some res))"
    "sm_key m = ''order:'' @ k" "sm_chat m = dr_chat res" "sm_to m = dr_buyer res" "sm_cards m = cards_of res" "delivery_text res = Inr (sm_text m)" "leads_to w1 w'" "checked_send loads decimal k res ai w'"
    "leads_to w' (fst (fst (deliver_prepared loads decimal inp k w)))"
proof -
  obtain db r where c: "claim_order_for_send (fi_clock inp 2) k (wk_store w) = (db, r)" by fastforce
  let ?w1 = "w\<lparr>wk_store := db\<rparr>"
  from assms c obtain res body where r: "r = Inr (Some res)" "delivery_text res = Inr body"
    "m \<in> set (snd (send_text_reliably loads decimal k res body (fi_first inp) (fi_second inp) ?w1))"
    by (auto simp: deliver_prepared_def split: sum.splits option.splits prod.splits)
  obtain sent ms where s: "send_text_reliably loads decimal k res body (fi_first inp) (fi_second inp) ?w1 = (sent, ms)"
    by fastforce
  have e: "fst (fst (deliver_prepared loads decimal inp k w)) = fst (conclude_send inp k sent)"
    using c r s by (simp add: deliver_prepared_def)
  from send_messages [OF r(3)] s obtain w' ai where w': "leads_to ?w1 w'" "leads_to w' (fst sent)"
    "checked_send loads decimal k res ai w'"
    and m: "m = \<lparr>sm_key = ''order:'' @ k, sm_chat = dr_chat res, sm_to = dr_buyer res, sm_text = body, sm_cards = cards_of res\<rparr>" by auto
  have "leads_to w' (fst (fst (deliver_prepared loads decimal inp k w)))"
    unfolding e using w'(2) leads_conclude by (rule leads_trans)
  then show thesis using r c w' m by (intro that [of ?w1 res w' ai]) auto
qed

lemma fulfil_messages:
  assumes "m \<in> set (snd (fulfill_order loads decimal inp k cfg given w))"
  obtains w2 where "leads_to w w2" "m \<in> set (snd (deliver_prepared loads decimal inp k w2))"
    "fst (fst (fulfill_order loads decimal inp k cfg given w)) = fst (fst (deliver_prepared loads decimal inp k w2))"
proof -
  obtain w1 current buyer item dtype payload where w1: "refresh (fi_refresh inp) w = (w1, Inr ())" and
    f: "fulfill_order loads decimal inp k cfg given w =
      prepare_and_deliver loads decimal inp k current buyer item dtype payload w1"
    using assms by (cases rule: fulfil_cases [of loads decimal inp k cfg given w]) auto
  let ?q = "PInt (if dr_quantity current = 0 then 1 else dr_quantity current)"
  let ?f = "prepare_order (fi_clock inp 1) k (dr_chat current) buyer item dtype ?q payload"
  obtain w2 x where x: "on_store ?f w1 = (w2, x)" by fastforce
  have "leads_to w1 (fst (on_store ?f w1))"
    by (rule leads_store [where opr = "OpPrepare (fi_clock inp 1) k (dr_chat current) buyer item dtype ?q payload"]) simp
  then have "leads_to w w2" unfolding x using leads_trans [OF refresh_leads [OF w1]] by simp
  moreover have "prepare_and_deliver loads decimal inp k current buyer item dtype payload w1 = deliver_prepared loads decimal inp k w2"
    using assms unfolding f prepare_and_deliver_def x by (cases x) (auto split: if_splits)
  ultimately show thesis using that assms f by simp
qed

lemma answer_gives:
  assumes "answer_order old k db = (db', Inr res)"
  shows "db' = db \<and> dr_key res = k \<and> order_status_of db k = Some (dr_status res) \<and>
    order_secrets k db = dr_resources res"
proof -
  from assms obtain row where row: "order_by_key k db = Some row" "reservation_from_row db row = Inr res" "db' = db"
    by (auto simp: answer_order_def split: option.splits sum.splits)
  moreover have "od_key row = k" using find_SomeD [OF row(1)] by simp
  ultimately show ?thesis
    by (auto simp: reservation_from_row_def order_status_of_def order_secrets_def get_order_def split: sum.splits)
qed

lemma claim_gives:
  assumes "claim_order_for_send now k db = (db', Inr (Some res))"
  shows "dr_key res = k \<and> order_status_of db' k = Some (dr_status res) \<and> order_secrets k db' = dr_resources res"
proof -
  from assms obtain db1 where "answer_order db k db1 = (db', Inr res)"
    unfolding claim_order_for_send_def Let_def
    by (auto split: option.splits if_splits prod.splits sum.splits)
  from answer_gives [OF this] show ?thesis by simp
qed

lemma deliver_gives:
  assumes "mark_order_delivered now k db = (db', Inr ())"
  shows "order_status_of db' k = Some Delivered"
proof -
  from assms obtain row where row: "order_by_key k db = Some row"
    by (auto simp: mark_order_delivered_def split: option.splits)
  show ?thesis
  proof (cases "od_status row = Delivered")
    case True
    with row assms show ?thesis by (simp add: mark_order_delivered_def order_status_of_def)
  next
    case False
    with row assms obtain cs where "db' = write_order k (\<lambda>ow. ow\<lparr>od_status := Delivered, od_error := None,
        od_send_started := None, od_updated := now, od_delivered := Some now\<rparr>) (db\<lparr>inventory := cs\<rparr>)"
      by (auto simp: mark_order_delivered_def split: if_splits sum.splits)
    with find_write [OF row, of "db\<lparr>inventory := cs\<rparr>"] show ?thesis by (simp add: order_status_of_def)
  qed
qed

lemma conclude_delivered:
  assumes inv: "reachable_orders (wk_store (fst sent))"
    and r: "conclude_send inp k sent = (w', Inr (FStatus Delivered))"
  shows "order_status_of (wk_store w') k = Some Delivered"
proof -
  obtain w r where s: "sent = (w, r)" by fastforce
  have rev: "snd (to_review now k reason v) \<noteq> Inr (FStatus Delivered)" for now reason v
    by (auto simp: to_review_def split: prod.splits sum.splits)
  have no: "snd (case e of
             OrderVerificationRejected reason \<Rightarrow> to_review (fi_clock inp 4) k reason v
           | ManualTakeoverError _ \<Rightarrow> to_review (fi_clock inp 4) k ''manual_takeover_before_send'' v
           | CancelledError \<Rightarrow>
               (fst (on_store (mark_order_retry (fi_clock inp 4) k ''worker_cancelled'') v), Inl e)
           | _ \<Rightarrow> (fst (on_store (mark_order_retry (fi_clock inp 4) k (error_name e)) v), Inl e)) \<noteq> Inr (FStatus Delivered)" for e v
    using rev by (cases e) simp_all
  obtain db d where d: "mark_order_delivered (fi_clock inp 3) k (wk_store w) = (db, d)" by fastforce
  have "r = Inr ()"
  proof (cases r)
    case (Inl e)
    with r s no [of w e] show ?thesis by (simp add: conclude_send_def)
  qed simp
  moreover have "d = Inr ()" if "r = Inr ()"
  proof (cases d)
    case (Inl e)
    with r s d that no [of "w\<lparr>wk_store := db\<rparr>" e] show ?thesis by (simp add: conclude_send_def)
  qed simp
  ultimately have ok: "r = Inr ()" "d = Inr ()" by simp_all
  let ?w1 = "w\<lparr>wk_store := db\<rparr>"
  have "fst (ship_platform_order (fi_clock inp 5) k (fi_ship inp) (fi_shipping inp) ?w1) = w'"
    using assms(2) s d ok by (auto simp: conclude_send_def split: sum.splits prod.splits)
  then have "order_step\<^sup>*\<^sup>* db (wk_store w')"
    using leads_ship [of ?w1 "fi_clock inp 5" k "fi_ship inp" "fi_shipping inp"] by simp
  moreover have "reachable_orders db"
    using step_to [of empty_order_db "wk_store w" "OpDelivered (fi_clock inp 3) k" db] inv s d by simp
  moreover have "order_status_of db k = Some Delivered" using deliver_gives d ok by blast
  ultimately show ?thesis
    using order_sys.terminal_forever [of db "wk_store w'" k Delivered] reachable_inv by simp
qed

definition answers :: "string \<Rightarrow> (order_db, delivery_reservation) outcome \<Rightarrow> bool" where
  "answers k out \<longleftrightarrow> (\<forall>db' res. out = (db', Inr res) \<longrightarrow> order_status_of db' k = Some (dr_status res))"

lemma answers_intros [intro]:
  "answers k (db, Inl e)" "answers k (answer_order old k db)"
  "(c \<Longrightarrow> answers k x) \<Longrightarrow> (\<not> c \<Longrightarrow> answers k y) \<Longrightarrow> answers k (if c then x else y)"
  using answer_gives [of old k db] by (auto simp: answers_def)

lemma allocate_answers: "answers k (allocate_order now k buyer item dtype q pl row db)"
  unfolding allocate_order_def Let_def by (auto split: sum.split)

lemma prepare_gives:
  assumes "prepare_order now k chat buyer item dtype q payload db = (db', Inr res)"
  shows "order_status_of db' k = Some (dr_status res)"
proof -
  have "answers k (prepare_order now k chat buyer item dtype q payload db)"
  proof (cases "as_int q")
    case None
    then show ?thesis by (auto simp: prepare_order_def)
  next
    case (Some n)
    show ?thesis
    proof (cases "order_by_key k db")
      case None
      with Some show ?thesis unfolding prepare_order_def Let_def Some None option.case
        by (intro answers_intros)
    next
      case row: (Some row)
      show ?thesis unfolding prepare_order_def Let_def Some row option.case
        by (intro answers_intros allocate_answers)
    qed
  qed
  with assms show ?thesis by (simp add: answers_def)
qed

lemma send_state: "send_text_reliably loads decimal k res body a b w = (sent, ms) \<Longrightarrow> leads_to w (fst sent)"
  using leads_send [of w loads decimal k res body a b] by simp

lemma deliver_delivered:
  assumes inv: "reachable_orders (wk_store w)"
    and r: "fst (deliver_prepared loads decimal inp k w) = (w', Inr (FStatus Delivered))"
  shows "order_status_of (wk_store w') k = Some Delivered"
proof -
  obtain db c where c: "claim_order_for_send (fi_clock inp 2) k (wk_store w) = (db, c)" by fastforce
  let ?w1 = "w\<lparr>wk_store := db\<rparr>"
  have re: "reachable_orders (wk_store ?w1)"
    using step_to [OF inv, of "OpClaim (fi_clock inp 2) k" db] c by simp
  obtain res where res: "c = Inr (Some res)"
    using r c by (auto simp: deliver_prepared_def split: sum.splits option.splits)
  obtain body where body: "delivery_text res = Inr body"
    using r c res by (auto simp: deliver_prepared_def split: sum.splits)
  obtain sent ms where s: "send_text_reliably loads decimal k res body (fi_first inp) (fi_second inp) ?w1 = (sent, ms)"
    by fastforce
  have "conclude_send inp k sent = (w', Inr (FStatus Delivered))"
    using r c res body s by (simp add: deliver_prepared_def)
  moreover have "reachable_orders (wk_store (fst sent))"
    using re send_state [OF s] by (rule rtranclp_trans)
  ultimately show ?thesis using conclude_delivered by blast
qed

section \<open>A message with its proof\<close>

text \<open>
  The reservation and the platform's answer behind a message: the text is that of the reservation, the
  answer names the same order, buyer, amount and quantity and the status 2, and for cards the store
  confirms in \<open>db\<close> that they are held by the order and its sending was started.
\<close>

definition sent_with_proof :: "sent_message \<Rightarrow> string \<Rightarrow> delivery_reservation \<Rightarrow> order_detail \<Rightarrow> order_db \<Rightarrow> bool" where
  "sent_with_proof m k res detail db \<longleftrightarrow>
     dr_key res = k \<and> sm_key m = ''order:'' @ k \<and> sm_chat m = dr_chat res \<and> sm_to m = de_buyer detail \<and> sm_cards m = cards_of res \<and>
     delivery_text res = Inr (sm_text m) \<and> de_status detail = 2 \<and> de_seller detail \<and>
     dr_platform_id res = Some (de_order detail) \<and> dr_paid res = Some (de_paid detail) \<and>
     dr_quantity res = de_quantity detail \<and>
     (dr_type res = ''redeem'' \<longrightarrow> order_inventory_is_sendable k db = Inr True \<and>
        set (dr_resources res) \<subseteq> set (order_secrets k db))"

lemma fulfil_proof:
  assumes re: "reachable_orders (wk_store w)"
    and m: "m \<in> set (snd (fulfill_order loads decimal inp k cfg given w))"
  obtains res detail w' where "leads_to w w'" "leads_to w' (fst (fst (fulfill_order loads decimal inp k cfg given w)))"
    "sent_with_proof m k res detail (wk_store w')"
proof -
  from fulfil_messages [OF m] obtain w2 where 2: "leads_to w w2"
    "m \<in> set (snd (deliver_prepared loads decimal inp k w2))"
    and e: "fst (fst (fulfill_order loads decimal inp k cfg given w)) = fst (fst (deliver_prepared loads decimal inp k w2))"
    by blast
  obtain w1 w' res ai where
    c: "claim_order_for_send (fi_clock inp 2) k (wk_store w2) = (wk_store w1, Inr (Some res))"
    and t: "sm_key m = ''order:'' @ k" "sm_chat m = dr_chat res" "sm_to m = dr_buyer res" "sm_cards m = cards_of res" "delivery_text res = Inr (sm_text m)"
    and w': "leads_to w1 w'" "checked_send loads decimal k res ai w'"
      "leads_to w' (fst (fst (deliver_prepared loads decimal inp k w2)))"
    by (rule deliver_messages [OF 2(2)])
  have 1: "order_step\<^sup>*\<^sup>* (wk_store w2) (wk_store w1)"
    using leads_op [of "wk_store w2" "OpClaim (fi_clock inp 2) k"] c by simp
  have inv1: "order_inv (wk_store w1)" using re 2(1) 1 by (meson reachable_inv rtranclp_trans)
  from w'(2) obtain detail where v: "reverify_order detail res = Inr ()" "local_check k res w' = Inr ()"
    unfolding checked_send_def by blast
  note g = claim_gives [OF c]
  have s: "order_inventory_is_sendable k (wk_store w') = Inr True" if "dr_type res = ''redeem''"
    using v(2) that by (auto simp: local_check_def stock_reason_def split: option.splits if_splits sum.splits)
  have sp: "set (dr_resources res) \<subseteq> set (order_secrets k (wk_store w'))"
    using secrets_persist [OF inv1 _ w'(1)] g by auto
  have "sm_to m = de_buyer detail" "de_status detail = 2" "de_seller detail"
    "dr_platform_id res = Some (de_order detail)" "dr_paid res = Some (de_paid detail)" "dr_quantity res = de_quantity detail"
    using v(1) t(3) by (auto simp: reverify_order_def split: if_splits)
  then have "sent_with_proof m k res detail (wk_store w')"
    unfolding sent_with_proof_def using g t s sp by blast
  moreover have "leads_to w w'" using 2(1) 1 w'(1) by (meson rtranclp_trans)
  ultimately show thesis using that w'(3) e by simp
qed

end
