(* ===== verification/Fulfilment_Correctness.thy ===== *)
theory Fulfilment_Correctness
  imports Fulfilment_Facts Order_Shop
begin

text \<open>
  What a fulfilment guarantees in the presence of arbitrary interference, and a concrete delivery
  that exercises it.
\<close>

section \<open>A concrete delivery\<close>

definition shop_config :: dict where
  "shop_config = [(''delivery'', PStr ''redeem'')]"

definition shop_worker :: "order_db \<Rightarrow> worker" where
  "shop_worker db = \<lparr>wk_store = db, wk_bindings = [], wk_products = [(''55'', shop_config)], wk_pan = [],
     wk_redeem_available = True, wk_pool_signature = Some (True, Some ''s''),
     wk_scanning = False, wk_auth_closed = False\<rparr>"

definition quiet_refresh :: refresh_input where
  "quiet_refresh = \<lparr>ri_now = 1001, ri_products = ProductsUnchanged, ri_signature = Some ''s'', ri_file = NoFile\<rparr>"

definition shop_response :: pyval where
  "shop_response = PDict [(''data'', PDict [
     (''utArgs'', PDict [(''orderStatus'', PStr ''2'')]),
     (''orderInfoVO'', PDict [(''itemInfo'', PDict [(''buyAmount'', PInt 1)])]),
     (''orderId'', PStr ''101''), (''itemId'', PStr ''55''), (''peerUserId'', PStr ''77''),
     (''seller'', PBool True), (''status'', PInt 2)])]"

definition shop_detail :: order_detail where
  "shop_detail = \<lparr>de_order = ''101'', de_item = ''55'', de_buyer = ''77'', de_seller = True, de_status = 2,
     de_quantity = 1, de_paid = ''9.90'', de_ut_status = ''2''\<rparr>"

definition no_json :: "string \<Rightarrow> pyval option" where
  "no_json s = None"

definition shop_decimal :: "pyval \<Rightarrow> decimal option" where
  "shop_decimal v = Some \<lparr>dc_finite = True, dc_negative = False, dc_plain = ''9.90''\<rparr>"

definition good_attempt :: attempt_input where
  "good_attempt = \<lparr>ai_waiting = [], ai_connect = None, ai_response = Inr shop_response, ai_checking = [],
     ai_refresh = quiet_refresh, ai_sent = Inr (), ai_sending = []\<rparr>"

definition shop_input :: fulfil_input where
  "shop_input = \<lparr>fi_clock = (\<lambda>n. 1000 + real n), fi_refresh = quiet_refresh, fi_first = good_attempt,
     fi_second = good_attempt, fi_ship = Inr (), fi_shipping = []\<rparr>"

definition shop_shipped :: order_db where
  "shop_shipped = fst (mark_platform_shipped 1005 ''k1'' shop_delivered)"

lemma shop_ids: "numeric_identifier (PStr ''101'') = Some ''101''" "numeric_identifier (PStr ''55'') = Some ''55''"
  "numeric_identifier (PStr ''77'') = Some ''77''" "py_take 64 ''2'' = ''2''"
  by code_simp+

lemma shop_detail_parse: "parse_order_detail no_json shop_decimal shop_response = Inr shop_detail"
  by (simp add: parse_order_detail_def shop_response_def json_object_def sub_object_def dict_get_def
      Let_def order_info_of_def count_value_def platform_boolean_def ut_status_text_def py_or_def
      shop_ids shop_strings shop_decimal_def shop_detail_def)

lemma quiet: "refresh quiet_refresh (shop_worker db) = (shop_worker db, Inr ())"
  by (simp add: refresh_def refresh_products_def refresh_redeem_inventory_def quiet_refresh_def
      shop_worker_def shop_config_def has_delivery_def dict_get_def)

lemma shop_worker_store [simp]: "wk_store (shop_worker db) = db" "(shop_worker db)\<lparr>wk_store := db'\<rparr> = shop_worker db'"
  by (simp_all add: shop_worker_def)

definition shop_reservation :: delivery_reservation where
  "shop_reservation = \<lparr>dr_key = ''k1'', dr_status = Sending, dr_type = ''redeem'', dr_chat = ''c1'',
     dr_buyer = ''77'', dr_item = ''55'', dr_resources = [''AAA''], dr_quantity = 1, dr_payload = None,
     dr_reason = None, dr_platform_id = Some ''101'', dr_verified = Some 1000,
     dr_platform_status = Some ''2'', dr_paid = Some ''9.90''\<rparr>"

lemma shop_claim_result: "claim_order_for_send 1002 ''k1'' shop_reserved = (shop_sending, Inr (Some shop_reservation))"
  using shop_claim by (simp add: answer_order_def shop_reservation_def shop_eval)

lemma shop_send:
  "attempt_send no_json shop_decimal ''k1'' shop_reservation body good_attempt (shop_worker shop_sending) =
     ((shop_worker shop_sending, Inr ()), [\<lparr>sm_key = ''order:k1'', sm_chat = ''c1'', sm_to = ''77'', sm_text = body, sm_cards = [''AAA'']\<rparr>])"
proof -
  have o: "run_others [] w = w" for w by (simp add: run_others_def order_run_def)
  have s: "order_inventory_is_sendable ''k1'' shop_sending = Inr True"
    by (simp add: order_inventory_is_sendable_def shop_eval)
  have l: "local_check ''k1'' shop_reservation (shop_worker shop_sending) = Inr ()"
    using s by (simp add: local_check_def classify_item_def shop_worker_def shop_reservation_def
        shop_config_def has_delivery_def dict_get_def)
  have v: "reverify_order shop_detail shop_reservation = Inr ()"
    by (simp add: reverify_order_def shop_detail_def shop_reservation_def)
  have f: "dr_chat shop_reservation = ''c1''" "dr_buyer shop_reservation = ''77''" "cards_of shop_reservation = [''AAA'']"
    by (simp_all add: shop_reservation_def cards_of_def)
  show ?thesis
    by (simp add: attempt_send_def good_attempt_def verify_before_attempt_def o shop_detail_parse v quiet l f Let_def)
qed

lemma shop_deliver_prepared:
  "deliver_prepared no_json shop_decimal shop_input ''k1'' (shop_worker shop_reserved) =
     ((shop_worker shop_shipped, Inr (FStatus Delivered)),
      [\<lparr>sm_key = ''order:k1'', sm_chat = ''c1'', sm_to = ''77'', sm_text = REDEEM_INTRO @ LF @ ''AAA'', sm_cards = [''AAA'']\<rparr>])"
proof -
  have t: "delivery_text shop_reservation = Inr (REDEEM_INTRO @ LF @ ''AAA'')"
    by (simp add: delivery_text_def shop_reservation_def)
  have ship: "mark_platform_shipped 1005 ''k1'' shop_delivered = (shop_shipped, Inr ())"
    by (simp add: shop_shipped_def mark_platform_shipped_def shop_defs)
  show ?thesis
    by (simp add: deliver_prepared_def shop_input_def shop_claim_result t send_text_reliably_def shop_send
        conclude_send_def shop_deliver ship_platform_order_def run_others_def order_run_def ship)
qed

lemma shop_fulfil:
  "fulfill_order no_json shop_decimal shop_input ''k1'' shop_config (Some (''77'', ''55'')) (shop_worker shop_db) =
     ((shop_worker shop_shipped, Inr (FStatus Delivered)),
      [\<lparr>sm_key = ''order:k1'', sm_chat = ''c1'', sm_to = ''77'', sm_text = REDEEM_INTRO @ LF @ ''AAA'', sm_cards = [''AAA'']\<rparr>])"
proof -
  obtain cur where cur: "get_order ''k1'' shop_db = Inr (Some cur)" "dr_status cur = Verified"
    "dr_buyer cur = []" "dr_item cur = []" "dr_chat cur = ''c1''" "dr_quantity cur = 1"
    by (simp add: get_order_def shop_eval)
  obtain res where res: "prepare_order 1001 ''k1'' ''c1'' ''77'' ''55'' ''redeem'' (PInt 1) None shop_db = (shop_reserved, Inr res)"
    "dr_status res = Reserved" "dr_resources res = [''AAA'']"
    using shop_prepare by (simp add: answer_order_def shop_eval)
  have p: "order_parties now (Some (''77'', ''55'')) cur w = Inr (Some (''77'', ''55''))" for now w
    using cur by (simp add: order_parties_def)
  have c: "classify_item (shop_worker shop_db) ''55'' = Some shop_config" "dict_eq shop_config shop_config"
    "dict_get shop_config ''delivery'' = PStr ''redeem''" "wk_redeem_available (shop_worker shop_db)"
    by (simp_all add: classify_item_def shop_worker_def dict_eq_def dict_get_def shop_config_def)
  have pd: "prepare_and_deliver no_json shop_decimal shop_input ''k1'' cur ''77'' ''55'' ''redeem'' None (shop_worker shop_db) =
     ((shop_worker shop_shipped, Inr (FStatus Delivered)),
      [\<lparr>sm_key = ''order:k1'', sm_chat = ''c1'', sm_to = ''77'', sm_text = REDEEM_INTRO @ LF @ ''AAA'', sm_cards = [''AAA'']\<rparr>])"
    using cur res shop_deliver_prepared by (simp add: prepare_and_deliver_def shop_input_def settled_def)
  have pl: "delivery_payload w shop_config ''redeem'' cur = Inr None" for w
    by (simp add: delivery_payload_def)
  have q: "fi_refresh shop_input = quiet_refresh" by (simp add: shop_input_def)
  show ?thesis
    unfolding fulfill_order_def
    by (simp add: cur q quiet p c pl pd settled_def Let_def)
qed

lemma shop_refulfil:
  "fulfill_order no_json shop_decimal shop_input ''k1'' shop_config None (shop_worker shop_reserved) =
     ((shop_worker shop_shipped, Inr (FStatus Delivered)),
      [\<lparr>sm_key = ''order:k1'', sm_chat = ''c1'', sm_to = ''77'', sm_text = REDEEM_INTRO @ LF @ ''AAA'', sm_cards = [''AAA'']\<rparr>])"
proof -
  obtain cur where cur: "get_order ''k1'' shop_reserved = Inr (Some cur)" "dr_status cur = Reserved"
    "dr_buyer cur = ''77''" "dr_item cur = ''55''" "dr_chat cur = ''c1''" "dr_quantity cur = 1"
    by (simp add: get_order_def shop_eval)
  obtain res where res: "prepare_order 1001 ''k1'' ''c1'' ''77'' ''55'' ''redeem'' (PInt 1) None shop_reserved = (shop_reserved, Inr res)"
    "dr_status res = Reserved" "dr_resources res = [''AAA'']"
    by (simp add: prepare_order_def has_proof_def answer_order_def Let_def shop_eval)
  have pd: "prepare_and_deliver no_json shop_decimal shop_input ''k1'' cur ''77'' ''55'' ''redeem'' None (shop_worker shop_reserved) =
     ((shop_worker shop_shipped, Inr (FStatus Delivered)),
      [\<lparr>sm_key = ''order:k1'', sm_chat = ''c1'', sm_to = ''77'', sm_text = REDEEM_INTRO @ LF @ ''AAA'', sm_cards = [''AAA'']\<rparr>])"
    using cur res shop_deliver_prepared by (simp add: prepare_and_deliver_def shop_input_def settled_def)
  have c: "classify_item (shop_worker shop_reserved) ''55'' = Some shop_config" "dict_eq shop_config shop_config"
    "dict_get shop_config ''delivery'' = PStr ''redeem''" "wk_redeem_available (shop_worker shop_reserved)"
    "order_parties now None cur w = Inr (Some (''77'', ''55''))"
    "delivery_payload w shop_config ''redeem'' cur = Inr None" "fi_refresh shop_input = quiet_refresh" for now w
    using cur by (simp_all add: classify_item_def shop_worker_def dict_eq_def dict_get_def shop_config_def
        order_parties_def delivery_payload_def shop_input_def)
  show ?thesis unfolding fulfill_order_def by (simp add: cur quiet c pd settled_def Let_def)
qed

section \<open>A delivery that cannot be written\<close>








section \<open>Properties\<close>



text \<open>C10: A fulfilment that returns delivered leaves the order delivered for good: after any further operations, another fulfilment sends nothing and returns delivered.\<close>

theorem fulfilment_delivers_for_good:
  assumes re: "reachable_orders (wk_store w)"
    and r: "fst (fulfill_order loads decimal inp k cfg given w) = (w', Inr (FStatus Delivered))"
    and later: "leads_to w' v"
  shows "order_status_of (wk_store v) k = Some Delivered \<and>
    fulfill_order loads decimal inp' k cfg' given' v = ((v, Inr (FStatus Delivered)), [])"
proof -
  have "order_status_of (wk_store w') k = Some Delivered"
  proof (cases rule: fulfil_cases [of loads decimal inp k cfg given w])
    case (early r)
    with assms(2) show ?thesis by simp
  next
    case (failed w1 x e)
    with r show ?thesis by simp
  next
    case (review w1 reason)
    with r show ?thesis by (auto simp: to_review_def split: prod.splits sum.splits)
  next
    case (go w1 current buyer item dtype payload)
    have re1: "reachable_orders (wk_store w1)" using re refresh_leads [OF go(1)] by (rule rtranclp_trans)
    let ?q = "PInt (if dr_quantity current = 0 then 1 else dr_quantity current)"
    obtain db x where x: "prepare_order (fi_clock inp 1) k (dr_chat current) buyer item dtype ?q payload (wk_store w1) = (db, x)"
      by fastforce
    have re2: "reachable_orders (wk_store (w1\<lparr>wk_store := db\<rparr>))"
      using step_to [OF re1, of "OpPrepare (fi_clock inp 1) k (dr_chat current) buyer item dtype ?q payload" db] x by simp
    show ?thesis
    proof (cases x)
      case (Inl e)
      with r go x show ?thesis by (simp add: prepare_and_deliver_def)
    next
      case (Inr res)
      with r go x prepare_gives [of _ k] deliver_delivered [OF re2, of loads decimal inp k w'] show ?thesis
        by (auto simp: prepare_and_deliver_def split: if_splits)
    qed
  qed
  moreover have "reachable_orders (wk_store w')"
    using re fulfil_leads [of w loads decimal inp k cfg given] r by (auto intro: rtranclp_trans)
  ultimately have st: "order_status_of (wk_store v) k = Some Delivered"
    using order_sys.terminal_forever [OF later reachable_inv] by simp
  have inv: "order_inv (wk_store v)"
    using \<open>reachable_orders (wk_store w')\<close> later by (intro reachable_inv) (rule rtranclp_trans)
  obtain row where row: "order_by_key k (wk_store v) = Some row" "od_status row = Delivered"
    using st by (auto simp: order_status_of_def)
  then have "\<exists>c. get_order k (wk_store v) = Inr (Some c) \<and> dr_status c = Delivered"
    using found_order(3) [OF inv row(1)] by (simp add: get_order_def reservation_from_row_def)
  then show ?thesis using st by (auto simp: fulfill_order_def settled_def)
qed

theorem fulfilment_delivers_for_good_witness:
  "order_status_of shop_shipped ''k1'' = Some Delivered \<and>
   fulfill_order no_json shop_decimal shop_input ''k1'' shop_config None (shop_worker shop_shipped) =
     ((shop_worker shop_shipped, Inr (FStatus Delivered)), [])"
proof -
  have r: "reachable_orders (wk_store (shop_worker shop_db))" using shop_reach(2) by simp
  have f: "fst (fulfill_order no_json shop_decimal shop_input ''k1'' shop_config (Some (''77'', ''55'')) (shop_worker shop_db)) =
      (shop_worker shop_shipped, Inr (FStatus Delivered))"
    by (simp add: shop_fulfil)
  from fulfilment_delivers_for_good [OF r f rtranclp.rtrancl_refl, of shop_input shop_config None] show ?thesis by simp
qed


end
