(* ===== verification/Worker_Orders.thy ===== *)
theory Worker_Orders
  imports Fulfilment
begin

text \<open>
  The tasks of \<^verbatim>\<open>worker/main.py\<close> that start a delivery: a payment reminder (\<^verbatim>\<open>handle_paid_order\<close>), the
  recovery after a reconnect (\<^verbatim>\<open>retry_pending_deliveries\<close>) and the scan of the platform's list of sold
  orders (\<^verbatim>\<open>scan_pending_orders\<close>).  As in a fulfilment, the platform's answers, the clock and what other
  tasks do while this one awaits are inputs; the effect of a task is the worker's state, its value or
  exception, and the messages handed to the connection.
\<close>

section \<open>Effects\<close>

type_synonym 'a effect = "(worker, 'a) outcome \<times> sent_message list"

abbreviation returns :: "'a \<Rightarrow> worker \<Rightarrow> 'a effect" where "returns x w \<equiv> ((w, Inr x), [])"
abbreviation raises :: "py_error \<Rightarrow> worker \<Rightarrow> 'a effect" where "raises e w \<equiv> ((w, Inl e), [])"

definition and_then :: "'a effect \<Rightarrow> ('a \<Rightarrow> worker \<Rightarrow> 'b effect) \<Rightarrow> 'b effect" where
  "and_then x f =
     (case x of
        ((w, Inl e), ms) \<Rightarrow> ((w, Inl e), ms)
      | ((w, Inr a), ms) \<Rightarrow> (case f a w of (out, ms') \<Rightarrow> (out, ms @ ms')))"

definition on_value :: "'a result \<Rightarrow> ('a \<Rightarrow> worker \<Rightarrow> 'b effect) \<Rightarrow> worker \<Rightarrow> 'b effect" where
  \<comment> \<open>A step that may raise but does not change the worker\<close>
  "on_value r f w = (case r of Inl e \<Rightarrow> raises e w | Inr a \<Rightarrow> f a w)"

definition swallow :: "(py_error \<Rightarrow> bool) \<Rightarrow> 'a effect \<Rightarrow> unit effect" where
  \<comment> \<open>\<^verbatim>\<open>try: ... except ...: log\<close>, for the errors \<open>P\<close>\<close>
  "swallow P x = (case x of
     ((w, Inl e), ms) \<Rightarrow> if P e then ((w, Inr ()), ms) else ((w, Inl e), ms)
   | ((w, Inr _), ms) \<Rightarrow> ((w, Inr ()), ms))"

definition is_exception :: "py_error \<Rightarrow> bool" where
  "is_exception e \<longleftrightarrow> e \<noteq> CancelledError"

definition PAYMENT_NOTICE_RETENTION :: time where "PAYMENT_NOTICE_RETENTION = 30 * 86400"
definition BINDING_MAX_AGE :: time where "BINDING_MAX_AGE = 30 * 86400"

definition with_bindings :: "binding_row list \<Rightarrow> worker \<Rightarrow> worker" where
  \<comment> \<open>The bindings as other tasks have left them\<close>
  "with_bindings bs w = w\<lparr>wk_bindings := bs\<rparr>"

section \<open>Payment reminders\<close>

record paid_input =
  pi_clock :: "nat \<Rightarrow> time"
  pi_config :: refresh_input
  pi_head :: "pyval result"
  pi_head_ops :: "order_op list"
  pi_detail :: "pyval result"
  pi_detail_ops :: "order_op list"
  pi_bindings :: "binding_row list"
  pi_fulfil :: fulfil_input

definition record_unverified_manual ::
  "(string \<Rightarrow> string) \<Rightarrow> (nat \<Rightarrow> time) \<Rightarrow> paid_event \<Rightarrow> string \<Rightarrow> string option \<Rightarrow> worker \<Rightarrow> (worker, unit) outcome"
where
  "record_unverified_manual sha clock event reason order_id w =
     (let order_key = (case order_id of
            Some i \<Rightarrow> if i \<noteq> [] then canonical_order_key sha i else pv_key event
          | None \<Rightarrow> pv_key event)
      in case on_store (record_payment_event (clock 2) order_key (pv_session event)
                (Finite (pv_event_at event)) PAYMENT_NOTICE_RETENTION) w of
           (w1, Inl e) \<Rightarrow> (w1, Inl e)
         | (w1, Inr payment) \<Rightarrow>
             if pe_status payment \<noteq> Delivered
             then on_store (mark_order_manual_review (clock 3) (pe_key payment) reason) w1
             else (w1, Inr ()))"

definition to_manual ::
  "(string \<Rightarrow> string) \<Rightarrow> paid_input \<Rightarrow> paid_event \<Rightarrow> string \<Rightarrow> string option \<Rightarrow> worker \<Rightarrow> bool effect"
where
  "to_manual sha inp event reason order_id w =
     and_then (record_unverified_manual sha (pi_clock inp) event reason order_id w, []) (\<lambda>_. returns True)"

definition record_paid_order ::
  "(string \<Rightarrow> string) \<Rightarrow> paid_input \<Rightarrow> paid_event \<Rightarrow> head_info \<Rightarrow> order_detail \<Rightarrow>
   delivery_reservation option \<Rightarrow> string option \<Rightarrow> worker \<Rightarrow> (worker, string option) outcome"
where
  \<comment> \<open>Persist the proof of a new order, or compare it with the stored one; the result is the rejection\<close>
  "record_paid_order sha inp event head detail existing rejection w =
     (case existing of
        Some ex \<Rightarrow>
          if dr_platform_id ex \<noteq> None
          then (w, Inr (if dr_platform_id ex \<noteq> Some (hi_order head) \<or>
                           dr_platform_status ex \<noteq> Some (str_int (de_status detail)) \<or>
                           dr_paid ex \<noteq> Some (de_paid detail) \<or> dr_quantity ex \<noteq> de_quantity detail
                        then Some (case rejection of Some r \<Rightarrow> r | None \<Rightarrow> ''order_reverification_failed'')
                        else rejection))
          else (case on_store (record_verified_payment_event (pi_clock inp 4) (pi_clock inp 5)
                       (canonical_order_key sha (hi_order head)) (pv_session event) (Finite (pv_event_at event))
                       PAYMENT_NOTICE_RETENTION (hi_order head) (str_int (de_status detail)) (de_paid detail)
                       (PInt (de_quantity detail))) w of
                  (w1, Inl e) \<Rightarrow> (w1, Inl e)
                | (w1, Inr _) \<Rightarrow> (w1, Inr rejection))
      | None \<Rightarrow>
          (case on_store (record_verified_payment_event (pi_clock inp 4) (pi_clock inp 5)
                  (canonical_order_key sha (hi_order head)) (pv_session event) (Finite (pv_event_at event))
                  PAYMENT_NOTICE_RETENTION (hi_order head) (str_int (de_status detail)) (de_paid detail)
                  (PInt (de_quantity detail))) w of
             (w1, Inl e) \<Rightarrow> (w1, Inl e)
           | (w1, Inr _) \<Rightarrow> (w1, Inr rejection)))"

definition settle_paid_order ::
  "(string \<Rightarrow> string) \<Rightarrow> (string \<Rightarrow> pyval option) \<Rightarrow> (pyval \<Rightarrow> decimal option) \<Rightarrow> paid_input \<Rightarrow> paid_event \<Rightarrow>
   chat_binding \<Rightarrow> dict \<Rightarrow> head_info \<Rightarrow> order_detail \<Rightarrow> delivery_reservation option \<Rightarrow> worker \<Rightarrow> bool effect"
where
  \<comment> \<open>From \<^verbatim>\<open>_verification_rejection\<close> on\<close>
  "settle_paid_order sha loads decimal inp event binding cfg head detail existing w =
     (let k = canonical_order_key sha (hi_order head);
          rejection = verification_rejection head detail binding (Some cfg)
      in and_then (record_paid_order sha inp event head detail existing rejection w, []) (\<lambda>rejected w1.
           case rejected of
             Some reason \<Rightarrow>
               and_then (on_store (mark_order_manual_review (pi_clock inp 6) k reason) w1, []) (\<lambda>_. returns True)
           | None \<Rightarrow>
               and_then (fulfill_order loads decimal (pi_fulfil inp) k cfg None (with_bindings (pi_bindings inp) w1))
                 (\<lambda>_. returns True)))"

definition verify_paid_order ::
  "(string \<Rightarrow> string) \<Rightarrow> (string \<Rightarrow> pyval option) \<Rightarrow> (pyval \<Rightarrow> decimal option) \<Rightarrow> paid_input \<Rightarrow> paid_event \<Rightarrow>
   chat_binding \<Rightarrow> dict \<Rightarrow> worker \<Rightarrow> bool effect"
where
  \<comment> \<open>From the request for the conversation's head information on\<close>
  "verify_paid_order sha loads decimal inp event binding cfg w =
     on_value (pi_head inp) (\<lambda>response.
     on_value (parse_message_head_info loads response) (\<lambda>head w1.
     on_value (get_order (canonical_order_key sha (hi_order head)) (wk_store w1)) (\<lambda>existing w1.
       if (case existing of None \<Rightarrow> False | Some ex \<Rightarrow> settled (dr_status ex)) then returns True w1
       else if hi_item head \<noteq> bd_item binding
       then to_manual sha inp event ''headinfo_item_mismatch'' (Some (hi_order head)) w1
       else if \<not> hi_seller head
       then to_manual sha inp event ''seller_identity_mismatch'' (Some (hi_order head)) w1
       else on_value (pi_detail inp) (\<lambda>response.
            on_value (parse_order_detail loads decimal response) (\<lambda>detail.
              settle_paid_order sha loads decimal inp event binding cfg head detail existing))
            (run_others (pi_detail_ops inp) w1)) w1))
       (run_others (pi_head_ops inp) w)"

definition handle_paid_order ::
  "(string \<Rightarrow> string) \<Rightarrow> (string \<Rightarrow> pyval option) \<Rightarrow> (pyval \<Rightarrow> decimal option) \<Rightarrow> paid_input \<Rightarrow> pyval \<Rightarrow>
   worker \<Rightarrow> bool effect"
where
  "handle_paid_order sha loads decimal inp message w =
     and_then (refresh (pi_config inp) w, []) (\<lambda>_.
     on_value (parse_paid_order_event sha (pi_clock inp 0) message) (\<lambda>parsed.
       case parsed of
         None \<Rightarrow> returns False
       | Some event \<Rightarrow> (\<lambda>w1.
           on_value (get_chat_binding (pi_clock inp 1) (pv_session event) BINDING_MAX_AGE None None (wk_bindings w1))
             (\<lambda>found.
                case found of
                  None \<Rightarrow> to_manual sha inp event ''chat_binding_unavailable'' None
                | Some binding \<Rightarrow> (\<lambda>w1.
                    case classify_item w1 (bd_item binding) of
                      None \<Rightarrow> to_manual sha inp event ''unsupported_item'' None w1
                    | Some cfg \<Rightarrow> verify_paid_order sha loads decimal inp event binding cfg w1)) w1)))"

section \<open>Recovery\<close>

record retry_input =
  rt_clock :: "nat \<Rightarrow> time"
  rt_config :: refresh_input
  rt_bindings :: "nat \<Rightarrow> binding_row list" \<comment> \<open>At the \<open>n\<close>-th revived order\<close>
  rt_fulfil :: "nat \<Rightarrow> fulfil_input"
  rt_ship :: "nat \<Rightarrow> unit result"
  rt_ship_ops :: "nat \<Rightarrow> order_op list"

definition review_order :: "time \<Rightarrow> string \<Rightarrow> string \<Rightarrow> worker \<Rightarrow> unit effect" where
  "review_order now k reason w = (on_store (mark_order_manual_review now k reason) w, [])"

definition retry_one ::
  "(string \<Rightarrow> pyval option) \<Rightarrow> (pyval \<Rightarrow> decimal option) \<Rightarrow> fulfil_input \<Rightarrow> string \<Rightarrow> dict \<Rightarrow> worker \<Rightarrow> unit effect"
where
  "retry_one loads decimal inp k cfg w = swallow is_exception (fulfill_order loads decimal inp k cfg None w)"

definition retry_revived_one ::
  "(string \<Rightarrow> pyval option) \<Rightarrow> (pyval \<Rightarrow> decimal option) \<Rightarrow> retry_input \<Rightarrow> nat \<Rightarrow> delivery_reservation \<Rightarrow>
   worker \<Rightarrow> unit effect"
where
  "retry_revived_one loads decimal inp n order w =
     (let w1 = with_bindings (rt_bindings inp n) w in
      on_value (get_chat_binding (rt_clock inp 2) (dr_chat order) BINDING_MAX_AGE None None (wk_bindings w1))
        (\<lambda>found w1.
           case (case found of None \<Rightarrow> None | Some binding \<Rightarrow> classify_item w1 (bd_item binding)) of
             None \<Rightarrow> review_order (rt_clock inp 3) (dr_key order) ''chat_binding_unavailable'' w1
           | Some cfg \<Rightarrow> retry_one loads decimal (rt_fulfil inp n) (dr_key order) cfg w1) w1)"

definition retry_pending_one ::
  "(string \<Rightarrow> pyval option) \<Rightarrow> (pyval \<Rightarrow> decimal option) \<Rightarrow> retry_input \<Rightarrow> nat \<Rightarrow> delivery_reservation \<Rightarrow>
   worker \<Rightarrow> unit effect"
where
  "retry_pending_one loads decimal inp n order w =
     (case classify_item w (dr_item order) of
        None \<Rightarrow> review_order (rt_clock inp 4) (dr_key order) ''unsupported_item'' w
      | Some cfg \<Rightarrow>
          if \<not> has_delivery (dr_type order) cfg
          then review_order (rt_clock inp 4) (dr_key order) ''unsupported_item'' w
          else retry_one loads decimal (rt_fulfil inp n) (dr_key order) cfg w)"

definition ship_pending_one :: "retry_input \<Rightarrow> nat \<Rightarrow> delivery_reservation \<Rightarrow> worker \<Rightarrow> unit effect" where
  \<comment> \<open>Here \<^verbatim>\<open>mark_platform_shipped\<close> is inside the \<^verbatim>\<open>try\<close>\<close>
  "ship_pending_one inp n order w =
     (let w1 = run_others (rt_ship_ops inp n) w;
          shipped = (case rt_ship inp n of
            Inl e \<Rightarrow> (w1, Inl e)
          | Inr _ \<Rightarrow> on_store (mark_platform_shipped (rt_clock inp 5) (dr_key order)) w1)
      in case shipped of
           (w2, Inr _) \<Rightarrow> returns () w2
         | (w2, Inl e) \<Rightarrow>
             if is_exception e
             then (on_store (record_platform_ship_attempt (rt_clock inp 6) (dr_key order) (error_name e)) w2, [])
             else raises e w2)"

fun each_in_turn :: "(nat \<Rightarrow> 'x \<Rightarrow> worker \<Rightarrow> unit effect) \<Rightarrow> nat \<Rightarrow> 'x list \<Rightarrow> worker \<Rightarrow> unit effect" where
  "each_in_turn f n [] w = returns () w"
| "each_in_turn f n (x # xs) w = and_then (f n x w) (\<lambda>_. each_in_turn f (Suc n) xs)"

definition retry_pending_deliveries ::
  "(string \<Rightarrow> pyval option) \<Rightarrow> (pyval \<Rightarrow> decimal option) \<Rightarrow> retry_input \<Rightarrow> worker \<Rightarrow> unit effect"
where
  "retry_pending_deliveries loads decimal inp w =
     and_then (refresh (rt_config inp) w, []) (\<lambda>_ w.
     and_then (on_store (quarantine_automatic_orders (rt_clock inp 0) ''platform_order_identity_unavailable'') w, []) (\<lambda>_ w.
     and_then (on_store (revive_takeover_blocked_orders (rt_clock inp 1)) w, []) (\<lambda>revived w.
     and_then (each_in_turn (retry_revived_one loads decimal inp) 0 revived w) (\<lambda>_ w.
     and_then (on_value (retryable_orders (wk_store w)) returns w) (\<lambda>retryable w.
     and_then (each_in_turn (retry_pending_one loads decimal inp) (length revived) retryable w) (\<lambda>_ w.
     and_then (on_value (pending_platform_shipments 5 (wk_store w)) returns w) (\<lambda>shipments.
       each_in_turn (ship_pending_one inp) 0 shipments)))))))"

section \<open>The scan of sold orders\<close>

record reconcile_input =
  rc_clock :: "nat \<Rightarrow> time"
  rc_bindings :: "binding_row list"
  rc_detail :: "pyval result"
  rc_detail_ops :: "order_op list"
  rc_cid :: "string option result" \<comment> \<open>The platform's conversation id, \<open>None\<close> on failure\<close>
  rc_cid_ops :: "order_op list"
  rc_fulfil :: fulfil_input

definition conversation_cid :: "string option \<Rightarrow> string option" where
  \<comment> \<open>The end of \<^verbatim>\<open>_create_order_conversation\<close>\<close>
  "conversation_cid raw =
     (let cid = py_strip (case raw of None \<Rightarrow> [] | Some s \<Rightarrow> s);
          bare = (if suffix ''@goofish'' cid then take (length cid - 8) cid else cid)
      in if bare = [] \<or> py_len bare > 256 then None else Some bare)"

definition os_or_runtime_error :: "py_error \<Rightarrow> bool" where
  \<comment> \<open>\<^verbatim>\<open>except (XianyuApiError, OSError, RuntimeError)\<close>, after \<^verbatim>\<open>AuthenticationUnavailableError\<close>\<close>
  "os_or_runtime_error e = (case e of
     DeliveryStoreError _ \<Rightarrow> True | RuntimeError _ \<Rightarrow> True | OrderVerificationRejected _ \<Rightarrow> True
   | ConnectionError _ \<Rightarrow> True | TimeoutError _ \<Rightarrow> True | ManualTakeoverError _ \<Rightarrow> True
   | XianyuApiError _ \<Rightarrow> True | _ \<Rightarrow> False)"

definition detail_matches :: "sold_order \<Rightarrow> order_detail \<Rightarrow> bool" where
  "detail_matches order detail \<longleftrightarrow> de_order detail = so_order order \<and> de_item detail = so_item order \<and>
     de_buyer detail = so_buyer order \<and> de_status detail = 2 \<and> de_seller detail"

definition order_chat ::
  "reconcile_input \<Rightarrow> sold_order \<Rightarrow> string option \<Rightarrow> worker \<Rightarrow> string option effect"
where
  \<comment> \<open>The known conversation, or a new one, which is then bound\<close>
  "order_chat inp order chat w =
     (case (case chat of Some c \<Rightarrow> if c = [] then None else Some c | None \<Rightarrow> None) of
        Some c \<Rightarrow> returns (Some c) w
      | None \<Rightarrow>
          on_value (rc_cid inp) (\<lambda>raw w1.
            case conversation_cid raw of
              None \<Rightarrow> returns None w1
            | Some c \<Rightarrow>
                (case record_chat_binding (rc_clock inp 1) c (so_buyer order) (so_item order)
                        (Some (Finite (rc_clock inp 2))) (wk_bindings w1) of
                   (bs, Inl e) \<Rightarrow> raises e (with_bindings bs w1)
                 | (bs, Inr _) \<Rightarrow> returns (Some c) (with_bindings bs w1)))
            (run_others (rc_cid_ops inp) w))"

definition pay_and_fulfil ::
  "(string \<Rightarrow> string) \<Rightarrow> (string \<Rightarrow> pyval option) \<Rightarrow> (pyval \<Rightarrow> decimal option) \<Rightarrow> reconcile_input \<Rightarrow>
   sold_order \<Rightarrow> dict \<Rightarrow> order_detail \<Rightarrow> string \<Rightarrow> worker \<Rightarrow> unit effect"
where
  "pay_and_fulfil sha loads decimal inp order cfg detail chat w =
     (let k = canonical_order_key sha (so_order order);
          paid = (if de_paid detail \<noteq> [] then de_paid detail else so_paid order)
      in case on_store (record_verified_payment_event (rc_clock inp 4) (rc_clock inp 5) k chat
                (Finite (rc_clock inp 3)) PAYMENT_NOTICE_RETENTION (so_order order) ''2'' paid
                (PInt (de_quantity detail))) w of
           (w1, Inl (DeliveryStoreError _)) \<Rightarrow> returns () w1
         | (w1, Inl e) \<Rightarrow> raises e w1
         | (w1, Inr _) \<Rightarrow>
             and_then (fulfill_order loads decimal (rc_fulfil inp) k cfg (Some (so_buyer order, so_item order)) w1)
               (\<lambda>_. returns ()))"

definition reconcile_pending_order ::
  "(string \<Rightarrow> string) \<Rightarrow> (string \<Rightarrow> pyval option) \<Rightarrow> (pyval \<Rightarrow> decimal option) \<Rightarrow> reconcile_input \<Rightarrow>
   sold_order \<Rightarrow> worker \<Rightarrow> unit effect"
where
  "reconcile_pending_order sha loads decimal inp order w =
     (case classify_item w (so_item order) of
        None \<Rightarrow> returns () w
      | Some cfg \<Rightarrow>
          if so_in_refund order then returns () w
          else on_value (get_order (canonical_order_key sha (so_order order)) (wk_store w)) (\<lambda>existing w.
            if (case existing of None \<Rightarrow> False | Some ex \<Rightarrow> settled (dr_status ex)) then returns () w
            else on_value (find_chat_binding (rc_clock inp 0) (so_buyer order) (so_item order) BINDING_MAX_AGE
                    (wk_bindings w)) (\<lambda>chat w.
              (let w1 = with_bindings (rc_bindings inp) (run_others (rc_detail_ops inp) w);
                   detail = (case rc_detail inp of
                       Inl e \<Rightarrow> Inl e | Inr response \<Rightarrow> parse_order_detail loads decimal response)
               in case detail of
                    Inl e \<Rightarrow> if os_or_runtime_error e then returns () w1 else raises e w1
                  | Inr d \<Rightarrow>
                      if \<not> detail_matches order d then returns () w1
                      else and_then (order_chat inp order chat w1) (\<lambda>resolved w2.
                        case resolved of
                          None \<Rightarrow> returns () w2
                        | Some c \<Rightarrow> pay_and_fulfil sha loads decimal inp order cfg d c w2))) w) w)"

record scan_input =
  sc_config :: refresh_input
  sc_pages :: nat
  sc_batch :: "nat \<Rightarrow> pyval result"
  sc_batch_ops :: "nat \<Rightarrow> order_op list"
  sc_order :: "nat \<Rightarrow> nat \<Rightarrow> reconcile_input" \<comment> \<open>By page and position\<close>

definition batch_items :: "pyval \<Rightarrow> pyval list result" where
  \<comment> \<open>What \<^verbatim>\<open>for raw in batch.get("items") or []\<close> yields, less the items \<^verbatim>\<open>_parse_sold_order\<close> refuses at once\<close>
  "batch_items v =
     (if \<not> truthy v then Inr []
      else case v of
        PList items \<Rightarrow> Inr items
      | PDict _ \<Rightarrow> Inr []
      | PStr _ \<Rightarrow> Inr []
      | _ \<Rightarrow> Inl (TypeError ''object is not iterable''))"

fun scan_items ::
  "(pyval \<Rightarrow> string) \<Rightarrow> (nat \<Rightarrow> sold_order \<Rightarrow> worker \<Rightarrow> unit effect) \<Rightarrow> nat \<Rightarrow> pyval list \<Rightarrow> string list \<Rightarrow>
   worker \<Rightarrow> string list effect"
where
  "scan_items show_value f n [] seen w = returns seen w"
| "scan_items show_value f n (raw # items) seen w =
     (case parse_sold_order show_value raw of
        Inl _ \<Rightarrow> scan_items show_value f (Suc n) items seen w
      | Inr order \<Rightarrow>
          if so_order order \<in> set seen then scan_items show_value f (Suc n) items seen w
          else and_then (f n order w) (\<lambda>_. scan_items show_value f (Suc n) items (so_order order # seen)))"

fun scan_pages ::
  "(pyval \<Rightarrow> string) \<Rightarrow> (nat \<Rightarrow> nat \<Rightarrow> sold_order \<Rightarrow> worker \<Rightarrow> unit effect) \<Rightarrow> scan_input \<Rightarrow> nat \<Rightarrow> nat \<Rightarrow>
   string list \<Rightarrow> worker \<Rightarrow> string list effect"
where
  "scan_pages show_value f inp 0 page seen w = returns seen w"
| "scan_pages show_value f inp (Suc left) page seen w =
     on_value (sc_batch inp page) (\<lambda>batch w1.
       case batch of
         PDict d \<Rightarrow>
           on_value (batch_items (dict_get d ''items'')) (\<lambda>items w1.
             and_then (scan_items show_value (f page) 0 items seen w1) (\<lambda>seen' w2.
               if truthy (dict_get d ''next_page'')
               then scan_pages show_value f inp left (Suc page) seen' w2
               else returns seen' w2)) w1
       | _ \<Rightarrow> returns seen w1)
       (run_others (sc_batch_ops inp page) w)"

definition scan_pending_orders ::
  "(string \<Rightarrow> string) \<Rightarrow> (string \<Rightarrow> pyval option) \<Rightarrow> (pyval \<Rightarrow> decimal option) \<Rightarrow> (pyval \<Rightarrow> string) \<Rightarrow>
   scan_input \<Rightarrow> worker \<Rightarrow> unit effect"
where
  \<comment> \<open>The \<^verbatim>\<open>finally\<close> clause resets the flag on every way out\<close>
  "scan_pending_orders sha loads decimal show_value inp w =
     (if wk_scanning w \<or> wk_auth_closed w then returns () w
      else case and_then (refresh (sc_config inp) (w\<lparr>wk_scanning := True\<rparr>), []) (\<lambda>_ w1.
             if wk_products w1 = [] then returns [] w1
             else scan_pages show_value
               (\<lambda>page n. reconcile_pending_order sha loads decimal (sc_order inp page n)) inp (sc_pages inp) 1 [] w1) of
        ((w1, Inl e), ms) \<Rightarrow> ((w1\<lparr>wk_scanning := False\<rparr>, Inl e), ms)
      | ((w1, Inr _), ms) \<Rightarrow> ((w1\<lparr>wk_scanning := False\<rparr>, Inr ()), ms))"

end
