(* ===== verification/Worker_Facts.thy ===== *)
theory Worker_Facts
  imports Worker_Orders Fulfilment_Facts
begin

text \<open>
  Every task of the worker only moves the store by its operations, and every message it sends has its
  proof.  Both are stated as one predicate on effects that composes along \<open>and_then\<close>.
\<close>

section \<open>Safe effects\<close>

definition proven_from :: "worker \<Rightarrow> 'a effect \<Rightarrow> sent_message \<Rightarrow> bool" where
  "proven_from w x m \<longleftrightarrow> (\<exists>k res detail w'. leads_to w w' \<and> leads_to w' (fst (fst x)) \<and>
     sent_with_proof m k res detail (wk_store w'))"

definition safe :: "worker \<Rightarrow> 'a effect \<Rightarrow> bool" where
  "safe w x \<longleftrightarrow> reachable_orders (wk_store w) \<longrightarrow>
     leads_to w (fst (fst x)) \<and> (\<forall>m \<in> set (snd x). proven_from w x m)"

named_theorems safe_intros

lemma effect_cases: obtains w r ms where "x = ((w, r), ms)"
  by (cases x) auto

lemma safe_quiet [safe_intros]: "leads_to w (fst out) \<Longrightarrow> safe w (out, [])"
  by (simp add: safe_def)

lemma safe_refl [safe_intros]: "safe w ((w, r), [])"
  by (rule safe_quiet) simp

lemma safe_store:
  assumes "\<And>db. fst (f db) = order_apply opr db"
  shows "safe w (on_store f w, [])"
  using leads_store [OF assms] by (rule safe_quiet)

lemma reachable_leads: "reachable_orders (wk_store w) \<Longrightarrow> leads_to w w' \<Longrightarrow> reachable_orders (wk_store w')"
  by (rule rtranclp_trans)

lemma proven_shift:
  assumes "proven_from w1 x m" "leads_to w w1" "leads_to (fst (fst x)) (fst (fst y))"
  shows "proven_from w y m"
  using assms unfolding proven_from_def by (meson rtranclp_trans)

lemma safe_and_then [safe_intros]:
  assumes x: "safe w x" and f: "\<And>a w'. safe w' (f a w')"
  shows "safe w (and_then x f)"
  unfolding safe_def
proof
  assume re: "reachable_orders (wk_store w)"
  obtain w1 r ms where x1: "x = ((w1, r), ms)" by (rule effect_cases)
  have l: "leads_to w w1" and p: "\<And>m. m \<in> set ms \<Longrightarrow> proven_from w x m"
    using x re x1 by (auto simp: safe_def)
  show "leads_to w (fst (fst (and_then x f))) \<and> (\<forall>m \<in> set (snd (and_then x f)). proven_from w (and_then x f) m)"
  proof (cases r)
    case (Inl e)
    then have "and_then x f = ((w1, Inl e), ms)" using x1 by (simp add: and_then_def)
    with l p x1 Inl show ?thesis by (auto simp: proven_from_def)
  next
    case (Inr a)
    obtain out ms' where y: "f a w1 = (out, ms')" by fastforce
    have e: "and_then x f = (out, ms @ ms')" using x1 Inr y by (simp add: and_then_def)
    have "safe w1 (f a w1)" by (rule f)
    with y reachable_leads [OF re l] have l1: "leads_to w1 (fst out)"
      and p1: "\<And>m. m \<in> set ms' \<Longrightarrow> proven_from w1 (f a w1) m" by (auto simp: safe_def)
    have "proven_from w (and_then x f) m" if "m \<in> set ms" for m
    proof (rule proven_shift [OF p [OF that]])
      show "leads_to (fst (fst x)) (fst (fst (and_then x f)))" unfolding e using l1 x1 by simp
    qed simp
    moreover have "proven_from w (and_then x f) m" if "m \<in> set ms'" for m
      using p1 [OF that] l by (rule proven_shift) (simp add: y e)
    ultimately show ?thesis using leads_trans [OF l l1] by (auto simp: e)
  qed
qed

lemma safe_after: "leads_to w w1 \<Longrightarrow> safe w1 x \<Longrightarrow> safe w x"
  unfolding safe_def by (meson proven_shift reachable_leads rtranclp.rtrancl_refl rtranclp_trans)

lemma safe_on_value [safe_intros]: "(\<And>a. safe w (f a w)) \<Longrightarrow> safe w (on_value r f w)"
  by (cases r) (simp_all add: on_value_def safe_refl)

lemma safe_swallow [safe_intros]: "safe w x \<Longrightarrow> safe w (swallow P x)"
proof -
  obtain w1 r ms where x: "x = ((w1, r), ms)" by (rule effect_cases)
  have "fst (fst (swallow P x)) = w1 \<and> snd (swallow P x) = ms"
    unfolding x swallow_def by (cases r) simp_all
  then show "safe w x \<Longrightarrow> safe w (swallow P x)"
    using x by (auto simp: safe_def proven_from_def)
qed

lemma safe_fulfil [safe_intros]: "safe w (fulfill_order loads decimal inp k cfg given w)"
  unfolding safe_def proven_from_def
  using fulfil_leads [of w loads decimal inp k cfg given] fulfil_proof [of w] by metis

lemma safe_on_value_others:
  "(\<And>a. safe (run_others ops w) (f a (run_others ops w))) \<Longrightarrow> safe w (on_value r f (run_others ops w))"
  by (rule safe_after [OF leads_others]) (rule safe_on_value)

lemma leads_bindings [simp]: "wk_store (with_bindings bs w) = wk_store w"
  by (simp add: with_bindings_def)

lemma safe_bindings: "safe (with_bindings bs w) x \<Longrightarrow> safe w x"
  by (rule safe_after) simp_all

lemma safe_fulfil_bindings: "safe w (fulfill_order loads decimal inp k cfg given (with_bindings bs w))"
  by (rule safe_bindings) (rule safe_fulfil)

lemma safe_refresh [safe_intros]: "safe w (refresh inp w, [])"
  by (rule safe_quiet) (rule leads_refresh)

lemma safe_case_option: "(x = None \<Longrightarrow> safe w a) \<Longrightarrow> (\<And>y. x = Some y \<Longrightarrow> safe w (b y)) \<Longrightarrow>
    safe w (case x of None \<Rightarrow> a | Some y \<Rightarrow> b y)"
  by (cases x) simp_all

lemma safe_if: "(c \<Longrightarrow> safe w a) \<Longrightarrow> (\<not> c \<Longrightarrow> safe w b) \<Longrightarrow> safe w (if c then a else b)"
  by simp

section \<open>Payment reminders\<close>

lemma safe_review: "safe w (on_store (mark_order_manual_review now k reason) w, [])"
  by (rule safe_store [where opr = "OpManualReview now k reason"]) simp

lemma leads_record: "leads_to w (fst (on_store (record_payment_event now k chat ev ttl) w))"
  by (rule leads_store [where opr = "OpRecord now k chat ev ttl"]) simp

lemma leads_record_verified:
  "leads_to w (fst (on_store (record_verified_payment_event n1 n2 k chat ev ttl pid ps paid q) w))"
  by (rule leads_store [where opr = "OpRecordVerified n1 n2 k chat ev ttl pid ps paid q"]) simp

lemma safe_unverified [safe_intros]: "safe w (record_unverified_manual sha clock event reason order_id w, [])"
proof (rule safe_quiet)
  define k where "k = (case order_id of Some i \<Rightarrow> if i \<noteq> [] then canonical_order_key sha i else pv_key event
      | None \<Rightarrow> pv_key event)"
  obtain w1 r where 1: "on_store (record_payment_event (clock 2) k (pv_session event)
      (Finite (pv_event_at event)) PAYMENT_NOTICE_RETENTION) w = (w1, r)" by fastforce
  have l: "leads_to w w1"
    using leads_record [of w "clock 2" k "pv_session event" "Finite (pv_event_at event)" PAYMENT_NOTICE_RETENTION] 1 by simp
  have "leads_to w1 (fst (on_store (mark_order_manual_review now k' reason) w1))" for now k'
    by (rule leads_store [where opr = "OpManualReview now k' reason"]) simp
  with l show "leads_to w (fst (record_unverified_manual sha clock event reason order_id w))"
    unfolding record_unverified_manual_def Let_def k_def [symmetric] 1
    by (auto split: sum.split intro: leads_trans)
qed

lemma safe_to_manual [safe_intros]: "safe w (to_manual sha inp event reason order_id w)"
  unfolding to_manual_def by (intro safe_intros)

lemma safe_record_paid: "safe w (record_paid_order sha inp event head detail existing rejection w, [])"
proof (rule safe_quiet)
  define f where "f = record_verified_payment_event (pi_clock inp 4) (pi_clock inp 5)
     (canonical_order_key sha (hi_order head)) (pv_session event) (Finite (pv_event_at event))
     PAYMENT_NOTICE_RETENTION (hi_order head) (str_int (de_status detail)) (de_paid detail) (PInt (de_quantity detail))"
  obtain w1 r where 1: "on_store f w = (w1, r)" by fastforce
  have "leads_to w w1" using leads_record_verified 1 unfolding f_def by (metis fst_conv)
  then show "leads_to w (fst (record_paid_order sha inp event head detail existing rejection w))"
    unfolding record_paid_order_def f_def [symmetric] 1
    by (auto split: option.split sum.split)
qed

lemma safe_settle [safe_intros]:
  "safe w (settle_paid_order sha loads decimal inp event binding cfg head detail existing w)"
  unfolding settle_paid_order_def Let_def
  by (intro safe_and_then safe_record_paid safe_case_option safe_review safe_refl
      safe_fulfil_bindings)

lemma safe_verify [safe_intros]: "safe w (verify_paid_order sha loads decimal inp event binding cfg w)"
  unfolding verify_paid_order_def
  by (intro safe_on_value_others safe_on_value safe_if safe_refl safe_to_manual safe_settle)

lemma safe_case_option_fun:
  "safe w (a w) \<Longrightarrow> (\<And>y. x = Some y \<Longrightarrow> safe w (b y w)) \<Longrightarrow> safe w ((case x of None \<Rightarrow> a | Some y \<Rightarrow> b y) w)"
  by (cases x) simp_all

lemma safe_handle: "safe w (handle_paid_order sha loads decimal inp message w)"
  unfolding handle_paid_order_def
  by (intro safe_and_then safe_refresh safe_on_value safe_case_option_fun safe_case_option safe_refl
      safe_to_manual safe_verify)

section \<open>Recovery\<close>

lemma safe_retry_one [safe_intros]: "safe w (retry_one loads decimal inp k cfg w)"
  unfolding retry_one_def by (intro safe_intros)

lemma safe_review_order [safe_intros]: "safe w (review_order now k reason w)"
  unfolding review_order_def by (rule safe_review)

lemma safe_retry_revived: "safe w (retry_revived_one loads decimal inp n order w)"
  unfolding retry_revived_one_def Let_def
  by (rule safe_bindings [of "rt_bindings inp n"])
    (intro safe_on_value safe_case_option safe_review_order safe_retry_one)

lemma safe_retry_pending: "safe w (retry_pending_one loads decimal inp n order w)"
  unfolding retry_pending_one_def by (intro safe_case_option safe_if safe_review_order safe_retry_one)

lemma safe_ship_pending: "safe w (ship_pending_one inp n order w)"
proof -
  let ?w1 = "run_others (rt_ship_ops inp n) w"
  obtain w2 r where 2: "(case rt_ship inp n of Inl e \<Rightarrow> (?w1, Inl e)
      | Inr _ \<Rightarrow> on_store (mark_platform_shipped (rt_clock inp 5) (dr_key order)) ?w1) = (w2, r)" by fastforce
  have "leads_to ?w1 (fst (on_store (mark_platform_shipped (rt_clock inp 5) (dr_key order)) ?w1))"
    by (rule leads_store [where opr = "OpShipped (rt_clock inp 5) (dr_key order)"]) simp
  then have "leads_to ?w1 w2" using 2 by (auto split: sum.splits)
  then have l: "leads_to w w2" using leads_others by (rule leads_trans [rotated])
  have "safe w2 (on_store (record_platform_ship_attempt now k e) w2, [])" for now k e
    by (rule safe_store [where opr = "OpShipAttempt now k e"]) simp
  then have "safe w2 (ship_pending_one inp n order w)"
    unfolding ship_pending_one_def Let_def 2 by (auto split: sum.split simp: safe_refl)
  with l show ?thesis by (rule safe_after)
qed

lemma safe_each: "(\<And>n x w'. safe w' (f n x w')) \<Longrightarrow> safe w (each_in_turn f n xs w)"
  by (induction xs arbitrary: n w) (auto intro: safe_intros)

lemma safe_retry: "safe w (retry_pending_deliveries loads decimal inp w)"
proof -
  have q: "safe v (on_store (quarantine_automatic_orders now r) v, [])" for v now r
    by (rule safe_store [where opr = "OpQuarantineAutomatic now r"]) simp
  have v: "safe v (on_store (revive_takeover_blocked_orders now) v, [])" for v now
    by (rule safe_store [where opr = "OpRevive now"]) simp
  show ?thesis unfolding retry_pending_deliveries_def
    by (intro safe_and_then safe_refresh q v safe_each safe_retry_revived safe_retry_pending
        safe_ship_pending safe_on_value safe_refl)
qed

section \<open>The scan\<close>

lemma safe_order_chat [safe_intros]: "safe w (order_chat inp order chat w)"
proof -
  have "safe w1 (case record_chat_binding t1 c b i ob bs0 of
       (bs, Inl e) \<Rightarrow> raises e (with_bindings bs w1) | (bs, Inr _) \<Rightarrow> returns (Some c) (with_bindings bs w1))" for w1 t1 c b i ob bs0
    by (auto split: prod.split sum.split intro!: safe_quiet)
  then show ?thesis unfolding order_chat_def
    by (intro safe_case_option safe_refl safe_on_value_others)
qed

lemma safe_pay [safe_intros]: "safe w (pay_and_fulfil sha loads decimal inp order cfg detail chat w)"
proof -
  define f where "f = record_verified_payment_event (rc_clock inp 4) (rc_clock inp 5) (canonical_order_key sha (so_order order)) chat
     (Finite (rc_clock inp 3)) PAYMENT_NOTICE_RETENTION (so_order order) ''2''
     (if de_paid detail \<noteq> [] then de_paid detail else so_paid order) (PInt (de_quantity detail))"
  obtain w1 r where 1: "on_store f w = (w1, r)" by fastforce
  have l: "leads_to w w1" using leads_record_verified 1 unfolding f_def by (metis fst_conv)
  have s: "safe w1 (and_then (fulfill_order loads decimal (rc_fulfil inp) k cfg given w1) (\<lambda>_. returns ()))" for k given
    by (intro safe_intros)
  have "safe w1 (pay_and_fulfil sha loads decimal inp order cfg detail chat w)"
    unfolding pay_and_fulfil_def Let_def f_def [symmetric] 1
    by (auto split: sum.split py_error.split simp: safe_refl s)
  with l show ?thesis by (rule safe_after)
qed

lemma safe_reconcile: "safe w (reconcile_pending_order sha loads decimal inp order w)"
proof -
  have a: "safe w1 (case detail of
      Inl e \<Rightarrow> if os_or_runtime_error e then returns () w1 else raises e w1
    | Inr d \<Rightarrow> if \<not> detail_matches order d then returns () w1
        else and_then (order_chat inp order chat w1) (\<lambda>resolved w2.
          case resolved of None \<Rightarrow> returns () w2
          | Some c \<Rightarrow> pay_and_fulfil sha loads decimal inp order cfg d c w2))" for w1 detail chat cfg
  proof (cases detail)
    case (Inl e)
    then show ?thesis by (simp add: safe_refl)
  next
    case (Inr d)
    then show ?thesis unfolding Inr sum.case
      by (intro safe_if safe_refl safe_and_then safe_order_chat safe_case_option safe_pay)
  qed
  have l: "leads_to w1 (with_bindings (rc_bindings inp) (run_others (rc_detail_ops inp) w1))" for w1
    using leads_others by simp
  show ?thesis unfolding reconcile_pending_order_def Let_def
    by (intro safe_case_option safe_if safe_refl safe_on_value safe_after [OF l a])
qed

lemma safe_scan_items:
  assumes "\<And>n order w'. safe w' (f n order w')"
  shows "safe w (scan_items show_value f n items seen w)"
proof (induction items arbitrary: n seen w)
  case Nil
  show ?case by (simp add: safe_refl)
next
  case (Cons raw items)
  then show ?case using assms by (auto split: sum.split intro: safe_and_then)
qed

lemma safe_scan_pages:
  assumes "\<And>page n order w'. safe w' (f page n order w')"
  shows "safe w (scan_pages show_value f inp left page seen w)"
proof (induction left arbitrary: page seen w)
  case 0
  show ?case by (simp add: safe_refl)
next
  case (Suc left)
  have b: "safe w1 (case batch of PDict d \<Rightarrow> g d | _ \<Rightarrow> returns seen w1)" if "\<And>d. safe w1 (g d)" for w1 batch g
    using that by (cases batch) (simp_all add: safe_refl)
  show ?case unfolding scan_pages.simps
    by (intro safe_on_value_others b safe_on_value safe_and_then safe_if safe_refl
        safe_scan_items assms Suc.IH)
qed

lemma safe_flag: "safe w ((w1, r), ms) \<Longrightarrow> safe w ((w1\<lparr>wk_scanning := b\<rparr>, r'), ms)"
  by (simp add: safe_def proven_from_def)

lemma safe_scan: "safe w (scan_pending_orders sha loads decimal show_value inp w)"
proof (cases "wk_scanning w \<or> wk_auth_closed w")
  case True
  then show ?thesis by (simp add: scan_pending_orders_def safe_refl)
next
  case False
  let ?go = "and_then (refresh (sc_config inp) (w\<lparr>wk_scanning := True\<rparr>), []) (\<lambda>_ w1.
      if wk_products w1 = [] then returns [] w1
      else scan_pages show_value (\<lambda>page n. reconcile_pending_order sha loads decimal (sc_order inp page n))
        inp (sc_pages inp) 1 [] w1)"
  let ?w0 = "w\<lparr>wk_scanning := True\<rparr>"
  have l: "leads_to w ?w0" by simp
  have "safe ?w0 ?go"
    by (intro safe_and_then safe_refresh safe_if safe_refl safe_scan_pages safe_reconcile)
  with l have s: "safe w ?go" by (rule safe_after)
  obtain w1 r ms where g: "?go = ((w1, r), ms)" by (rule effect_cases)
  have "scan_pending_orders sha loads decimal show_value inp w =
      ((w1\<lparr>wk_scanning := False\<rparr>, case r of Inl e \<Rightarrow> Inl e | Inr _ \<Rightarrow> Inr ()), ms)"
    using False unfolding scan_pending_orders_def g by (cases r) simp_all
  with safe_flag [OF s [unfolded g]] show ?thesis by simp
qed

end
