(* ===== verification/Worker_Correctness.thy ===== *)
theory Worker_Correctness
  imports Worker_Facts Fulfilment_Correctness
begin

text \<open>
  The worker as a whole: any sequence of its tasks, each with its own platform answers and
  interference, and of operations others run on the store between them.
\<close>

section \<open>Sequences of tasks\<close>

datatype worker_task =
    TaskPaid paid_input pyval
  | TaskRetry retry_input
  | TaskScan scan_input
  | TaskOthers "order_op list" "binding_row list"

record platform_codecs =
  pc_sha :: "string \<Rightarrow> string"
  pc_loads :: "string \<Rightarrow> pyval option"
  pc_decimal :: "pyval \<Rightarrow> decimal option"
  pc_show :: "pyval \<Rightarrow> string"

definition task_result :: "'a effect \<Rightarrow> worker \<times> sent_message list" where
  "task_result x = (fst (fst x), snd x)"

fun run_task :: "platform_codecs \<Rightarrow> worker_task \<Rightarrow> worker \<Rightarrow> worker \<times> sent_message list" where
  "run_task pc (TaskPaid inp message) w =
     task_result (handle_paid_order (pc_sha pc) (pc_loads pc) (pc_decimal pc) inp message w)"
| "run_task pc (TaskRetry inp) w = task_result (retry_pending_deliveries (pc_loads pc) (pc_decimal pc) inp w)"
| "run_task pc (TaskScan inp) w =
     task_result (scan_pending_orders (pc_sha pc) (pc_loads pc) (pc_decimal pc) (pc_show pc) inp w)"
| "run_task pc (TaskOthers ops bs) w = (with_bindings bs (run_others ops w), [])"

fun run_tasks :: "platform_codecs \<Rightarrow> worker_task list \<Rightarrow> worker \<Rightarrow> worker \<times> sent_message list" where
  "run_tasks pc [] w = (w, [])"
| "run_tasks pc (t # ts) w =
     (case run_task pc t w of (w1, ms) \<Rightarrow> (case run_tasks pc ts w1 of (w2, ms') \<Rightarrow> (w2, ms @ ms')))"

lemma safe_result: "safe w x \<Longrightarrow> safe w ((fst (task_result x), r), snd (task_result x))"
  by (simp add: safe_def proven_from_def task_result_def)

lemma safe_task: "safe w ((fst (run_task pc t w), r), snd (run_task pc t w))"
  using leads_others
  by (cases t) (simp_all add: safe_result safe_handle safe_retry safe_scan safe_quiet)

lemma safe_tasks: "safe w ((fst (run_tasks pc ts w), r), snd (run_tasks pc ts w))"
proof (induction ts arbitrary: w)
  case Nil
  show ?case by (simp add: safe_refl)
next
  case (Cons t ts)
  obtain w1 ms where 1: "run_task pc t w = (w1, ms)" by fastforce
  have "safe w (and_then ((w1, Inr ()), ms) (\<lambda>_ w'. ((fst (run_tasks pc ts w'), r), snd (run_tasks pc ts w'))))"
    using safe_task [of w pc t "Inr ()"] 1 by (intro safe_and_then Cons) simp
  then show ?case using 1 by (cases "run_tasks pc ts w1") (simp add: and_then_def)
qed

lemma tasks_proof:
  assumes "reachable_orders (wk_store w)" "m \<in> set (snd (run_tasks pc ts w))"
  obtains k res detail w' where "leads_to w w'" "leads_to w' (fst (run_tasks pc ts w))"
    "sent_with_proof m k res detail (wk_store w')"
proof -
  have "proven_from w ((fst (run_tasks pc ts w), Inr ()), snd (run_tasks pc ts w)) m"
    using safe_tasks [of w pc ts "Inr ()"] assms by (simp add: safe_def)
  then show thesis using that unfolding proven_from_def fst_conv by metis
qed

lemma task_spends:
  assumes re: "reachable_orders (wk_store w)" and m: "m \<in> set (snd (run_tasks pc ts w))" "x \<in> set (sm_cards m)"
  obtains k where "sm_key m = ''order:'' @ k" "spent_on k x (wk_store (fst (run_tasks pc ts w)))"
proof -
  obtain k res detail w' where l: "leads_to w w'" "leads_to w' (fst (run_tasks pc ts w))"
    and p: "sent_with_proof m k res detail (wk_store w')"
    by (rule tasks_proof [OF re m(1)])
  have inv: "order_inv (wk_store w')" using re l(1) by (meson reachable_inv rtranclp_trans)
  have "order_inventory_is_sendable k (wk_store w') = Inr True" "x \<in> set (order_secrets k (wk_store w'))"
    using p m(2) by (auto simp: sent_with_proof_def cards_of_def split: if_splits)
  from sendable_spent [OF inv this] inv have "spent_on k x (wk_store (fst (run_tasks pc ts w)))"
    using spent_run [OF l(2)] by blast
  with p that show thesis by (simp add: sent_with_proof_def)
qed

section \<open>The text of a message\<close>



section \<open>A recovery that delivers\<close>

definition shop_recovery :: retry_input where
  "shop_recovery = \<lparr>rt_clock = (\<lambda>n. 1000 + real n), rt_config = quiet_refresh, rt_bindings = (\<lambda>_. []),
     rt_fulfil = (\<lambda>_. shop_input), rt_ship = (\<lambda>_. Inr ()), rt_ship_ops = (\<lambda>_. [])\<rparr>"

definition shop_codecs :: platform_codecs where
  "shop_codecs = \<lparr>pc_sha = (\<lambda>s. s), pc_loads = no_json, pc_decimal = shop_decimal, pc_show = (\<lambda>_. [])\<rparr>"

definition shop_message :: sent_message where
  "shop_message = \<lparr>sm_key = ''order:k1'', sm_chat = ''c1'', sm_to = ''77'', sm_text = REDEEM_INTRO @ LF @ ''AAA'',
     sm_cards = [''AAA'']\<rparr>"

lemma shop_recover:
  "retry_pending_deliveries no_json shop_decimal shop_recovery (shop_worker shop_reserved) =
     ((shop_worker shop_shipped, Inr ()), [shop_message])"
proof -
  have 1: "quarantine_automatic_orders 1000 r shop_reserved = (shop_reserved, Inr 0)" for r
    by (simp add: quarantine_automatic_orders_def unproven_def Let_def shop_defs)
  have 2: "revive_takeover_blocked_orders 1001 shop_reserved = (shop_reserved, Inr [])"
    by (simp add: revive_takeover_blocked_orders_def revivable_def Let_def shop_defs map_filter_def)
  obtain res where 3: "retryable_orders shop_reserved = Inr [res]" "dr_key res = ''k1''" "dr_item res = ''55''"
    "dr_type res = ''redeem''"
    by (simp add: retryable_orders_def has_proof_def shop_eval)
  have 4: "pending_platform_shipments 5 shop_shipped = Inr []"
    by (simp add: pending_platform_shipments_def shop_shipped_def mark_platform_shipped_def shop_eval)
  have 5: "classify_item (shop_worker shop_reserved) ''55'' = Some shop_config" "has_delivery ''redeem'' shop_config"
    by (simp_all add: classify_item_def shop_worker_def shop_config_def has_delivery_def dict_get_def)
  show ?thesis
    by (simp add: retry_pending_deliveries_def shop_recovery_def and_then_def quiet 1 2 3 4 5 on_value_def
        retry_pending_one_def retry_one_def swallow_def shop_refulfil shop_message_def)
qed

lemma shop_tasks:
  "run_tasks shop_codecs [TaskRetry shop_recovery] (shop_worker shop_reserved) = (shop_worker shop_shipped, [shop_message])"
  by (simp add: shop_codecs_def shop_recover task_result_def)

section \<open>Properties\<close>

text \<open>C1: A card is never sent to two buyers.  Over any sequence of payment reminders, recoveries, scans and operations of others, with any platform answers, lost acknowledgements, cancellations and restarts between, two messages written from the same card carry the same order key.\<close>

theorem no_card_sent_for_two_orders:
  assumes "reachable_orders (wk_store w)"
    and "m \<in> set (snd (run_tasks pc ts w))" "m' \<in> set (snd (run_tasks pc ts w))"
    and "x \<in> set (sm_cards m)" "x \<in> set (sm_cards m')"
  shows "sm_key m = sm_key m'"
proof -
  obtain k where k: "sm_key m = ''order:'' @ k" "spent_on k x (wk_store (fst (run_tasks pc ts w)))"
    by (rule task_spends [OF assms(1,2,4)])
  obtain k' where k': "sm_key m' = ''order:'' @ k'" "spent_on k' x (wk_store (fst (run_tasks pc ts w)))"
    by (rule task_spends [OF assms(1,3,5)])
  have "order_inv (wk_store (fst (run_tasks pc ts w)))"
    using safe_tasks [of w pc ts "Inr ()"] assms(1) by (auto simp: safe_def intro: reachable_inv rtranclp_trans)
  from spent_unique [OF this k(2) k'(2)] k k' show ?thesis by simp
qed

theorem no_card_sent_for_two_orders_witness:
  "reachable_orders (wk_store (shop_worker shop_reserved)) \<and>
   shop_message \<in> set (snd (run_tasks shop_codecs [TaskRetry shop_recovery] (shop_worker shop_reserved))) \<and>
   sm_cards shop_message = [''AAA''] \<and> sm_key shop_message = sm_key shop_message"
proof -
  have r: "reachable_orders (wk_store (shop_worker shop_reserved))" using shop_reach(3) by simp
  have m: "shop_message \<in> set (snd (run_tasks shop_codecs [TaskRetry shop_recovery] (shop_worker shop_reserved)))"
    by (simp only: shop_tasks) simp
  have x: "''AAA'' \<in> set (sm_cards shop_message)" by (simp add: shop_message_def)
  from no_card_sent_for_two_orders [OF r m m x x] r m show ?thesis by (simp add: shop_message_def)
qed



section \<open>Rejected payments\<close>

lemma review_status:
  assumes inv: "order_inv db" and ex: "order_by_key k db \<noteq> None"
    and r: "mark_order_manual_review now k reason db = (db', Inr ())"
  shows "order_status_of db' k \<in> {Some ManualReview, Some Delivered}"
proof -
  obtain row where row: "order_by_key k db = Some row" using ex by blast
  note fo = found_order [OF inv row]
  show ?thesis
  proof (cases "od_status row = Delivered")
    case True
    with r row show ?thesis by (auto simp: mark_order_manual_review_def Let_def order_status_of_def)
  next
    case False
    let ?P = "\<lambda>ow. od_key ow = k \<and> od_status ow \<noteq> Delivered"
    let ?f = "\<lambda>ow. ow\<lparr>od_status := ManualReview, od_error := Some (clean_error reason),
                                  od_send_started := None, od_updated := now\<rparr>"
    have o: "orders db' = sql_update ?P ?f (orders db)"
      using r row False fo(3) by (auto simp: mark_order_manual_review_def Let_def)
    have "find (\<lambda>ow. od_key ow = k) (sql_update ?P ?f (orders db)) = Some (?f row)"
      using order_keys.find_update [of ?f k ?P "orders db"] row fo(2) False by simp
    then show ?thesis using o by (simp add: order_status_of_def)
  qed
qed

lemma record_verified_found:
  assumes "record_verified_payment_event n1 n2 k chat ev ttl pid ps paid q db = (db', Inr p)"
  shows "order_by_key k db' \<noteq> None"
proof -
  from assms obtain db1 x1 x2 x3 where b: "bind_platform_proof n2 k chat pid x1 x2 x3 db1 = (db', Inr p)"
    unfolding record_verified_payment_event_def Let_def
    by (auto split: if_splits option.splits prod.splits sum.splits)
  then obtain row where row: "order_by_key k db1 = Some row"
    by (auto simp: bind_platform_proof_def split: option.splits)
  have "map od_key (orders (fst (bind_platform_proof n2 k chat pid x1 x2 x3 db1))) = map od_key (orders db1)"
    by (auto simp: bind_platform_proof_def Let_def intro!: map_sql_update_on split: option.split)
  then have keys: "od_key ` set (orders db') = od_key ` set (orders db1)"
    using b by (metis fst_conv list.set_map)
  have "k \<in> od_key ` set (orders db1)" using find_SomeD [OF row] by auto
  then obtain ow where "ow \<in> set (orders db')" "od_key ow = k" unfolding keys [symmetric] by auto
  then show ?thesis using find_NoneD [of "\<lambda>ow. od_key ow = k" "orders db'" ow] by auto
qed

lemma record_paid_found:
  assumes "record_paid_order sha inp event head detail existing (Some reason) w = (w1, Inr rejected)"
    and "existing \<noteq> None \<Longrightarrow> order_by_key (canonical_order_key sha (hi_order head)) (wk_store w) \<noteq> None"
  shows "rejected \<noteq> None \<and> order_by_key (canonical_order_key sha (hi_order head)) (wk_store w1) \<noteq> None"
proof (cases "\<exists>ex. existing = Some ex \<and> dr_platform_id ex \<noteq> None")
  case True
  with assms show ?thesis by (auto simp: record_paid_order_def split: if_splits)
next
  case False
  let ?f = "record_verified_payment_event (pi_clock inp 4) (pi_clock inp 5)
     (canonical_order_key sha (hi_order head)) (pv_session event) (Finite (pv_event_at event))
     PAYMENT_NOTICE_RETENTION (hi_order head) (str_int (de_status detail)) (de_paid detail) (PInt (de_quantity detail))"
  obtain db r where d: "?f (wk_store w) = (db, r)" by fastforce
  have "record_paid_order sha inp event head detail existing (Some reason) w =
      (w\<lparr>wk_store := db\<rparr>, case r of Inl e \<Rightarrow> Inl e | Inr _ \<Rightarrow> Inr (Some reason))"
    using False d by (cases existing; cases r) (simp_all add: record_paid_order_def)
  with assms(1) have "r = Inr (projr r)" "rejected = Some reason" "w1 = w\<lparr>wk_store := db\<rparr>"
    by (cases r; simp)+
  with record_verified_found [of _ _ _ _ _ _ _ _ _ _ "wk_store w" db "projr r"] d show ?thesis by simp
qed

text \<open>C14: A payment the checks reject is never delivered: when the platform's head information and order detail do not match the chat binding or the order is not eligible, the handler sends nothing and leaves the order under manual review, unless it had been delivered before.\<close>

theorem rejected_payment_is_reviewed:
  assumes re: "reachable_orders (wk_store w0)" and l: "leads_to w0 w"
    and ex: "get_order (canonical_order_key sha (hi_order head)) (wk_store w0) = Inr existing"
    and rej: "verification_rejection head detail binding (Some cfg) = Some reason"
    and r: "settle_paid_order sha loads decimal inp event binding cfg head detail existing w = ((w', Inr b), ms)"
  shows "b \<and> ms = [] \<and>
    order_status_of (wk_store w') (canonical_order_key sha (hi_order head)) \<in> {Some ManualReview, Some Delivered}"
proof -
  let ?k = "canonical_order_key sha (hi_order head)"
  have inv: "order_inv (wk_store w)" using re l by (meson reachable_inv rtranclp_trans)
  obtain w1 x where 1: "record_paid_order sha inp event head detail existing (Some reason) w = (w1, x)" by fastforce
  obtain rejected where x: "x = Inr rejected"
    using r rej 1 by (cases x) (simp_all add: settle_paid_order_def Let_def and_then_def)
  have "order_by_key ?k (wk_store w) \<noteq> None" if "existing \<noteq> None"
  proof -
    from ex that obtain st where "order_status_of (wk_store w0) ?k = Some st"
      by (auto simp: get_order_def order_status_of_def split: option.splits sum.splits)
    from order_sys.status_run [OF l reachable_inv [OF re] this] show ?thesis by (auto simp: order_status_of_def)
  qed
  with record_paid_found [OF 1 [unfolded x]] obtain rs where rs: "rejected = Some rs" "order_by_key ?k (wk_store w1) \<noteq> None" by blast
  have "leads_to w w1" using safe_record_paid [of w sha inp event head detail existing "Some reason"] 1 re l
    by (auto simp: safe_def intro: rtranclp_trans)
  then have inv1: "order_inv (wk_store w1)" using order_sys.inv_run [OF _ inv] by blast
  obtain db y where m: "mark_order_manual_review (pi_clock inp 6) ?k rs (wk_store w1) = (db, y)" by fastforce
  have "settle_paid_order sha loads decimal inp event binding cfg head detail existing w =
      ((w1\<lparr>wk_store := db\<rparr>, case y of Inl e \<Rightarrow> Inl e | Inr _ \<Rightarrow> Inr True), [])"
    using rej 1 x rs(1) m by (cases y) (simp_all add: settle_paid_order_def Let_def and_then_def)
  with r have "w' = w1\<lparr>wk_store := db\<rparr>" "b" "ms = []" "y = Inr ()" by (cases y; simp)+
  with review_status [OF inv1 rs(2)] m show ?thesis by simp
qed

definition shop_paid :: paid_input where
  "shop_paid = \<lparr>pi_clock = (\<lambda>n. 1000 + real n), pi_config = quiet_refresh, pi_head = Inr PNone, pi_head_ops = [],
     pi_detail = Inr PNone, pi_detail_ops = [], pi_bindings = [], pi_fulfil = shop_input\<rparr>"

definition shop_event :: paid_event where
  "shop_event = \<lparr>pv_key = ''goofish:e'', pv_session = ''c1'', pv_event_at = 1000\<rparr>"

definition shop_binding :: chat_binding where
  "shop_binding = \<lparr>bd_buyer = ''77'', bd_item = ''55'', bd_observed = 1000\<rparr>"

definition shop_head :: head_info where
  "shop_head = \<lparr>hi_order = ''103'', hi_item = ''55'', hi_seller = True\<rparr>"

definition shipped_detail :: order_detail where
  "shipped_detail = shop_detail\<lparr>de_order := ''103'', de_status := 3\<rparr>"

lemma shipped_facts: "ascii_digits ''103''" "py_len ''103'' = 3" "str_int 3 = ''3''" "py_len ''3'' = 1" "py_strip ''3'' = ''3''"
  by (code_simp, code_simp, code_simp, code_simp) (rule py_strip_plain, code_simp)

theorem rejected_payment_is_reviewed_witness:
  "\<exists>(w' :: worker). settle_paid_order (\<lambda>s. s) no_json shop_decimal shop_paid shop_event shop_binding shop_config shop_head
      shipped_detail None (shop_worker shop_db) = ((w', Inr True), []) \<and>
    order_status_of (wk_store w') ''goofish:103'' \<in> {Some ManualReview, Some Delivered}"
proof -
  have re: "reachable_orders (wk_store (shop_worker shop_db))" using shop_reach(2) by simp
  have ex: "get_order (canonical_order_key (\<lambda>s. s) (hi_order shop_head)) (wk_store (shop_worker shop_db)) = Inr None"
    by (simp add: canonical_order_key_def shop_head_def shop_eval)
  have rej: "verification_rejection shop_head shipped_detail shop_binding (Some shop_config) = Some ''order_not_awaiting_shipment''"
    by (simp add: verification_rejection_def shop_head_def shipped_detail_def shop_detail_def shop_binding_def)
  have "\<exists>w'. settle_paid_order (\<lambda>s. s) no_json shop_decimal shop_paid shop_event shop_binding shop_config shop_head
      shipped_detail None (shop_worker shop_db) = ((w', Inr True), [])"
    unfolding settle_paid_order_def Let_def rej
    by (simp add: and_then_def record_paid_order_def canonical_order_key_def shop_head_def shipped_detail_def
        shop_detail_def shop_paid_def shop_event_def PAYMENT_NOTICE_RETENTION_def record_verified_payment_event_def
        record_payment_event_def bind_platform_proof_def Let_def shipped_facts shop_strings shop_digits shop_eval
        mark_order_manual_review_def)
  then obtain w' where r: "settle_paid_order (\<lambda>s. s) no_json shop_decimal shop_paid shop_event shop_binding shop_config shop_head
      shipped_detail None (shop_worker shop_db) = ((w', Inr True), [])" by blast
  from rejected_payment_is_reviewed [OF re rtranclp.rtrancl_refl ex rej r] r show ?thesis
    by (auto simp: canonical_order_key_def shop_head_def)
qed

end
