(* ===== verification/Backend_Store.thy ===== *)
theory Backend_Store
  imports Py_Values
begin

text \<open>
  Shop accounts, worker runtimes and jobs of \<^verbatim>\<open>backend/db.py\<close>.  The numeric arguments the code passes through
  \<^verbatim>\<open>int()\<close> and \<^verbatim>\<open>float()\<close> are numbers of the model.  An account carries a generation that every disabling
  increments, so that work started before it can be told apart.
\<close>

section \<open>Tables\<close>

record account_row =
  sa_id :: int
  sa_user :: int
  sa_key :: string
  sa_display :: string
  sa_ref :: string
  sa_status :: string
  sa_enabled :: bool
  sa_generation :: int
  sa_error :: string
  sa_verified :: "time option"
  sa_sync :: "time option"
  sa_created :: time
  sa_updated :: time

record runtime_row =
  wr_user :: int
  wr_account :: int
  wr_desired :: bool \<comment> \<open>\<^verbatim>\<open>'running'\<close> or \<^verbatim>\<open>'stopped'\<close>\<close>
  wr_ai :: bool \<comment> \<open>mode \<^verbatim>\<open>'rules_ai'\<close> or \<^verbatim>\<open>'rules'\<close>\<close>
  wr_state :: string
  wr_pid :: "int option"
  wr_generation :: int
  wr_started :: "time option"
  wr_heartbeat :: "time option"
  wr_exit :: "int option"
  wr_error :: string
  wr_auto_resume :: bool
  wr_updated :: time

datatype job_status = Queued | JobRetry | Running | JobCompleted | JobDead

record job_row =
  jb_id :: int
  jb_user :: int
  jb_account :: int
  jb_kind :: string
  jb_idem :: string
  jb_payload :: string
  jb_status :: job_status
  jb_attempts :: int
  jb_max :: int
  jb_available :: time
  jb_owner :: "string option"
  jb_lease :: "time option"
  jb_code :: string
  jb_error :: string
  jb_created :: time
  jb_updated :: time
  jb_completed :: "time option"

record backend_db =
  accounts :: "account_row list"
  account_seq :: int
  runtimes :: "runtime_row list"
  jobs :: "job_row list"
  job_seq :: int
  next_cleanup :: time

definition job_key :: "job_row \<Rightarrow> int \<times> int \<times> string \<times> string" where
  "job_key j = (jb_user j, jb_account j, jb_kind j, jb_idem j)"

definition runtime_key :: "runtime_row \<Rightarrow> int \<times> int" where
  "runtime_key r = (wr_user r, wr_account r)"

interpretation job_ids: keyed_table jb_id .
interpretation job_keys: keyed_table job_key .
interpretation account_ids: keyed_table sa_id .
interpretation runtime_keys: keyed_table runtime_key .

abbreviation job_by_id :: "int \<Rightarrow> backend_db \<Rightarrow> job_row option" where
  "job_by_id i db \<equiv> find (\<lambda>j. jb_id j = i) (jobs db)"

abbreviation runtime_of :: "int \<Rightarrow> int \<Rightarrow> backend_db \<Rightarrow> runtime_row option" where
  "runtime_of u a db \<equiv> find (\<lambda>r. runtime_key r = (u, a)) (runtimes db)"

section \<open>Shop accounts\<close>

definition get_shop_account :: "int \<Rightarrow> int \<Rightarrow> backend_db \<Rightarrow> account_row option" where
  \<comment> \<open>By id\<close>
  "get_shop_account user_id account_id db = find (\<lambda>a. sa_user a = user_id \<and> sa_id a = account_id) (accounts db)"

definition get_account_by_key :: "int \<Rightarrow> string \<Rightarrow> backend_db \<Rightarrow> account_row option" where
  "get_account_by_key user_id key db = find (\<lambda>a. sa_user a = user_id \<and> sa_key a = key) (accounts db)"

definition new_account :: "time \<Rightarrow> int \<Rightarrow> int \<Rightarrow> string \<Rightarrow> string \<Rightarrow> account_row" where
  "new_account now i user_id key name = \<lparr>sa_id = i, sa_user = user_id, sa_key = key, sa_display = name,
     sa_ref = [], sa_status = ''unconfigured'', sa_enabled = True, sa_generation = 0, sa_error = [],
     sa_verified = None, sa_sync = None, sa_created = now, sa_updated = now\<rparr>"

definition ensure_worker_runtime :: "time \<Rightarrow> int \<Rightarrow> int \<Rightarrow> backend_db \<Rightarrow> backend_db" where
  "ensure_worker_runtime now user_id account_id db =
     db\<lparr>runtimes := sql_insert_ignore runtime_key
       \<lparr>wr_user = user_id, wr_account = account_id, wr_desired = True, wr_ai = False, wr_state = ''waiting_login'',
        wr_pid = None, wr_generation = 0, wr_started = None, wr_heartbeat = Some now, wr_exit = None,
        wr_error = [], wr_auto_resume = True, wr_updated = now\<rparr> (runtimes db)\<rparr>"

definition ensure_default_shop_account :: "time \<Rightarrow> int \<Rightarrow> backend_db \<Rightarrow> backend_db \<times> account_row option" where
  "ensure_default_shop_account now user_id db =
     (let db1 = (if get_account_by_key user_id ''default'' db = None
                 then db\<lparr>accounts := accounts db @ [new_account now (account_seq db + 1) user_id ''default'' []],
                         account_seq := account_seq db + 1\<rparr>
                 else db);
          account = get_account_by_key user_id ''default'' db1
      in case account of
           Some a \<Rightarrow> (if sa_enabled a then ensure_worker_runtime now user_id (sa_id a) db1 else db1, account)
         | None \<Rightarrow> (db1, account))"

definition component_char :: "char \<Rightarrow> bool" where
  "component_char c \<longleftrightarrow> is_ascii_digit c \<or> c \<in> set ''ABCDEFGHIJKLMNOPQRSTUVWXYZabcdefghijklmnopqrstuvwxyz''"

definition normalize_account_key :: "pyval \<Rightarrow> string result" where
  \<comment> \<open>\<^verbatim>\<open>account_storage.normalize_account_key\<close>; a path object is given as its text\<close>
  "normalize_account_key v =
     (let invalid = Inl (ValueError ''account_id is invalid'');
          check = (\<lambda>s. case s of
             [] \<Rightarrow> invalid
           | c # cs \<Rightarrow> if component_char c \<and> length cs \<le> 127 \<and>
                          list_all (\<lambda>d. component_char d \<or> d \<in> set ''._-'') cs
                       then Inr s else invalid)
      in case v of
           PNone \<Rightarrow> Inr ''default''
         | PInt i \<Rightarrow> if i \<le> 0 then invalid else check (str_int i)
         | PStr s \<Rightarrow> check s
         | _ \<Rightarrow> invalid)"

definition create_shop_account ::
  "int \<Rightarrow> time \<Rightarrow> int \<Rightarrow> pyval \<Rightarrow> string \<Rightarrow> backend_db \<Rightarrow> (backend_db, account_row) outcome"
where
  \<comment> \<open>\<open>limit\<close> is the setting \<^verbatim>\<open>max_shop_accounts\<close>\<close>
  "create_shop_account limit now user_id raw_key display_name db =
     (case normalize_account_key raw_key of
        Inl _ \<Rightarrow> (db, Inl (ValueError ''invalid account key''))
      | Inr key \<Rightarrow>
          if py_len key > 80 then (db, Inl (ValueError ''invalid account key''))
          else if int (sql_count (\<lambda>a. sa_user a = user_id) (accounts db)) \<ge> limit
          then (db, Inl (ValueError ''shop_limit_reached''))
          else if get_account_by_key user_id key db \<noteq> None
          then (db, Inl (IntegrityError ''shop_accounts.user_id, shop_accounts.account_key''))
          else (let row = new_account now (account_seq db + 1) user_id key (py_take 160 (py_strip display_name))
                in (db\<lparr>accounts := accounts db @ [row], account_seq := account_seq db + 1\<rparr>, Inr row)))"

record account_changes =
  ch_display :: "string option"
  ch_ref :: "string option"
  ch_status :: "string option"
  ch_enabled :: "bool option"
  ch_error :: "string option"
  ch_verified :: "time option option"
  ch_sync :: "time option option"

definition no_changes :: "account_changes \<Rightarrow> bool" where
  "no_changes c \<longleftrightarrow> ch_display c = None \<and> ch_ref c = None \<and> ch_status c = None \<and> ch_enabled c = None \<and>
     ch_error c = None \<and> ch_verified c = None \<and> ch_sync c = None"

definition set_if :: "'a option \<Rightarrow> 'a \<Rightarrow> 'a" where
  "set_if new old = (case new of None \<Rightarrow> old | Some x \<Rightarrow> x)"

definition change_account :: "time \<Rightarrow> account_changes \<Rightarrow> account_row \<Rightarrow> account_row" where
  "change_account now c a = a\<lparr>sa_display := set_if (ch_display c) (sa_display a), sa_ref := set_if (ch_ref c) (sa_ref a),
     sa_status := set_if (ch_status c) (sa_status a), sa_enabled := set_if (ch_enabled c) (sa_enabled a),
     sa_error := set_if (ch_error c) (sa_error a), sa_verified := set_if (ch_verified c) (sa_verified a),
     sa_sync := set_if (ch_sync c) (sa_sync a), sa_updated := now\<rparr>"

definition update_shop_account ::
  "time \<Rightarrow> int \<Rightarrow> int option \<Rightarrow> account_changes \<Rightarrow> backend_db \<Rightarrow> backend_db \<times> account_row option"
where
  "update_shop_account now user_id account_id c db =
     (let row = (case account_id of Some i \<Rightarrow> get_shop_account user_id i db
                 | None \<Rightarrow> get_account_by_key user_id ''default'' db) in
      if no_changes c then (db, row)
      else case row of
        None \<Rightarrow> (db, None)
      | Some a \<Rightarrow>
          (let db' = db\<lparr>accounts := sql_update (\<lambda>x. sa_user x = user_id \<and> sa_id x = sa_id a)
                 (change_account now c) (accounts db)\<rparr>
           in (db', get_shop_account user_id (sa_id a) db')))"

definition update_shop_account_if_current ::
  "time \<Rightarrow> int \<Rightarrow> int \<Rightarrow> int \<Rightarrow> bool \<Rightarrow> account_changes \<Rightarrow> backend_db \<Rightarrow> backend_db \<times> account_row option"
where
  "update_shop_account_if_current now user_id account_id generation if_empty c db =
     (if no_changes c then (db, get_shop_account user_id account_id db)
      else
        (let hit = (\<lambda>a. sa_user a = user_id \<and> sa_id a = account_id \<and> sa_enabled a \<and>
                       sa_generation a = generation \<and> (if_empty \<longrightarrow> sa_display a = []));
             db' = db\<lparr>accounts := sql_update hit (change_account now c) (accounts db)\<rparr>
         in (db', if sql_count hit (accounts db) \<noteq> 1 then None else get_shop_account user_id account_id db')))"

definition account_is_current :: "int \<Rightarrow> int \<Rightarrow> int \<Rightarrow> backend_db \<Rightarrow> bool" where
  "account_is_current user_id account_id generation db \<longleftrightarrow>
     find (\<lambda>a. sa_user a = user_id \<and> sa_id a = account_id \<and> sa_enabled a \<and> sa_generation a = generation)
       (accounts db) \<noteq> None"

definition disable_shop_account :: "time \<Rightarrow> int \<Rightarrow> int \<Rightarrow> backend_db \<Rightarrow> backend_db \<times> account_row option" where
  "disable_shop_account now user_id account_id db =
     (let db' = db\<lparr>accounts := sql_update (\<lambda>a. sa_user a = user_id \<and> sa_id a = account_id \<and> sa_enabled a)
            (\<lambda>a. a\<lparr>sa_enabled := False, sa_status := ''deleted'', sa_error := [],
                  sa_generation := sa_generation a + 1, sa_updated := now\<rparr>) (accounts db)\<rparr>
      in (db', get_shop_account user_id account_id db'))"

definition remove_unconfigured_shop_account :: "int \<Rightarrow> int \<Rightarrow> backend_db \<Rightarrow> backend_db \<times> bool" where
  "remove_unconfigured_shop_account user_id account_id db =
     (let hit = (\<lambda>a. sa_user a = user_id \<and> sa_id a = account_id \<and> sa_enabled a \<and>
                    sa_status a = ''unconfigured'' \<and> sa_generation a = 0) in
      if find hit (accounts db) = None then (db, False)
      else (db\<lparr>runtimes := sql_delete (\<lambda>r. runtime_key r = (user_id, account_id)) (runtimes db),
               accounts := sql_delete hit (accounts db)\<rparr>, sql_count hit (accounts db) = 1))"

section \<open>Worker runtimes\<close>

record runtime_report =
  rr_desired :: bool
  rr_ai :: bool
  rr_state :: string
  rr_pid :: "int option"
  rr_generation :: "int option"
  rr_started :: "time option"
  rr_heartbeat :: "time option"
  rr_exit :: "int option"
  rr_error :: string

definition state_text :: "string \<Rightarrow> string" where
  "state_text s = py_take 40 (if s = [] then ''stopped'' else s)"

definition report_runtime :: "time \<Rightarrow> runtime_report \<Rightarrow> runtime_row \<Rightarrow> runtime_row" where
  \<comment> \<open>The \<^verbatim>\<open>DO UPDATE SET\<close> of \<^verbatim>\<open>persist_worker_runtime\<close>\<close>
  "report_runtime now rep r = r\<lparr>wr_desired := rr_desired rep, wr_ai := rr_ai rep, wr_state := state_text (rr_state rep),
     wr_pid := rr_pid rep, wr_generation := (case rr_generation rep of None \<Rightarrow> wr_generation r | Some g \<Rightarrow> g),
     wr_started := rr_started rep, wr_heartbeat := rr_heartbeat rep, wr_exit := rr_exit rep,
     wr_error := py_take 240 (rr_error rep), wr_updated := now\<rparr>"

definition reported_runtime :: "time \<Rightarrow> int \<Rightarrow> int \<Rightarrow> runtime_report \<Rightarrow> runtime_row" where
  \<comment> \<open>The inserted row\<close>
  "reported_runtime now user_id account_id rep = \<lparr>wr_user = user_id, wr_account = account_id, wr_desired = rr_desired rep,
     wr_ai = rr_ai rep, wr_state = state_text (rr_state rep), wr_pid = rr_pid rep,
     wr_generation = (case rr_generation rep of None \<Rightarrow> 0 | Some g \<Rightarrow> g), wr_started = rr_started rep,
     wr_heartbeat = rr_heartbeat rep, wr_exit = rr_exit rep, wr_error = py_take 240 (rr_error rep),
     wr_auto_resume = True, wr_updated = now\<rparr>"

definition persist_worker_runtime ::
  "time \<Rightarrow> int \<Rightarrow> int \<Rightarrow> runtime_report \<Rightarrow> int option \<Rightarrow> backend_db \<Rightarrow> (backend_db, runtime_row option) outcome"
where
  \<comment> \<open>One conditional upsert: compare the expected generation and write\<close>
  "persist_worker_runtime now user_id account_id rep expected db =
     (if get_shop_account user_id account_id db = None
      then (db, Inl (ValueError ''account does not belong to user''))
      else case runtime_of user_id account_id db of
             None \<Rightarrow>
               if expected \<notin> {None, Some 0} then (db, Inr None)
               else (let new = reported_runtime now user_id account_id rep
                     in (db\<lparr>runtimes := runtimes db @ [new]\<rparr>, Inr (Some new)))
           | Some row \<Rightarrow>
               if expected \<noteq> None \<and> expected \<noteq> Some (wr_generation row) then (db, Inr None)
               else (db\<lparr>runtimes := sql_update (\<lambda>r. runtime_key r = (user_id, account_id)) (report_runtime now rep) (runtimes db)\<rparr>,
                     Inr (Some (report_runtime now rep row))))"

definition set_worker_auto_resume :: "int \<Rightarrow> int \<Rightarrow> bool \<Rightarrow> backend_db \<Rightarrow> backend_db \<times> bool" where
  "set_worker_auto_resume user_id account_id auto_resume db =
     (let hit = (\<lambda>r. runtime_key r = (user_id, account_id)) in
      (db\<lparr>runtimes := sql_update hit (\<lambda>r. r\<lparr>wr_auto_resume := auto_resume\<rparr>) (runtimes db)\<rparr>,
       sql_count hit (runtimes db) = 1))"

definition set_worker_desired ::
  "time \<Rightarrow> int \<Rightarrow> bool \<Rightarrow> bool \<Rightarrow> int option \<Rightarrow> backend_db \<Rightarrow> (backend_db, runtime_row option) outcome"
where
  "set_worker_desired now user_id desired ai account_id db =
     (let (db1, target) = (case account_id of
            Some i \<Rightarrow> (db, map_option sa_id (get_shop_account user_id i db))
          | None \<Rightarrow> (case ensure_default_shop_account now user_id db of (d, a) \<Rightarrow> (d, map_option sa_id a)))
      in case target of
           None \<Rightarrow> (db1, Inl (ValueError ''account does not belong to user''))
         | Some i \<Rightarrow>
             (let db2 = db1\<lparr>runtimes := sql_upsert runtime_key
                    \<lparr>wr_user = user_id, wr_account = i, wr_desired = desired, wr_ai = ai, wr_state = ''stopped'',
                     wr_pid = None, wr_generation = 0, wr_started = None, wr_heartbeat = None, wr_exit = None,
                     wr_error = [], wr_auto_resume = True, wr_updated = now\<rparr>
                    (\<lambda>r. r\<lparr>wr_desired := desired, wr_ai := ai, wr_updated := now\<rparr>) (runtimes db1)\<rparr>
              in (db2, Inr (runtime_of user_id i db2))))"

end
