(* ===== verification/Lease_Contract.thy ===== *)
theory Lease_Contract
  imports Prelude
begin

text \<open>
  The contract of an owner-fenced lease, shared by the control leases and the job queue of
  \<^verbatim>\<open>backend/db.py\<close> and by the manual reply outbox of \<^verbatim>\<open>worker/context_manager.py\<close>.  A resource has at most
  one holder with an end of lease; until that end no operation of anybody else changes the holder, and
  only an operation of its own makes somebody a holder.
\<close>

section \<open>Histories\<close>

inductive history :: "(string \<Rightarrow> time \<Rightarrow> 's \<Rightarrow> 's \<Rightarrow> bool) \<Rightarrow> 's \<Rightarrow> (string \<times> time) list \<Rightarrow> 's \<Rightarrow> bool"
  for acts where
  start: "history acts s [] s"
| act: "acts a now s s1 \<Longrightarrow> history acts s1 es s2 \<Longrightarrow> history acts s ((a, now) # es) s2"

inductive_cases history_NilE: "history acts s [] s'"
inductive_cases history_ConsE: "history acts s (e # es) s'"

definition others_before :: "string \<Rightarrow> time \<Rightarrow> (string \<times> time) list \<Rightarrow> bool" where
  "others_before w u es \<longleftrightarrow> list_all (\<lambda>(a, now). a \<noteq> w \<and> now < u) es"

lemma others_before_simps [simp]:
  "others_before w u []"
  "others_before w u ((a, now) # es) \<longleftrightarrow> a \<noteq> w \<and> now < u \<and> others_before w u es"
  by (simp_all add: others_before_def)

text \<open>
  What one operation may do to the holders.  The relation is transitive, so an operation of several
  statements keeps the contract when each of its statements does.
\<close>

definition fair :: "string \<Rightarrow> time \<Rightarrow> (string \<times> time) option \<Rightarrow> (string \<times> time) option \<Rightarrow> bool" where
  "fair a now h h' \<longleftrightarrow> h' = h \<or>
     (\<forall>w u. h = Some (w, u) \<longrightarrow> a = w \<or> u \<le> now) \<and> (\<forall>w u. h' = Some (w, u) \<longrightarrow> a = w)"

lemma fair_refl [simp]: "fair a now h h"
  by (simp add: fair_def)

lemma fair_None [simp]:
  "fair a now None h' \<longleftrightarrow> (\<forall>w u. h' = Some (w, u) \<longrightarrow> a = w)"
  "fair a now h None \<longleftrightarrow> (\<forall>w u. h = Some (w, u) \<longrightarrow> a = w \<or> u \<le> now)"
  by (auto simp: fair_def)

lemma fair_trans: "fair a now h h1 \<Longrightarrow> fair a now h1 h2 \<Longrightarrow> fair a now h h2"
  unfolding fair_def by blast

section \<open>The contract\<close>

locale fenced_lease =
  fixes holder :: "'s \<Rightarrow> 'r \<Rightarrow> (string \<times> time) option"
    and acts :: "string \<Rightarrow> time \<Rightarrow> 's \<Rightarrow> 's \<Rightarrow> bool"
  assumes fence: "\<lbrakk>acts a now s s'; holder s r = Some (w, u); a \<noteq> w; now < u\<rbrakk> \<Longrightarrow> holder s' r = Some (w, u)"
    and entry: "\<lbrakk>acts a now s s'; holder s' r = Some (w, u); holder s r \<noteq> Some (w, u)\<rbrakk> \<Longrightarrow> a = w"
begin

lemma held_through:
  assumes "history acts s es s'" "holder s r = Some (w, u)" "others_before w u es"
  shows "holder s' r = Some (w, u)"
  using assms by (induction rule: history.induct) (auto dest: fence)

lemma own_act:
  assumes "history acts s es s'" "holder s' r = Some (w, u)" "holder s r \<noteq> Some (w, u)"
  shows "w \<in> fst ` set es"
  using assms
proof (induction rule: history.induct)
  case (act a now s s1 es s2)
  show ?case
  proof (cases "holder s1 r = Some (w, u)")
    case True
    with act entry have "a = w" by blast
    then show ?thesis by simp
  next
    case False
    with act show ?thesis by simp
  qed
qed simp

lemma takeover_needs_expiry_or_owner:
  assumes h: "history acts s es s'" and w: "holder s r = Some (w, u)" and w': "holder s' r = Some (w', u')" "w' \<noteq> w"
  shows "w \<in> fst ` set es \<or> (\<exists>now \<in> snd ` set es. u \<le> now)"
proof (rule ccontr)
  assume "\<not> ?thesis"
  then have "others_before w u es" by (force simp: others_before_def list_all_iff)
  with held_through [OF h w] w' show False by simp
qed

end

end
