(* ===== verification/Job_Queue.thy ===== *)
theory Job_Queue
  imports Backend_Store Lease_Contract
begin

text \<open>
  The durable job queue of \<^verbatim>\<open>backend/db.py\<close>: enqueueing, claiming with a lease, renewal, deferral,
  completion, failure and the retention pass.  Of \<^verbatim>\<open>_prune_retention_locked\<close> only the statements on jobs
  are modelled; the others delete from tables no operation here reads.  The serialised payload of a job
  is an input.
\<close>

definition COMPLETED_JOB_RETENTION_SECONDS :: time where "COMPLETED_JOB_RETENTION_SECONDS = 7 * 86400"
definition DEAD_LETTER_JOB_RETENTION_SECONDS :: time where "DEAD_LETTER_JOB_RETENTION_SECONDS = 30 * 86400"
definition RETENTION_CLEANUP_INTERVAL_SECONDS :: time where "RETENTION_CLEANUP_INTERVAL_SECONDS = 3600"
definition RETENTION_CLEANUP_BATCH_SIZE :: int where "RETENTION_CLEANUP_BATCH_SIZE = 500"

section \<open>Retention\<close>

definition finished_at :: "job_row \<Rightarrow> time" where
  "finished_at j = (case jb_completed j of Some c \<Rightarrow> c | None \<Rightarrow> jb_updated j)"

definition prune_jobs :: "job_status \<Rightarrow> time \<Rightarrow> nat \<Rightarrow> job_row list \<Rightarrow> job_row list" where
  "prune_jobs st cutoff batch js =
     (let old = map jb_id (take batch (order_by finished_at (order_by jb_id
            (filter (\<lambda>j. jb_status j = st \<and> finished_at j \<le> cutoff) js))))
      in sql_delete (\<lambda>j. jb_id j \<in> set old) js)"

definition cleanup_batch_size :: "int \<Rightarrow> nat" where
  "cleanup_batch_size raw = nat (clamp 1 5000 raw)"

definition prune_retention :: "time \<Rightarrow> int \<Rightarrow> backend_db \<Rightarrow> backend_db" where
  "prune_retention now batch_size db =
     (let batch = cleanup_batch_size batch_size in
      db\<lparr>jobs := prune_jobs JobDead (now - DEAD_LETTER_JOB_RETENTION_SECONDS) batch
               (prune_jobs JobCompleted (now - COMPLETED_JOB_RETENTION_SECONDS) batch (jobs db)),
         next_cleanup := now + RETENTION_CLEANUP_INTERVAL_SECONDS\<rparr>)"

definition maybe_prune_retention :: "time \<Rightarrow> backend_db \<Rightarrow> backend_db" where
  "maybe_prune_retention now db =
     (if now < next_cleanup db then db else prune_retention now RETENTION_CLEANUP_BATCH_SIZE db)"

section \<open>Enqueueing\<close>

definition job_payload :: "(pyval \<Rightarrow> string) \<Rightarrow> pyval \<Rightarrow> string result" where
  \<comment> \<open>\<open>dumps\<close> is \<^verbatim>\<open>json.dumps(.., ensure_ascii=False, separators=(",", ":"))\<close> in UTF-8\<close>
  "job_payload dumps payload =
     (case payload of
        PNone \<Rightarrow> Inr ''{}''
      | PDict d \<Rightarrow> if length (dumps payload) > 128 * 1024 then Inl (ValueError ''job payload is too large'')
                   else Inr (dumps payload)
      | _ \<Rightarrow> Inl (ValueError ''job payload must be an object''))"

definition enqueue_job ::
  "(pyval \<Rightarrow> string) \<Rightarrow> time \<Rightarrow> int \<Rightarrow> string \<Rightarrow> string \<Rightarrow> pyval \<Rightarrow> int option \<Rightarrow> int \<Rightarrow> time \<Rightarrow> backend_db \<Rightarrow>
   (backend_db, job_row option) outcome"
where
  "enqueue_job dumps now user_id raw_kind raw_idem payload account_id max_attempts delay_seconds db =
     (let kind = py_strip raw_kind; idem = py_strip raw_idem in
      if kind = [] \<or> py_len kind > 80 \<or> idem = [] \<or> py_len idem > 512
      then (db, Inl (ValueError ''invalid job identity''))
      else case job_payload dumps payload of
        Inl e \<Rightarrow> (db, Inl e)
      | Inr encoded \<Rightarrow>
          if (case account_id of None \<Rightarrow> False | Some a \<Rightarrow> a \<le> 0 \<or> get_shop_account user_id a db = None)
          then (db, Inl (ValueError ''account does not belong to user''))
          else
            (let account = (case account_id of None \<Rightarrow> 0 | Some a \<Rightarrow> a);
                 db1 = maybe_prune_retention now db;
                 new = \<lparr>jb_id = job_seq db1 + 1, jb_user = user_id, jb_account = account, jb_kind = kind,
                    jb_idem = idem, jb_payload = encoded, jb_status = Queued, jb_attempts = 0,
                    jb_max = clamp 1 20 max_attempts, jb_available = now + max delay_seconds 0,
                    jb_owner = None, jb_lease = None, jb_code = [], jb_error = [], jb_created = now,
                    jb_updated = now, jb_completed = None\<rparr>;
                 exists = (find (\<lambda>j. job_key j = job_key new) (jobs db1) \<noteq> None);
                 db2 = (if exists then db1 else db1\<lparr>jobs := jobs db1 @ [new], job_seq := job_seq db1 + 1\<rparr>)
             in (db2, Inr (find (\<lambda>j. job_key j = job_key new) (jobs db2)))))"

section \<open>Claiming\<close>

definition lease_expired :: "time \<Rightarrow> job_row \<Rightarrow> bool" where
  "lease_expired now j \<longleftrightarrow> jb_status j = Running \<and> (case jb_lease j of None \<Rightarrow> False | Some u \<Rightarrow> u \<le> now)"

definition recover_expired_jobs :: "time \<Rightarrow> backend_db \<Rightarrow> backend_db" where
  "recover_expired_jobs now db =
     db\<lparr>jobs := sql_update (lease_expired now) (\<lambda>j. j\<lparr>
        jb_status := (if jb_attempts j \<ge> jb_max j then JobDead else JobRetry), jb_owner := None, jb_lease := None,
        jb_available := now, jb_completed := (if jb_attempts j \<ge> jb_max j then Some now else None),
        jb_updated := now\<rparr>) (jobs db)\<rparr>"

definition claimable :: "time \<Rightarrow> job_row \<Rightarrow> bool" where
  "claimable now j \<longleftrightarrow> jb_status j \<in> {Queued, JobRetry} \<and> jb_available j \<le> now"

definition take_job :: "time \<Rightarrow> string \<Rightarrow> time \<Rightarrow> job_row \<Rightarrow> job_row" where
  "take_job now owner lease_seconds j = j\<lparr>jb_status := Running, jb_attempts := jb_attempts j + 1,
     jb_owner := Some owner, jb_lease := Some (now + clamp 1 3600 lease_seconds), jb_updated := now\<rparr>"

definition claim_jobs ::
  "time \<Rightarrow> string \<Rightarrow> int \<Rightarrow> time \<Rightarrow> string list option \<Rightarrow> backend_db \<Rightarrow> (backend_db, job_row list) outcome"
where
  "claim_jobs now raw_owner limit lease_seconds kinds db =
     (let owner = py_strip raw_owner in
      if owner = [] \<or> py_len owner > 128 then (db, Inl (ValueError ''invalid lease owner''))
      else
        (let wanted = map_option (\<lambda>ks. filter (\<lambda>k. k \<noteq> []) (map py_strip ks)) kinds in
         if wanted = Some [] then (db, Inr [])
         else
           (let db1 = recover_expired_jobs now (maybe_prune_retention now db);
                ids = map jb_id (take (nat (clamp 1 100 limit)) (order_by jb_id (filter (\<lambda>j. claimable now j \<and>
                        (case wanted of None \<Rightarrow> True | Some ks \<Rightarrow> jb_kind j \<in> set ks)) (jobs db1))));
                db2 = db1\<lparr>jobs := fold (\<lambda>i. sql_update (\<lambda>j. jb_id j = i \<and> jb_status j \<in> {Queued, JobRetry})
                        (take_job now owner lease_seconds)) ids (jobs db1)\<rparr>
            in (db2, Inr (order_by jb_id (filter (\<lambda>j. jb_id j \<in> set ids) (jobs db2)))))))"

definition claim_job ::
  "time \<Rightarrow> int \<Rightarrow> string \<Rightarrow> time \<Rightarrow> backend_db \<Rightarrow> (backend_db, job_row option) outcome"
where
  "claim_job now job_id raw_owner lease_seconds db =
     (let owner = py_strip raw_owner in
      if owner = [] \<or> py_len owner > 128 then (db, Inl (ValueError ''invalid lease owner''))
      else
        (let db1 = recover_expired_jobs now (maybe_prune_retention now db);
             hit = (\<lambda>j. jb_id j = job_id \<and> claimable now j);
             db2 = db1\<lparr>jobs := sql_update hit (take_job now owner lease_seconds) (jobs db1)\<rparr>
         in (db2, Inr (if sql_count hit (jobs db1) \<noteq> 1 then None else job_by_id job_id db2))))"

section \<open>Working on a claimed job\<close>

definition owned :: "int \<Rightarrow> string \<Rightarrow> job_row \<Rightarrow> bool" where
  \<comment> \<open>\<^verbatim>\<open>id = ? AND status = 'running' AND lease_owner = ?\<close>\<close>
  "owned job_id owner j \<longleftrightarrow> jb_id j = job_id \<and> jb_status j = Running \<and> jb_owner j = Some owner"

definition live :: "time \<Rightarrow> job_row \<Rightarrow> bool" where
  "live now j \<longleftrightarrow> (case jb_lease j of None \<Rightarrow> False | Some u \<Rightarrow> u > now)"

definition write_jobs :: "(job_row \<Rightarrow> bool) \<Rightarrow> (job_row \<Rightarrow> job_row) \<Rightarrow> backend_db \<Rightarrow> backend_db \<times> bool" where
  "write_jobs hit f db = (db\<lparr>jobs := sql_update hit f (jobs db)\<rparr>, sql_count hit (jobs db) = 1)"

definition renew_job :: "time \<Rightarrow> int \<Rightarrow> string \<Rightarrow> time \<Rightarrow> backend_db \<Rightarrow> backend_db \<times> bool" where
  "renew_job now job_id owner lease_seconds =
     write_jobs (\<lambda>j. owned job_id owner j \<and> live now j)
       (\<lambda>j. j\<lparr>jb_lease := Some (now + clamp 1 3600 lease_seconds), jb_updated := now\<rparr>)"

definition defer_job :: "time \<Rightarrow> int \<Rightarrow> string \<Rightarrow> time \<Rightarrow> backend_db \<Rightarrow> backend_db \<times> bool" where
  "defer_job now job_id owner delay_seconds =
     write_jobs (\<lambda>j. owned job_id owner j \<and> live now j)
       (\<lambda>j. j\<lparr>jb_status := JobRetry, jb_available := now + clamp (1 / 20) 900 delay_seconds,
             jb_attempts := max (jb_attempts j - 1) 0, jb_owner := None, jb_lease := None, jb_updated := now\<rparr>)"

definition completed :: "time \<Rightarrow> job_row \<Rightarrow> job_row" where
  "completed now j = j\<lparr>jb_status := JobCompleted, jb_owner := None, jb_lease := None,
     jb_completed := Some now, jb_updated := now\<rparr>"

definition complete_job :: "time \<Rightarrow> int \<Rightarrow> string \<Rightarrow> backend_db \<Rightarrow> backend_db \<times> bool" where
  "complete_job now job_id owner = write_jobs (owned job_id owner) (completed now)"

definition complete_job_for_account ::
  "time \<Rightarrow> int \<Rightarrow> string \<Rightarrow> int \<Rightarrow> int \<Rightarrow> int \<Rightarrow> string \<Rightarrow> backend_db \<Rightarrow> backend_db \<times> bool"
where
  "complete_job_for_account now job_id owner user_id account_id generation account_key db =
     write_jobs (\<lambda>j. owned job_id owner j \<and> jb_user j = user_id \<and>
         (jb_account j = account_id \<or> jb_account j = 0 \<and> account_key = ''default'') \<and>
         account_is_current user_id account_id generation db) (completed now) db"

definition retry_delay :: "int \<Rightarrow> time option \<Rightarrow> time" where
  "retry_delay attempts requested =
     (case requested of
        None \<Rightarrow> min (2 ^ nat (min attempts 8)) 900
      | Some d \<Rightarrow> clamp 0 900 d)"

definition failed :: "time \<Rightarrow> job_row \<Rightarrow> string \<Rightarrow> string \<Rightarrow> time option \<Rightarrow> job_row \<Rightarrow> job_row" where
  \<comment> \<open>The \<^verbatim>\<open>SET\<close> of the \<^verbatim>\<open>UPDATE\<close> in \<^verbatim>\<open>fail_job\<close>; \<open>row\<close> is the row read before\<close>
  "failed now row error_code error_message delay j =
     (let terminal = (jb_attempts row \<ge> jb_max row) in
      j\<lparr>jb_status := (if terminal then JobDead else JobRetry),
        jb_available := (if terminal then now else now + retry_delay (jb_attempts row) delay),
        jb_owner := None, jb_lease := None,
        jb_code := py_take 80 (if error_code = [] then ''temporary'' else error_code),
        jb_error := py_take 240 error_message,
        jb_completed := (if terminal then Some now else None), jb_updated := now\<rparr>)"

definition fail_job ::
  "time \<Rightarrow> int \<Rightarrow> string \<Rightarrow> string \<Rightarrow> string \<Rightarrow> time option \<Rightarrow> backend_db \<Rightarrow> backend_db \<times> bool"
where
  "fail_job now job_id owner error_code error_message delay db =
     (case find (owned job_id owner) (jobs db) of
        None \<Rightarrow> (db, False)
      | Some row \<Rightarrow> write_jobs (owned job_id owner) (failed now row error_code error_message delay) db)"

section \<open>Operations and their actors\<close>

datatype job_op =
    JEnqueue "pyval \<Rightarrow> string" int string string pyval "int option" int time
  | JClaimMany string int time "string list option"
  | JClaim int string time
  | JRenew int string time
  | JDefer int string time
  | JComplete int string
  | JCompleteFor int string int int int string
  | JFail int string string string "time option"
  | JPrune int
  | JDisable int int
  | JUpdate int "int option" account_changes
  | JUpdateCurrent int int int bool account_changes
  | JCreate int int pyval string
  | JEnsure int
  | JRemove int int
  | JPersist int int runtime_report "int option"
  | JAutoResume int int bool
  | JDesired int bool bool "int option"

fun job_actor :: "job_op \<Rightarrow> string" where
  "job_actor (JClaimMany owner limit ls kinds) = py_strip owner"
| "job_actor (JClaim i owner ls) = py_strip owner"
| "job_actor (JRenew i owner ls) = owner"
| "job_actor (JDefer i owner d) = owner"
| "job_actor (JComplete i owner) = owner"
| "job_actor (JCompleteFor i owner u a g k) = owner"
| "job_actor (JFail i owner c m d) = owner"
| "job_actor _ = []"

fun job_apply :: "time \<Rightarrow> job_op \<Rightarrow> backend_db \<Rightarrow> backend_db" where
  "job_apply now (JEnqueue dumps u kind idem payload a mx delay) db =
     fst (enqueue_job dumps now u kind idem payload a mx delay db)"
| "job_apply now (JClaimMany owner limit ls kinds) db = fst (claim_jobs now owner limit ls kinds db)"
| "job_apply now (JClaim i owner ls) db = fst (claim_job now i owner ls db)"
| "job_apply now (JRenew i owner ls) db = fst (renew_job now i owner ls db)"
| "job_apply now (JDefer i owner d) db = fst (defer_job now i owner d db)"
| "job_apply now (JComplete i owner) db = fst (complete_job now i owner db)"
| "job_apply now (JCompleteFor i owner u a g k) db = fst (complete_job_for_account now i owner u a g k db)"
| "job_apply now (JFail i owner c m d) db = fst (fail_job now i owner c m d db)"
| "job_apply now (JPrune batch) db = prune_retention now batch db"
| "job_apply now (JDisable u a) db = fst (disable_shop_account now u a db)"
| "job_apply now (JUpdate u a c) db = fst (update_shop_account now u a c db)"
| "job_apply now (JUpdateCurrent u a g e c) db = fst (update_shop_account_if_current now u a g e c db)"
| "job_apply now (JCreate limit u k name) db = fst (create_shop_account limit now u k name db)"
| "job_apply now (JEnsure u) db = fst (ensure_default_shop_account now u db)"
| "job_apply now (JRemove u a) db = fst (remove_unconfigured_shop_account u a db)"
| "job_apply now (JPersist u a rep expected) db = fst (persist_worker_runtime now u a rep expected db)"
| "job_apply now (JAutoResume u a r) db = fst (set_worker_auto_resume u a r db)"
| "job_apply now (JDesired u desired ai a) db = fst (set_worker_desired now u desired ai a db)"

definition empty_backend :: backend_db where
  "empty_backend = \<lparr>accounts = [], account_seq = 0, runtimes = [], jobs = [], job_seq = 0, next_cleanup = 0\<rparr>"

fun run_jobs :: "(time \<times> job_op) list \<Rightarrow> backend_db \<Rightarrow> backend_db" where
  "run_jobs [] db = db"
| "run_jobs ((now, opr) # ops) db = run_jobs ops (job_apply now opr db)"

inductive backend_step :: "backend_db \<Rightarrow> backend_db \<Rightarrow> bool" where
  "backend_step db (job_apply now opr db)"

inductive_cases backend_stepE: "backend_step db db'"

end
