(* ===== verification/Job_Facts.thy ===== *)
theory Job_Facts
  imports Job_Queue
begin

text \<open>
  The job queue keeps its invariant, and every operation keeps the contract of a fenced lease.  Each
  operation is a sequence of \<^verbatim>\<open>UPDATE\<close>, \<^verbatim>\<open>DELETE\<close> and \<^verbatim>\<open>INSERT\<close> statements; the three lemmas on
  statements (\<open>write_rows\<close>, \<open>drop_rows\<close>, \<open>add_row\<close>) carry all of them.
\<close>

section \<open>The invariant\<close>

definition job_ok :: "int \<Rightarrow> job_row \<Rightarrow> bool" where
  "job_ok seq j \<longleftrightarrow> jb_id j \<le> seq \<and> 1 \<le> jb_max j \<and> jb_max j \<le> 20 \<and> 0 \<le> jb_attempts j \<and> jb_attempts j \<le> jb_max j \<and>
     (jb_status j \<in> {Queued, JobRetry} \<longrightarrow> jb_attempts j < jb_max j) \<and>
     (jb_status j = Running \<longrightarrow> 1 \<le> jb_attempts j \<and> jb_owner j \<noteq> None \<and> jb_lease j \<noteq> None)"

definition job_table_ok :: "int \<Rightarrow> job_row list \<Rightarrow> bool" where
  "job_table_ok seq js \<longleftrightarrow> unique_key jb_id js \<and> unique_key job_key js \<and> list_all (job_ok seq) js"

definition job_inv :: "backend_db \<Rightarrow> bool" where
  "job_inv db \<longleftrightarrow> job_table_ok (job_seq db) (jobs db)"

definition row_holder :: "job_row \<Rightarrow> (string \<times> time) option" where
  "row_holder j = (if jb_status j = Running
     then case jb_owner j of None \<Rightarrow> None | Some w \<Rightarrow> map_option (Pair w) (jb_lease j) else None)"

definition table_holder :: "job_row list \<Rightarrow> int \<Rightarrow> (string \<times> time) option" where
  "table_holder js i = Option.bind (find (\<lambda>j. jb_id j = i) js) row_holder"

definition job_holder :: "backend_db \<Rightarrow> int \<Rightarrow> (string \<times> time) option" where
  "job_holder db = table_holder (jobs db)"

text \<open>One statement, or several, of actor \<open>a\<close> at time \<open>now\<close> on the table of jobs.\<close>

definition good_change :: "string \<Rightarrow> time \<Rightarrow> int \<Rightarrow> job_row list \<Rightarrow> int \<Rightarrow> job_row list \<Rightarrow> bool" where
  "good_change a now seq js seq' js' \<longleftrightarrow> (job_table_ok seq js \<longrightarrow>
     job_table_ok seq' js' \<and> (\<forall>i. fair a now (table_holder js i) (table_holder js' i)))"

lemma good_refl [simp]: "good_change a now seq js seq js"
  by (simp add: good_change_def)

lemma good_trans:
  "good_change a now seq js seq1 js1 \<Longrightarrow> good_change a now seq1 js1 seq2 js2 \<Longrightarrow> good_change a now seq js seq2 js2"
  unfolding good_change_def by (blast intro: fair_trans)

section \<open>Statements\<close>

lemma sql_update_cong: "(\<And>r. r \<in> set t \<Longrightarrow> P r = Q r) \<Longrightarrow> sql_update P f t = sql_update Q f t"
  by (simp add: sql_update_def)

definition keeps_keys :: "(job_row \<Rightarrow> job_row) \<Rightarrow> bool" where
  "keeps_keys f \<longleftrightarrow> (\<forall>j. jb_id (f j) = jb_id j \<and> job_key (f j) = job_key j)"

lemma write_rows:
  assumes k: "keeps_keys f"
    and ok: "\<And>j. P j \<Longrightarrow> job_ok seq j \<Longrightarrow> job_ok seq (f j) \<and> fair a now (row_holder j) (row_holder (f j))"
  shows "good_change a now seq js seq (sql_update P f js)"
  unfolding good_change_def
proof
  assume t: "job_table_ok seq js"
  have r: "fair a now (table_holder js i) (table_holder (sql_update P f js) i)" for i
  proof (cases "find (\<lambda>j. jb_id j = i) js")
    case (Some j)
    then have "job_ok seq j" using t by (auto simp: job_table_ok_def list_all_iff dest: find_SomeD)
    with Some ok [of j] k show ?thesis
      by (simp add: table_holder_def job_ids.find_update keeps_keys_def)
  qed (use k in \<open>simp add: table_holder_def job_ids.find_update keeps_keys_def\<close>)
  moreover have "list_all (job_ok seq) (sql_update P f js)"
    using t ok by (auto simp: job_table_ok_def list_all_iff in_sql_update)
  ultimately show "job_table_ok seq (sql_update P f js) \<and>
      (\<forall>i. fair a now (table_holder js i) (table_holder (sql_update P f js) i))"
    using t k by (simp add: job_table_ok_def job_ids.unique_update job_keys.unique_update keeps_keys_def)
qed

lemma drop_rows:
  assumes "\<And>j. job_table_ok seq js \<Longrightarrow> j \<in> set js \<Longrightarrow> P j \<Longrightarrow> row_holder j = None"
  shows "good_change a now seq js seq (sql_delete P js)"
  unfolding good_change_def
proof
  assume t: "job_table_ok seq js"
  have "fair a now (table_holder js i) (table_holder (sql_delete P js) i)" for i
  proof (cases "find (\<lambda>j. jb_id j = i) js")
    case (Some j)
    then have "j \<in> set js" by (auto dest: find_SomeD)
    with Some t assms [of j] show ?thesis
      by (simp add: table_holder_def job_ids.find_delete job_table_ok_def)
  qed (use t in \<open>simp add: table_holder_def job_ids.find_delete job_table_ok_def\<close>)
  moreover have "list_all (job_ok seq) (sql_delete P js)"
    using t by (auto simp: job_table_ok_def list_all_iff in_sql_delete)
  ultimately show "job_table_ok seq (sql_delete P js) \<and>
      (\<forall>i. fair a now (table_holder js i) (table_holder (sql_delete P js) i))"
    using t by (simp add: job_table_ok_def job_ids.unique_delete job_keys.unique_delete)
qed

lemma add_row:
  assumes "jb_id new = seq + 1" "find (\<lambda>j. job_key j = job_key new) js = None" "job_ok (seq + 1) new"
    "row_holder new = None"
  shows "good_change a now seq js (seq + 1) (js @ [new])"
  unfolding good_change_def
proof
  assume t: "job_table_ok seq js"
  have le: "jb_id j \<le> seq" if "j \<in> set js" for j
    using t that by (auto simp: job_table_ok_def list_all_iff job_ok_def)
  then have "find (\<lambda>j. jb_id j = jb_id new) js = None"
    using assms(1) by (force simp: find_None_iff)
  moreover have "list_all (job_ok (seq + 1)) js"
    using t by (auto simp: job_table_ok_def list_all_iff job_ok_def)
  moreover have "fair a now (table_holder js i) (table_holder (js @ [new]) i)" for i
    using assms(4) by (cases "find (\<lambda>j. jb_id j = i) js") (simp_all add: table_holder_def job_ids.find_append_new)
  ultimately show "job_table_ok (seq + 1) (js @ [new]) \<and>
      (\<forall>i. fair a now (table_holder js i) (table_holder (js @ [new]) i))"
    using t assms by (simp add: job_table_ok_def job_ids.unique_insert job_keys.unique_insert)
qed

section \<open>Operations\<close>

lemmas job_defs = job_ok_def row_holder_def keeps_keys_def job_key_def

lemma prune_good:
  assumes "st \<noteq> Running"
  shows "good_change a now seq js seq (prune_jobs st cutoff batch js)"
proof -
  have "row_holder j = None"
    if t: "job_table_ok seq js" "j \<in> set js"
      and o: "jb_id j \<in> jb_id ` set (take batch (order_by finished_at (order_by jb_id
        (filter (\<lambda>j. jb_status j = st \<and> finished_at j \<le> cutoff) js))))" for j
  proof -
    from o obtain q where "jb_id j = jb_id q" "q \<in> set js" "jb_status q = st"
      by (auto dest!: in_set_takeD)
    then have "q = j" using t by (auto simp: job_table_ok_def intro: job_ids.same_row)
    with \<open>jb_status q = st\<close> assms show ?thesis by (simp add: row_holder_def)
  qed
  then show ?thesis unfolding prune_jobs_def Let_def by (intro drop_rows) auto
qed

lemma retention_good:
  "good_change a now' (job_seq db) (jobs db) (job_seq db) (jobs (maybe_prune_retention now db))"
  "good_change a now' (job_seq db) (jobs db) (job_seq db) (jobs (prune_retention now batch db))"
  by (auto simp: maybe_prune_retention_def prune_retention_def Let_def intro!: good_trans [OF prune_good prune_good])

lemma retention_seq [simp]:
  "job_seq (maybe_prune_retention now db) = job_seq db" "job_seq (prune_retention now batch db) = job_seq db"
  "accounts (maybe_prune_retention now db) = accounts db" "accounts (prune_retention now batch db) = accounts db"
  "runtimes (maybe_prune_retention now db) = runtimes db" "runtimes (prune_retention now batch db) = runtimes db"
  by (simp_all add: maybe_prune_retention_def prune_retention_def Let_def)

lemma recover_good:
  "good_change a now (job_seq db) (jobs db) (job_seq db) (jobs (recover_expired_jobs now db))"
  unfolding recover_expired_jobs_def
  by (simp, rule write_rows) (auto simp: job_defs lease_expired_def split: option.splits)

lemma recover_seq [simp]: "job_seq (recover_expired_jobs now db) = job_seq db"
  "accounts (recover_expired_jobs now db) = accounts db"
  by (simp_all add: recover_expired_jobs_def)

lemma take_good:
  assumes "\<And>j. P j \<Longrightarrow> jb_status j \<in> {Queued, JobRetry}"
  shows "good_change a now seq js seq (sql_update P (take_job now a ls) js)"
  by (rule write_rows) (use assms in \<open>fastforce simp: job_defs take_job_def\<close>)+

lemma take_each_good:
  "good_change a now seq js seq (fold (\<lambda>i. sql_update (\<lambda>j. jb_id j = i \<and> jb_status j \<in> {Queued, JobRetry})
     (take_job now a ls)) ids js)"
proof (induction ids arbitrary: js)
  case (Cons i ids)
  show ?case
    by (simp del: insert_iff, rule good_trans [OF take_good Cons.IH]) simp
qed simp

lemma ready_good:
  "good_change a now (job_seq db) (jobs db) (job_seq db) (jobs (recover_expired_jobs now (maybe_prune_retention now db)))"
  using good_trans [OF retention_good(1) recover_good [of a now "maybe_prune_retention now db", simplified]] by simp

definition good_db :: "string \<Rightarrow> time \<Rightarrow> backend_db \<Rightarrow> backend_db \<Rightarrow> bool" where
  "good_db a now db db' \<longleftrightarrow> good_change a now (job_seq db) (jobs db) (job_seq db') (jobs db')"

lemma good_same: "jobs db' = jobs db \<Longrightarrow> job_seq db' = job_seq db \<Longrightarrow> good_db a now db db'"
  by (simp add: good_db_def)

lemma good_write:
  assumes "keeps_keys f"
    and "\<And>j. P j \<Longrightarrow> job_ok (job_seq db) j \<Longrightarrow> job_ok (job_seq db) (f j) \<and> fair a now (row_holder j) (row_holder (f j))"
  shows "good_db a now db (fst (write_jobs P f db))"
  using write_rows [OF assms] by (simp add: good_db_def write_jobs_def)

lemma good_enqueue: "good_db [] now db (fst (enqueue_job dumps now u kind idem payload a mx delay db))"
proof -
  have b: "1 \<le> clamp 1 20 mx" "clamp 1 20 mx \<le> 20" using clamp_bounds [of 1 20 mx] by auto
  have new: "good_change [] now (job_seq db) (jobs db) (job_seq db + 1) (jobs (maybe_prune_retention now db) @ [new])"
    if "jb_id new = job_seq db + 1" "jb_max new = clamp 1 20 mx" "jb_attempts new = 0" "jb_status new = Queued"
      "find (\<lambda>j. job_key j = job_key new) (jobs (maybe_prune_retention now db)) = None" for new
    using that b by (intro good_trans [OF retention_good(1) add_row]) (simp_all add: job_ok_def row_holder_def)
  show ?thesis
    unfolding enqueue_job_def good_db_def
    by (auto simp: Let_def retention_good(1) split: sum.split intro!: new)
qed

lemma good_claim_jobs: "good_db (py_strip w) now db (fst (claim_jobs now w limit ls kinds db))"
  using good_trans [OF ready_good take_each_good]
  by (simp add: claim_jobs_def Let_def good_db_def)

lemma good_claim_job: "good_db (py_strip w) now db (fst (claim_job now i w ls db))"
proof -
  have "good_change (py_strip w) now (job_seq db) (jobs db) (job_seq db)
      (sql_update (\<lambda>j. jb_id j = i \<and> claimable now j) (take_job now (py_strip w) ls)
        (jobs (recover_expired_jobs now (maybe_prune_retention now db))))"
    by (rule good_trans [OF ready_good take_good]) (auto simp: claimable_def)
  then show ?thesis by (simp add: claim_job_def Let_def good_db_def)
qed

lemma fair_owned:
  assumes "owned i w j" "row_holder j' = None \<or> jb_owner j' = Some w"
  shows "fair w now (row_holder j) (row_holder j')"
  using assms by (auto simp: fair_def owned_def row_holder_def split: option.splits)

lemma good_owned:
  "good_db w now db (fst (renew_job now i w ls db))" "good_db w now db (fst (defer_job now i w d db))"
  "good_db w now db (fst (complete_job now i w db))"
  "good_db w now db (fst (complete_job_for_account now i w u a g k db))"
  subgoal
    unfolding renew_job_def
    by (rule good_write) (auto simp: job_ok_def keeps_keys_def job_key_def owned_def intro!: fair_owned)
  subgoal
    unfolding defer_job_def
    by (rule good_write) (auto simp: job_ok_def keeps_keys_def job_key_def owned_def row_holder_def intro!: fair_owned)
  subgoal
    unfolding complete_job_def
    by (rule good_write) (auto simp: job_ok_def keeps_keys_def job_key_def completed_def row_holder_def owned_def intro!: fair_owned)
  subgoal
    unfolding complete_job_for_account_def
    by (rule good_write) (auto simp: job_ok_def keeps_keys_def job_key_def completed_def row_holder_def owned_def intro!: fair_owned)
  done

lemma inv_find_id: "job_inv db \<Longrightarrow> job_by_id i db = Some j \<longleftrightarrow> j \<in> set (jobs db) \<and> jb_id j = i"
  by (auto simp: job_inv_def job_table_ok_def job_ids.find_iff)

lemma find_owned:
  assumes "job_inv db"
  shows "find (owned i w) (jobs db) = Some j \<longleftrightarrow> j \<in> set (jobs db) \<and> owned i w j"
proof
  assume j: "j \<in> set (jobs db) \<and> owned i w j"
  then have "find (owned i w) (jobs db) \<noteq> None" by (auto simp: find_None_iff)
  then obtain q where q: "find (owned i w) (jobs db) = Some q" by auto
  then have "q \<in> set (jobs db)" "owned i w q" by (auto dest: find_SomeD)
  with j assms have "q = j" by (auto simp: job_inv_def job_table_ok_def owned_def intro: job_ids.same_row)
  with q show "find (owned i w) (jobs db) = Some j" by simp
qed (auto dest: find_SomeD)

lemma good_fail: "good_db w now db (fst (fail_job now i w c m d db))"
proof (cases "find (owned i w) (jobs db)")
  case (Some row)
  let ?hit = "\<lambda>j. owned i w j \<and> (jb_attempts j, jb_max j) = (jb_attempts row, jb_max row)"
  have "sql_update (owned i w) (failed now row c m d) (jobs db) = sql_update ?hit (failed now row c m d) (jobs db)"
    if "job_inv db"
  proof (rule sql_update_cong)
    fix j assume "j \<in> set (jobs db)"
    with Some find_owned [OF that, of i w j] show "owned i w j \<longleftrightarrow> ?hit j" by auto
  qed
  moreover have "good_change w now (job_seq db) (jobs db) (job_seq db) (sql_update ?hit (failed now row c m d) (jobs db))"
    by (rule write_rows)
      (auto simp: failed_def Let_def job_ok_def keeps_keys_def job_key_def row_holder_def owned_def intro!: fair_owned)
  ultimately show ?thesis
    using Some by (simp add: fail_job_def good_db_def write_jobs_def good_change_def job_inv_def)
qed (simp add: fail_job_def good_db_def)

lemma account_ops_jobs:
  "jobs (fst (disable_shop_account now u a db)) = jobs db \<and> job_seq (fst (disable_shop_account now u a db)) = job_seq db"
  "jobs (fst (update_shop_account now u ai c db)) = jobs db \<and> job_seq (fst (update_shop_account now u ai c db)) = job_seq db"
  "jobs (fst (update_shop_account_if_current now u a g e c db)) = jobs db \<and>
     job_seq (fst (update_shop_account_if_current now u a g e c db)) = job_seq db"
  "jobs (fst (create_shop_account limit now u k n db)) = jobs db \<and>
     job_seq (fst (create_shop_account limit now u k n db)) = job_seq db"
  "jobs (fst (ensure_default_shop_account now u db)) = jobs db \<and>
     job_seq (fst (ensure_default_shop_account now u db)) = job_seq db"
  "jobs (fst (remove_unconfigured_shop_account u a db)) = jobs db \<and>
     job_seq (fst (remove_unconfigured_shop_account u a db)) = job_seq db"
  by (auto simp: disable_shop_account_def update_shop_account_def update_shop_account_if_current_def
      create_shop_account_def ensure_default_shop_account_def ensure_worker_runtime_def
      remove_unconfigured_shop_account_def Let_def split: option.split sum.split)

lemma runtime_ops_jobs:
  "jobs (fst (persist_worker_runtime now u a rep x db)) = jobs db \<and>
     job_seq (fst (persist_worker_runtime now u a rep x db)) = job_seq db"
  "jobs (fst (set_worker_auto_resume u a r db)) = jobs db \<and> job_seq (fst (set_worker_auto_resume u a r db)) = job_seq db"
  "jobs (fst (set_worker_desired now u d ai xa db)) = jobs db \<and>
     job_seq (fst (set_worker_desired now u d ai xa db)) = job_seq db"
  using account_ops_jobs(5) [of now u db]
  by (auto simp: persist_worker_runtime_def set_worker_auto_resume_def set_worker_desired_def Let_def
      split: option.split prod.split)

lemma good_apply: "good_db (job_actor opr) now db (job_apply now opr db)"
  by (cases opr) (simp_all add: good_enqueue good_claim_jobs good_claim_job good_owned good_fail
      good_same account_ops_jobs runtime_ops_jobs good_db_def [of _ _ _ "prune_retention now b db" for b] retention_good(2))

section \<open>Reachable states and the lease contract\<close>

lemma job_inv_empty: "job_inv empty_backend"
  by (simp add: job_inv_def job_table_ok_def empty_backend_def unique_key_def)

lemma job_inv_apply: "job_inv db \<Longrightarrow> job_inv (job_apply now opr db)"
  using good_apply [of opr now db] by (simp add: good_db_def good_change_def job_inv_def)

interpretation backend: transition_system "\<lambda>db. db = empty_backend" backend_step job_inv
  by unfold_locales (auto simp: job_inv_empty job_inv_apply elim!: backend_stepE)

inductive job_acts :: "string \<Rightarrow> time \<Rightarrow> backend_db \<Rightarrow> backend_db \<Rightarrow> bool" where
  "job_inv db \<Longrightarrow> job_acts (job_actor opr) now db (job_apply now opr db)"

inductive_cases job_actsE: "job_acts a now db db'"

lemma job_fair: "job_acts a now s s' \<Longrightarrow> fair a now (job_holder s i) (job_holder s' i)"
  by (erule job_actsE) (use good_apply in \<open>auto simp: good_db_def good_change_def job_inv_def job_holder_def\<close>)

interpretation job_lease: fenced_lease job_holder job_acts
proof unfold_locales
  show "job_holder s' r = Some (w, u)"
    if "job_acts a now s s'" "job_holder s r = Some (w, u)" "a \<noteq> w" "now < u" for a now s s' r w u
    using job_fair [OF that(1), of r] that by (auto simp: fair_def)
  show "a = w"
    if "job_acts a now s s'" "job_holder s' r = Some (w, u)" "job_holder s r \<noteq> Some (w, u)" for a now s s' r w u
    using job_fair [OF that(1), of r] that by (auto simp: fair_def)
qed

lemma run_jobs_history:
  assumes "job_inv db"
  shows "history job_acts db (map (\<lambda>(now, opr). (job_actor opr, now)) ops) (run_jobs ops db)"
  using assms
proof (induction ops arbitrary: db)
  case (Cons e ops)
  obtain now opr where e: "e = (now, opr)" by (cases e)
  from Cons have "history job_acts (job_apply now opr db) (map (\<lambda>(now, opr). (job_actor opr, now)) ops)
      (run_jobs ops (job_apply now opr db))" by (simp add: job_inv_apply)
  moreover have "job_acts (job_actor opr) now db (job_apply now opr db)" using Cons.prems by (rule job_acts.intros)
  ultimately show ?case unfolding e by (simp add: history.act)
qed (simp add: history.start)

lemma run_jobs_inv: "job_inv db \<Longrightarrow> job_inv (run_jobs ops db)"
  by (induction ops db rule: run_jobs.induct) (simp_all add: job_inv_apply)

lemma run_jobs_append: "run_jobs (xs @ ys) db = run_jobs ys (run_jobs xs db)"
  by (induction xs arbitrary: db) auto

end
