(* ===== verification/Job_Rounds.thy ===== *)
theory Job_Rounds
  imports Job_Facts
begin

text \<open>
  What claiming, failing and retrying do to one job: unfinished jobs survive the retention pass, a round
  of claim and failure uses up one attempt, and enough rounds end in the dead letter.
\<close>

section \<open>Unfinished jobs survive the upkeep\<close>

lemma prune_keeps:
  assumes "unique_key jb_id js" "j \<in> set js" "jb_status j \<noteq> st"
  shows "j \<in> set (prune_jobs st cutoff batch js)"
proof -
  let ?old = "take batch (order_by finished_at (order_by jb_id
      (filter (\<lambda>j. jb_status j = st \<and> finished_at j \<le> cutoff) js)))"
  have "jb_id j \<notin> jb_id ` set ?old"
  proof
    assume "jb_id j \<in> jb_id ` set ?old"
    then obtain q where "jb_id j = jb_id q" "q \<in> set js" "jb_status q = st" by (auto dest!: in_set_takeD)
    with assms job_ids.same_row show False by blast
  qed
  with assms show ?thesis by (simp add: prune_jobs_def in_sql_delete)
qed

lemma retention_keeps:
  assumes "job_inv db" "j \<in> set (jobs db)" "jb_status j \<notin> {JobCompleted, JobDead}"
  shows "j \<in> set (jobs (maybe_prune_retention now db))"
proof -
  have u: "unique_key jb_id (jobs db)" using assms(1) by (simp add: job_inv_def job_table_ok_def)
  have "unique_key jb_id (prune_jobs st c b (jobs db))" for st c b
    unfolding prune_jobs_def Let_def by (rule job_ids.unique_delete [OF u])
  then show ?thesis using assms u
    by (simp add: maybe_prune_retention_def prune_retention_def Let_def prune_keeps)
qed

lemma prune_subset: "set (prune_jobs st c b js) \<subseteq> set js"
  by (auto simp: prune_jobs_def in_sql_delete)

lemma retention_subset: "set (jobs (maybe_prune_retention now db)) \<subseteq> set (jobs db)"
  by (auto simp: maybe_prune_retention_def prune_retention_def Let_def dest!: subsetD [OF prune_subset])

lemma inv_retention: "job_inv db \<Longrightarrow> job_inv (maybe_prune_retention now db)"
  using retention_good(1) by (auto simp: job_inv_def good_change_def)

lemma inv_ready: "job_inv db \<Longrightarrow> job_inv (recover_expired_jobs now (maybe_prune_retention now db))"
  using ready_good by (auto simp: job_inv_def good_change_def)

lemma ready_keeps:
  assumes "job_inv db" "j \<in> set (jobs db)" "jb_status j \<in> {Queued, JobRetry}"
  shows "j \<in> set (jobs (recover_expired_jobs now (maybe_prune_retention now db)))"
proof -
  have "j \<in> set (jobs (maybe_prune_retention now db))" using assms by (auto intro: retention_keeps)
  moreover have "\<not> lease_expired now j" using assms(3) by (auto simp: lease_expired_def)
  ultimately show ?thesis by (auto simp: recover_expired_jobs_def in_sql_update)
qed

lemma inv_find_key:
  "job_inv db \<Longrightarrow> find (\<lambda>j. job_key j = k) (jobs db) = Some j \<longleftrightarrow> j \<in> set (jobs db) \<and> job_key j = k"
  by (auto simp: job_inv_def job_table_ok_def job_keys.find_iff)

lemma inv_count_id: "job_inv db \<Longrightarrow> j \<in> set (jobs db) \<Longrightarrow> jb_id j = i \<Longrightarrow> Q j \<Longrightarrow>
    sql_count (\<lambda>j. jb_id j = i \<and> Q j) (jobs db) = 1"
  by (subst count_key_le) (auto simp: job_inv_def job_table_ok_def)

section \<open>One claim and one failure\<close>

definition valid_owner :: "string \<Rightarrow> bool" where
  "valid_owner w \<longleftrightarrow> py_strip w = w \<and> w \<noteq> [] \<and> py_len w \<le> 128"

lemma claim_known_job:
  assumes inv: "job_inv db" and j: "job_by_id i db = Some j" "claimable now j" and w: "valid_owner w"
  shows "job_by_id i (fst (claim_job now i w ls db)) = Some (take_job now w ls j)"
    "snd (claim_job now i w ls db) = Inr (Some (take_job now w ls j))"
proof -
  let ?db = "recover_expired_jobs now (maybe_prune_retention now db)"
  have "j \<in> set (jobs ?db)"
    using inv j by (auto simp: inv_find_id claimable_def intro: ready_keeps)
  with inv j have f: "job_by_id i ?db = Some j" by (simp add: inv_find_id inv_ready)
  have c: "sql_count (\<lambda>j. jb_id j = i \<and> claimable now j) (jobs ?db) = 1"
    using inv_count_id [OF inv_ready [OF inv], of j] \<open>j \<in> set (jobs ?db)\<close> j inv by (simp add: inv_find_id)
  have k: "\<And>r. jb_id (take_job now w ls r) = jb_id r" by (simp add: take_job_def)
  show "job_by_id i (fst (claim_job now i w ls db)) = Some (take_job now w ls j)"
    using w f j inv by (simp add: claim_job_def Let_def valid_owner_def job_ids.find_update k inv_find_id)
  then show "snd (claim_job now i w ls db) = Inr (Some (take_job now w ls j))"
    using w c by (simp add: claim_job_def Let_def valid_owner_def)
qed

lemma fail_owned_job:
  assumes inv: "job_inv db" and j: "job_by_id i db = Some j" "owned i w j"
  shows "job_by_id i (fst (fail_job now i w c m d db)) = Some (failed now j c m d j)"
    "snd (fail_job now i w c m d db)"
proof -
  have f: "find (owned i w) (jobs db) = Some j" using inv j by (simp add: find_owned inv_find_id)
  have k: "\<And>r. jb_id (failed now j c m d r) = jb_id r" by (simp add: failed_def Let_def)
  show "job_by_id i (fst (fail_job now i w c m d db)) = Some (failed now j c m d j)"
    using f j by (simp add: fail_job_def write_jobs_def job_ids.find_update k)
  have "sql_count (owned i w) (jobs db) = 1"
    using inv_count_id [OF inv, of j i "\<lambda>j. jb_status j = Running \<and> jb_owner j = Some w"] inv j
    by (simp add: inv_find_id owned_def [abs_def])
  with f show "snd (fail_job now i w c m d db)" by (simp add: fail_job_def write_jobs_def)
qed

lemma retry_delay_bounds: "0 \<le> n \<Longrightarrow> 0 \<le> retry_delay n d \<and> retry_delay n d \<le> 900"
  by (auto simp: retry_delay_def clamp_def split: option.split)

section \<open>Rounds of claim and failure\<close>

definition failing_round :: "int \<Rightarrow> string \<Rightarrow> time \<Rightarrow> string \<Rightarrow> string \<Rightarrow> time option \<Rightarrow> time \<Rightarrow> (time \<times> job_op) list" where
  "failing_round i w ls c m d now = [(now, JClaim i w ls), (now, JFail i w c m d)]"

fun spaced :: "time \<Rightarrow> time list \<Rightarrow> bool" where
  "spaced t [] \<longleftrightarrow> True"
| "spaced t (x # xs) \<longleftrightarrow> t \<le> x \<and> spaced (x + 900) xs"

lemma failing_round_effect:
  assumes inv: "job_inv db" and j: "job_by_id i db = Some j" "claimable now j" and w: "valid_owner w"
  obtains j' where "job_by_id i (run_jobs (failing_round i w ls c m d now) db) = Some j'"
    "jb_max j' = jb_max j" "jb_attempts j' = jb_attempts j + 1"
    "jb_status j' = (if jb_attempts j' < jb_max j' then JobRetry else JobDead)" "jb_available j' \<le> now + 900"
proof -
  let ?db = "fst (claim_job now i w ls db)" and ?j = "take_job now w ls j"
  have inv': "job_inv ?db" using job_inv_apply [OF inv, of now "JClaim i w ls"] by simp
  have "job_ok (job_seq db) j"
    using inv j by (auto simp: inv_find_id job_inv_def job_table_ok_def list_all_iff dest: find_SomeD)
  then have "0 \<le> jb_attempts j + 1" by (simp add: job_ok_def)
  note b = retry_delay_bounds [OF this, of d]
  have "owned i w ?j" using inv j by (simp add: owned_def take_job_def inv_find_id)
  from fail_owned_job(1) [OF inv' claim_known_job(1) [OF inv j w] this, of now c m d] show thesis
    by (rule that [of "failed now ?j c m d ?j", simplified failing_round_def, simplified])
      (use b in \<open>auto simp: failed_def take_job_def Let_def\<close>)
qed

lemma failing_rounds_end:
  assumes "job_inv db" "job_by_id i db = Some j" "jb_status j \<in> {Queued, JobRetry}" "spaced (jb_available j) ts"
    "valid_owner w" "int (length ts) = jb_max j - jb_attempts j" "ts \<noteq> []"
  shows "\<exists>j'. job_by_id i (run_jobs (concat (map (failing_round i w ls c m d) ts)) db) = Some j' \<and>
    jb_status j' = JobDead \<and> jb_attempts j' = jb_max j \<and> jb_max j' = jb_max j"
  using assms
proof (induction ts arbitrary: db j)
  case (Cons t ts)
  have cl: "claimable t j" using Cons.prems by (auto simp: claimable_def)
  obtain j' where j': "job_by_id i (run_jobs (failing_round i w ls c m d t) db) = Some j'"
    "jb_max j' = jb_max j" "jb_attempts j' = jb_attempts j + 1"
    "jb_status j' = (if jb_attempts j' < jb_max j' then JobRetry else JobDead)" "jb_available j' \<le> t + 900"
    by (rule failing_round_effect [OF Cons.prems(1,2) cl Cons.prems(5)])
  show ?case
  proof (cases ts)
    case Nil
    with j' Cons.prems show ?thesis by (auto simp: run_jobs_append)
  next
    case (Cons t' ts')
    then have "spaced (jb_available j') ts" using j' Cons.prems by auto
    then show ?thesis
      using Cons.IH [OF run_jobs_inv [OF Cons.prems(1)] j'(1)] j' Cons.prems Cons by (auto simp: run_jobs_append)
  qed
qed simp

end
