(* ===== verification/Job_Claims.thy ===== *)
theory Job_Claims
  imports Job_Facts
begin

text \<open>
  The batch claim: the loop of \<^verbatim>\<open>claim_jobs\<close> over the selected ids is one update, and the rows it reads back
  are the selected rows, taken.
\<close>

lemma update_twice:
  assumes "\<And>j. \<not> S (f j)" "\<And>j. jb_id (f j) = jb_id j"
  shows "sql_update (\<lambda>j. jb_id j \<in> B \<and> S j) f (sql_update (\<lambda>j. jb_id j = i \<and> S j) f js) =
    sql_update (\<lambda>j. jb_id j \<in> insert i B \<and> S j) f js"
  using assms by (auto simp: sql_update_def)

lemma update_each:
  assumes "\<And>j. \<not> S (f j)" "\<And>j. jb_id (f j) = jb_id j"
  shows "fold (\<lambda>i. sql_update (\<lambda>j. jb_id j = i \<and> S j) f) ids js = sql_update (\<lambda>j. jb_id j \<in> set ids \<and> S j) f js"
proof (induction ids arbitrary: js)
  case Nil
  then show ?case by (simp add: sql_update_none)
next
  case (Cons i ids)
  then show ?case using update_twice [of S f "set ids" i, OF assms] by simp
qed

lemma first_rows:
  assumes "unique_key jb_id js" "ids = map jb_id (take n (order_by jb_id (filter C js)))"
  shows "order_by jb_id (filter (\<lambda>j. jb_id j \<in> set ids) js) = take n (order_by jb_id (filter C js))"
proof -
  have C: "C j" if "j \<in> set js" "jb_id j \<in> set ids" for j
  proof -
    from that(2) assms(2) obtain q where "jb_id q = jb_id j" "q \<in> set js" "C q" by (auto dest!: in_set_takeD)
    with that assms(1) job_ids.same_row show ?thesis by metis
  qed
  have "filter (\<lambda>j. jb_id j \<in> set ids) js = filter (\<lambda>j. jb_id j \<in> set ids) (filter C js)"
    using C by (auto intro: filter_cong)
  then have "order_by jb_id (filter (\<lambda>j. jb_id j \<in> set ids) js) =
      filter (\<lambda>j. jb_id j \<in> set ids) (order_by jb_id (filter C js))"
    by (simp only: order_by_def filter_sort)
  also have "\<dots> = take n (order_by jb_id (filter C js))"
    unfolding assms(2) using assms(1)
    by (intro filter_keys_take) (simp add: unique_key_def distinct_map_filter)
  finally show ?thesis .
qed

lemma order_by_same_ids:
  fixes h :: "job_row \<Rightarrow> job_row"
  assumes "\<And>j. jb_id (h j) = jb_id j"
  shows "order_by jb_id (filter (\<lambda>j. jb_id j \<in> B) (map h js)) = map h (order_by jb_id (filter (\<lambda>j. jb_id j \<in> B) js))"
  using order_by_map [of jb_id h, OF assms] assms by (simp add: filter_map o_def)

definition wants :: "time \<Rightarrow> string list option \<Rightarrow> job_row \<Rightarrow> bool" where
  "wants now kinds j \<longleftrightarrow> claimable now j \<and>
     (case kinds of None \<Rightarrow> True | Some ks \<Rightarrow> jb_kind j \<in> py_strip ` set ks - {[]})"

definition kinds_given :: "string list option \<Rightarrow> bool" where
  "kinds_given kinds \<longleftrightarrow> (case kinds of None \<Rightarrow> True | Some ks \<Rightarrow> py_strip ` set ks - {[]} \<noteq> {})"

lemma wanted_iff:
  "(case map_option (\<lambda>ks. filter (\<lambda>k. k \<noteq> []) (map py_strip ks)) kinds of None \<Rightarrow> True | Some ks \<Rightarrow> jb_kind j \<in> set ks)
   \<longleftrightarrow> (case kinds of None \<Rightarrow> True | Some ks \<Rightarrow> jb_kind j \<in> py_strip ` set ks - {[]})"
  by (auto split: option.split)

lemma kinds_given_iff:
  "kinds_given kinds \<Longrightarrow> map_option (\<lambda>ks. filter (\<lambda>k. k \<noteq> []) (map py_strip ks)) kinds \<noteq> Some []"
  by (auto simp: kinds_given_def filter_empty_conv split: option.splits)

lemma claim_jobs_eq:
  assumes inv: "job_inv db" and w: "py_strip w \<noteq> []" "py_len (py_strip w) \<le> 128" and k: "kinds_given kinds"
    and db1: "db1 = recover_expired_jobs now (maybe_prune_retention now db)"
    and chosen: "chosen = take (nat (clamp 1 100 limit)) (order_by jb_id (filter (wants now kinds) (jobs db1)))"
  shows "jobs (fst (claim_jobs now w limit ls kinds db)) =
      sql_update (\<lambda>j. jb_id j \<in> jb_id ` set chosen \<and> jb_status j \<in> {Queued, JobRetry}) (take_job now (py_strip w) ls) (jobs db1)"
    and "snd (claim_jobs now w limit ls kinds db) = Inr (map (take_job now (py_strip w) ls) chosen)"
proof -
  let ?S = "\<lambda>j. jb_status j \<in> {Queued, JobRetry}" and ?f = "take_job now (py_strip w) ls"
  let ?h = "\<lambda>j. if jb_id j \<in> jb_id ` set chosen \<and> ?S j then ?f j else j"
  have f: "\<not> ?S (?f j)" "jb_id (?f j) = jb_id j" for j by (simp_all add: take_job_def)
  have ids: "map jb_id (take (nat (clamp 1 100 limit)) (order_by jb_id (filter (\<lambda>j. claimable now j \<and>
      (case map_option (\<lambda>ks. filter (\<lambda>k. k \<noteq> []) (map py_strip ks)) kinds of None \<Rightarrow> True | Some ks \<Rightarrow> jb_kind j \<in> set ks)) (jobs db1)))) =
      map jb_id chosen"
    unfolding wanted_iff chosen wants_def ..
  have fd: "fold (\<lambda>i. sql_update (\<lambda>j. jb_id j = i \<and> ?S j) ?f) (map jb_id chosen) (jobs db1) =
      sql_update (\<lambda>j. jb_id j \<in> jb_id ` set chosen \<and> ?S j) ?f (jobs db1)"
    using update_each [of ?S ?f "map jb_id chosen" "jobs db1"] f by simp
  show jobs': "jobs (fst (claim_jobs now w limit ls kinds db)) =
      sql_update (\<lambda>j. jb_id j \<in> jb_id ` set chosen \<and> ?S j) ?f (jobs db1)"
    using w kinds_given_iff [OF k] unfolding claim_jobs_def Let_def db1 [symmetric] ids fd by auto
  have "unique_key jb_id (jobs db1)"
    using inv ready_good [of "[]" now db] by (simp add: db1 job_inv_def good_change_def job_table_ok_def)
  note rows = first_rows [OF this, of "map jb_id chosen", OF arg_cong [OF chosen]]
  have "order_by jb_id (filter (\<lambda>j. jb_id j \<in> jb_id ` set chosen) (map ?h (jobs db1))) = map ?h chosen"
    using order_by_same_ids [of ?h "jb_id ` set chosen" "jobs db1"] rows f(2) by (simp add: chosen [symmetric])
  also have "\<dots> = map ?f chosen"
    by (rule map_cong) (auto simp: chosen wants_def claimable_def dest!: in_set_takeD)
  finally show "snd (claim_jobs now w limit ls kinds db) = Inr (map ?f chosen)"
    using w kinds_given_iff [OF k] unfolding claim_jobs_def Let_def db1 [symmetric] ids fd
    by (auto simp: sql_update_def)
qed

lemma recovered: "j \<in> set (jobs (recover_expired_jobs now db)) \<Longrightarrow> \<not> lease_expired now j"
  unfolding recover_expired_jobs_def by (auto simp: lease_expired_def elim!: sql_updateE)

lemma none_expired:
  assumes "job_inv db" "py_strip w \<noteq> []" "py_len (py_strip w) \<le> 128" "kinds_given kinds"
    "j \<in> set (jobs (fst (claim_jobs now w limit ls kinds db)))"
  shows "\<not> lease_expired now j"
proof -
  from assms(5) obtain q where q: "q \<in> set (jobs (recover_expired_jobs now (maybe_prune_retention now db)))"
    "j = q \<or> j = take_job now (py_strip w) ls q"
    unfolding claim_jobs_eq(1) [OF assms(1-4) refl refl] by (auto simp: in_sql_update split: if_splits)
  have "1 \<le> clamp 1 3600 ls" using clamp_bounds [of 1 3600 ls] by simp
  with q recovered [OF q(1)] show ?thesis by (auto simp: lease_expired_def take_job_def)
qed

lemma all_taken:
  assumes "job_inv db" "py_strip w \<noteq> []" "py_len (py_strip w) \<le> 128" "kinds_given kinds"
    "snd (claim_jobs now w limit ls kinds db) = Inr rows" "int (length rows) < clamp 1 100 limit"
    "j \<in> set (jobs (fst (claim_jobs now w limit ls kinds db)))"
  shows "\<not> wants now kinds j"
proof -
  let ?js = "order_by jb_id (filter (wants now kinds) (jobs (recover_expired_jobs now (maybe_prune_retention now db))))"
  note eq = claim_jobs_eq [OF assms(1-4) refl refl, where limit = limit and ls = ls and now = now]
  from eq(2) assms(5,6) have "take (nat (clamp 1 100 limit)) ?js = ?js" by (auto simp: min_def split: if_splits)
  note js = eq(1) [unfolded this]
  from assms(7) [unfolded js] show ?thesis
  proof (cases rule: sql_updateE)
    case (hit q)
    then show ?thesis by (simp add: wants_def claimable_def take_job_def)
  next
    case miss
    show ?thesis
    proof
      assume "wants now kinds j"
      then have "j \<in> set ?js" "jb_status j \<in> {Queued, JobRetry}"
        using miss(1) by (simp_all add: wants_def claimable_def)
      with miss(2) show False by blast
    qed
  qed
qed

end
