(* ===== verification/Account_Facts.thy ===== *)
theory Account_Facts
  imports Job_Facts
begin

text \<open>
  Shop accounts over all operations of the store: ids and keys stay unique, ids are never given out again,
  and the generation of an account never goes back, so that what was disabled stays told apart.
\<close>

definition account_key :: "account_row \<Rightarrow> int \<times> string" where
  "account_key a = (sa_user a, sa_key a)"

interpretation account_keys: keyed_table account_key .

definition accounts_ok :: "int \<Rightarrow> account_row list \<Rightarrow> bool" where
  "accounts_ok seq as \<longleftrightarrow> unique_key sa_id as \<and> unique_key account_key as \<and>
     list_all (\<lambda>a. sa_id a \<le> seq \<and> 0 \<le> sa_generation a) as"

definition account_inv :: "backend_db \<Rightarrow> bool" where
  "account_inv db \<longleftrightarrow> accounts_ok (account_seq db) (accounts db)"

definition stale :: "int \<Rightarrow> int \<Rightarrow> int \<Rightarrow> account_row list \<Rightarrow> bool" where
  \<comment> \<open>The account is gone for good or its generation has passed \<open>g\<close>\<close>
  "stale i g seq as \<longleftrightarrow> i \<le> seq \<and> list_all (\<lambda>a. sa_id a = i \<longrightarrow> g < sa_generation a) as"

definition account_change :: "int \<Rightarrow> account_row list \<Rightarrow> int \<Rightarrow> account_row list \<Rightarrow> bool" where
  "account_change seq as seq' as' \<longleftrightarrow> (accounts_ok seq as \<longrightarrow> accounts_ok seq' as') \<and>
     (\<forall>i g. stale i g seq as \<longrightarrow> stale i g seq' as')"

lemma account_change_refl [simp]: "account_change seq as seq as"
  by (simp add: account_change_def)

lemma account_write:
  assumes "\<And>a. sa_id (f a) = sa_id a \<and> account_key (f a) = account_key a \<and> sa_generation a \<le> sa_generation (f a)"
  shows "account_change seq as seq (sql_update P f as)"
proof -
  have "sa_id (f a) = sa_id a" "account_key (f a) = account_key a" "sa_generation a \<le> sa_generation (f a)" for a
    using assms by auto
  note f = this
  have "list_all (\<lambda>a. sa_id a \<le> seq \<and> 0 \<le> sa_generation a) (sql_update P f as)"
    if "list_all (\<lambda>a. sa_id a \<le> seq \<and> 0 \<le> sa_generation a) as"
    using that f order_trans [OF _ f(3)] by (auto simp: list_all_iff in_sql_update)
  moreover have "stale i g seq (sql_update P f as)" if "stale i g seq as" for i g
    using that f less_le_trans [OF _ f(3)] by (auto simp: stale_def list_all_iff in_sql_update)
  ultimately show ?thesis
    using f by (simp add: account_change_def accounts_ok_def account_ids.unique_update account_keys.unique_update)
qed

lemma account_drop: "account_change seq as seq (sql_delete P as)"
  by (auto simp: account_change_def accounts_ok_def stale_def list_all_iff in_sql_delete
      account_ids.unique_delete account_keys.unique_delete)

lemma account_add:
  assumes "sa_id new = seq + 1" "sa_generation new = 0" "find (\<lambda>a. account_key a = account_key new) as = None"
  shows "account_change seq as (seq + 1) (as @ [new])"
proof -
  have "accounts_ok (seq + 1) (as @ [new])" if ok: "accounts_ok seq as"
  proof -
    have "find (\<lambda>a. sa_id a = sa_id new) as = None"
      using ok assms(1) by (force simp: find_None_iff accounts_ok_def list_all_iff)
    with ok assms show ?thesis
      by (auto simp: accounts_ok_def account_ids.unique_insert account_keys.unique_insert list_all_iff)
  qed
  moreover have "stale i g (seq + 1) (as @ [new])" if "stale i g seq as" for i g
    using that assms(1) by (auto simp: stale_def)
  ultimately show ?thesis by (simp add: account_change_def)
qed

definition account_db :: "backend_db \<Rightarrow> backend_db \<Rightarrow> bool" where
  "account_db db db' \<longleftrightarrow> account_change (account_seq db) (accounts db) (account_seq db') (accounts db')"

lemma account_same: "accounts db' = accounts db \<Longrightarrow> account_seq db' = account_seq db \<Longrightarrow> account_db db db'"
  by (simp add: account_db_def)

lemma change_account_write: "account_change seq as seq (sql_update P (change_account now c) as)"
  by (rule account_write) (simp add: change_account_def account_key_def)

lemma account_disable: "account_db db (fst (disable_shop_account now u a db))"
  by (simp add: account_db_def disable_shop_account_def Let_def, rule account_write) (simp add: account_key_def)

lemma account_updates:
  "account_db db (fst (update_shop_account now u ai c db))"
  "account_db db (fst (update_shop_account_if_current now u a g e c db))"
  "account_db db (fst (remove_unconfigured_shop_account u a db))"
  by (auto simp: account_db_def update_shop_account_def update_shop_account_if_current_def
      remove_unconfigured_shop_account_def Let_def change_account_write account_drop split: option.split)

lemma no_account_key: "get_account_by_key u k db = None \<Longrightarrow>
    find (\<lambda>a. account_key a = account_key (new_account now i u k n)) (accounts db) = None"
  by (simp add: get_account_by_key_def account_key_def new_account_def)

lemma account_create: "account_db db (fst (create_shop_account limit now u k n db))"
  by (auto simp: account_db_def create_shop_account_def Let_def split: sum.split
      intro!: account_add no_account_key) (simp_all add: new_account_def)

lemma ensure_runtime_accounts [simp]:
  "accounts (ensure_worker_runtime now u a db) = accounts db" "account_seq (ensure_worker_runtime now u a db) = account_seq db"
  by (simp_all add: ensure_worker_runtime_def)

lemma account_ensure: "account_db db (fst (ensure_default_shop_account now u db))"
proof (cases "get_account_by_key u ''default'' db")
  case None
  have "account_change (account_seq db) (accounts db) (account_seq db + 1)
      (accounts db @ [new_account now (account_seq db + 1) u ''default'' []])"
    by (rule account_add [OF _ _ no_account_key [OF None]]) (simp_all add: new_account_def)
  with None show ?thesis
    by (simp add: account_db_def ensure_default_shop_account_def Let_def split: option.split)
next
  case (Some a)
  then show ?thesis by (simp add: account_db_def ensure_default_shop_account_def)
qed

lemma upkeep_seq [simp]: "account_seq (maybe_prune_retention now db) = account_seq db"
  "account_seq (prune_retention now b db) = account_seq db" "account_seq (recover_expired_jobs now db) = account_seq db"
  by (simp_all add: maybe_prune_retention_def prune_retention_def recover_expired_jobs_def Let_def)

lemma account_queue:
  "account_db db (fst (enqueue_job dumps now u kind idem payload a mx delay db))"
  "account_db db (fst (claim_jobs now w limit ls kinds db))"
  "account_db db (fst (claim_job now i w ls db))"
  "account_db db (fst (write_jobs P f db))"
  subgoal by (cases "job_payload dumps payload") (simp_all add: account_db_def enqueue_job_def Let_def)
  subgoal by (simp add: account_db_def claim_jobs_def Let_def)
  subgoal by (simp add: account_db_def claim_job_def Let_def)
  subgoal by (simp add: account_db_def write_jobs_def)
  done

lemma account_fail: "account_db db (fst (fail_job now i w c m d db))"
  by (cases "find (owned i w) (jobs db)") (simp_all add: fail_job_def account_queue(4) account_same)

lemma runtime_ops_accounts:
  "accounts (fst (persist_worker_runtime now u a rep x db)) = accounts db \<and>
     account_seq (fst (persist_worker_runtime now u a rep x db)) = account_seq db"
  "accounts (fst (set_worker_auto_resume u a r db)) = accounts db \<and>
     account_seq (fst (set_worker_auto_resume u a r db)) = account_seq db"
  by (auto simp: persist_worker_runtime_def set_worker_auto_resume_def Let_def split: option.split)

lemma account_desired: "account_db db (fst (set_worker_desired now u d ai xa db))"
  using account_ensure [of db now u]
  by (auto simp: account_db_def set_worker_desired_def Let_def split: option.split prod.split)

lemma account_apply: "account_db db (job_apply now opr db)"
  by (cases opr) (simp_all add: account_same account_queue account_fail runtime_ops_accounts account_updates account_disable
      account_create account_ensure account_desired renew_job_def defer_job_def complete_job_def complete_job_for_account_def)

lemma account_inv_apply: "account_inv db \<Longrightarrow> account_inv (job_apply now opr db)"
  using account_apply by (simp add: account_db_def account_change_def account_inv_def)

interpretation shops: transition_system "\<lambda>db. db = empty_backend" backend_step account_inv
proof unfold_locales
  show "account_inv db" if "db = empty_backend" for db
    using that by (simp add: account_inv_def accounts_ok_def empty_backend_def unique_key_def)
  show "account_inv db'" if "account_inv db" "backend_step db db'" for db db'
    using that by (auto simp: account_inv_apply elim!: backend_stepE)
qed

lemma stale_run:
  "stale i g (account_seq db) (accounts db) \<Longrightarrow>
   stale i g (account_seq (run_jobs ops db)) (accounts (run_jobs ops db))"
proof (induction ops db rule: run_jobs.induct)
  case (2 now opr ops db)
  then show ?case using account_apply [of db now opr] by (simp add: account_db_def account_change_def)
qed simp

lemma stale_not_current:
  assumes "stale i g (account_seq db) (accounts db)"
  shows "\<not> account_is_current u i g db" "\<not> snd (complete_job_for_account now j w u i g k db)"
    "\<not> no_changes c \<Longrightarrow> update_shop_account_if_current now u i g e c db = (db, None)"
proof -
  have n: "\<not> (sa_id a = i \<and> sa_generation a = g)" if "a \<in> set (accounts db)" for a
    using assms that by (auto simp: stale_def list_all_iff)
  then show c: "\<not> account_is_current u i g db" by (auto simp: account_is_current_def find_None_iff)
  then show "\<not> snd (complete_job_for_account now j w u i g k db)"
    by (simp add: complete_job_for_account_def write_jobs_def sql_count_def)
  have "sql_update P f (accounts db) = accounts db" "sql_count P (accounts db) = 0"
    if "P = (\<lambda>a. sa_user a = u \<and> sa_id a = i \<and> sa_enabled a \<and> sa_generation a = g \<and> (e \<longrightarrow> sa_display a = []))" for P f
    using n that by (auto simp: sql_count_0_iff intro!: sql_update_none)
  then show "update_shop_account_if_current now u i g e c db = (db, None)" if "\<not> no_changes c"
    using that by (simp add: update_shop_account_if_current_def Let_def)
qed

lemma disable_makes_stale:
  assumes inv: "account_inv db" and cur: "account_is_current u i g db"
  shows "stale i g (account_seq (fst (disable_shop_account now u i db))) (accounts (fst (disable_shop_account now u i db)))"
proof -
  from cur obtain a where a: "a \<in> set (accounts db)" "sa_user a = u" "sa_id a = i" "sa_enabled a" "sa_generation a = g"
    by (auto simp: account_is_current_def dest!: find_SomeD)
  have "i \<le> account_seq db" using inv a by (auto simp: account_inv_def accounts_ok_def list_all_iff)
  moreover have only: "x = a" if "x \<in> set (accounts db)" "sa_id x = i" for x
    using inv a that by (auto simp: account_inv_def accounts_ok_def intro: account_ids.same_row)
  have "g < sa_generation y" if "y \<in> set (accounts (fst (disable_shop_account now u i db)))" "sa_id y = i" for y
  proof -
    from that(1) have "y \<in> set (sql_update (\<lambda>a. sa_user a = u \<and> sa_id a = i \<and> sa_enabled a)
        (\<lambda>a. a\<lparr>sa_enabled := False, sa_status := ''deleted'', sa_error := [],
           sa_generation := sa_generation a + 1, sa_updated := now\<rparr>) (accounts db))"
      by (simp add: disable_shop_account_def Let_def)
    then show ?thesis
    proof (cases rule: sql_updateE)
      case (hit q)
      with only [of q] a show ?thesis by simp
    next
      case miss
      with only [of y] that(2) a show ?thesis by blast
    qed
  qed
  ultimately show ?thesis
    by (auto simp: stale_def list_all_iff disable_shop_account_def Let_def)
qed

end
