(* ===== verification/Job_Correctness.thy ===== *)
theory Job_Correctness
  imports Job_Rounds Job_Claims Account_Facts
begin

text \<open>
  Properties of the job queue and of the account generations that fence it.
\<close>

section \<open>A queue with one job\<close>

definition demo_job :: job_row where
  "demo_job = \<lparr>jb_id = 1, jb_user = 7, jb_account = 0, jb_kind = ''sync'', jb_idem = ''k1'', jb_payload = ''{}'',
     jb_status = Queued, jb_attempts = 0, jb_max = 3, jb_available = 0, jb_owner = None, jb_lease = None,
     jb_code = [], jb_error = [], jb_created = 0, jb_updated = 0, jb_completed = None\<rparr>"

definition demo_ops :: "(time \<times> job_op) list" where
  "demo_ops = [(0, JEnqueue (\<lambda>_. []) 7 ''sync'' ''k1'' PNone None 3 0)]"

definition demo_db :: backend_db where
  "demo_db = empty_backend\<lparr>jobs := [demo_job], job_seq := 1, next_cleanup := 3600\<rparr>"

lemma demo_strings: "py_strip ''sync'' = ''sync''" "py_strip ''k1'' = ''k1''" "py_strip ''w1'' = ''w1''"
  "py_strip ''w2'' = ''w2''" "py_len ''sync'' = 4" "py_len ''k1'' = 2" "py_len ''w1'' = 2" "py_len ''w2'' = 2"
  by (rule py_strip_plain, code_simp, rule py_strip_plain, code_simp, rule py_strip_plain, code_simp,
      rule py_strip_plain, code_simp, code_simp, code_simp, code_simp, code_simp)

lemma demo_enqueued: "run_jobs demo_ops empty_backend = demo_db"
  by (simp add: demo_ops_def demo_db_def demo_job_def enqueue_job_def Let_def demo_strings job_payload_def
      maybe_prune_retention_def prune_retention_def prune_jobs_def order_by_def empty_backend_def
      RETENTION_CLEANUP_INTERVAL_SECONDS_def job_key_def clamp_def)

lemma run_jobs_steps: "backend_step\<^sup>*\<^sup>* db (run_jobs ops db)"
  by (induction ops db rule: run_jobs.induct)
    (auto intro: converse_rtranclp_into_rtranclp backend_step.intros)

lemma demo_reach: "backend_step\<^sup>*\<^sup>* empty_backend demo_db"
  using run_jobs_steps [of empty_backend demo_ops] by (simp add: demo_enqueued)

lemma reachable_job_inv: "backend_step\<^sup>*\<^sup>* empty_backend db \<Longrightarrow> job_inv db"
  using backend.inv_reachable by blast

lemma reachable_account_inv: "backend_step\<^sup>*\<^sup>* empty_backend db \<Longrightarrow> account_inv db"
  using shops.inv_reachable by blast

lemma valid_w1: "valid_owner ''w1''"
  by (simp add: valid_owner_def demo_strings)

lemma demo_claimable: "claimable now demo_job" if "0 \<le> now"
  using that by (simp add: claimable_def demo_job_def)

lemma demo_find: "job_by_id 1 demo_db = Some demo_job"
  by (simp add: demo_db_def demo_job_def)

section \<open>Leases\<close>

lemma ready_holder:
  assumes "job_inv db" "job_holder db i = Some (w, u)" "now < u"
  shows "job_holder (recover_expired_jobs now (maybe_prune_retention now db)) i = Some (w, u)"
proof -
  have "fair (CHR ''x'' # w) now (job_holder db i) (job_holder (recover_expired_jobs now (maybe_prune_retention now db)) i)"
    using ready_good [of "CHR ''x'' # w" now db] assms(1) by (simp add: good_change_def job_inv_def job_holder_def)
  with assms(2,3) show ?thesis by (auto simp: fair_def)
qed

text \<open>
C26: Between a claim and the end of its lease a job belongs to the claiming worker alone.  In a reachable
store, if worker \<open>w\<close> holds job \<open>i\<close> until \<open>u\<close>, then after any sequence of store operations by others before
\<open>u\<close> (claims, batch claims, completions, failures, deferrals, enqueues, retention passes, account changes)
\<open>w\<close> still holds it until \<open>u\<close>, and a claim by anybody before \<open>u\<close> returns nothing.
\<close>

theorem job_lease_is_exclusive:
  assumes r: "backend_step\<^sup>*\<^sup>* empty_backend db" and h: "job_holder db i = Some (w, u)"
    and others: "others_before w u (map (\<lambda>(now, opr). (job_actor opr, now)) ops)"
    and late: "now < u" "valid_owner w'"
  shows "job_holder (run_jobs ops db) i = Some (w, u) \<and> snd (claim_job now i w' ls (run_jobs ops db)) = Inr None"
proof -
  have inv: "job_inv (run_jobs ops db)" using run_jobs_inv [OF reachable_job_inv [OF r]] .
  have h': "job_holder (run_jobs ops db) i = Some (w, u)"
    by (rule job_lease.held_through [OF run_jobs_history [OF reachable_job_inv [OF r]] h others])
  let ?db = "recover_expired_jobs now (maybe_prune_retention now (run_jobs ops db))"
  have "job_holder ?db i = Some (w, u)"
    by (rule ready_holder [OF inv h' late(1)])
  then obtain q where q: "job_by_id i ?db = Some q" "jb_status q = Running"
    by (auto simp: job_holder_def table_holder_def row_holder_def bind_eq_Some_conv split: if_splits)
  have "\<not> (jb_id j = i \<and> claimable now j)" if "j \<in> set (jobs ?db)" for j
  proof
    assume "jb_id j = i \<and> claimable now j"
    with that q inv_find_id [OF inv_ready [OF inv], of i now j] show False by (auto simp: claimable_def)
  qed
  then have "sql_count (\<lambda>j. jb_id j = i \<and> claimable now j) (jobs ?db) = 0" by (simp add: sql_count_0_iff)
  with h' late(2) show ?thesis by (simp add: claim_job_def Let_def valid_owner_def)
qed

definition held_db :: backend_db where
  "held_db = fst (claim_job 10 1 ''w1'' 60 demo_db)"

lemma held_job: "job_by_id 1 held_db = Some (take_job 10 ''w1'' 60 demo_job)"
  unfolding held_db_def
  by (rule claim_known_job(1) [OF reachable_job_inv [OF demo_reach] demo_find demo_claimable valid_w1]) simp

lemma held_reach: "backend_step\<^sup>*\<^sup>* empty_backend held_db"
  using rtranclp.rtrancl_into_rtrancl [OF demo_reach backend_step.intros [of demo_db 10 "JClaim 1 ''w1'' 60"]]
  by (simp add: held_db_def)

lemma held_holder: "job_holder held_db 1 = Some (''w1'', 70)"
  by (simp add: job_holder_def table_holder_def held_job row_holder_def take_job_def clamp_def)

theorem job_lease_is_exclusive_witness:
  "job_holder (run_jobs [(20, JClaim 1 ''w2'' 60), (30, JComplete 1 ''w2''), (40, JPrune 500)] held_db) 1 = Some (''w1'', 70) \<and>
   snd (claim_job 69 1 ''w1'' 60 (run_jobs [(20, JClaim 1 ''w2'' 60), (30, JComplete 1 ''w2''), (40, JPrune 500)] held_db)) = Inr None"
  by (rule job_lease_is_exclusive [OF held_reach held_holder _ _ valid_w1]) (simp_all add: demo_strings)

text \<open>
The attempts of a job are bounded.  In a reachable store every job has at least one and at most twenty
attempts allowed and never more used than allowed; a waiting job has one left, a running one has used one,
a running job has an owner and an end of lease, and job ids and job identities are unique.
\<close>

theorem job_attempts_bounded:
  assumes "backend_step\<^sup>*\<^sup>* empty_backend db"
  shows "distinct (map jb_id (jobs db)) \<and> distinct (map job_key (jobs db)) \<and>
    (\<forall>j. j \<in> set (jobs db) \<longrightarrow> 0 \<le> jb_attempts j \<and> jb_attempts j \<le> jb_max j \<and> 1 \<le> jb_max j \<and> jb_max j \<le> 20 \<and>
      (jb_status j \<in> {Queued, JobRetry} \<longrightarrow> jb_attempts j < jb_max j) \<and>
      (jb_status j = Running \<longrightarrow> 1 \<le> jb_attempts j \<and> jb_owner j \<noteq> None \<and> jb_lease j \<noteq> None))"
  using reachable_job_inv [OF assms] by (auto simp: job_inv_def job_table_ok_def job_ok_def unique_key_def list_all_iff)

theorem job_attempts_bounded_witness: "distinct (map job_key (jobs held_db))"
  using job_attempts_bounded [OF held_reach] by blast

text \<open>
C27: A job that keeps failing ends.  A waiting job that is claimed and failed once for every attempt it has
left, each time at least 900 seconds after the last (the longest backoff), is in the dead letter with all
its attempts used, whatever retry delay, error code and message the failures carry.
\<close>

theorem failing_job_is_dead_lettered:
  assumes "backend_step\<^sup>*\<^sup>* empty_backend db" "job_by_id i db = Some j" "jb_status j \<in> {Queued, JobRetry}"
    "spaced (jb_available j) ts" "valid_owner w" "int (length ts) = jb_max j - jb_attempts j"
  shows "\<exists>j'. job_by_id i (run_jobs (concat (map (failing_round i w ls c m d) ts)) db) = Some j' \<and>
    jb_status j' = JobDead \<and> jb_attempts j' = jb_max j \<and> jb_max j' = jb_max j"
proof -
  have "jb_attempts j < jb_max j"
    using reachable_job_inv [OF assms(1)] assms(2,3)
    by (auto simp: job_inv_def job_table_ok_def job_ok_def list_all_iff dest!: find_SomeD)
  with assms(6) have "ts \<noteq> []" by auto
  with failing_rounds_end [OF reachable_job_inv [OF assms(1)] assms(2-6)] show ?thesis by blast
qed

theorem failing_job_is_dead_lettered_witness:
  "\<exists>j'. job_by_id 1 (run_jobs (concat (map (failing_round 1 ''w1'' 60 ''temporary'' [] None) [10, 1000, 2000])) demo_db) = Some j' \<and>
    jb_status j' = JobDead \<and> jb_attempts j' = 3 \<and> jb_max j' = 3"
  using failing_job_is_dead_lettered [OF demo_reach demo_find, of "[10, 1000, 2000]" "''w1''" 60 "''temporary''" "[]" None]
  by (simp add: valid_w1 demo_job_def)

section \<open>Enqueueing and claiming\<close>

text \<open>
Enqueueing is idempotent.  While a job with the same user, account, kind and key is unfinished, an
enqueue that passes its checks returns that very job, whatever payload, attempts and delay it names, adds
no job, and issues no id.
\<close>

theorem enqueue_is_idempotent:
  assumes r: "backend_step\<^sup>*\<^sup>* empty_backend db" and j: "j \<in> set (jobs db)" "jb_status j \<notin> {JobCompleted, JobDead}"
    and k: "job_key j = (u, case a of None \<Rightarrow> 0 | Some i \<Rightarrow> i, py_strip kind, py_strip idem)"
    and e: "enqueue_job dumps now u kind idem payload a mx delay db = (db', Inr x)"
  shows "x = Some j \<and> set (jobs db') \<subseteq> set (jobs db) \<and> job_seq db' = job_seq db"
proof -
  let ?db = "maybe_prune_retention now db"
  have inv: "job_inv db" by (rule reachable_job_inv [OF r])
  have "find (\<lambda>q. job_key q = job_key j) (jobs ?db) = Some j"
    using retention_keeps [OF inv j] by (simp add: inv_find_key [OF inv_retention [OF inv]])
  note f = this [unfolded k]
  have new_key: "job_key \<lparr>jb_id = n, jb_user = u, jb_account = b, jb_kind = kd, jb_idem = im, jb_payload = p, jb_status = st,
      jb_attempts = tried, jb_max = mx, jb_available = av, jb_owner = ow, jb_lease = le, jb_code = co, jb_error = er,
      jb_created = cr, jb_updated = up, jb_completed = cm\<rparr> = (u, b, kd, im)"
    for n u b kd im p st tried mx av ow le co er cr up cm
    by (simp add: job_key_def)
  from e have "x = Some j \<and> db' = ?db"
    by (cases "job_payload dumps payload") (auto simp: enqueue_job_def Let_def new_key f split: if_splits)
  then show ?thesis using retention_subset by simp
qed

theorem enqueue_is_idempotent_witness:
  "snd (enqueue_job (\<lambda>_. []) 50 7 ''sync'' ''k1'' PNone None 9 5 held_db) = Inr (Some (take_job 10 ''w1'' 60 demo_job))"
proof -
  have "\<exists>db' x. enqueue_job (\<lambda>_. []) 50 7 ''sync'' ''k1'' PNone None 9 5 held_db = (db', Inr x)"
    by (simp add: enqueue_job_def Let_def demo_strings job_payload_def)
  then obtain db' x where e: "enqueue_job (\<lambda>_. []) 50 7 ''sync'' ''k1'' PNone None 9 5 held_db = (db', Inr x)" by blast
  moreover have "x = Some (take_job 10 ''w1'' 60 demo_job)"
    using enqueue_is_idempotent [OF held_reach _ _ _ e, of "take_job 10 ''w1'' 60 demo_job"] find_SomeD [OF held_job]
    by (simp add: take_job_def demo_job_def job_key_def demo_strings)
  ultimately show ?thesis by simp
qed

text \<open>
A batch claim hands out the oldest work and leaves nothing behind.  It returns the first claimable jobs
of the wanted kinds by id, at most the clamped limit, each running for the claiming worker with one more
attempt and a fresh lease; afterwards no running job has an expired lease, and if fewer jobs came back than
were asked for, no wanted job is claimable any more.
\<close>

theorem claim_jobs_hands_out_oldest:
  assumes r: "backend_step\<^sup>*\<^sup>* empty_backend db" and w: "py_strip w \<noteq> []" "py_len (py_strip w) \<le> 128"
    and k: "kinds_given kinds" and e: "claim_jobs now w limit ls kinds db = (db', Inr rows)"
  shows "rows = map (take_job now (py_strip w) ls) (take (nat (clamp 1 100 limit)) (order_by jb_id
      (filter (wants now kinds) (jobs (recover_expired_jobs now (maybe_prune_retention now db)))))) \<and>
    (\<forall>j. j \<in> set (jobs db') \<longrightarrow> \<not> lease_expired now j \<and> (int (length rows) < clamp 1 100 limit \<longrightarrow> \<not> wants now kinds j))"
proof -
  note inv = reachable_job_inv [OF r]
  from e have s: "snd (claim_jobs now w limit ls kinds db) = Inr rows" "fst (claim_jobs now w limit ls kinds db) = db'"
    by simp_all
  have "rows = map (take_job now (py_strip w) ls) (take (nat (clamp 1 100 limit)) (order_by jb_id
      (filter (wants now kinds) (jobs (recover_expired_jobs now (maybe_prune_retention now db))))))"
    using claim_jobs_eq(2) [OF inv w k refl refl, of now limit ls] s(1) by simp
  moreover have "\<not> lease_expired now j" if "j \<in> set (jobs db')" for j
    by (rule none_expired [OF inv w k, where limit = limit and ls = ls]) (use that s in simp)
  moreover have "\<not> wants now kinds j" if "j \<in> set (jobs db')" "int (length rows) < clamp 1 100 limit" for j
    by (rule all_taken [OF inv w k s(1)]) (use that s in simp_all)
  ultimately show ?thesis by blast
qed

theorem claim_jobs_hands_out_oldest_witness:
  "{j. j \<in> set (jobs (fst (claim_jobs 100 ''w2'' 5 60 None held_db))) \<and> lease_expired 100 j} = {}"
proof -
  have "\<exists>db' rows. claim_jobs 100 ''w2'' 5 60 None held_db = (db', Inr rows)"
    by (simp add: claim_jobs_def Let_def demo_strings)
  then obtain db' rows where e: "claim_jobs 100 ''w2'' 5 60 None held_db = (db', Inr rows)" by blast
  show ?thesis
    using claim_jobs_hands_out_oldest [OF held_reach _ _ _ e] by (simp add: demo_strings kinds_given_def e)
qed

section \<open>Generations\<close>

text \<open>
C28: Disabling a shop fences off everything started before it, for good.  If account \<open>a\<close> was current with
generation \<open>g\<close> and is disabled, then after any further operations of the store (the account may be
enabled again or removed) generation \<open>g\<close> is not current, a job claimed under it cannot be completed for
the account, and an update of the account guarded by it changes nothing.
\<close>

theorem disabled_shop_stays_fenced:
  assumes r: "backend_step\<^sup>*\<^sup>* empty_backend db" and cur: "account_is_current u a g db"
    and db': "db' = run_jobs ops (fst (disable_shop_account now u a db))"
  shows "\<not> account_is_current u' a g db' \<and> \<not> snd (complete_job_for_account now' i w u' a g key db') \<and>
    fst (update_shop_account_if_current now' u' a g if_empty c db') = db'"
proof -
  have s: "stale a g (account_seq db') (accounts db')"
    unfolding db' by (rule stale_run [OF disable_makes_stale [OF reachable_account_inv [OF r] cur]])
  show ?thesis
    using stale_not_current(1,2) [OF s] stale_not_current(3) [OF s, of c now' u' if_empty]
    by (cases "no_changes c") (simp_all add: update_shop_account_if_current_def)
qed

definition shop_ops :: "(time \<times> job_op) list" where
  "shop_ops = [(0, JEnsure 7)]"

lemma shop_current: "account_is_current 7 1 0 (run_jobs shop_ops empty_backend)"
  by (simp add: shop_ops_def empty_backend_def ensure_default_shop_account_def Let_def get_account_by_key_def
      new_account_def account_is_current_def ensure_worker_runtime_def)

theorem disabled_shop_stays_fenced_witness:
  "\<not> account_is_current 7 1 0 (run_jobs
     [(60, JUpdate 7 (Some 1) \<lparr>ch_display = None, ch_ref = None, ch_status = Some ''ready'', ch_enabled = Some True,
        ch_error = None, ch_verified = None, ch_sync = None\<rparr>)]
     (fst (disable_shop_account 50 7 1 (run_jobs shop_ops empty_backend))))"
  using disabled_shop_stays_fenced [OF run_jobs_steps shop_current refl] by blast

text \<open>
Writing a worker's runtime is a compare-and-swap on its generation.  A write that expects generation \<open>g\<close>
succeeds exactly if the stored generation (0 without a row) is \<open>g\<close>, and then the row reads back as returned;
a loser changes nothing.  Of two writers that both read \<open>g\<close>, the second loses once the first has moved it.
\<close>

theorem runtime_write_is_compare_and_swap:
  assumes own: "get_shop_account u a db \<noteq> None"
    and gen: "stored = (case runtime_of u a db of None \<Rightarrow> 0 | Some r \<Rightarrow> wr_generation r)"
    and w: "persist_worker_runtime now u a rep (Some g) db = (db', res)"
  shows "(g \<noteq> stored \<longrightarrow> db' = db \<and> res = Inr None) \<and>
    (g = stored \<longrightarrow> (\<exists>row. res = Inr (Some row) \<and> runtime_of u a db' = Some row \<and>
       wr_generation row = (case rr_generation rep of None \<Rightarrow> g | Some g' \<Rightarrow> g') \<and>
       (wr_generation row \<noteq> g \<longrightarrow> persist_worker_runtime now2 u a rep2 (Some g) db' = (db', Inr None))))"
proof -
  have wr: "\<exists>row. res = Inr (Some row) \<and> runtime_of u a db' = Some row \<and>
      wr_generation row = (case rr_generation rep of None \<Rightarrow> g | Some g' \<Rightarrow> g') \<and> accounts db' = accounts db" if "g = stored"
  proof (cases "runtime_of u a db")
    case None
    have k: "runtime_key (reported_runtime now u a rep) = (u, a)"
      "wr_generation (reported_runtime now u a rep) = (case rr_generation rep of None \<Rightarrow> 0 | Some g \<Rightarrow> g)"
      by (simp_all add: runtime_key_def reported_runtime_def)
    from None own gen w that show ?thesis
      by (auto simp: persist_worker_runtime_def Let_def runtime_keys.find_append_new k)
  next
    case (Some row)
    have k: "\<And>r. runtime_key (report_runtime now rep r) = runtime_key r"
      "wr_generation (report_runtime now rep row) = (case rr_generation rep of None \<Rightarrow> wr_generation row | Some g \<Rightarrow> g)"
      by (simp_all add: runtime_key_def report_runtime_def)
    from Some own gen w that have "res = Inr (Some (report_runtime now rep row))" "accounts db' = accounts db"
      "runtimes db' = sql_update (\<lambda>r. runtime_key r = (u, a)) (report_runtime now rep) (runtimes db)"
      by (auto simp: persist_worker_runtime_def)
    moreover have "runtime_key row = (u, a)" using Some by (auto dest: find_SomeD)
    ultimately show ?thesis using Some gen that
      by (simp add: runtime_keys.find_update k split: option.split)
  qed
  have "db' = db \<and> res = Inr None" if "g \<noteq> stored"
    using own gen w that by (auto simp: persist_worker_runtime_def split: option.splits)
  moreover have "persist_worker_runtime now2 u a rep2 (Some g) db' = (db', Inr None)"
    if "runtime_of u a db' = Some row" "wr_generation row \<noteq> g" "accounts db' = accounts db" for row
    using own that by (simp add: persist_worker_runtime_def get_shop_account_def)
  ultimately show ?thesis using wr by blast
qed

definition demo_report :: runtime_report where
  "demo_report = \<lparr>rr_desired = True, rr_ai = False, rr_state = ''running'', rr_pid = Some 42, rr_generation = Some 1,
     rr_started = Some 5, rr_heartbeat = Some 5, rr_exit = None, rr_error = []\<rparr>"

theorem runtime_write_is_compare_and_swap_witness:
  "\<exists>db'. snd (persist_worker_runtime 6 7 1 demo_report (Some 0) db') = Inr None"
proof -
  let ?db = "run_jobs shop_ops empty_backend"
  have own: "get_shop_account 7 1 ?db \<noteq> None"
    by (simp add: shop_ops_def empty_backend_def ensure_default_shop_account_def Let_def get_account_by_key_def
      new_account_def get_shop_account_def ensure_worker_runtime_def)
  have gen: "0 = (case runtime_of 7 1 ?db of None \<Rightarrow> 0 | Some r \<Rightarrow> wr_generation r)"
    by (simp add: shop_ops_def empty_backend_def ensure_default_shop_account_def Let_def get_account_by_key_def
      new_account_def ensure_worker_runtime_def sql_insert_ignore_def runtime_key_def)
  obtain db' res where w: "persist_worker_runtime 5 7 1 demo_report (Some 0) ?db = (db', res)" by fastforce
  from runtime_write_is_compare_and_swap [OF own gen w, of 6 demo_report]
  have "persist_worker_runtime 6 7 1 demo_report (Some 0) db' = (db', Inr None)" by (auto simp: demo_report_def)
  then show ?thesis by (metis snd_conv)
qed

end
