(* ===== verification/Control_Leases.thy ===== *)
theory Control_Leases
  imports Lease_Contract Py_Values
begin

text \<open>
  Control leases of \<^verbatim>\<open>backend/db.py\<close>: \<^verbatim>\<open>acquire_control_lease\<close>, \<^verbatim>\<open>reserve_shop_connection\<close>,
  \<^verbatim>\<open>renew_control_lease\<close>, \<^verbatim>\<open>release_control_lease\<close> and \<^verbatim>\<open>arm_control_lease_cooldown\<close> on the table
  \<^verbatim>\<open>control_leases\<close>.
\<close>

record lease_row =
  cl_key :: string
  cl_owner :: string
  cl_until :: time
  cl_cooldown :: time
  cl_updated :: time

datatype lease_answer = Acquired | Busy | Cooldown

interpretation lease_keys: keyed_table cl_key .

abbreviation lease_of :: "string \<Rightarrow> lease_row list \<Rightarrow> lease_row option" where
  "lease_of k t \<equiv> find (\<lambda>r. cl_key r = k) t"

definition acquire_control_lease ::
  "time \<Rightarrow> string \<Rightarrow> string \<Rightarrow> time \<Rightarrow> time \<Rightarrow> lease_row list \<Rightarrow> (lease_row list, lease_answer) outcome"
where
  "acquire_control_lease now resource_key raw_owner lease_seconds cooldown_seconds t =
     (let key = py_strip resource_key; owner = py_strip raw_owner in
      if key = [] \<or> py_len key > 200 \<or> owner = [] \<or> py_len owner > 128
      then (t, Inl (ValueError ''invalid control lease identity''))
      else
        (let lease_until = now + clamp 1 3600 lease_seconds;
             cooldown_until = now + clamp 0 86400 cooldown_seconds;
             taken = (\<lambda>limit. case lease_of key t of None \<Rightarrow> False
                | Some row \<Rightarrow> cl_owner row \<noteq> owner \<and> limit row > now)
         in if taken cl_until then (t, Inr Busy)
            else if taken cl_cooldown then (t, Inr Cooldown)
            else (sql_upsert cl_key
                    \<lparr>cl_key = key, cl_owner = owner, cl_until = lease_until, cl_cooldown = cooldown_until, cl_updated = now\<rparr>
                    (\<lambda>r. r\<lparr>cl_owner := owner, cl_until := lease_until, cl_cooldown := cooldown_until, cl_updated := now\<rparr>) t,
                  Inr Acquired)))"

datatype shop_answer = ShopAcquired | ShopBlocked string "int option"

definition ceil_time :: "time \<Rightarrow> int" where
  "ceil_time x = \<lceil>x\<rceil>"

fun last_blocker :: "(time \<times> string) \<Rightarrow> (time \<times> string) list \<Rightarrow> time \<times> string" where
  \<comment> \<open>\<^verbatim>\<open>max(blockers, key=lambda item: item[0])\<close>: the first of the greatest\<close>
  "last_blocker b [] = b"
| "last_blocker b (c # cs) = last_blocker (if fst c > fst b then c else b) cs"

definition lease_blockers :: "time \<Rightarrow> bool \<Rightarrow> string \<Rightarrow> lease_row list \<Rightarrow> (time \<times> string) list" where
  "lease_blockers now skip_cooldown key t =
     (case lease_of key t of
        None \<Rightarrow> []
      | Some row \<Rightarrow>
          (if cl_until row > now then [(cl_until row, ''sync_busy'')] else []) @
          (if cl_cooldown row > now \<and> \<not> skip_cooldown then [(cl_cooldown row, ''sync_cooldown'')] else []))"

definition reserve_shop_connection ::
  "time \<Rightarrow> string \<Rightarrow> string \<Rightarrow> string \<Rightarrow> time \<Rightarrow> time option \<Rightarrow> bool \<Rightarrow> lease_row list \<Rightarrow>
   (lease_row list, shop_answer) outcome"
where
  \<comment> \<open>\<open>risk_until\<close> is \<open>None\<close> for an infinite cooldown\<close>
  "reserve_shop_connection now resource_key owner sync_key lease_seconds risk_until ignore_sync_cooldown t =
     (if resource_key = [] \<or> py_len resource_key > 200 \<or> owner = [] \<or> py_len owner > 128
      then (t, Inl (ValueError ''invalid shop connection identity''))
      else
        (let until = now + clamp 1 3600 lease_seconds;
             blockers =
               (case risk_until of None \<Rightarrow> [] | Some r \<Rightarrow> if r > now then [(r, ''risk_cooldown'')] else []) @
               lease_blockers now ignore_sync_cooldown sync_key t @
               lease_blockers now (ignore_sync_cooldown \<and> resource_key = sync_key) resource_key t
         in if risk_until = None then (t, Inr (ShopBlocked ''risk_cooldown'' None))
            else case blockers of
              b # bs \<Rightarrow>
                (case last_blocker b bs of (deadline, code) \<Rightarrow>
                   (t, Inr (ShopBlocked code (Some (max 1 (ceil_time (deadline - now)))))))
            | [] \<Rightarrow>
                (sql_upsert cl_key
                   \<lparr>cl_key = resource_key, cl_owner = owner, cl_until = until, cl_cooldown = 0, cl_updated = now\<rparr>
                   (\<lambda>r. r\<lparr>cl_owner := owner, cl_until := until, cl_updated := now\<rparr>) t,
                 Inr ShopAcquired)))"

definition renew_control_lease ::
  "time \<Rightarrow> string \<Rightarrow> string \<Rightarrow> time \<Rightarrow> lease_row list \<Rightarrow> lease_row list \<times> bool"
where
  "renew_control_lease now resource_key owner lease_seconds t =
     (let hit = (\<lambda>r. cl_key r = resource_key \<and> cl_owner r = owner \<and> cl_until r > now) in
      (sql_update hit (\<lambda>r. r\<lparr>cl_until := now + clamp 1 3600 lease_seconds, cl_updated := now\<rparr>) t,
       sql_count hit t = 1))"

definition release_control_lease :: "time \<Rightarrow> string \<Rightarrow> string \<Rightarrow> lease_row list \<Rightarrow> lease_row list \<times> bool" where
  "release_control_lease now resource_key owner t =
     (let hit = (\<lambda>r. cl_key r = resource_key \<and> cl_owner r = owner) in
      (sql_update hit (\<lambda>r. r\<lparr>cl_owner := [], cl_until := 0, cl_updated := now\<rparr>) t, sql_count hit t = 1))"

definition arm_control_lease_cooldown :: "time \<Rightarrow> string \<Rightarrow> time \<Rightarrow> lease_row list \<Rightarrow> lease_row list" where
  "arm_control_lease_cooldown now resource_key seconds t =
     (let cooldown_until = now + clamp 0 86400 seconds in
      sql_upsert cl_key
        \<lparr>cl_key = resource_key, cl_owner = [], cl_until = 0, cl_cooldown = cooldown_until, cl_updated = now\<rparr>
        (\<lambda>r. r\<lparr>cl_cooldown := cooldown_until, cl_updated := now\<rparr>) t)"

section \<open>Operations and their actors\<close>

datatype lease_op =
    LAcquire string string time time
  | LReserve string string string time "time option" bool
  | LRenew string string time
  | LRelease string string
  | LCooldown string time

fun lease_actor :: "lease_op \<Rightarrow> string" where
  "lease_actor (LAcquire k owner ls cs) = py_strip owner"
| "lease_actor (LReserve k owner sync ls risk ign) = owner"
| "lease_actor (LRenew k owner ls) = owner"
| "lease_actor (LRelease k owner) = owner"
| "lease_actor (LCooldown k s) = []"

fun lease_apply :: "time \<Rightarrow> lease_op \<Rightarrow> lease_row list \<Rightarrow> lease_row list" where
  "lease_apply now (LAcquire k owner ls cs) t = fst (acquire_control_lease now k owner ls cs t)"
| "lease_apply now (LReserve k owner sync ls risk ign) t = fst (reserve_shop_connection now k owner sync ls risk ign t)"
| "lease_apply now (LRenew k owner ls) t = fst (renew_control_lease now k owner ls t)"
| "lease_apply now (LRelease k owner) t = fst (release_control_lease now k owner t)"
| "lease_apply now (LCooldown k s) t = arm_control_lease_cooldown now k s t"

fun run_leases :: "(time \<times> lease_op) list \<Rightarrow> lease_row list \<Rightarrow> lease_row list" where
  "run_leases [] t = t"
| "run_leases ((now, opr) # ops) t = run_leases ops (lease_apply now opr t)"

inductive lease_acts :: "string \<Rightarrow> time \<Rightarrow> lease_row list \<Rightarrow> lease_row list \<Rightarrow> bool" where
  "lease_acts (lease_actor opr) now t (lease_apply now opr t)"

inductive_cases lease_actsE: "lease_acts a now t t'"

definition lease_holder :: "lease_row list \<Rightarrow> string \<Rightarrow> (string \<times> time) option" where
  "lease_holder t k = (case lease_of k t of
     None \<Rightarrow> None | Some r \<Rightarrow> if cl_owner r = [] then None else Some (cl_owner r, cl_until r))"

lemma lease_upsert:
  assumes "\<And>r. cl_key (f r) = cl_key r"
  shows "lease_of k (sql_upsert cl_key new f t) =
    (if k = cl_key new then Some (case lease_of k t of None \<Rightarrow> new | Some r \<Rightarrow> f r) else lease_of k t)"
  using lease_keys.find_upsert [of f k new t] assms by (auto split: option.split)

lemma lease_update:
  assumes "\<And>r. cl_key (f r) = cl_key r"
  shows "lease_of k (sql_update P f t) = map_option (\<lambda>r. if P r then f r else r) (lease_of k t)"
  using lease_keys.find_update [of f k P t] assms by simp

lemma acquire_cases:
  obtains (kept) "fst (acquire_control_lease now k owner ls cs t) = t" "snd (acquire_control_lease now k owner ls cs t) \<noteq> Inr Acquired"
    | (granted) r where "\<And>j. lease_of j (fst (acquire_control_lease now k owner ls cs t)) =
        (if j = py_strip k then Some r else lease_of j t)"
      "cl_owner r = py_strip owner" "cl_until r = now + clamp 1 3600 ls" "cl_cooldown r = now + clamp 0 86400 cs"
      "\<And>q. lease_of (py_strip k) t = Some q \<Longrightarrow> cl_owner q = py_strip owner \<or> cl_until q \<le> now \<and> cl_cooldown q \<le> now"
      "snd (acquire_control_lease now k owner ls cs t) = Inr Acquired" "py_strip owner \<noteq> []"
proof (cases "snd (acquire_control_lease now k owner ls cs t) = Inr Acquired")
  case False
  then show thesis by (intro kept) (auto simp: acquire_control_lease_def Let_def split: if_splits)
next
  case True
  let ?new = "\<lparr>cl_key = py_strip k, cl_owner = py_strip owner, cl_until = now + clamp 1 3600 ls,
     cl_cooldown = now + clamp 0 86400 cs, cl_updated = now\<rparr>"
  let ?f = "\<lambda>r. r\<lparr>cl_owner := py_strip owner, cl_until := now + clamp 1 3600 ls,
     cl_cooldown := now + clamp 0 86400 cs, cl_updated := now\<rparr>"
  from True have e: "fst (acquire_control_lease now k owner ls cs t) = sql_upsert cl_key ?new ?f t"
    and q: "\<And>q. lease_of (py_strip k) t = Some q \<Longrightarrow> cl_owner q = py_strip owner \<or> cl_until q \<le> now \<and> cl_cooldown q \<le> now"
    and o: "py_strip owner \<noteq> []"
    by (auto simp: acquire_control_lease_def Let_def split: if_splits)
  show thesis
    by (rule granted [of "case lease_of (py_strip k) t of None \<Rightarrow> ?new | Some r \<Rightarrow> ?f r"])
      (auto simp: e lease_upsert q True o split: option.split)
qed

lemma blockers_none:
  assumes "lease_blockers now skip k t = []" "lease_of k t = Some r"
  shows "cl_until r \<le> now"
  using assms by (auto simp: lease_blockers_def split: if_splits)

lemma shop_reserve_cases:
  obtains (kept) "fst (reserve_shop_connection now k owner sync ls risk ign t) = t"
    | (granted) r where "\<And>j. lease_of j (fst (reserve_shop_connection now k owner sync ls risk ign t)) =
        (if j = k then Some r else lease_of j t)"
      "cl_owner r = owner" "\<And>q. lease_of k t = Some q \<Longrightarrow> cl_until q \<le> now" "owner \<noteq> []"
proof (cases "snd (reserve_shop_connection now k owner sync ls risk ign t) = Inr ShopAcquired")
  case False
  then show thesis
    by (intro kept) (auto simp: reserve_shop_connection_def Let_def split: if_splits list.splits prod.splits)
next
  case True
  let ?new = "\<lparr>cl_key = k, cl_owner = owner, cl_until = now + clamp 1 3600 ls, cl_cooldown = 0, cl_updated = now\<rparr>"
  let ?f = "\<lambda>r. r\<lparr>cl_owner := owner, cl_until := now + clamp 1 3600 ls, cl_updated := now\<rparr>"
  from True have e: "fst (reserve_shop_connection now k owner sync ls risk ign t) = sql_upsert cl_key ?new ?f t"
    and b: "lease_blockers now (ign \<and> k = sync) k t = []" and o: "owner \<noteq> []"
    by (auto simp: reserve_shop_connection_def Let_def split: if_splits list.splits prod.splits)
  show thesis
    by (rule granted [of "case lease_of k t of None \<Rightarrow> ?new | Some r \<Rightarrow> ?f r"])
      (auto simp: e lease_upsert o dest: blockers_none [OF b] split: option.split)
qed

lemma lease_fence:
  assumes "lease_holder t k = Some (w, u)" "lease_actor opr \<noteq> w" "now < u"
  shows "lease_holder (lease_apply now opr t) k = Some (w, u)"
proof -
  obtain r where r: "lease_of k t = Some r" "cl_owner r = w" "cl_until r = u" "w \<noteq> []"
    using assms(1) by (auto simp: lease_holder_def split: option.splits if_splits)
  show ?thesis
  proof (cases opr)
    case (LAcquire j owner ls cs)
    then show ?thesis
      using assms r by (cases rule: acquire_cases [of now j owner ls cs t]) (auto simp: lease_holder_def)
  next
    case (LReserve j owner sync ls risk ign)
    then show ?thesis
      using assms r by (cases rule: shop_reserve_cases [of now j owner sync ls risk ign t]) (auto simp: lease_holder_def)
  next
    case (LRenew j owner ls)
    then show ?thesis
      using assms r by (simp add: renew_control_lease_def Let_def lease_holder_def lease_update)
  next
    case (LRelease j owner)
    then show ?thesis
      using assms r by (simp add: release_control_lease_def Let_def lease_holder_def lease_update)
  next
    case (LCooldown j s)
    then show ?thesis
      using r by (cases "j = k") (simp_all add: arm_control_lease_cooldown_def Let_def lease_holder_def lease_upsert)
  qed
qed

lemma lease_entry:
  assumes "lease_holder (lease_apply now opr t) k = Some (w, u)" "lease_holder t k \<noteq> Some (w, u)"
  shows "lease_actor opr = w"
proof (cases opr)
  case (LAcquire j owner ls cs)
  then show ?thesis
    using assms by (cases rule: acquire_cases [of now j owner ls cs t]) (auto simp: lease_holder_def split: if_splits)
next
  case (LReserve j owner sync ls risk ign)
  then show ?thesis
    using assms by (cases rule: shop_reserve_cases [of now j owner sync ls risk ign t]) (auto simp: lease_holder_def split: if_splits)
next
  case (LRenew j owner ls)
  then show ?thesis
    using assms by (auto simp: renew_control_lease_def Let_def lease_holder_def lease_update split: option.splits if_splits)
next
  case (LRelease j owner)
  then show ?thesis
    using assms by (auto simp: release_control_lease_def Let_def lease_holder_def lease_update split: option.splits if_splits)
next
  case (LCooldown j s)
  then show ?thesis
    using assms by (auto simp: arm_control_lease_cooldown_def Let_def lease_holder_def lease_upsert split: option.splits if_splits)
qed

interpretation control: fenced_lease lease_holder lease_acts
  by unfold_locales (auto elim!: lease_actsE intro: lease_fence lease_entry)

lemma run_leases_history: "history lease_acts t (map (\<lambda>(now, opr). (lease_actor opr, now)) ops) (run_leases ops t)"
proof (induction ops arbitrary: t)
  case (Cons e ops)
  obtain now opr where e: "e = (now, opr)" by (cases e)
  have "lease_acts (lease_actor opr) now t (lease_apply now opr t)" by (rule lease_acts.intros)
  with Cons show ?case unfolding e by (simp add: history.act)
qed (simp add: history.start)

lemma unique_lease_apply: "unique_key cl_key t \<Longrightarrow> unique_key cl_key (lease_apply now opr t)"
  by (cases opr)
    (auto simp: acquire_control_lease_def reserve_shop_connection_def renew_control_lease_def release_control_lease_def
      arm_control_lease_cooldown_def Let_def lease_keys.unique_upsert lease_keys.unique_update split: list.split prod.split)

lemma unique_run_leases: "unique_key cl_key t \<Longrightarrow> unique_key cl_key (run_leases ops t)"
  by (induction ops t rule: run_leases.induct) (simp_all add: unique_lease_apply)

end
