(* ===== verification/Lease_Correctness.thy ===== *)
theory Lease_Correctness
  imports Control_Leases
begin

text \<open>
  Properties of the control leases: exclusion and cooldown, and their refinement of a map of leases.
\<close>

section \<open>Exclusion\<close>

lemma holder_blocks:
  assumes "lease_holder t k = Some (w, u)" "now < u"
  shows "py_strip w' \<noteq> w \<Longrightarrow> py_strip k' = k \<Longrightarrow> k \<noteq> [] \<Longrightarrow> py_len k \<le> 200 \<Longrightarrow> py_strip w' \<noteq> [] \<Longrightarrow>
      py_len (py_strip w') \<le> 128 \<Longrightarrow> acquire_control_lease now k' w' ls cs t = (t, Inr Busy)"
    and "snd (reserve_shop_connection now k w' sync ls risk ign t) \<noteq> Inr ShopAcquired"
proof -
  obtain r where r: "lease_of k t = Some r" "cl_owner r = w" "cl_until r = u"
    using assms(1) by (auto simp: lease_holder_def split: option.splits if_splits)
  show "acquire_control_lease now k' w' ls cs t = (t, Inr Busy)"
    if "py_strip w' \<noteq> w" "py_strip k' = k" "k \<noteq> []" "py_len k \<le> 200" "py_strip w' \<noteq> []" "py_len (py_strip w') \<le> 128"
    using that r assms(2) by (auto simp: acquire_control_lease_def Let_def)
  have "lease_blockers now skip k t \<noteq> []" for skip
    using r assms(2) by (simp add: lease_blockers_def)
  then show "snd (reserve_shop_connection now k w' sync ls risk ign t) \<noteq> Inr ShopAcquired"
    by (auto simp: reserve_shop_connection_def Let_def split: list.split prod.split)
qed

text \<open>
C32: A control lease excludes everybody else until it ends.  After \<^verbatim>\<open>acquire_control_lease\<close> granted a resource to an
owner, and after any operations of others before the end of the lease (acquisitions, shop reservations,
renewals, releases, cooldowns), the owner still holds it until then: another owner's acquisition is
answered busy and changes nothing, and no shop connection is reserved on it.
\<close>

theorem control_lease_is_exclusive:
  assumes a: "acquire_control_lease t0 k w ls cs tab = (tab1, Inr Acquired)" and u: "u = t0 + clamp 1 3600 ls"
    and others: "others_before (py_strip w) u (map (\<lambda>(now, opr). (lease_actor opr, now)) ops)"
    and now: "now < u" and w': "py_strip w' \<noteq> py_strip w" "py_strip w' \<noteq> []" "py_len (py_strip w') \<le> 128"
  shows "lease_holder (run_leases ops tab1) (py_strip k) = Some (py_strip w, u) \<and>
    acquire_control_lease now k w' ls' cs' (run_leases ops tab1) = (run_leases ops tab1, Inr Busy) \<and>
    snd (reserve_shop_connection now (py_strip k) w' sync ls' risk ign (run_leases ops tab1)) \<noteq> Inr ShopAcquired"
proof -
  have k: "py_strip k \<noteq> []" "py_len (py_strip k) \<le> 200" "py_strip w \<noteq> []"
    using a by (auto simp: acquire_control_lease_def Let_def split: if_splits)
  have "lease_holder tab1 (py_strip k) = Some (py_strip w, u)"
    using a u k by (cases rule: acquire_cases [of t0 k w ls cs tab])
      (auto simp: lease_holder_def)
  then have h: "lease_holder (run_leases ops tab1) (py_strip k) = Some (py_strip w, u)"
    by (rule control.held_through [OF run_leases_history _ others])
  show ?thesis
    using holder_blocks(1) [OF h now w'(1) refl k(1,2) w'(2,3)] holder_blocks(2) [OF h now] h by blast
qed

lemma demo_names: "py_strip ''sync'' = ''sync''" "py_strip ''a'' = ''a''" "py_strip ''b'' = ''b''"
  "py_len ''sync'' = 4" "py_len ''a'' = 1" "py_len ''b'' = 1"
  by (rule py_strip_plain, code_simp, rule py_strip_plain, code_simp, rule py_strip_plain, code_simp, code_simp, code_simp, code_simp)

definition demo_leases :: "lease_row list" where
  "demo_leases = [\<lparr>cl_key = ''sync'', cl_owner = ''a'', cl_until = 130, cl_cooldown = 400, cl_updated = 100\<rparr>]"

lemma demo_acquired: "acquire_control_lease 100 ''sync'' ''a'' 30 300 [] = (demo_leases, Inr Acquired)"
  by (simp add: acquire_control_lease_def Let_def demo_names sql_upsert_def clamp_def demo_leases_def)

theorem control_lease_is_exclusive_witness:
  "acquire_control_lease 129 ''sync'' ''b'' 30 0 (run_leases [(110, LAcquire ''sync'' ''b'' 60 0), (120, LRelease ''sync'' ''b'')] demo_leases) =
   (run_leases [(110, LAcquire ''sync'' ''b'' 60 0), (120, LRelease ''sync'' ''b'')] demo_leases, Inr Busy)"
  using control_lease_is_exclusive [OF demo_acquired refl,
      of "[(110, LAcquire ''sync'' ''b'' 60 0), (120, LRelease ''sync'' ''b'')]" 129 "''b''"]
  by (simp add: demo_names clamp_def)

text \<open>
A cooldown outlives the lease that set it.  After an owner acquired a resource with a cooldown and released
it, every valid acquisition before the cooldown ends is refused with \<^verbatim>\<open>cooldown\<close> and changes nothing, the
former owner's included, and from its end on the next one is granted.
\<close>

theorem cooldown_outlives_release:
  assumes a: "acquire_control_lease t0 k w ls cs tab = (tab1, Inr Acquired)" and u: "unique_key cl_key tab"
    and rel: "release_control_lease t1 (py_strip k) (py_strip w) tab1 = (tab2, ok)" and t: "0 \<le> now"
    and w': "py_strip w' \<noteq> []" "py_len (py_strip w') \<le> 128"
  shows "ok \<and> (now < t0 + clamp 0 86400 cs \<longrightarrow> acquire_control_lease now k w' ls' cs' tab2 = (tab2, Inr Cooldown)) \<and>
    (t0 + clamp 0 86400 cs \<le> now \<longrightarrow> snd (acquire_control_lease now k w' ls' cs' tab2) = Inr Acquired)"
proof -
  have k: "py_strip k \<noteq> []" "py_len (py_strip k) \<le> 200"
    using a by (auto simp: acquire_control_lease_def Let_def split: if_splits)
  obtain r where r: "lease_of (py_strip k) tab1 = Some r" "cl_owner r = py_strip w" "cl_cooldown r = t0 + clamp 0 86400 cs"
    using a by (cases rule: acquire_cases [of t0 k w ls cs tab]) auto
  have "unique_key cl_key tab1" using unique_lease_apply [OF u, of t0 "LAcquire k w ls cs"] a by simp
  then have "sql_count (\<lambda>q. cl_key q = py_strip k \<and> cl_owner q = py_strip w) tab1 = 1"
    using r find_SomeD [OF r(1)] by (subst count_key_le) auto
  then have ok: ok using rel by (auto simp: release_control_lease_def Let_def)
  have "lease_of (py_strip k) tab2 = Some (r\<lparr>cl_owner := [], cl_until := 0, cl_updated := t1\<rparr>)"
    using rel r find_SomeD [OF r(1)] by (auto simp: release_control_lease_def Let_def lease_update)
  with ok r k t w' show ?thesis by (auto simp: acquire_control_lease_def Let_def)
qed

theorem cooldown_outlives_release_witness:
  "acquire_control_lease 300 ''sync'' ''a'' 30 0 (fst (release_control_lease 110 ''sync'' ''a'' demo_leases)) =
   (fst (release_control_lease 110 ''sync'' ''a'' demo_leases), Inr Cooldown)"
proof -
  obtain tab2 ok where r: "release_control_lease 110 ''sync'' ''a'' demo_leases = (tab2, ok)" by fastforce
  have u: "unique_key cl_key []" by (simp add: unique_key_def)
  show ?thesis
    using cooldown_outlives_release [OF demo_acquired u, of 110 tab2 ok 300 "''a''" 30 0] r
    by (simp add: demo_names clamp_def)
qed

section \<open>Refinement of a map of leases\<close>

type_synonym lease_map = "string \<Rightarrow> (string \<times> time \<times> time) option"

definition lease_view :: "lease_row list \<Rightarrow> lease_map" where
  "lease_view t k = map_option (\<lambda>r. (cl_owner r, cl_until r, cl_cooldown r)) (lease_of k t)"

definition spec_acquire :: "time \<Rightarrow> string \<Rightarrow> string \<Rightarrow> time \<Rightarrow> time \<Rightarrow> lease_map \<Rightarrow> lease_map \<times> lease_answer" where
  "spec_acquire now k w ls cs m =
     (case m k of
        Some (owner, until, cooldown) \<Rightarrow>
          if owner \<noteq> w \<and> now < until then (m, Busy)
          else if owner \<noteq> w \<and> now < cooldown then (m, Cooldown)
          else (m(k \<mapsto> (w, now + clamp 1 3600 ls, now + clamp 0 86400 cs)), Acquired)
      | None \<Rightarrow> (m(k \<mapsto> (w, now + clamp 1 3600 ls, now + clamp 0 86400 cs)), Acquired))"

definition spec_renew :: "time \<Rightarrow> string \<Rightarrow> string \<Rightarrow> time \<Rightarrow> lease_map \<Rightarrow> lease_map \<times> bool" where
  "spec_renew now k w ls m =
     (case m k of
        Some (owner, until, cooldown) \<Rightarrow>
          if owner = w \<and> now < until then (m(k \<mapsto> (owner, now + clamp 1 3600 ls, cooldown)), True) else (m, False)
      | None \<Rightarrow> (m, False))"

definition spec_release :: "string \<Rightarrow> string \<Rightarrow> lease_map \<Rightarrow> lease_map \<times> bool" where
  "spec_release k w m =
     (case m k of
        Some (owner, until, cooldown) \<Rightarrow> if owner = w then (m(k \<mapsto> ([], 0, cooldown)), True) else (m, False)
      | None \<Rightarrow> (m, False))"

definition spec_cooldown :: "time \<Rightarrow> string \<Rightarrow> time \<Rightarrow> lease_map \<Rightarrow> lease_map" where
  "spec_cooldown now k s m =
     m(k \<mapsto> (case m k of
        Some (owner, until, cooldown) \<Rightarrow> (owner, until, now + clamp 0 86400 s)
      | None \<Rightarrow> ([], 0, now + clamp 0 86400 s)))"

lemma view_update:
  assumes f: "\<And>r. cl_key (f r) = cl_key r"
  shows "lease_view (sql_update (\<lambda>r. cl_key r = k \<and> Q r) f t) = (case lease_of k t of
     Some r \<Rightarrow> if Q r then (lease_view t)(k \<mapsto> (cl_owner (f r), cl_until (f r), cl_cooldown (f r))) else lease_view t
   | None \<Rightarrow> lease_view t)"
proof -
  have other: "lease_view (sql_update (\<lambda>r. cl_key r = k \<and> Q r) f t) j = lease_view t j" if "j \<noteq> k" for j
    using that by (cases "lease_of j t") (auto simp: lease_view_def lease_update [OF f] dest!: find_SomeD)
  show ?thesis
  proof (cases "lease_of k t")
    case None
    then have "lease_view (sql_update (\<lambda>r. cl_key r = k \<and> Q r) f t) k = lease_view t k"
      by (simp add: lease_view_def lease_update [OF f])
    with other None show ?thesis by simp (rule ext, metis)
  next
    case (Some r)
    then have "cl_key r = k" by (auto dest: find_SomeD)
    with Some have "lease_view (sql_update (\<lambda>r. cl_key r = k \<and> Q r) f t) k =
        (if Q r then Some (cl_owner (f r), cl_until (f r), cl_cooldown (f r)) else lease_view t k)"
      by (simp add: lease_view_def lease_update [OF f])
    with other Some show ?thesis by (auto simp: fun_eq_iff) metis
  qed
qed

lemma view_count:
  assumes "unique_key cl_key t"
  shows "sql_count (\<lambda>r. cl_key r = k \<and> Q r) t = (case lease_of k t of Some r \<Rightarrow> if Q r then 1 else 0 | None \<Rightarrow> 0)"
proof (cases "lease_of k t")
  case None
  then have "\<not> (\<exists>r \<in> set t. cl_key r = k \<and> Q r)" by (auto simp: find_None_iff)
  with None show ?thesis using assms by (simp add: count_key_le)
next
  case (Some r)
  then have "(\<exists>q \<in> set t. cl_key q = k \<and> Q q) \<longleftrightarrow> Q r"
    using lease_keys.find_iff [OF assms, of k] by (metis option.inject)
  with Some show ?thesis using assms by (simp add: count_key_le)
qed

text \<open>
C33: The table of control leases implements a map from resources to owner, end of lease and cooldown.  On every
table the operations can produce, acquisition, renewal, release and cooldown on the table agree with the
map operations: same answer, and the view of the new table is the new map.
\<close>

theorem control_leases_refine_map:
  assumes t: "t = run_leases ops []"
    and valid: "py_strip k = k" "k \<noteq> []" "py_len k \<le> 200" "py_strip w = w" "w \<noteq> []" "py_len w \<le> 128"
  shows "map_prod lease_view id (acquire_control_lease now k w ls cs t) = map_prod id Inr (spec_acquire now k w ls cs (lease_view t)) \<and>
    map_prod lease_view id (renew_control_lease now k w ls t) = spec_renew now k w ls (lease_view t) \<and>
    map_prod lease_view id (release_control_lease now k w t) = spec_release k w (lease_view t) \<and>
    lease_view (arm_control_lease_cooldown now k s t) = spec_cooldown now k s (lease_view t)"
proof -
  have u: "unique_key cl_key t" unfolding t by (rule unique_run_leases) (simp add: unique_key_def)
  have up: "lease_view (sql_upsert cl_key new f t) = (lease_view t)(cl_key new \<mapsto>
      (case lease_of (cl_key new) t of None \<Rightarrow> (cl_owner new, cl_until new, cl_cooldown new)
       | Some r \<Rightarrow> (cl_owner (f r), cl_until (f r), cl_cooldown (f r))))"
    if "\<And>r. cl_key (f r) = cl_key r" for new f
    using that by (auto simp: lease_view_def lease_upsert fun_eq_iff split: option.split)
  have "map_prod lease_view id (acquire_control_lease now k w ls cs t) = map_prod id Inr (spec_acquire now k w ls cs (lease_view t))"
    using valid by (cases "lease_of k t") (auto simp: acquire_control_lease_def spec_acquire_def Let_def up lease_view_def)
  moreover have "map_prod lease_view id (renew_control_lease now k w ls t) = spec_renew now k w ls (lease_view t)"
    by (cases "lease_of k t") (auto simp: renew_control_lease_def spec_renew_def Let_def view_update
        view_count [OF u] lease_view_def [of t k])
  moreover have "map_prod lease_view id (release_control_lease now k w t) = spec_release k w (lease_view t)"
    by (cases "lease_of k t") (auto simp: release_control_lease_def spec_release_def Let_def view_update
        view_count [OF u] lease_view_def [of t k])
  moreover have "lease_view (arm_control_lease_cooldown now k s t) = spec_cooldown now k s (lease_view t)"
    by (cases "lease_of k t") (auto simp: arm_control_lease_cooldown_def spec_cooldown_def Let_def up lease_view_def [of t k])
  ultimately show ?thesis by blast
qed

theorem control_leases_refine_map_witness:
  "map_prod lease_view id (release_control_lease 5 ''sync'' ''a'' (run_leases [(1, LAcquire ''sync'' ''a'' 30 0)] [])) =
   spec_release ''sync'' ''a'' (lease_view (run_leases [(1, LAcquire ''sync'' ''a'' 30 0)] []))"
  using control_leases_refine_map [OF refl, of "''sync''" "''a''" 5 30 0 "[(1, LAcquire ''sync'' ''a'' 30 0)]" 0]
  by (simp add: demo_names)

end
