(* ===== verification/Manual_Media.thy ===== *)
theory Manual_Media
  imports Py_Values
begin

text \<open>
  Media of seller-written replies.  The worker (\<^verbatim>\<open>worker/context_manager.py\<close>) and the backend
  (\<^verbatim>\<open>backend/records.py\<close>) each have their own normaliser; both are modelled.  A column of JSON text is
  represented by what \<^verbatim>\<open>json.loads\<close> makes of it.  What \<^verbatim>\<open>str\<close> makes of a list or an object, what \<^verbatim>\<open>int\<close>
  makes of a text, and the size of an encoded value are inputs (\<open>py_env\<close>).
\<close>

section \<open>Values and columns\<close>

record py_env =
  pe_repr :: "pyval \<Rightarrow> string" \<comment> \<open>\<^verbatim>\<open>str(v)\<close> of a list or a dict\<close>
  pe_int :: "string \<Rightarrow> int option" \<comment> \<open>\<^verbatim>\<open>int(s)\<close>, \<open>None\<close> for \<^verbatim>\<open>ValueError\<close>\<close>
  pe_size :: "pyval \<Rightarrow> nat" \<comment> \<open>bytes of \<^verbatim>\<open>json.dumps(v, ..)\<close>\<close>

datatype json_col = Decoded pyval | Undecodable

datatype media_arg =
    MediaText json_col \<comment> \<open>a \<^verbatim>\<open>str\<close>\<close>
  | MediaValue pyval \<comment> \<open>any other value\<close>

record media_item =
  mi_type :: string
  mi_url :: string
  mi_alt :: string
  mi_width :: int
  mi_height :: int
  mi_duration :: int
  mi_label :: string
  mi_path :: "string option"
  mi_mime :: "string option"
  mi_name :: "string option"

definition MEDIA_TYPES :: "string list" where
  "MEDIA_TYPES = [''image'', ''emoji'', ''audio'', ''video'', ''file'', ''link'', ''unknown'']"

definition MANUAL_REPLY_MAX_IMAGES :: nat where "MANUAL_REPLY_MAX_IMAGES = 8"

fun py_str :: "py_env \<Rightarrow> pyval \<Rightarrow> string" where
  "py_str env PNone = ''None''"
| "py_str env (PBool b) = (if b then ''True'' else ''False'')"
| "py_str env (PInt i) = str_int i"
| "py_str env (PFloat x r) = r"
| "py_str env (PNonFinite r) = r"
| "py_str env (PStr s) = s"
| "py_str env v = pe_repr env v"

definition str_or :: "py_env \<Rightarrow> pyval \<Rightarrow> string \<Rightarrow> string" where
  \<comment> \<open>\<^verbatim>\<open>str(v or default)\<close>\<close>
  "str_or env v d = py_str env (py_or v (PStr d))"

fun media_lower :: "string \<Rightarrow> string" where
  \<comment> \<open>\<^verbatim>\<open>lower()\<close> up to characters outside ASCII; the Kelvin sign is the only one whose lower case is ASCII\<close>
  "media_lower s = (case s of
     a # b # c # t \<Rightarrow> if [a, b, c] = map char_of [226, 132, 170 :: nat] then CHR ''k'' # media_lower t
                     else ascii_lower [a] @ media_lower (b # c # t)
   | _ \<Rightarrow> ascii_lower s)"

declare media_lower.simps [simp del]

definition truncate_real :: "real \<Rightarrow> int" where
  "truncate_real x = (if x < 0 then \<lceil>x\<rceil> else \<lfloor>x\<rfloor>)"

fun py_int :: "py_env \<Rightarrow> pyval \<Rightarrow> int result" where
  "py_int env (PBool b) = Inr (if b then 1 else 0)"
| "py_int env (PInt i) = Inr i"
| "py_int env (PFloat x r) = Inr (truncate_real x)"
| "py_int env (PNonFinite r) =
     (if r = ''nan'' then Inl (ValueError ''cannot convert float NaN to integer'')
      else Inl (OverflowError ''cannot convert float infinity to integer''))"
| "py_int env (PStr s) = (case pe_int env s of None \<Rightarrow> Inl (ValueError ''invalid literal for int()'') | Some i \<Rightarrow> Inr i)"
| "py_int env _ = Inl (TypeError ''int() argument must be a string or a real number'')"

section \<open>Fields shared by both normalisers\<close>

definition media_kind :: "py_env \<Rightarrow> (string \<times> pyval) list \<Rightarrow> string" where
  "media_kind env d =
     (let kind = media_lower (py_strip (str_or env (dict_get d ''type'') ''unknown'')) in
      if kind \<in> set MEDIA_TYPES then kind else ''unknown'')"

definition media_url :: "py_env \<Rightarrow> (string \<times> pyval) list \<Rightarrow> string" where
  "media_url env d =
     (let url = py_strip (str_or env (dict_get d ''url'') []) in
      if url \<noteq> [] \<and> (\<not> prefix ''https://'' url \<or> py_len url > 2048) then [] else url)"

definition cut_text :: "py_env \<Rightarrow> nat \<Rightarrow> pyval \<Rightarrow> string" where
  "cut_text env n v = py_take n (str_or env v [])"

definition optional_text :: "py_env \<Rightarrow> nat \<Rightarrow> pyval \<Rightarrow> string option" where
  "optional_text env n v = (if truthy v then Some (py_take n (py_str env v)) else None)"

definition in_bounds :: "int \<Rightarrow> int \<Rightarrow> int" where
  "in_bounds maximum n = (if 0 \<le> n \<and> n \<le> maximum then n else 0)"

definition media_fields ::
  "py_env \<Rightarrow> (string \<times> pyval) list \<Rightarrow> string \<Rightarrow> int \<times> int \<times> int \<Rightarrow> media_item"
where
  \<comment> \<open>The item with its optional keys\<close>
  "media_fields env d path sizes = \<lparr>mi_type = media_kind env d, mi_url = media_url env d,
     mi_alt = cut_text env 160 (dict_get d ''alt''), mi_width = fst sizes, mi_height = fst (snd sizes),
     mi_duration = snd (snd sizes), mi_label = cut_text env 160 (dict_get d ''label''),
     mi_path = (if path = [] then None else Some path),
     mi_mime = optional_text env 80 (dict_get d ''mime''), mi_name = optional_text env 160 (dict_get d ''name'')\<rparr>"

section \<open>The worker's normaliser\<close>

definition bounded_int :: "py_env \<Rightarrow> int \<Rightarrow> pyval \<Rightarrow> int result" where
  \<comment> \<open>Catches \<^verbatim>\<open>TypeError\<close> and \<^verbatim>\<open>ValueError\<close>, not \<^verbatim>\<open>OverflowError\<close>\<close>
  "bounded_int env maximum v =
     (case py_int env v of
        Inr n \<Rightarrow> Inr (in_bounds maximum n)
      | Inl (OverflowError e) \<Rightarrow> Inl (OverflowError e)
      | Inl _ \<Rightarrow> Inr 0)"

definition has_summary :: "(string \<times> pyval) list \<Rightarrow> bool" where
  "has_summary d = list_ex (\<lambda>f. case dict_get d f of PStr s \<Rightarrow> py_strip s \<noteq> [] | _ \<Rightarrow> False) [''label'', ''alt'', ''name'']"

definition worker_path :: "py_env \<Rightarrow> bool \<Rightarrow> (string \<times> pyval) list \<Rightarrow> string" where
  "worker_path env allow_paths d =
     (let path = (if allow_paths then py_strip (str_or env (dict_get d ''path'') []) else []) in
      if py_len path > 255 \<or> path \<in> {''.'', ''..''} \<or> CHR ''/'' \<in> set path \<or> CHR 0x5C \<in> set path \<or>
         list_ex (\<lambda>c. (of_char c :: nat) < 32) path
      then [] else path)"

definition normalize_item :: "py_env \<Rightarrow> bool \<Rightarrow> (string \<times> pyval) list \<Rightarrow> media_item option result" where
  "normalize_item env allow_paths d =
     (let path = worker_path env allow_paths d in
      if media_url env d = [] \<and> path = [] \<and> media_kind env d \<notin> {''emoji'', ''unknown''} \<and> \<not> has_summary d
      then Inr None
      else case bounded_int env 10000 (dict_get d ''width'') of
        Inl e \<Rightarrow> Inl e
      | Inr w \<Rightarrow>
          (case bounded_int env 10000 (dict_get d ''height'') of
             Inl e \<Rightarrow> Inl e
           | Inr h \<Rightarrow>
               (case bounded_int env 86400000 (dict_get d ''duration_ms'') of
                  Inl e \<Rightarrow> Inl e
                | Inr t \<Rightarrow> Inr (Some (media_fields env d path (w, h, t))))))"

fun normalize_items :: "py_env \<Rightarrow> bool \<Rightarrow> pyval list \<Rightarrow> media_item list result" where
  "normalize_items env allow_paths [] = Inr []"
| "normalize_items env allow_paths (PDict d # xs) =
     (case normalize_item env allow_paths d of
        Inl e \<Rightarrow> Inl e
      | Inr item \<Rightarrow>
          (case normalize_items env allow_paths xs of
             Inl e \<Rightarrow> Inl e
           | Inr items \<Rightarrow> Inr (case item of None \<Rightarrow> items | Some i \<Rightarrow> i # items)))"
| "normalize_items env allow_paths (_ # xs) = normalize_items env allow_paths xs"

definition normalize_media :: "py_env \<Rightarrow> bool \<Rightarrow> media_arg \<Rightarrow> media_item list result" where
  "normalize_media env allow_paths arg =
     (case arg of
        MediaText (Decoded (PList xs)) \<Rightarrow> normalize_items env allow_paths xs
      | MediaValue (PList xs) \<Rightarrow> normalize_items env allow_paths xs
      | _ \<Rightarrow> Inr [])"

definition hex_char :: "char \<Rightarrow> bool" where
  "hex_char c \<longleftrightarrow> c \<in> set ''0123456789abcdef''"

definition image_name :: "string \<Rightarrow> bool" where
  \<comment> \<open>\<^verbatim>\<open>manual_reply_[0-9a-f]{32}\.(?:jpg|png|gif|webp)\<close>\<close>
  "image_name s \<longleftrightarrow> prefix ''manual_reply_'' s \<and>
     (let t = drop (length ''manual_reply_'') s in
      length (take 32 t) = 32 \<and> list_all hex_char (take 32 t) \<and>
      drop 32 t \<in> {''.jpg'', ''.png'', ''.gif'', ''.webp''})"

definition manual_image_filename :: "py_env \<Rightarrow> pyval \<Rightarrow> string" where
  "manual_image_filename env v = (let name = py_strip (str_or env v []) in if image_name name then name else [])"

definition says_image :: "py_env \<Rightarrow> (string \<times> pyval) list \<Rightarrow> bool" where
  \<comment> \<open>\<^verbatim>\<open>str(raw.get("type") or "").strip().lower() == "image"\<close>\<close>
  "says_image env d \<longleftrightarrow> media_lower (py_strip (str_or env (dict_get d ''type'') [])) = ''image''"

definition INVALID_MEDIA :: py_error where
  "INVALID_MEDIA = IntegrityError ''manual reply media is invalid''"

fun check_images :: "py_env \<Rightarrow> string list \<Rightarrow> (pyval \<times> media_item) list \<Rightarrow> unit result" where
  "check_images env seen [] = Inr ()"
| "check_images env seen ((raw, item) # rest) =
     (case raw of
        PDict d \<Rightarrow>
          (let path = manual_image_filename env (dict_get d ''path'') in
           if \<not> says_image env d \<or> path = [] \<or> mi_path item \<noteq> Some path \<or> path \<in> set seen
           then Inl INVALID_MEDIA
           else check_images env (path # seen) rest)
      | _ \<Rightarrow> Inl INVALID_MEDIA)"

definition strict_images ::
  "(pyval list \<Rightarrow> media_item list result) \<Rightarrow> py_env \<Rightarrow> media_arg \<Rightarrow> media_item list result"
where
  \<comment> \<open>The common text of the two strict normalisers, over the lenient one each of them calls\<close>
  "strict_images lenient env arg =
     (case (case arg of
              MediaValue PNone \<Rightarrow> Some (PList [])
            | MediaValue v \<Rightarrow> Some v
            | MediaText (Decoded v) \<Rightarrow> Some v
            | MediaText Undecodable \<Rightarrow> None) of
        Some (PList xs) \<Rightarrow>
          if length xs > MANUAL_REPLY_MAX_IMAGES then Inl INVALID_MEDIA
          else (case lenient xs of
                  Inl e \<Rightarrow> Inl e
                | Inr items \<Rightarrow>
                    if length items \<noteq> length xs then Inl INVALID_MEDIA
                    else (case check_images env [] (zip xs items) of Inl e \<Rightarrow> Inl e | Inr _ \<Rightarrow> Inr items))
      | _ \<Rightarrow> Inl INVALID_MEDIA)"

definition normalize_manual_reply_media :: "py_env \<Rightarrow> media_arg \<Rightarrow> media_item list result" where
  "normalize_manual_reply_media env = strict_images (normalize_items env True) env"

definition item_value :: "media_item \<Rightarrow> pyval" where
  "item_value i = PDict ([(''type'', PStr (mi_type i)), (''url'', PStr (mi_url i)), (''alt'', PStr (mi_alt i)),
     (''width'', PInt (mi_width i)), (''height'', PInt (mi_height i)), (''duration_ms'', PInt (mi_duration i)),
     (''label'', PStr (mi_label i))] @
     (case mi_path i of None \<Rightarrow> [] | Some p \<Rightarrow> [(''path'', PStr p)]) @
     (case mi_mime i of None \<Rightarrow> [] | Some p \<Rightarrow> [(''mime'', PStr p)]) @
     (case mi_name i of None \<Rightarrow> [] | Some p \<Rightarrow> [(''name'', PStr p)]))"

definition stored_items :: "media_item list \<Rightarrow> pyval" where
  "stored_items items = PList (map item_value items)"

definition media_json :: "py_env \<Rightarrow> media_arg \<Rightarrow> json_col result" where
  "media_json env arg =
     (case normalize_media env True arg of
        Inl e \<Rightarrow> Inl e
      | Inr clean \<Rightarrow>
          Inr (Decoded (if pe_size env (stored_items clean) \<le> 64 * 1024 then stored_items clean else PList [])))"

section \<open>The backend's normaliser\<close>

definition records_bounded_int :: "py_env \<Rightarrow> int \<Rightarrow> pyval \<Rightarrow> int" where
  "records_bounded_int env maximum v = (case py_int env v of Inr n \<Rightarrow> in_bounds maximum n | Inl _ \<Rightarrow> 0)"

fun split_slash :: "string \<Rightarrow> string list" where
  "split_slash s =
     (case dropWhile (\<lambda>c. c \<noteq> CHR ''/'') s of
        [] \<Rightarrow> [s]
      | _ # rest \<Rightarrow> takeWhile (\<lambda>c. c \<noteq> CHR ''/'') s # (if length rest < length s then split_slash rest else []))"

declare split_slash.simps [simp del]

definition records_path :: "py_env \<Rightarrow> (string \<times> pyval) list \<Rightarrow> string" where
  "records_path env d =
     (let path = py_strip (str_or env (dict_get d ''path'') []) in
      if path \<noteq> [] \<and> (py_len path > 255 \<or> prefix ''/'' path \<or> CHR 0x5C \<in> set path \<or>
           list_ex (\<lambda>part. part \<in> {[], ''.'', ''..''}) (split_slash path))
      then [] else path)"

definition records_item :: "py_env \<Rightarrow> bool \<Rightarrow> (string \<times> pyval) list \<Rightarrow> media_item" where
  "records_item env include_private d =
     media_fields env d (if include_private then records_path env d else [])
       (records_bounded_int env 10000 (dict_get d ''width''), records_bounded_int env 10000 (dict_get d ''height''),
        records_bounded_int env 86400000 (dict_get d ''duration_ms''))"

definition records_items :: "py_env \<Rightarrow> bool \<Rightarrow> pyval list \<Rightarrow> media_item list" where
  "records_items env include_private xs =
     List.map_filter (\<lambda>raw. case raw of PDict d \<Rightarrow> Some (records_item env include_private d) | _ \<Rightarrow> None)
       (take 8 xs)"

definition normalise_media :: "py_env \<Rightarrow> bool \<Rightarrow> media_arg \<Rightarrow> media_item list" where
  "normalise_media env include_private arg =
     (case arg of
        MediaText (Decoded (PList xs)) \<Rightarrow> records_items env include_private xs
      | MediaValue (PList xs) \<Rightarrow> records_items env include_private xs
      | _ \<Rightarrow> [])"

definition normalise_manual_reply_private_media :: "py_env \<Rightarrow> media_arg \<Rightarrow> media_item list result" where
  "normalise_manual_reply_private_media env = strict_images (\<lambda>xs. Inr (records_items env True xs)) env"

datatype queue_error = QueueError string \<comment> \<open>the code of a \<^verbatim>\<open>ManualReplyQueueError\<close>\<close>

fun media_input_items :: "py_env \<Rightarrow> string list \<Rightarrow> pyval list \<Rightarrow> queue_error + media_item list" where
  "media_input_items env seen [] = Inr []"
| "media_input_items env seen (raw # rest) =
     (case raw of
        PDict d \<Rightarrow>
          (let name = manual_image_filename env (dict_get d ''path'') in
           if \<not> says_image env d \<or> name = [] \<or> name \<in> set seen \<or> mi_path (records_item env True d) \<noteq> Some name
           then Inl (QueueError ''invalid_media'')
           else (case media_input_items env (name # seen) rest of
                   Inl e \<Rightarrow> Inl e
                 | Inr items \<Rightarrow> Inr ((records_item env True d)\<lparr>mi_type := ''image'', mi_url := []\<rparr> # items)))
      | _ \<Rightarrow> Inl (QueueError ''invalid_media''))"

definition normalise_manual_reply_media_input :: "py_env \<Rightarrow> pyval \<Rightarrow> queue_error + media_item list" where
  "normalise_manual_reply_media_input env media =
     (case media of
        PNone \<Rightarrow> Inr []
      | PList xs \<Rightarrow> if length xs > 8 then Inl (QueueError ''invalid_media'') else media_input_items env [] xs
      | _ \<Rightarrow> Inl (QueueError ''invalid_media''))"

definition records_media_json :: "py_env \<Rightarrow> media_arg \<Rightarrow> json_col" where
  \<comment> \<open>\<^verbatim>\<open>_media_json\<close> of the backend\<close>
  "records_media_json env arg = Decoded (stored_items (normalise_media env True arg))"

end
