(* ===== verification/Manual_Outbox.thy ===== *)
theory Manual_Outbox
  imports Manual_Media Lease_Contract
begin

text \<open>
  The outbox of seller-written replies in an account's chat database: the tables \<^verbatim>\<open>manual_reply_drafts\<close>,
  \<^verbatim>\<open>manual_reply_parts\<close> and \<^verbatim>\<open>messages\<close> and the worker's operations on them
  (\<^verbatim>\<open>worker/context_manager.py\<close>).  A reply is delivered as its images, in order, followed by its text; each
  part is acknowledged on its own.  Texts of times are represented by the times.
\<close>

section \<open>Tables\<close>

datatype reply_status = RDraft | RQueued | RRetry | RSending | RReview | RAcknowledged

datatype part_kind = ImagePart | TextPart

record outbox_row =
  rp_id :: int
  rp_user :: string
  rp_item :: string
  rp_content :: string
  rp_created :: time
  rp_chat :: string
  rp_request :: "string option"
  rp_digest :: "string option"
  rp_recipient :: "string option"
  rp_status :: reply_status
  rp_attempts :: int
  rp_max :: int
  rp_available :: time
  rp_owner :: "string option"
  rp_until :: "time option"
  rp_error :: "string option"
  rp_media :: json_col
  rp_updated :: time
  rp_acked :: "time option"

record part_row =
  pt_outbox :: int
  pt_index :: int
  pt_kind :: part_kind
  pt_media :: "int option"
  pt_acked :: "time option"
  pt_sent :: json_col

record message_row =
  me_user :: string
  me_item :: string
  me_role :: string
  me_content :: string
  me_time :: time
  me_chat :: "string option"
  me_source :: "string option"
  me_type :: string
  me_media :: json_col

record chat_db =
  replies :: "outbox_row list"
  reply_seq :: int
  reply_parts :: "part_row list"
  chat_messages :: "message_row list"

interpretation reply_ids: keyed_table rp_id .

definition part_key :: "part_row \<Rightarrow> int \<times> int" where
  "part_key p = (pt_outbox p, pt_index p)"

interpretation part_keys: keyed_table part_key .

abbreviation reply_by_id :: "int \<Rightarrow> chat_db \<Rightarrow> outbox_row option" where
  "reply_by_id i db \<equiv> find (\<lambda>r. rp_id r = i) (replies db)"

definition text_of :: "string option \<Rightarrow> string" where
  \<comment> \<open>\<^verbatim>\<open>str(x or "")\<close> of a text column\<close>
  "text_of x = (case x of None \<Rightarrow> [] | Some s \<Rightarrow> s)"

definition until_of :: "outbox_row \<Rightarrow> time" where
  \<comment> \<open>\<^verbatim>\<open>COALESCE(lease_until, 0)\<close>\<close>
  "until_of r = (case rp_until r of None \<Rightarrow> 0 | Some u \<Rightarrow> u)"

definition ACTIVE_STATUSES :: "reply_status list" where
  "ACTIVE_STATUSES = [RQueued, RRetry, RSending, RReview]"

definition MANUAL_REPLY_MAX_CONTENT_CHARS :: nat where "MANUAL_REPLY_MAX_CONTENT_CHARS = 4096"

section \<open>Parts\<close>

type_synonym part_spec = "int \<times> part_kind \<times> int option"

definition image_specs :: "nat \<Rightarrow> part_spec list" where
  "image_specs n = map (\<lambda>i. (int i, ImagePart, Some (int i))) [0..<n]"

definition part_specs_of :: "nat \<Rightarrow> string \<Rightarrow> part_spec list" where
  "part_specs_of n content = image_specs n @ (if py_strip content = [] then [] else [(int n, TextPart, None)])"

definition manual_reply_part_specs :: "py_env \<Rightarrow> string \<Rightarrow> json_col \<Rightarrow> part_spec list result" where
  "manual_reply_part_specs env content media =
     (case normalize_manual_reply_media env (MediaText media) of
        Inl e \<Rightarrow> Inl e
      | Inr items \<Rightarrow> Inr (part_specs_of (length items) content))"

definition manual_reply_part_rows :: "int \<Rightarrow> chat_db \<Rightarrow> part_row list" where
  "manual_reply_part_rows i db = order_by pt_index (filter (\<lambda>p. pt_outbox p = i) (reply_parts db))"

definition spec_of :: "part_row \<Rightarrow> part_spec" where
  "spec_of p = (pt_index p, pt_kind p, pt_media p)"

definition new_part :: "int \<Rightarrow> part_spec \<Rightarrow> part_row" where
  "new_part i s = \<lparr>pt_outbox = i, pt_index = fst s, pt_kind = fst (snd s), pt_media = snd (snd s),
     pt_acked = None, pt_sent = Decoded (PList [])\<rparr>"

definition add_parts :: "int \<Rightarrow> part_spec list \<Rightarrow> chat_db \<Rightarrow> chat_db" where
  \<comment> \<open>\<^verbatim>\<open>INSERT OR IGNORE\<close> of every part\<close>
  "add_parts i specs db =
     db\<lparr>reply_parts := fold (\<lambda>s. sql_insert_ignore part_key (new_part i s)) specs (reply_parts db)\<rparr>"

definition worker_tombstone :: "py_env \<Rightarrow> outbox_row \<Rightarrow> bool result" where
  "worker_tombstone env r =
     (if rp_status r = RAcknowledged \<and> rp_chat r = [] \<and> rp_item r = [] \<and> rp_content r = []
      then (case normalize_media env True (MediaText (rp_media r)) of Inl e \<Rightarrow> Inl e | Inr items \<Rightarrow> Inr (items = []))
      else Inr False)"

definition ensure_manual_reply_parts :: "py_env \<Rightarrow> outbox_row \<Rightarrow> chat_db \<Rightarrow> (chat_db, part_row list) outcome" where
  "ensure_manual_reply_parts env r db =
     (let parts = manual_reply_part_rows (rp_id r) db in
      case manual_reply_part_specs env (rp_content r) (rp_media r) of
        Inl e \<Rightarrow> (db, Inl e)
      | Inr specs \<Rightarrow>
          if parts = [] \<and> rp_status r \<in> set ACTIVE_STATUSES \<and> specs = []
          then (db, Inl (IntegrityError ''manual reply has no deliverable parts''))
          else
            (let db1 = (if parts = [] \<and> rp_status r \<in> set ACTIVE_STATUSES then add_parts (rp_id r) specs db else db);
                 parts1 = manual_reply_part_rows (rp_id r) db1
             in case worker_tombstone env r of
                  Inl e \<Rightarrow> (db1, Inl e)
                | Inr tomb \<Rightarrow>
                    if parts1 = [] \<or> tomb then (db1, Inr parts1)
                    else if map spec_of parts1 \<noteq> specs
                    then (db1, Inl (IntegrityError ''manual reply parts do not match the parent payload''))
                    else (db1, Inr parts1)))"

definition part_source_id :: "int \<Rightarrow> part_row \<Rightarrow> part_row list \<Rightarrow> string" where
  "part_source_id i p parts =
     (let base = ''manual_reply:'' @ str_int i in
      case pt_kind p of
        ImagePart \<Rightarrow>
          (let m = (case pt_media p of None \<Rightarrow> 0 | Some m \<Rightarrow> m) in
           if m = 0 then base else base @ '':image:'' @ str_int (m + 1))
      | TextPart \<Rightarrow> if list_ex (\<lambda>q. pt_kind q = ImagePart) parts then base @ '':text'' else base)"

fun acks_in_order :: "part_row list \<Rightarrow> bool" where
  \<comment> \<open>No acknowledged part after a pending one\<close>
  "acks_in_order [] = True"
| "acks_in_order (p # ps) = (if pt_acked p = None then list_all (\<lambda>q. pt_acked q = None) ps else acks_in_order ps)"

definition pending_parts :: "part_row list \<Rightarrow> part_row list" where
  "pending_parts parts = filter (\<lambda>p. pt_acked p = None) parts"

definition validate_claimable_manual_reply :: "py_env \<Rightarrow> outbox_row \<Rightarrow> part_row list \<Rightarrow> unit result" where
  "validate_claimable_manual_reply env r parts =
     (case normalize_manual_reply_media env (MediaText (rp_media r)) of
        Inl e \<Rightarrow> Inl e
      | Inr media \<Rightarrow>
          if py_strip (rp_chat r) = [] \<or> py_strip (text_of (rp_recipient r)) = [] \<or>
             py_strip (rp_content r) = [] \<and> media = [] \<or> py_len (rp_content r) > MANUAL_REPLY_MAX_CONTENT_CHARS
          then Inl (IntegrityError ''manual reply parent payload is invalid'')
          else if \<not> acks_in_order parts
          then Inl (IntegrityError ''manual reply acknowledgements are out of order'')
          else if pending_parts parts = [] then Inl (IntegrityError ''manual reply has no pending part'')
          else Inr ())"

section \<open>Acknowledgement payloads\<close>

definition one_public_image :: "py_env \<Rightarrow> pyval \<Rightarrow> bool" where
  \<comment> \<open>A list of one image object without a path\<close>
  "one_public_image env v =
     (case v of
        PList [PDict d] \<Rightarrow> says_image env d \<and> (dict_get d ''path'' = PNone \<or> dict_get d ''path'' = PStr [])
      | _ \<Rightarrow> False)"

definition ack_payload :: "py_env \<Rightarrow> outbox_row \<Rightarrow> part_row \<Rightarrow> media_arg \<Rightarrow> (string \<times> string \<times> media_item list) result" where
  "ack_payload env r p sent =
     (case pt_kind p of
        ImagePart \<Rightarrow>
          (let bad = Inl (ValueError ''manual reply image acknowledgement is invalid'') in
           case (case sent of
                   MediaValue (PDict d) \<Rightarrow> Some (PList [PDict d])
                 | MediaValue v \<Rightarrow> Some v
                 | MediaText (Decoded v) \<Rightarrow> Some v
                 | MediaText Undecodable \<Rightarrow> None) of
             None \<Rightarrow> bad
           | Some v \<Rightarrow>
               if \<not> one_public_image env v then bad
               else (case normalize_media env False (MediaValue v) of
                       Inl e \<Rightarrow> Inl e
                     | Inr items \<Rightarrow>
                         (case items of
                            [i] \<Rightarrow> if mi_type i \<noteq> ''image'' \<or> mi_url i = [] then bad else Inr ([], ''image'', items)
                          | _ \<Rightarrow> bad)))
      | TextPart \<Rightarrow>
          (let bad = Inl (ValueError ''manual reply text acknowledgement is invalid'') in
           case (case sent of MediaValue v \<Rightarrow> Some v | MediaText (Decoded v) \<Rightarrow> Some v | MediaText Undecodable \<Rightarrow> None) of
             None \<Rightarrow> bad
           | Some v \<Rightarrow> if v \<notin> {PNone, PList []} \<or> py_strip (rp_content r) = [] then bad
                       else Inr (rp_content r, ''text'', [])))"

section \<open>Claiming\<close>

definition recover_sending :: "time \<Rightarrow> outbox_row list \<Rightarrow> outbox_row list" where
  "recover_sending now rs =
     sql_update (\<lambda>r. rp_status r = RSending \<and> until_of r \<le> now)
       (\<lambda>r. r\<lparr>rp_status := (if rp_attempts r \<ge> rp_max r then RReview else RRetry), rp_available := now,
             rp_owner := None, rp_until := None, rp_error := Some ''lease_expired'', rp_updated := now\<rparr>) rs"

definition review_exhausted :: "time \<Rightarrow> outbox_row list \<Rightarrow> outbox_row list" where
  "review_exhausted now rs =
     sql_update (\<lambda>r. rp_status r \<in> {RQueued, RRetry} \<and> rp_attempts r \<ge> rp_max r)
       (\<lambda>r. r\<lparr>rp_status := RReview, rp_owner := None, rp_until := None,
             rp_error := Some ''retry_exhausted'', rp_updated := now\<rparr>) rs"

definition invalid_payload :: "time \<Rightarrow> outbox_row \<Rightarrow> outbox_row" where
  "invalid_payload now r = r\<lparr>rp_status := RReview, rp_owner := None, rp_until := None,
     rp_error := Some ''invalid_payload'', rp_updated := now\<rparr>"

definition write_replies :: "(outbox_row \<Rightarrow> bool) \<Rightarrow> (outbox_row \<Rightarrow> outbox_row) \<Rightarrow> chat_db \<Rightarrow> chat_db" where
  "write_replies P f db = db\<lparr>replies := sql_update P f (replies db)\<rparr>"

definition take_reply :: "time \<Rightarrow> string \<Rightarrow> time \<Rightarrow> outbox_row \<Rightarrow> outbox_row" where
  "take_reply now owner lease_seconds r = r\<lparr>rp_status := RSending, rp_attempts := rp_attempts r + 1,
     rp_owner := Some owner, rp_until := Some (now + lease_seconds), rp_error := None, rp_updated := now\<rparr>"

definition sendable :: "time \<Rightarrow> outbox_row \<Rightarrow> bool" where
  "sendable now r \<longleftrightarrow> rp_status r \<in> {RQueued, RRetry} \<and> rp_attempts r < rp_max r \<and> rp_available r \<le> now"

definition claim_candidate ::
  "py_env \<Rightarrow> time \<Rightarrow> string \<Rightarrow> time \<Rightarrow> outbox_row \<Rightarrow> chat_db \<Rightarrow> chat_db \<times> (outbox_row \<times> part_row list) option"
where
  \<comment> \<open>The body of the loop\<close>
  "claim_candidate env now owner lease_seconds cand db =
     (let i = rp_id cand;
          quarantine = write_replies (\<lambda>r. rp_id r = i \<and> rp_status r \<in> {RQueued, RRetry}) (invalid_payload now)
      in case ensure_manual_reply_parts env cand db of
           (db1, Inl _) \<Rightarrow> (quarantine db1, None)
         | (db1, Inr parts) \<Rightarrow>
             (case validate_claimable_manual_reply env cand parts of
                Inl _ \<Rightarrow> (quarantine db1, None)
              | Inr _ \<Rightarrow>
                  (let hit = (\<lambda>r. rp_id r = i \<and> sendable now r);
                       db2 = write_replies hit (take_reply now owner lease_seconds) db1
                   in if sql_count hit (replies db1) \<noteq> 1 then (db2, None)
                      else (db2, map_option (\<lambda>r. (r, parts)) (reply_by_id i db2)))))"

fun claim_loop ::
  "py_env \<Rightarrow> time \<Rightarrow> string \<Rightarrow> time \<Rightarrow> nat \<Rightarrow> outbox_row list \<Rightarrow> chat_db \<Rightarrow> chat_db \<times> (outbox_row \<times> part_row list) list"
where
  "claim_loop env now owner ls limit [] db = (db, [])"
| "claim_loop env now owner ls 0 (cand # rest) db = (db, [])"
| "claim_loop env now owner ls (Suc n) (cand # rest) db =
     (case claim_candidate env now owner ls cand db of
        (db1, None) \<Rightarrow> claim_loop env now owner ls (Suc n) rest db1
      | (db1, Some c) \<Rightarrow> (case claim_loop env now owner ls n rest db1 of (db2, cs) \<Rightarrow> (db2, c # cs)))"

definition claim_manual_replies ::
  "py_env \<Rightarrow> time \<Rightarrow> string \<Rightarrow> int \<Rightarrow> time \<Rightarrow> chat_db \<Rightarrow> (chat_db, (outbox_row \<times> part_row list) list) outcome"
where
  "claim_manual_replies env now raw_owner limit lease_seconds db =
     (let owner = py_strip raw_owner in
      if owner = [] \<or> py_len owner > 128 then (db, Inl (ValueError ''manual reply lease owner is invalid''))
      else if limit < 1 \<or> limit > 20 then (db, Inl (ValueError ''manual reply claim limit is invalid''))
      else if lease_seconds < 30 \<or> lease_seconds > 3600
      then (db, Inl (ValueError ''manual reply lease duration is invalid''))
      else
        (let db1 = db\<lparr>replies := review_exhausted now (recover_sending now (replies db))\<rparr>;
             candidates = order_by rp_available (order_by rp_id (filter (sendable now) (replies db1)))
         in case claim_loop env now owner lease_seconds (nat limit) candidates db1 of
              (db2, claimed) \<Rightarrow> (db2, Inr claimed)))"

section \<open>Renewing and failing\<close>

definition holds_lease :: "int \<Rightarrow> string \<Rightarrow> time \<Rightarrow> outbox_row \<Rightarrow> bool" where
  "holds_lease i owner now r \<longleftrightarrow> rp_id r = i \<and> rp_status r = RSending \<and> rp_owner r = Some owner \<and> until_of r > now"

definition renew_manual_reply_lease :: "time \<Rightarrow> int \<Rightarrow> string \<Rightarrow> time \<Rightarrow> chat_db \<Rightarrow> (chat_db, bool) outcome" where
  "renew_manual_reply_lease now i raw_owner lease_seconds db =
     (let owner = py_strip raw_owner in
      if i < 1 \<or> owner = [] \<or> py_len owner > 128 \<or> lease_seconds < 30 \<or> lease_seconds > 3600
      then (db, Inl (ValueError ''manual reply lease renewal is invalid''))
      else (write_replies (holds_lease i owner now) (\<lambda>r. r\<lparr>rp_until := Some (now + lease_seconds), rp_updated := now\<rparr>) db,
            Inr (sql_count (holds_lease i owner now) (replies db) = 1)))"

definition is_ascii_alnum :: "char \<Rightarrow> bool" where
  "is_ascii_alnum c \<longleftrightarrow> is_ascii_digit c \<or> c \<in> set ''ABCDEFGHIJKLMNOPQRSTUVWXYZabcdefghijklmnopqrstuvwxyz''"

definition manual_error_code :: "string \<Rightarrow> string" where
  "manual_error_code code =
     (let t = media_lower (py_strip (if code = [] then ''send_error'' else code)) in
      if t = [] \<or> py_len t > 64 \<or> \<not> list_all (\<lambda>c. is_ascii_alnum c \<or> c = CHR ''_'') t then ''send_error'' else t)"

definition failure_status :: "bool \<Rightarrow> outbox_row \<Rightarrow> reply_status" where
  "failure_status terminal row =
     (let exhausted = (rp_attempts row \<ge> (if rp_max row = 0 then 10 else rp_max row)) in
      if terminal \<or> exhausted then RReview else RRetry)"

definition failed_reply :: "time \<Rightarrow> reply_status \<Rightarrow> time \<Rightarrow> string \<Rightarrow> outbox_row \<Rightarrow> outbox_row" where
  "failed_reply now status retry_delay code r = r\<lparr>rp_status := status,
     rp_available := (if status = RReview then now else now + min retry_delay 3600),
     rp_owner := None, rp_until := None, rp_error := Some (manual_error_code code), rp_updated := now\<rparr>"

definition fail_manual_reply ::
  "time \<Rightarrow> int \<Rightarrow> string \<Rightarrow> string \<Rightarrow> time \<Rightarrow> bool \<Rightarrow> chat_db \<Rightarrow> (chat_db, reply_status option) outcome"
where
  "fail_manual_reply now i owner error_code retry_delay terminal db =
     (if i < 1 \<or> retry_delay < 0 then (db, Inl (ValueError ''manual reply failure update is invalid''))
      else case reply_by_id i db of
        None \<Rightarrow> (db, Inr None)
      | Some row \<Rightarrow>
          if rp_status row = RAcknowledged then (db, Inr (Some RAcknowledged))
          else if rp_status row \<noteq> RSending \<or> text_of (rp_owner row) \<noteq> owner \<or> until_of row \<le> now then (db, Inr None)
          else
            (write_replies (\<lambda>r. rp_id r = i) (failed_reply now (failure_status terminal row) retry_delay error_code) db,
             Inr (Some (failure_status terminal row))))"

section \<open>Acknowledging\<close>

record ack_answer =
  aa_status :: reply_status
  aa_complete :: bool
  aa_index :: int
  aa_kind :: part_kind
  aa_media :: "int option"

definition answer_of :: "part_row \<Rightarrow> bool \<Rightarrow> ack_answer" where
  "answer_of p finished = \<lparr>aa_status = (if finished then RAcknowledged else RSending), aa_complete = finished,
     aa_index = pt_index p, aa_kind = pt_kind p, aa_media = pt_media p\<rparr>"

definition message_agrees ::
  "py_env \<Rightarrow> outbox_row \<Rightarrow> part_row \<Rightarrow> string \<Rightarrow> string \<times> string \<times> media_item list \<Rightarrow> message_row \<Rightarrow> bool result"
where
  "message_agrees env r p sender payload m =
     (case ack_payload env r p (MediaText (me_media m)) of
        Inl (ValueError _) \<Rightarrow> Inr False
      | Inl e \<Rightarrow> Inl e
      | Inr (_, existing_type, existing_media) \<Rightarrow>
          (case payload of (content, ptype, media) \<Rightarrow>
             Inr (me_user m = sender \<and> text_of (me_chat m) = rp_chat r \<and> me_item m = rp_item r \<and>
                  me_role m = ''assistant'' \<and> me_content m = content \<and> me_type m = ptype \<and>
                  existing_type = ptype \<and> existing_media = media)))"

definition COLLISION :: py_error where
  "COLLISION = RuntimeError ''manual reply acknowledgement collision''"

definition message_of_source :: "string \<Rightarrow> chat_db \<Rightarrow> message_row option" where
  "message_of_source s db = find (\<lambda>m. me_source m = Some s) (chat_messages db)"

definition ack_again ::
  "py_env \<Rightarrow> outbox_row \<Rightarrow> part_row \<Rightarrow> part_row list \<Rightarrow> string \<Rightarrow> media_arg \<Rightarrow> chat_db \<Rightarrow> ack_answer option result"
where
  \<comment> \<open>The branch of \<^verbatim>\<open>acknowledge_manual_reply_part\<close> for a part that is already acknowledged\<close>
  "ack_again env r p parts sender sent db =
     (case ack_payload env r p sent of
        Inl e \<Rightarrow> Inl e
      | Inr payload \<Rightarrow>
          (case ack_payload env r p (MediaText (pt_sent p)) of
             Inl e \<Rightarrow> Inl e
           | Inr stored \<Rightarrow>
               (case message_of_source (part_source_id (rp_id r) p parts) db of
                  None \<Rightarrow> Inl COLLISION
                | Some m \<Rightarrow>
                    (case message_agrees env r p sender payload m of
                       Inl e \<Rightarrow> Inl e
                     | Inr agrees \<Rightarrow>
                         if payload \<noteq> stored \<or> \<not> agrees then Inl COLLISION
                         else Inr (Some (answer_of p (pending_parts parts = [])))))))"

definition new_message ::
  "time \<Rightarrow> outbox_row \<Rightarrow> string \<Rightarrow> string \<Rightarrow> string \<times> string \<times> media_item list \<Rightarrow> json_col \<Rightarrow> message_row"
where
  "new_message now r sender source payload media = \<lparr>me_user = sender, me_item = rp_item r, me_role = ''assistant'',
     me_content = fst payload, me_time = now, me_chat = Some (rp_chat r), me_source = Some source,
     me_type = fst (snd payload), me_media = media\<rparr>"

definition record_message ::
  "py_env \<Rightarrow> time \<Rightarrow> outbox_row \<Rightarrow> part_row \<Rightarrow> part_row list \<Rightarrow> string \<Rightarrow> string \<times> string \<times> media_item list \<Rightarrow> json_col \<Rightarrow>
   chat_db \<Rightarrow> (chat_db, unit) outcome"
where
  "record_message env now r p parts sender payload media db =
     (let source = part_source_id (rp_id r) p parts in
      case message_of_source source db of
        None \<Rightarrow> (db\<lparr>chat_messages := chat_messages db @ [new_message now r sender source payload media]\<rparr>, Inr ())
      | Some m \<Rightarrow>
          (case message_agrees env r p sender payload m of
             Inl e \<Rightarrow> (db, Inl e)
           | Inr agrees \<Rightarrow> if agrees then (db, Inr ()) else (db, Inl COLLISION)))"

definition acked_part :: "time \<Rightarrow> json_col \<Rightarrow> part_row \<Rightarrow> part_row" where
  "acked_part now media q = q\<lparr>pt_acked := Some now, pt_sent := media\<rparr>"

definition after_part :: "time \<Rightarrow> bool \<Rightarrow> outbox_row \<Rightarrow> outbox_row" where
  "after_part now finished q =
     (if finished then q\<lparr>rp_status := RAcknowledged, rp_owner := None, rp_until := None, rp_error := None,
        rp_updated := now, rp_acked := Some now\<rparr>
      else q\<lparr>rp_updated := now\<rparr>)"

definition settle_part :: "time \<Rightarrow> outbox_row \<Rightarrow> part_row \<Rightarrow> string \<Rightarrow> json_col \<Rightarrow> chat_db \<Rightarrow> chat_db \<times> ack_answer option" where
  \<comment> \<open>The two updates at the end; \<open>None\<close> is the rollback\<close>
  "settle_part now r p owner media db =
     (let hit = (\<lambda>q. part_key q = part_key p \<and> pt_acked q = None);
          db1 = db\<lparr>reply_parts := sql_update hit (acked_part now media) (reply_parts db)\<rparr>;
          remaining = sql_count (\<lambda>q. pt_outbox q = rp_id r \<and> pt_acked q = None) (reply_parts db1);
          parent = holds_lease (rp_id r) owner now
      in if sql_count hit (reply_parts db) \<noteq> 1 \<or> sql_count parent (replies db1) \<noteq> 1 then (db, None)
         else (write_replies parent (after_part now (remaining = 0)) db1, Some (answer_of p (remaining = 0))))"

definition ack_pending ::
  "py_env \<Rightarrow> time \<Rightarrow> outbox_row \<Rightarrow> part_row \<Rightarrow> part_row list \<Rightarrow> string \<Rightarrow> string \<Rightarrow> media_arg \<Rightarrow> chat_db \<Rightarrow>
   (chat_db, ack_answer option) outcome"
where
  \<comment> \<open>The branch for a pending part\<close>
  "ack_pending env now r p parts owner sender sent db =
     (if rp_status r \<noteq> RSending \<or> text_of (rp_owner r) \<noteq> owner \<or> until_of r \<le> now then (db, Inr None)
      else if (case pending_parts parts of [] \<Rightarrow> True | q # _ \<Rightarrow> pt_index q \<noteq> pt_index p) then (db, Inr None)
      else case ack_payload env r p sent of
        Inl e \<Rightarrow> (db, Inl e)
      | Inr payload \<Rightarrow>
          (case media_json env (MediaValue (stored_items (snd (snd payload)))) of
             Inl e \<Rightarrow> (db, Inl e)
           | Inr media \<Rightarrow>
               (case record_message env now r p parts sender payload media db of
                  (_, Inl e) \<Rightarrow> (db, Inl e)
                | (db1, Inr _) \<Rightarrow>
                    (case settle_part now r p owner media db1 of
                       (_, None) \<Rightarrow> (db, Inr None)
                     | (db2, Some a) \<Rightarrow> (db2, Inr (Some a))))))"

definition acknowledge_manual_reply_part ::
  "py_env \<Rightarrow> time \<Rightarrow> int \<Rightarrow> string \<Rightarrow> string \<Rightarrow> int \<Rightarrow> media_arg \<Rightarrow> chat_db \<Rightarrow> (chat_db, ack_answer option) outcome"
where
  "acknowledge_manual_reply_part env now i owner raw_sender part_index sent db =
     (let sender = py_strip raw_sender in
      if i < 1 \<or> part_index < 0 \<or> sender = [] then (db, Inl (ValueError ''manual reply acknowledgement is invalid''))
      else case reply_by_id i db of
        None \<Rightarrow> (db, Inr None)
      | Some r \<Rightarrow>
          (case ensure_manual_reply_parts env r db of
             (_, Inl e) \<Rightarrow> (db, Inl e)
           | (db1, Inr parts) \<Rightarrow>
               (case find (\<lambda>p. pt_index p = part_index) parts of
                  None \<Rightarrow> (db, Inr None)
                | Some p \<Rightarrow>
                    if pt_acked p \<noteq> None
                    then (case ack_again env r p parts sender sent db1 of
                            Inl e \<Rightarrow> (db, Inl e) | Inr a \<Rightarrow> (db1, Inr a))
                    else (case ack_pending env now r p parts owner sender sent db1 of
                            (_, Inl e) \<Rightarrow> (db, Inl e)
                          | (_, Inr None) \<Rightarrow> (db, Inr None)
                          | (db2, Inr (Some a)) \<Rightarrow> (db2, Inr (Some a))))))"

definition get_manual_reply :: "py_env \<Rightarrow> time \<Rightarrow> int \<Rightarrow> chat_db \<Rightarrow> chat_db \<times> (outbox_row \<times> part_row list) option" where
  "get_manual_reply env now i db =
     (case reply_by_id i db of
        None \<Rightarrow> (db, None)
      | Some r \<Rightarrow>
          (case ensure_manual_reply_parts env r db of
             (db1, Inr parts) \<Rightarrow> (db1, Some (r, parts))
           | (db1, Inl _) \<Rightarrow>
               if rp_status r \<in> set ACTIVE_STATUSES
               then (write_replies (\<lambda>q. rp_id q = i) (invalid_payload now) db1,
                     Some (invalid_payload now r, manual_reply_part_rows i db1))
               else (db1, Some (r, manual_reply_part_rows i db1))))"

definition acknowledge_manual_reply ::
  "py_env \<Rightarrow> time \<Rightarrow> int \<Rightarrow> string \<Rightarrow> string \<Rightarrow> media_arg \<Rightarrow> chat_db \<Rightarrow> (chat_db, bool) outcome"
where
  "acknowledge_manual_reply env now i owner sender sent db =
     (case get_manual_reply env now i db of
        (db1, None) \<Rightarrow> (db1, Inr False)
      | (db1, Some (r, parts)) \<Rightarrow>
          if rp_status r = RAcknowledged \<and> parts = [] then (db1, Inr True)
          else
            (let current = (if rp_status r = RAcknowledged then (case parts of [p] \<Rightarrow> Some p | _ \<Rightarrow> None)
                            else find (\<lambda>p. pt_acked p = None) parts)
             in case current of
                  None \<Rightarrow> (db1, Inr False)
                | Some p \<Rightarrow>
                    (case acknowledge_manual_reply_part env now i owner sender (pt_index p) sent db1 of
                       (db2, Inl e) \<Rightarrow> (db2, Inl e)
                     | (db2, Inr a) \<Rightarrow> (db2, Inr (case a of None \<Rightarrow> False | Some x \<Rightarrow> aa_complete x)))))"

end
