(* ===== verification/Manual_Queue.thy ===== *)
theory Manual_Queue
  imports Manual_Outbox
begin

text \<open>
  The backend's side of the reply outbox (\<^verbatim>\<open>backend/records.py\<close>): drafts, enqueueing with an idempotency key,
  the check of the image files, compaction of delivered replies, and the status query.  The visibility
  filter of the shop, the takeover state, the files of the account and the hash of a JSON value are inputs.
\<close>

section \<open>Parts\<close>

definition records_part_specs :: "py_env \<Rightarrow> string \<Rightarrow> json_col \<Rightarrow> part_spec list result" where
  "records_part_specs env content media =
     (case normalise_manual_reply_private_media env (MediaText media) of
        Inl e \<Rightarrow> Inl e
      | Inr images \<Rightarrow> Inr (part_specs_of (length images) content))"

definition manual_reply_is_tombstone :: "py_env \<Rightarrow> outbox_row \<Rightarrow> bool" where
  "manual_reply_is_tombstone env r \<longleftrightarrow>
     rp_status r = RAcknowledged \<and> rp_chat r = [] \<and> rp_item r = [] \<and> rp_content r = [] \<and>
     (case normalise_manual_reply_private_media env (MediaText (rp_media r)) of Inl _ \<Rightarrow> False | Inr items \<Rightarrow> items = [])"

definition records_ensure_parts :: "py_env \<Rightarrow> outbox_row \<Rightarrow> chat_db \<Rightarrow> (chat_db, part_row list) outcome" where
  "records_ensure_parts env r db =
     (let parts = manual_reply_part_rows (rp_id r) db in
      if manual_reply_is_tombstone env r then (db, Inr parts)
      else case records_part_specs env (rp_content r) (rp_media r) of
        Inl e \<Rightarrow> (db, Inl e)
      | Inr specs \<Rightarrow>
          if parts = [] \<and> rp_status r \<in> set ACTIVE_STATUSES \<and> specs = []
          then (db, Inl (IntegrityError ''manual reply has no deliverable parts''))
          else
            (let db1 = (if parts = [] \<and> rp_status r \<in> set ACTIVE_STATUSES then add_parts (rp_id r) specs db else db);
                 parts1 = manual_reply_part_rows (rp_id r) db1
             in if parts1 = [] then (db1, Inr parts1)
                else if map spec_of parts1 \<noteq> specs
                then (db1, Inl (IntegrityError ''manual reply parts do not match the parent payload''))
                else if \<not> acks_in_order parts1
                then (db1, Inl (IntegrityError ''manual reply acknowledgements are out of order''))
                else if rp_status r = RAcknowledged \<and> pending_parts parts1 \<noteq> []
                then (db1, Inl (IntegrityError ''acknowledged manual reply has a pending part''))
                else (db1, Inr parts1)))"

definition current_part :: "part_row list \<Rightarrow> int option" where
  "current_part parts = map_option pt_index (find (\<lambda>p. pt_acked p = None) parts)"

datatype part_state = PartAcknowledged | PartCurrent reply_status | PartWaiting

definition effective_status :: "reply_status \<Rightarrow> part_row list \<Rightarrow> reply_status" where
  "effective_status st parts =
     (if parts \<noteq> [] \<and> current_part parts = None then RAcknowledged
      else if parts \<noteq> [] \<and> st = RAcknowledged then RReview else st)"

definition manual_reply_parts_payload ::
  "reply_status \<Rightarrow> part_row list \<Rightarrow> reply_status \<times> int option \<times> (int \<times> part_kind \<times> part_state) list"
where
  "manual_reply_parts_payload st parts =
     (effective_status st parts, current_part parts,
      map (\<lambda>p. (pt_index p, pt_kind p,
             if pt_acked p \<noteq> None then PartAcknowledged
             else if Some (pt_index p) = current_part parts then PartCurrent (effective_status st parts)
             else PartWaiting)) parts)"

section \<open>Image files\<close>

record image_file =
  im_size :: nat
  im_header :: string \<comment> \<open>the first 16 bytes\<close>

definition MANUAL_IMAGE_MAX_BYTES :: nat where "MANUAL_IMAGE_MAX_BYTES = 8 * 1024 * 1024"

definition bytes :: "nat list \<Rightarrow> string" where
  "bytes ns = map char_of ns"

definition detect_mime :: "string \<Rightarrow> string \<Rightarrow> string option" where
  \<comment> \<open>The loop over \<^verbatim>\<open>_MANUAL_IMAGE_MIME\<close>\<close>
  "detect_mime header extension =
     (if prefix (bytes [255, 216, 255]) header \<and> extension = ''jpg'' then Some ''image/jpeg''
      else if prefix (bytes [137, 80, 78, 71, 13, 10, 26, 10]) header \<and> extension = ''png'' then Some ''image/png''
      else if (prefix ''GIF87a'' header \<or> prefix ''GIF89a'' header) \<and> extension = ''gif'' then Some ''image/gif''
      else if length header \<ge> 12 \<and> take 4 header = ''RIFF'' \<and> take 4 (drop 8 header) = ''WEBP'' \<and> extension = ''webp''
      then Some ''image/webp'' else None)"

definition file_extension :: "string \<Rightarrow> string" where
  \<comment> \<open>\<^verbatim>\<open>name.rsplit(".", 1)[-1]\<close>\<close>
  "file_extension name = rev (takeWhile (\<lambda>c. c \<noteq> CHR ''.'') (rev name))"

definition check_image_file :: "(string \<Rightarrow> image_file option) \<Rightarrow> media_item \<Rightarrow> queue_error + media_item" where
  \<comment> \<open>\<open>None\<close>: no regular file of that name can be opened\<close>
  "check_image_file files item =
     (let name = (case mi_path item of None \<Rightarrow> [] | Some p \<Rightarrow> p) in
      case files name of
        None \<Rightarrow> Inl (QueueError ''invalid_media'')
      | Some f \<Rightarrow>
          if im_size f < 1 \<or> im_size f > MANUAL_IMAGE_MAX_BYTES then Inl (QueueError ''invalid_media'')
          else case detect_mime (im_header f) (file_extension name) of
            None \<Rightarrow> Inl (QueueError ''invalid_media'')
          | Some mime \<Rightarrow>
              (let supplied = media_lower (py_strip (takeWhile (\<lambda>c. c \<noteq> CHR '';'') (text_of (mi_mime item)))) in
               if supplied \<noteq> [] \<and> supplied \<noteq> mime then Inl (QueueError ''invalid_media'')
               else Inr (item\<lparr>mi_mime := Some mime\<rparr>)))"

fun check_image_files :: "(string \<Rightarrow> image_file option) \<Rightarrow> media_item list \<Rightarrow> queue_error + media_item list" where
  "check_image_files files [] = Inr []"
| "check_image_files files (i # is) =
     (case check_image_file files i of
        Inl e \<Rightarrow> Inl e
      | Inr j \<Rightarrow> (case check_image_files files is of Inl e \<Rightarrow> Inl e | Inr js \<Rightarrow> Inr (j # js)))"

definition validate_manual_reply_media ::
  "py_env \<Rightarrow> (string \<Rightarrow> image_file option) \<Rightarrow> media_item list \<Rightarrow> queue_error + media_item list"
where
  "validate_manual_reply_media env files media =
     (case normalise_manual_reply_media_input env (stored_items media) of
        Inl e \<Rightarrow> Inl e
      | Inr clean \<Rightarrow> check_image_files files clean)"

section \<open>Retention\<close>

definition MANUAL_REPLY_FULL_RETENTION :: nat where "MANUAL_REPLY_FULL_RETENTION = 2000"
definition MANUAL_REPLY_TOMBSTONE_RETENTION :: nat where "MANUAL_REPLY_TOMBSTONE_RETENTION = 50000"

definition digest_payload :: "py_env \<Rightarrow> string \<Rightarrow> string \<Rightarrow> media_arg \<Rightarrow> pyval" where
  "digest_payload env chat_id content media =
     (let clean = normalise_media env True media in
      PList ([PStr chat_id, PStr content] @ (if clean = [] then [] else [stored_items clean])))"

definition manual_reply_digest :: "py_env \<Rightarrow> (pyval \<Rightarrow> string) \<Rightarrow> string \<Rightarrow> string \<Rightarrow> media_arg \<Rightarrow> string" where
  \<comment> \<open>\<open>sha\<close> is the hex digest of the compact JSON text of a value\<close>
  "manual_reply_digest env sha chat_id content media = sha (digest_payload env chat_id content media)"

definition newest :: "nat \<Rightarrow> (outbox_row \<Rightarrow> bool) \<Rightarrow> outbox_row list \<Rightarrow> int list" where
  \<comment> \<open>\<^verbatim>\<open>SELECT id .. WHERE P ORDER BY id DESC LIMIT n\<close>\<close>
  "newest n P rs = take n (rev (map rp_id (order_by rp_id (filter P rs))))"

definition delivered_in_full :: "chat_db \<Rightarrow> outbox_row \<Rightarrow> bool" where
  "delivered_in_full db r \<longleftrightarrow> rp_status r = RAcknowledged \<and> text_of (rp_request r) \<noteq> [] \<and> rp_chat r \<noteq> [] \<and>
     \<not> list_ex (\<lambda>p. pt_outbox p = rp_id r \<and> pt_acked p = None) (reply_parts db)"

definition is_compacted :: "outbox_row \<Rightarrow> bool" where
  "is_compacted r \<longleftrightarrow> rp_status r = RAcknowledged \<and> text_of (rp_request r) \<noteq> [] \<and> rp_chat r = [] \<and> rp_item r = [] \<and>
     rp_content r = [] \<and> rp_media r = Decoded (PList []) \<and> text_of (rp_digest r) \<noteq> []"

definition compacted :: "py_env \<Rightarrow> (pyval \<Rightarrow> string) \<Rightarrow> outbox_row \<Rightarrow> outbox_row" where
  "compacted env sha r =
     r\<lparr>rp_digest := Some (manual_reply_digest env sha (rp_chat r) (rp_content r) (MediaText (rp_media r))),
       rp_user := [], rp_item := [], rp_content := [], rp_chat := [], rp_recipient := None,
       rp_media := Decoded (PList []), rp_error := None\<rparr>"

definition compact_manual_reply_outbox :: "py_env \<Rightarrow> (pyval \<Rightarrow> string) \<Rightarrow> chat_db \<Rightarrow> chat_db" where
  "compact_manual_reply_outbox env sha db =
     (let kept = newest MANUAL_REPLY_FULL_RETENTION (delivered_in_full db) (replies db);
          old = (\<lambda>r. delivered_in_full db r \<and> rp_id r \<notin> set kept);
          ids = map rp_id (filter old (replies db));
          rs1 = sql_update (\<lambda>r. rp_id r \<in> set ids \<and> rp_status r = RAcknowledged)
                  (compacted env sha) (replies db);
          ps1 = sql_update (\<lambda>p. pt_outbox p \<in> set ids) (\<lambda>p. p\<lparr>pt_sent := Decoded (PList [])\<rparr>) (reply_parts db);
          tombs = newest MANUAL_REPLY_TOMBSTONE_RETENTION is_compacted rs1;
          rs2 = sql_delete (\<lambda>r. is_compacted r \<and> rp_id r \<notin> set tombs) rs1
      in db\<lparr>replies := rs2, reply_parts := sql_delete (\<lambda>p. pt_outbox p \<notin> rp_id ` set rs2) ps1\<rparr>)"

section \<open>Enqueueing\<close>

record queue_input =
  qi_visible :: "message_row \<Rightarrow> bool" \<comment> \<open>\<^verbatim>\<open>_customer_conversation_filter\<close>\<close>
  qi_manual :: "string \<Rightarrow> bool" \<comment> \<open>\<^verbatim>\<open>_manual_mode_rows\<close> has the chat\<close>
  qi_files :: "string \<Rightarrow> image_file option"

definition conversation_visible :: "queue_input \<Rightarrow> string \<Rightarrow> chat_db \<Rightarrow> bool" where
  "conversation_visible inp chat db = list_ex (\<lambda>m. me_chat m = Some chat \<and> qi_visible inp m) (chat_messages db)"

definition last_message :: "(message_row \<Rightarrow> bool) \<Rightarrow> chat_db \<Rightarrow> message_row option" where
  \<comment> \<open>\<^verbatim>\<open>ORDER BY id DESC LIMIT 1\<close>\<close>
  "last_message P db = find P (rev (chat_messages db))"

definition trim_drafts :: "nat \<Rightarrow> (outbox_row \<Rightarrow> bool) \<Rightarrow> chat_db \<Rightarrow> chat_db" where
  "trim_drafts n P db =
     db\<lparr>replies := sql_delete (\<lambda>r. P r \<and> rp_id r \<notin> set (newest n P (replies db))) (replies db)\<rparr>"

definition append_manual_draft ::
  "queue_input \<Rightarrow> time \<Rightarrow> string \<Rightarrow> string \<Rightarrow> string \<Rightarrow> chat_db \<Rightarrow> chat_db \<times> (string \<times> string) option"
where
  "append_manual_draft inp now user_id content raw_chat db =
     (let chat = py_strip raw_chat in
      if chat = [] \<or> \<not> conversation_visible inp chat db then (db, None)
      else case last_message (\<lambda>m. me_chat m = Some chat) db of
        None \<Rightarrow> (db, None)
      | Some target \<Rightarrow>
          (let row = \<lparr>rp_id = reply_seq db + 1, rp_user = user_id, rp_item = me_item target, rp_content = content,
                 rp_created = now, rp_chat = text_of (me_chat target), rp_request = None, rp_digest = None,
                 rp_recipient = None, rp_status = RDraft, rp_attempts = 0, rp_max = 10, rp_available = 0,
                 rp_owner = None, rp_until = None, rp_error = None, rp_media = Decoded (PList []),
                 rp_updated = now, rp_acked = None\<rparr>;
               db1 = db\<lparr>replies := replies db @ [row], reply_seq := reply_seq db + 1\<rparr>
           in (trim_drafts 500 (\<lambda>r. rp_status r = RDraft) db1, Some (rp_chat row, rp_item row))))"

definition queued_reply ::
  "time \<Rightarrow> int \<Rightarrow> string \<Rightarrow> string \<Rightarrow> string \<Rightarrow> string \<Rightarrow> string \<Rightarrow> message_row \<Rightarrow> json_col \<Rightarrow> outbox_row"
where
  "queued_reply now i user_id content chat request digest target media =
     \<lparr>rp_id = i, rp_user = user_id, rp_item = me_item target, rp_content = content, rp_created = now, rp_chat = chat,
      rp_request = Some request, rp_digest = Some digest, rp_recipient = Some (me_user target), rp_status = RQueued,
      rp_attempts = 0, rp_max = 10, rp_available = now, rp_owner = None, rp_until = None, rp_error = None,
      rp_media = media, rp_updated = now, rp_acked = None\<rparr>"

definition resume_reply ::
  "py_env \<Rightarrow> (pyval \<Rightarrow> string) \<Rightarrow> string \<Rightarrow> outbox_row \<Rightarrow> chat_db \<Rightarrow> chat_db \<times> (queue_error + outbox_row \<times> part_row list)"
where
  \<comment> \<open>The branch for a request id that is already in the outbox\<close>
  "resume_reply env sha digest r db =
     (let stored = text_of (rp_digest r);
          known = (if stored = [] then manual_reply_digest env sha (rp_chat r) (rp_content r) (MediaText (rp_media r)) else stored);
          db1 = (if stored = [] then write_replies (\<lambda>q. rp_id q = rp_id r) (\<lambda>q. q\<lparr>rp_digest := Some known\<rparr>) db else db)
      in if known \<noteq> digest then (db, Inl (QueueError ''idempotency_conflict''))
         else case records_ensure_parts env r db1 of
           (_, Inl _) \<Rightarrow> (db, Inl (QueueError ''idempotency_conflict''))
         | (db2, Inr parts) \<Rightarrow> (db2, Inr (r, parts)))"

definition start_reply ::
  "py_env \<Rightarrow> (pyval \<Rightarrow> string) \<Rightarrow> queue_input \<Rightarrow> time \<Rightarrow> string \<Rightarrow> string \<Rightarrow> string \<Rightarrow> string \<Rightarrow> media_item list \<Rightarrow>
   string \<Rightarrow> chat_db \<Rightarrow> chat_db \<times> (queue_error + outbox_row \<times> part_row list)"
where
  \<comment> \<open>The branch for a new request id\<close>
  "start_reply env sha inp now user_id content chat request media digest db =
     (case validate_manual_reply_media env (qi_files inp) media of
        Inl e \<Rightarrow> (db, Inl e)
      | Inr checked \<Rightarrow>
          if \<not> qi_manual inp chat then (db, Inl (QueueError ''manual_takeover_required''))
          else case last_message (\<lambda>m. me_chat m = Some chat \<and> me_role m = ''user'') db of
            None \<Rightarrow> (db, Inl (QueueError ''conversation_not_found''))
          | Some target \<Rightarrow>
              if py_strip (me_user target) = [] then (db, Inl (QueueError ''conversation_not_found''))
              else
                (let row = queued_reply now (reply_seq db + 1) user_id content chat request digest target
                       (records_media_json env (MediaValue (stored_items checked)));
                     db1 = db\<lparr>replies := replies db @ [row], reply_seq := reply_seq db + 1\<rparr>
                 in case records_ensure_parts env row db1 of
                      (_, Inl _) \<Rightarrow> (db, Inl (QueueError ''idempotency_conflict''))
                    | (db2, Inr parts) \<Rightarrow>
                        (compact_manual_reply_outbox env sha
                           (trim_drafts 2000 (\<lambda>r. rp_status r = RDraft \<and> text_of (rp_request r) = []) db2),
                         Inr (row, parts))))"

definition enqueue_manual_reply ::
  "py_env \<Rightarrow> (pyval \<Rightarrow> string) \<Rightarrow> queue_input \<Rightarrow> time \<Rightarrow> string \<Rightarrow> string \<Rightarrow> string \<Rightarrow> string \<Rightarrow> pyval \<Rightarrow> chat_db \<Rightarrow>
   chat_db \<times> (queue_error + outbox_row \<times> part_row list)"
where
  "enqueue_manual_reply env sha inp now user_id content raw_chat raw_request media db =
     (let chat = py_strip raw_chat; request = py_strip raw_request in
      case normalise_manual_reply_media_input env media of
        Inl e \<Rightarrow> (db, Inl e)
      | Inr clean \<Rightarrow>
          if py_strip content = [] \<and> clean = [] then (db, Inl (QueueError ''invalid_payload''))
          else if \<not> conversation_visible inp chat db then (db, Inl (QueueError ''conversation_not_found''))
          else
            (let digest = manual_reply_digest env sha chat content (MediaValue (stored_items clean)) in
             case find (\<lambda>r. rp_request r = Some request) (replies db) of
               Some r \<Rightarrow> resume_reply env sha digest r db
             | None \<Rightarrow> start_reply env sha inp now user_id content chat request clean digest db))"

definition mark_invalid_payload :: "time \<Rightarrow> outbox_row \<Rightarrow> chat_db \<Rightarrow> chat_db" where
  "mark_invalid_payload now r db =
     (if rp_status r \<notin> set ACTIVE_STATUSES then db
      else write_replies (\<lambda>q. rp_id q = rp_id r \<and> rp_status q \<in> set ACTIVE_STATUSES \<and>
             (rp_status q \<noteq> RReview \<or> rp_owner q \<noteq> None \<or> rp_until q \<noteq> None \<or> text_of (rp_error q) \<noteq> ''invalid_payload''))
           (invalid_payload now) db)"

definition manual_reply_status ::
  "py_env \<Rightarrow> queue_input \<Rightarrow> time \<Rightarrow> string \<Rightarrow> chat_db \<Rightarrow> chat_db \<times> (outbox_row \<times> part_row list option) option"
where
  \<comment> \<open>The parts are \<open>None\<close> for the redacted answer\<close>
  "manual_reply_status env inp now raw_request db =
     (case find (\<lambda>r. rp_request r = Some (py_strip raw_request)) (replies db) of
        None \<Rightarrow> (db, None)
      | Some r \<Rightarrow>
          if \<not> conversation_visible inp (rp_chat r) db then (db, None)
          else case records_ensure_parts env r db of
            (db1, Inr parts) \<Rightarrow> (db1, Some (r, Some parts))
          | (db1, Inl _) \<Rightarrow> (mark_invalid_payload now r db1, Some (r, None)))"

end
