(* ===== verification/Manual_Media_Facts.thy ===== *)
theory Manual_Media_Facts
  imports Manual_Media
begin

text \<open>
  The two normalisers of reply media agree on what they accept as images, and an item that was stored is
  read back unchanged.
\<close>

section \<open>Stripping twice\<close>

lemma lstrip_no_pattern:
  assumes "\<And>p. p \<in> set pats \<Longrightarrow> p \<noteq> [] \<Longrightarrow> \<not> prefix p s"
  shows "lstrip_with pats s = s"
proof -
  have "find (\<lambda>p. p \<noteq> [] \<and> prefix p s) pats = None" using assms by (auto simp: find_None_iff)
  then show ?thesis by (simp only: lstrip_with.simps [of pats s] option.case)
qed

lemma py_strip_idem [simp]: "py_strip (py_strip s) = py_strip s"
proof -
  define t where "t = lstrip_with whitespace s"
  define u where "u = lstrip_with (map rev whitespace) (rev t)"
  have ru: "py_strip s = rev u" by (simp add: py_strip_def t_def u_def)
  obtain q where "rev t = q @ u" using lstrip_with_suffix [of "rev t" "map rev whitespace"] by (auto simp: u_def)
  then have t: "t = rev u @ rev q" by (metis rev_append rev_rev_ident)
  have "\<not> prefix p (rev u)" if "p \<in> set whitespace" "p \<noteq> []" for p
  proof
    assume "prefix p (rev u)"
    then have "prefix p t" unfolding t by (rule prefix_order.trans) simp
    with lstrip_with_no_prefix [OF that] show False by (simp add: t_def)
  qed
  then have l: "lstrip_with whitespace (rev u) = rev u" by (rule lstrip_no_pattern)
  have "lstrip_with (map rev whitespace) u = u"
    by (rule lstrip_no_pattern) (use lstrip_with_no_prefix [of _ "map rev whitespace" "rev t"] in \<open>auto simp: u_def\<close>)
  with l show ?thesis by (simp add: ru py_strip_def [of "rev u"])
qed

lemma py_take_idem [simp]: "py_take n (py_take n s) = py_take n s"
  by (rule py_take_id [OF py_len_py_take])

lemma py_take_nonempty: "s \<noteq> [] \<Longrightarrow> 0 < n \<Longrightarrow> py_take n s \<noteq> []"
  by (cases s) auto

section \<open>Image names\<close>

definition name_char :: "char \<Rightarrow> bool" where
  "name_char c \<longleftrightarrow> c \<in> set ''abcdefghijklmnopqrstuvwxyz0123456789_.''"

lemma image_name_shape:
  assumes "image_name s"
  obtains h e where "s = ''manual_reply_'' @ h @ e" "length h = 32" "list_all hex_char h"
    "e \<in> {''.jpg'', ''.png'', ''.gif'', ''.webp''}"
proof -
  obtain t where s: "s = ''manual_reply_'' @ t" using assms by (auto simp: image_name_def prefix_def)
  from assms have "length (take 32 t) = 32 \<and> list_all hex_char (take 32 t) \<and> drop 32 t \<in> {''.jpg'', ''.png'', ''.gif'', ''.webp''}"
    unfolding image_name_def Let_def s by simp
  then show thesis by (intro that [of "take 32 t" "drop 32 t"]) (simp_all add: s)
qed

lemma hex_name_char: "hex_char c \<Longrightarrow> name_char c"
proof -
  have "list_all name_char ''0123456789abcdef''" by code_simp
  then show "hex_char c \<Longrightarrow> name_char c" unfolding hex_char_def list_all_iff by blast
qed

lemma image_name_chars:
  assumes "image_name s"
  shows "list_all name_char s" "s \<noteq> []" "length s \<le> 50" "plain_ends s" "s \<noteq> ''.''" "s \<noteq> ''..''"
proof -
  obtain h e where s: "s = ''manual_reply_'' @ h @ e" "length h = 32" "list_all hex_char h"
    "e \<in> {''.jpg'', ''.png'', ''.gif'', ''.webp''}" by (rule image_name_shape [OF assms])
  have "list_all name_char h" using s(3) hex_name_char by (auto simp: list_all_iff)
  moreover have "list_all name_char ''manual_reply_''" "list_all (list_all name_char) [''.jpg'', ''.png'', ''.gif'', ''.webp'']"
    by code_simp+
  moreover from this(2) have "list_all name_char e" using s(4) by auto
  ultimately show "list_all name_char s" by (simp add: s(1))
  show "s \<noteq> []" "s \<noteq> ''.''" "s \<noteq> ''..''" by (simp_all add: s(1))
  show "length s \<le> 50" using s by auto
  have "last s = last e" using s(1,4) by auto
  moreover have "plain_char (last e)" using s(4) by (auto simp: plain_char_def)
  ultimately show "plain_ends s" by (simp add: plain_ends_def s(1) plain_char_def)
qed

lemma name_char_safe:
  assumes "list_all name_char s"
  shows "CHR ''/'' \<notin> set s" "CHR 0x5C \<notin> set s" "\<not> list_ex (\<lambda>c. (of_char c :: nat) < 32) s"
proof -
  have "list_all (\<lambda>c. c \<noteq> CHR ''/'' \<and> c \<noteq> CHR 0x5C \<and> \<not> (of_char c :: nat) < 32) ''abcdefghijklmnopqrstuvwxyz0123456789_.''"
    by code_simp
  then have "c \<noteq> CHR ''/'' \<and> c \<noteq> CHR 0x5C \<and> \<not> (of_char c :: nat) < 32" if "name_char c" for c
    using that unfolding name_char_def list_all_iff by blast
  with assms show "CHR ''/'' \<notin> set s" "CHR 0x5C \<notin> set s" "\<not> list_ex (\<lambda>c. (of_char c :: nat) < 32) s"
    by (auto simp: list_all_iff list_ex_iff)
qed

lemma split_no_slash: "CHR ''/'' \<notin> set s \<Longrightarrow> split_slash s = [s]"
proof -
  assume "CHR ''/'' \<notin> set s"
  then have "dropWhile (\<lambda>c. c \<noteq> CHR ''/'') s = []" by (auto simp: dropWhile_eq_Nil_conv)
  then show ?thesis by (simp only: split_slash.simps [of s] list.case)
qed

definition raw_path :: "py_env \<Rightarrow> (string \<times> pyval) list \<Rightarrow> string" where
  "raw_path env d = py_strip (str_or env (dict_get d ''path'') [])"

definition image_dict :: "py_env \<Rightarrow> pyval \<Rightarrow> bool" where
  "image_dict env raw = (case raw of PDict d \<Rightarrow> says_image env d \<and> image_name (raw_path env d) | _ \<Rightarrow> False)"

lemma filename_iff: "manual_image_filename env (dict_get d ''path'') = (if image_name (raw_path env d) then raw_path env d else [])"
  by (simp add: manual_image_filename_def raw_path_def Let_def)

lemma image_paths:
  assumes "image_name (raw_path env d)"
  shows "worker_path env True d = raw_path env d" "records_path env d = raw_path env d"
proof -
  note c = image_name_chars [OF assms] name_char_safe [OF image_name_chars(1) [OF assms]]
  have l: "\<not> 255 < py_len (raw_path env d)" using c(3) py_len_le_length [of "raw_path env d"] by simp
  show "worker_path env True d = raw_path env d"
    using c l by (simp add: worker_path_def Let_def raw_path_def [symmetric])
  have "\<not> prefix ''/'' (raw_path env d)"
    using c(7) by (cases "raw_path env d") (auto simp: prefix_def)
  then show "records_path env d = raw_path env d"
    using c l by (simp add: records_path_def Let_def raw_path_def [symmetric] split_no_slash)
qed

section \<open>Agreement of the normalisers\<close>

lemma bounded_int_cases:
  obtains "bounded_int env m v = Inr (records_bounded_int env m v)" | e where "bounded_int env m v = Inl (OverflowError e)"
proof (cases "py_int env v")
  case (Inl e)
  then show thesis using that by (cases e) (auto simp: bounded_int_def records_bounded_int_def)
next
  case (Inr n)
  then show thesis using that by (simp add: bounded_int_def records_bounded_int_def)
qed

lemma normalize_image:
  assumes "image_dict env (PDict d)"
  shows "normalize_item env True d = Inr (Some (records_item env True d)) \<or> (\<exists>e. normalize_item env True d = Inl (OverflowError e))"
proof -
  have p: "worker_path env True d = raw_path env d" "records_path env d = raw_path env d" "raw_path env d \<noteq> []"
    using assms image_paths image_name_chars(2) by (auto simp: image_dict_def)
  show ?thesis
    by (cases rule: bounded_int_cases [of env 10000 "dict_get d ''width''"];
        cases rule: bounded_int_cases [of env 10000 "dict_get d ''height''"];
        cases rule: bounded_int_cases [of env 86400000 "dict_get d ''duration_ms''"])
      (use p in \<open>simp_all add: normalize_item_def records_item_def\<close>)
qed

definition image_items :: "py_env \<Rightarrow> pyval list \<Rightarrow> media_item list" where
  "image_items env xs = map (\<lambda>raw. case raw of PDict d \<Rightarrow> records_item env True d | _ \<Rightarrow> undefined) xs"

lemma records_images:
  assumes "list_all (image_dict env) xs" "length xs \<le> 8"
  shows "records_items env True xs = image_items env xs"
proof -
  have "List.map_filter (\<lambda>raw. case raw of PDict d \<Rightarrow> Some (records_item env True d) | _ \<Rightarrow> None) xs = image_items env xs"
    using assms(1)
  proof (induction xs)
    case (Cons y ys)
    then show ?case by (cases y) (simp_all add: image_items_def image_dict_def map_filter_simps)
  qed (simp add: image_items_def map_filter_simps)
  with assms(2) show ?thesis by (simp add: records_items_def)
qed

lemma worker_images_or:
  assumes "list_all (image_dict env) xs"
  shows "normalize_items env True xs = Inr (image_items env xs) \<or> (\<exists>e. normalize_items env True xs = Inl (OverflowError e))"
  using assms
proof (induction xs)
  case Nil
  then show ?case by (simp add: image_items_def)
next
  case (Cons raw xs)
  then obtain d where d: "raw = PDict d" by (auto simp: image_dict_def split: pyval.splits)
  with Cons normalize_image [of env d] show ?case by (auto simp: image_items_def)
qed

lemmas worker_images = worker_images_or [THEN disjE]

lemma check_images_dicts:
  "check_images env seen (zip xs items) = Inr () \<Longrightarrow> length items = length xs \<Longrightarrow> list_all (image_dict env) xs"
proof (induction xs arbitrary: seen items)
  case (Cons x xs)
  then obtain i items' where i: "items = i # items'" by (cases items) auto
  with Cons show ?case
    by (cases x) (auto simp: image_dict_def filename_iff Let_def split: if_splits)
qed simp

lemma strict_images_dicts:
  assumes "strict_images lenient env arg = Inr items"
  obtains xs where "list_all (image_dict env) xs" "length xs \<le> 8" "lenient xs = Inr items" "length items = length xs"
    "check_images env [] (zip xs items) = Inr ()"
    "\<And>l. l xs = Inr items \<Longrightarrow> strict_images l env arg = Inr items"
    "\<And>l e. l xs = Inl e \<Longrightarrow> strict_images l env arg = Inl e"
proof -
  define v where "v = (case arg of MediaValue PNone \<Rightarrow> Some (PList []) | MediaValue v \<Rightarrow> Some v
     | MediaText (Decoded v) \<Rightarrow> Some v | MediaText Undecodable \<Rightarrow> None)"
  have s: "strict_images l env arg = (case v of Some (PList xs) \<Rightarrow>
      if length xs > MANUAL_REPLY_MAX_IMAGES then Inl INVALID_MEDIA
      else (case l xs of Inl e \<Rightarrow> Inl e | Inr items \<Rightarrow>
        if length items \<noteq> length xs then Inl INVALID_MEDIA
        else (case check_images env [] (zip xs items) of Inl e \<Rightarrow> Inl e | Inr _ \<Rightarrow> Inr items))
    | _ \<Rightarrow> Inl INVALID_MEDIA)" for l
    unfolding strict_images_def v_def ..
  from assms obtain xs where xs: "v = Some (PList xs)" "length xs \<le> 8"
    by (auto simp: s MANUAL_REPLY_MAX_IMAGES_def split: option.splits pyval.splits if_splits)
  with assms have l: "lenient xs = Inr items" "length items = length xs" "check_images env [] (zip xs items) = Inr ()"
    by (auto simp: s MANUAL_REPLY_MAX_IMAGES_def split: sum.splits if_splits)
  show thesis
    by (rule that [of xs]) (use xs l check_images_dicts [OF l(3,2)] in \<open>simp_all add: s MANUAL_REPLY_MAX_IMAGES_def\<close>)
qed

lemma worker_then_backend:
  assumes "normalize_manual_reply_media env arg = Inr items"
  shows "normalise_manual_reply_private_media env arg = Inr items"
  using assms unfolding normalize_manual_reply_media_def
proof (cases rule: strict_images_dicts)
  case (1 xs)
  have "items = image_items env xs"
    by (rule worker_images [OF 1(1)]) (use 1(3) in auto)
  with records_images [OF 1(1,2)] show ?thesis
    unfolding normalise_manual_reply_private_media_def by (intro 1(6)) simp
qed

lemma backend_then_worker:
  assumes "normalise_manual_reply_private_media env arg = Inr items"
  shows "normalize_manual_reply_media env arg = Inr items \<or> (\<exists>e. normalize_manual_reply_media env arg = Inl (OverflowError e))"
  using assms unfolding normalise_manual_reply_private_media_def
proof (cases rule: strict_images_dicts)
  case (1 xs)
  have i: "items = image_items env xs" using 1(3) records_images [OF 1(1,2)] by simp
  show ?thesis
  proof (rule worker_images [OF 1(1)])
    assume "normalize_items env True xs = Inr (image_items env xs)"
    then show ?thesis unfolding normalize_manual_reply_media_def by (intro disjI1 1(6)) (simp add: i)
  next
    assume "\<exists>e. normalize_items env True xs = Inl (OverflowError e)"
    then show ?thesis unfolding normalize_manual_reply_media_def using 1(7) by blast
  qed
qed

section \<open>Stored items\<close>

definition plain_path :: "string \<Rightarrow> bool" where
  "plain_path p \<longleftrightarrow> p \<noteq> [] \<and> py_strip p = p \<and> py_len p \<le> 255 \<and> p \<notin> {''.'', ''..''} \<and> CHR ''/'' \<notin> set p \<and>
     CHR 0x5C \<notin> set p \<and> \<not> list_ex (\<lambda>c. (of_char c :: nat) < 32) p"

definition plain_url :: "string \<Rightarrow> bool" where
  "plain_url u \<longleftrightarrow> py_strip u = u \<and> prefix ''https://'' u \<and> py_len u \<le> 2048"

definition cut_option :: "nat \<Rightarrow> string option \<Rightarrow> bool" where
  "cut_option n x = (case x of None \<Rightarrow> True | Some s \<Rightarrow> s \<noteq> [] \<and> py_len s \<le> n)"

definition item_ok :: "media_item \<Rightarrow> bool" where
  "item_ok i \<longleftrightarrow> mi_type i \<in> set MEDIA_TYPES \<and> (mi_url i = [] \<or> plain_url (mi_url i)) \<and>
     py_len (mi_alt i) \<le> 160 \<and> py_len (mi_label i) \<le> 160 \<and>
     0 \<le> mi_width i \<and> mi_width i \<le> 10000 \<and> 0 \<le> mi_height i \<and> mi_height i \<le> 10000 \<and>
     0 \<le> mi_duration i \<and> mi_duration i \<le> 86400000 \<and>
     (case mi_path i of None \<Rightarrow> True | Some p \<Rightarrow> plain_path p) \<and>
     cut_option 80 (mi_mime i) \<and> cut_option 160 (mi_name i)"

definition addressed :: "media_item \<Rightarrow> bool" where
  \<comment> \<open>The item is not dropped for want of a source\<close>
  "addressed i \<longleftrightarrow> mi_url i \<noteq> [] \<or> mi_path i \<noteq> None \<or> mi_type i \<in> {''emoji'', ''unknown''}"

lemma media_types_lower:
  assumes "t \<in> set MEDIA_TYPES"
  shows "media_lower (py_strip t) = t" "t \<noteq> []"
proof -
  have "list_all (\<lambda>t. plain_ends t \<and> media_lower t = t \<and> t \<noteq> []) MEDIA_TYPES" by code_simp
  with assms have "plain_ends t" "media_lower t = t" "t \<noteq> []" by (auto simp: list_all_iff)
  then show "media_lower (py_strip t) = t" "t \<noteq> []" by (simp_all add: py_strip_plain)
qed

lemma str_or_PStr [simp]: "str_or env (PStr s) [] = s"
  by (simp add: str_or_def py_or_def)

lemma str_or_text: "s \<noteq> [] \<Longrightarrow> str_or env (PStr s) d = s"
  by (simp add: str_or_def py_or_def)

lemma stored_gets:
  assumes "item_value i = PDict d"
  shows "dict_get d ''type'' = PStr (mi_type i)" "dict_get d ''url'' = PStr (mi_url i)" "dict_get d ''alt'' = PStr (mi_alt i)"
    "dict_get d ''width'' = PInt (mi_width i)" "dict_get d ''height'' = PInt (mi_height i)"
    "dict_get d ''duration_ms'' = PInt (mi_duration i)" "dict_get d ''label'' = PStr (mi_label i)"
    "dict_get d ''path'' = (case mi_path i of None \<Rightarrow> PNone | Some p \<Rightarrow> PStr p)"
    "dict_get d ''mime'' = (case mi_mime i of None \<Rightarrow> PNone | Some p \<Rightarrow> PStr p)"
    "dict_get d ''name'' = (case mi_name i of None \<Rightarrow> PNone | Some p \<Rightarrow> PStr p)"
  using assms
  by (cases "mi_path i"; cases "mi_mime i"; cases "mi_name i"; force simp: item_value_def dict_get_def)+

lemma optional_stored:
  "cut_option n x \<Longrightarrow> optional_text env n (case x of None \<Rightarrow> PNone | Some p \<Rightarrow> PStr p) = x"
  by (cases x) (simp_all add: optional_text_def cut_option_def py_take_id)

lemma stored_fields:
  assumes ok: "item_ok i" and d: "item_value i = PDict d"
  shows "media_kind env d = mi_type i" "media_url env d = mi_url i"
    "worker_path env True d = (case mi_path i of None \<Rightarrow> [] | Some p \<Rightarrow> p)"
    "media_fields env d (case mi_path i of None \<Rightarrow> [] | Some p \<Rightarrow> p) (mi_width i, mi_height i, mi_duration i) = i"
proof -
  note g = stored_gets [OF d]
  have t: "mi_type i \<in> set MEDIA_TYPES" using ok by (simp add: item_ok_def)
  show k: "media_kind env d = mi_type i"
    using media_types_lower [OF t] t by (simp add: media_kind_def g str_or_text)
  show u: "media_url env d = mi_url i"
    using ok by (auto simp: media_url_def g item_ok_def plain_url_def)
  show p: "worker_path env True d = (case mi_path i of None \<Rightarrow> [] | Some p \<Rightarrow> p)"
    using ok by (cases "mi_path i") (auto simp: worker_path_def g item_ok_def plain_path_def str_or_def py_or_def)
  have c: "cut_text env 160 (PStr s) = s" if "py_len s \<le> 160" for s
    using that by (simp add: cut_text_def py_take_id)
  have "mi_path i = (if (case mi_path i of None \<Rightarrow> [] | Some p \<Rightarrow> p) = [] then None else Some (case mi_path i of None \<Rightarrow> [] | Some p \<Rightarrow> p))"
    using ok by (cases "mi_path i") (auto simp: item_ok_def plain_path_def)
  then show "media_fields env d (case mi_path i of None \<Rightarrow> [] | Some p \<Rightarrow> p) (mi_width i, mi_height i, mi_duration i) = i"
    using ok by (intro media_item.equality)
      (simp_all add: media_fields_def k u g c item_ok_def optional_stored)
qed

lemma normalize_stored:
  assumes ok: "item_ok i" "addressed i" and d: "item_value i = PDict d"
  shows "normalize_item env True d = Inr (Some i)"
proof -
  have b: "bounded_int env m (PInt n) = Inr n" if "0 \<le> n" "n \<le> m" for m n
    using that by (simp add: bounded_int_def in_bounds_def)
  have "\<not> (mi_url i = [] \<and> (case mi_path i of None \<Rightarrow> [] | Some p \<Rightarrow> p) = [] \<and> mi_type i \<notin> {''emoji'', ''unknown''} \<and> \<not> has_summary d)"
    using ok by (cases "mi_path i") (auto simp: addressed_def item_ok_def plain_path_def)
  moreover have "bounded_int env 10000 (dict_get d ''width'') = Inr (mi_width i)"
    "bounded_int env 10000 (dict_get d ''height'') = Inr (mi_height i)"
    "bounded_int env 86400000 (dict_get d ''duration_ms'') = Inr (mi_duration i)"
    using ok(1) by (simp_all add: stored_gets [OF d] b item_ok_def)
  ultimately show ?thesis
    unfolding normalize_item_def Let_def stored_fields(1-3) [OF ok(1) d] by (simp add: stored_fields(4) [OF ok(1) d])
qed

lemma normalize_stored_items:
  assumes "list_all (\<lambda>i. item_ok i \<and> addressed i) items"
  shows "normalize_items env True (map item_value items) = Inr items"
  using assms
proof (induction items)
  case (Cons i items)
  obtain d where d: "item_value i = PDict d" by (simp add: item_value_def)
  with Cons normalize_stored [of i d env] show ?case by simp
qed simp

text \<open>What the worker's normaliser lets through is of that form, up to the texts of the optional fields.\<close>

definition has_texts :: "media_item \<Rightarrow> bool" where
  "has_texts i \<longleftrightarrow> mi_mime i \<noteq> Some [] \<and> mi_name i \<noteq> Some []"

lemma bounded_int_range: "bounded_int env m v = Inr n \<Longrightarrow> 0 \<le> m \<Longrightarrow> 0 \<le> n \<and> n \<le> m"
  by (auto simp: bounded_int_def in_bounds_def split: sum.splits py_error.splits if_splits)

lemma media_fields_ok:
  assumes "has_texts (media_fields env d p (w, h, t))" "p = [] \<or> plain_path p"
    and "0 \<le> w" "w \<le> 10000" "0 \<le> h" "h \<le> 10000" "0 \<le> t" "t \<le> 86400000"
  shows "item_ok (media_fields env d p (w, h, t))"
proof -
  have "media_kind env d \<in> set MEDIA_TYPES" by (auto simp: media_kind_def Let_def MEDIA_TYPES_def)
  moreover have "media_url env d = [] \<or> plain_url (media_url env d)"
    by (auto simp: media_url_def Let_def plain_url_def)
  moreover have "py_len (cut_text env 160 v) \<le> 160" for v by (simp add: cut_text_def py_len_py_take)
  moreover have "cut_option n (optional_text env n v)" if "optional_text env n v \<noteq> Some []" for n v
    using that by (auto simp: cut_option_def optional_text_def py_len_py_take)
  ultimately show ?thesis
    using assms by (auto simp: item_ok_def media_fields_def has_texts_def)
qed

lemma worker_path_plain: "worker_path env ap d = [] \<or> plain_path (worker_path env ap d)"
  by (auto simp: worker_path_def Let_def plain_path_def)

lemma normalize_item_ok:
  assumes "normalize_item env ap d = Inr (Some i)" "has_texts i"
  shows "item_ok i"
proof -
  from assms(1) obtain w h t where i: "i = media_fields env d (worker_path env ap d) (w, h, t)"
    and b: "bounded_int env 10000 (dict_get d ''width'') = Inr w" "bounded_int env 10000 (dict_get d ''height'') = Inr h"
      "bounded_int env 86400000 (dict_get d ''duration_ms'') = Inr t"
    by (auto simp: normalize_item_def Let_def split: if_splits sum.splits)
  show ?thesis
    using assms(2) bounded_int_range [OF b(1)] bounded_int_range [OF b(2)] bounded_int_range [OF b(3)] worker_path_plain
    unfolding i by (intro media_fields_ok) auto
qed

lemma normalize_items_ok:
  assumes "normalize_items env ap xs = Inr items" "list_all has_texts items"
  shows "list_all item_ok items"
  using assms
proof (induction env ap xs arbitrary: items rule: normalize_items.induct)
  case (2 env ap d xs)
  then show ?case
    by (auto split: sum.splits option.splits intro: normalize_item_ok)
qed auto

end
