(* ===== verification/Manual_Round_Trip.thy ===== *)
theory Manual_Round_Trip
  imports Manual_Queue Manual_Media_Facts
begin

text \<open>
  What the backend stores of a reply's images is what the worker reads back.
\<close>

definition image_ok :: "media_item \<Rightarrow> bool" where
  "image_ok i \<longleftrightarrow> item_ok i \<and> mi_type i = ''image'' \<and> (case mi_path i of None \<Rightarrow> False | Some p \<Rightarrow> image_name p)"

definition images_ok :: "media_item list \<Rightarrow> bool" where
  "images_ok items \<longleftrightarrow> length items \<le> 8 \<and> list_all image_ok items \<and> distinct (map mi_path items)"

lemma images_ok_Nil [simp]: "images_ok []"
  by (simp add: images_ok_def)

section \<open>Reading what was stored\<close>

lemma image_ok_path:
  assumes "image_ok i" "item_value i = PDict d"
  obtains p where "mi_path i = Some p" "image_name p" "raw_path env d = p" "manual_image_filename env (dict_get d ''path'') = p"
    "says_image env d"
proof -
  from assms(1) obtain p where p: "mi_path i = Some p" "image_name p" "mi_type i = ''image''"
    by (auto simp: image_ok_def split: option.splits)
  have "py_strip p = p" using image_name_chars(4) [OF p(2)] by (rule py_strip_plain)
  then have r: "raw_path env d = p" by (simp add: raw_path_def stored_gets [OF assms(2)] p(1))
  have "''image'' \<in> set MEDIA_TYPES" by (simp add: MEDIA_TYPES_def)
  from media_types_lower [OF this] have "says_image env d" by (simp add: says_image_def stored_gets [OF assms(2)] p(3))
  with p r show thesis by (intro that) (simp_all add: filename_iff)
qed

lemma check_stored_images:
  assumes "list_all image_ok items" "distinct (map mi_path items)" "\<And>p. p \<in> set seen \<Longrightarrow> Some p \<notin> mi_path ` set items"
  shows "check_images env seen (zip (map item_value items) items) = Inr ()"
  using assms
proof (induction items arbitrary: seen)
  case (Cons i items)
  obtain d where d: "item_value i = PDict d" by (simp add: item_value_def)
  from Cons.prems(1) have "image_ok i" by simp
  then obtain p where p: "mi_path i = Some p" "image_name p" "manual_image_filename env (dict_get d ''path'') = p" "says_image env d"
    using d by (rule image_ok_path)
  have "p \<notin> set seen" using Cons.prems(3) [of p] p(1) by auto
  moreover have "check_images env (p # seen) (zip (map item_value items) items) = Inr ()"
    by (rule Cons.IH) (use Cons.prems p(1) in \<open>auto simp: image_iff\<close>)
  ultimately show ?case using image_name_chars(2) [OF p(2)] p by (simp add: d)
qed simp

lemma images_stored:
  assumes "images_ok items"
  shows "normalize_manual_reply_media env (MediaText (Decoded (stored_items items))) = Inr items"
    "records_media_json env (MediaValue (stored_items items)) = Decoded (stored_items items)"
    "records_items env True (map item_value items) = items"
proof -
  have ok: "list_all image_ok items" "length items \<le> 8" "distinct (map mi_path items)" using assms by (auto simp: images_ok_def)
  have "list_all (\<lambda>i. item_ok i \<and> addressed i) items"
    using ok(1) by (auto simp: list_all_iff image_ok_def addressed_def split: option.splits)
  then have n: "normalize_items env True (map item_value items) = Inr items" by (rule normalize_stored_items)
  have dicts: "list_all (image_dict env) (map item_value items)"
    unfolding list_all_iff
  proof (clarsimp)
    fix i assume "i \<in> set items"
    with ok(1) have i: "image_ok i" by (simp add: list_all_iff)
    obtain d where d: "item_value i = PDict d" by (simp add: item_value_def)
    show "image_dict env (item_value i)" using i d by (rule image_ok_path [of _ _ env]) (simp add: image_dict_def d)
  qed
  show "normalize_manual_reply_media env (MediaText (Decoded (stored_items items))) = Inr items"
    using n ok(2) check_stored_images [OF ok(1,3), of "[]" env]
    by (simp add: normalize_manual_reply_media_def strict_images_def stored_items_def MANUAL_REPLY_MAX_IMAGES_def)
  have "image_items env (map item_value items) = items"
    by (rule worker_images [OF dicts]) (use n in auto)
  then show rec: "records_items env True (map item_value items) = items"
    using records_images [OF dicts] ok(2) by simp
  then show "records_media_json env (MediaValue (stored_items items)) = Decoded (stored_items items)"
    by (simp add: records_media_json_def normalise_media_def stored_items_def)
qed

lemmas stored_records_items = images_stored(3)

section \<open>What passes the checks\<close>

lemma records_item_ok:
  assumes "image_name (raw_path env d)" "mi_name (records_item env True d) \<noteq> Some []" "mi_mime (records_item env True d) \<noteq> Some []"
  shows "item_ok (records_item env True d)" "mi_path (records_item env True d) = Some (raw_path env d)"
proof -
  note c = image_name_chars [OF assms(1)] name_char_safe [OF image_name_chars(1) [OF assms(1)]]
  have p: "records_path env d = raw_path env d" using image_paths assms(1) by simp
  have "py_strip (raw_path env d) = raw_path env d" by (simp add: raw_path_def)
  moreover have "py_len (raw_path env d) \<le> 255" using c(3) py_len_le_length [of "raw_path env d"] by simp
  ultimately have "plain_path (raw_path env d)" using c by (simp add: plain_path_def)
  moreover have "0 \<le> records_bounded_int env m v \<and> records_bounded_int env m v \<le> m" if "0 \<le> m" for m v
    using that by (auto simp: records_bounded_int_def in_bounds_def split: sum.split)
  ultimately show "item_ok (records_item env True d)"
    using assms(2,3) unfolding records_item_def p by (intro media_fields_ok) (auto simp: has_texts_def)
  show "mi_path (records_item env True d) = Some (raw_path env d)"
    using c(2) by (simp add: records_item_def p media_fields_def)
qed

lemma input_items_ok:
  assumes "media_input_items env seen (map item_value items) = Inr clean"
  shows "list_all image_ok clean" "distinct (map mi_path clean)" "\<And>p. p \<in> set seen \<Longrightarrow> Some p \<notin> mi_path ` set clean"
    "length clean = length items"
proof -
  have "list_all image_ok clean \<and> distinct (map mi_path clean) \<and> (\<forall>p \<in> set seen. Some p \<notin> mi_path ` set clean) \<and> length clean = length items"
    using assms
  proof (induction items arbitrary: seen clean)
    case (Cons i items)
    obtain d where d: "item_value i = PDict d" by (simp add: item_value_def)
    define name where "name = manual_image_filename env (dict_get d ''path'')"
    from Cons.prems obtain rest where r: "name \<noteq> []" "name \<notin> set seen" "mi_path (records_item env True d) = Some name"
      "media_input_items env (name # seen) (map item_value items) = Inr rest"
      "clean = (records_item env True d)\<lparr>mi_type := ''image'', mi_url := []\<rparr> # rest"
      by (auto simp: d name_def Let_def split: if_splits sum.splits)
    have n: "image_name (raw_path env d)" "name = raw_path env d" using r(1) by (auto simp: name_def filename_iff split: if_splits)
    have t: "optional_text env m (case x of None \<Rightarrow> PNone | Some s \<Rightarrow> PStr s) \<noteq> Some []" if "0 < m" for m x
      using that py_take_nonempty by (auto simp: optional_text_def split: option.splits)
    have "mi_name (records_item env True d) \<noteq> Some []" "mi_mime (records_item env True d) \<noteq> Some []"
      using t by (simp_all add: records_item_def media_fields_def stored_gets [OF d])
    from records_item_ok [OF n(1) this] have "image_ok ((records_item env True d)\<lparr>mi_type := ''image'', mi_url := []\<rparr>)"
      using n(1) by (simp add: image_ok_def item_ok_def MEDIA_TYPES_def)
    with Cons.IH [OF r(4)] r(2,3,5) show ?case by auto
  qed simp
  then show "list_all image_ok clean" "distinct (map mi_path clean)" "\<And>p. p \<in> set seen \<Longrightarrow> Some p \<notin> mi_path ` set clean"
    "length clean = length items" by auto
qed

lemma mime_ok: "detect_mime header extension = Some mime \<Longrightarrow> cut_option 80 (Some mime)"
proof -
  have "list_all (\<lambda>m. cut_option 80 (Some m)) [''image/jpeg'', ''image/png'', ''image/gif'', ''image/webp'']" by code_simp
  then show "detect_mime header extension = Some mime \<Longrightarrow> cut_option 80 (Some mime)"
    by (auto simp: detect_mime_def split: if_splits)
qed

lemma check_files_ok:
  assumes "check_image_files files clean = Inr checked" "list_all image_ok clean"
  shows "list_all image_ok checked" "map mi_path checked = map mi_path clean"
proof -
  have "list_all image_ok checked \<and> map mi_path checked = map mi_path clean"
    using assms
  proof (induction files clean arbitrary: checked rule: check_image_files.induct)
    case (2 files i items)
    then obtain j js where j: "check_image_file files i = Inr j" "check_image_files files items = Inr js" "checked = j # js"
      by (auto split: sum.splits)
    from j(1) obtain mime where "j = i\<lparr>mi_mime := Some mime\<rparr>" "cut_option 80 (Some mime)"
      by (auto simp: check_image_file_def Let_def split: option.splits if_splits dest: mime_ok)
    then have "image_ok j \<and> mi_path j = mi_path i" using "2.prems"(2) by (simp add: image_ok_def item_ok_def MEDIA_TYPES_def)
    moreover have "list_all image_ok js \<and> map mi_path js = map mi_path items" using "2.IH" j(1,2) "2.prems"(2) by auto
    ultimately show ?case by (simp add: j(3))
  qed simp
  then show "list_all image_ok checked" "map mi_path checked = map mi_path clean" by auto
qed

lemma validated_images:
  assumes "validate_manual_reply_media env files media = Inr checked"
  shows "images_ok checked" "length checked = length media"
proof -
  obtain clean where c: "normalise_manual_reply_media_input env (stored_items media) = Inr clean"
    "check_image_files files clean = Inr checked"
    using assms by (auto simp: validate_manual_reply_media_def split: sum.splits)
  then have m: "media_input_items env [] (map item_value media) = Inr clean" "length media \<le> 8"
    by (auto simp: normalise_manual_reply_media_input_def stored_items_def split: if_splits)
  note i = input_items_ok [OF m(1)]
  note k = check_files_ok [OF c(2) i(1)]
  have "length checked = length clean" using arg_cong [OF k(2), of length] by simp
  with i k m(2) show "images_ok checked" "length checked = length media" by (auto simp: images_ok_def)
qed

end
