(* ===== verification/Manual_Invariants.thy ===== *)
theory Manual_Invariants
  imports Manual_Round_Trip Lease_Contract
begin

text \<open>
  The reply outbox under arbitrary interleaving of the worker's and the backend's operations: the
  invariant of its tables, and the leases of the replies as a client of the lease contract.
\<close>

section \<open>Invariant\<close>

definition deliverable :: "py_env \<Rightarrow> outbox_row \<Rightarrow> part_row list \<Rightarrow> bool" where
  \<comment> \<open>The worker's normaliser accepts the payload and the parts are the ones it calls for\<close>
  "deliverable env r rows \<longleftrightarrow> rows \<noteq> [] \<and>
     manual_reply_part_specs env (rp_content r) (rp_media r) = Inr (map spec_of rows)"

definition media_ok :: "json_col \<Rightarrow> bool" where
  "media_ok c \<longleftrightarrow> (\<exists>items. images_ok items \<and> c = Decoded (stored_items items))"

lemma media_ok_Nil [simp]: "media_ok (Decoded (PList []))"
  by (auto simp: media_ok_def stored_items_def intro!: exI [of _ "[]"])

definition reply_ok :: "py_env \<Rightarrow> part_row list \<Rightarrow> outbox_row \<Rightarrow> bool" where
  "reply_ok env rows r \<longleftrightarrow> acks_in_order rows \<and> 0 \<le> rp_attempts r \<and> rp_attempts r \<le> rp_max r \<and> rp_max r = 10 \<and> media_ok (rp_media r) \<and>
     (rp_status r = RAcknowledged \<longrightarrow> pending_parts rows = []) \<and>
     (if rp_status r = RSending
      then rp_owner r \<notin> {None, Some []} \<and> rp_until r \<noteq> None \<and> deliverable env r rows \<and> pending_parts rows \<noteq> []
      else rp_owner r = None \<and> rp_until r = None)"

abbreviation rows_in :: "chat_db \<Rightarrow> outbox_row \<Rightarrow> part_row list" where
  "rows_in db r \<equiv> manual_reply_part_rows (rp_id r) db"

definition outbox_inv :: "py_env \<Rightarrow> chat_db \<Rightarrow> bool" where
  "outbox_inv env db \<longleftrightarrow> unique_key rp_id (replies db) \<and> unique_key part_key (reply_parts db) \<and>
     list_all (\<lambda>r. 1 \<le> rp_id r \<and> rp_id r \<le> reply_seq db) (replies db) \<and> 0 \<le> reply_seq db \<and>
     list_all (\<lambda>p. pt_outbox p \<le> reply_seq db) (reply_parts db) \<and>
     list_all (\<lambda>r. reply_ok env (rows_in db r) r) (replies db)"

lemma outbox_invD:
  assumes "outbox_inv env db"
  shows "unique_key rp_id (replies db)" "unique_key part_key (reply_parts db)" "0 \<le> reply_seq db"
    "\<And>r. r \<in> set (replies db) \<Longrightarrow> 1 \<le> rp_id r \<and> rp_id r \<le> reply_seq db"
    "\<And>p. p \<in> set (reply_parts db) \<Longrightarrow> pt_outbox p \<le> reply_seq db"
    "\<And>r. r \<in> set (replies db) \<Longrightarrow> reply_ok env (rows_in db r) r"
  using assms by (auto simp: outbox_inv_def list_all_iff)

lemma outbox_invI:
  assumes "unique_key rp_id (replies db)" "unique_key part_key (reply_parts db)" "0 \<le> reply_seq db"
    "\<And>r. r \<in> set (replies db) \<Longrightarrow> 1 \<le> rp_id r \<and> rp_id r \<le> reply_seq db"
    "\<And>p. p \<in> set (reply_parts db) \<Longrightarrow> pt_outbox p \<le> reply_seq db"
    "\<And>r. r \<in> set (replies db) \<Longrightarrow> reply_ok env (rows_in db r) r"
  shows "outbox_inv env db"
  using assms by (auto simp: outbox_inv_def list_all_iff)

definition sender_of :: "outbox_row \<Rightarrow> (string \<times> time) option" where
  "sender_of r = (if rp_status r = RSending then Some (text_of (rp_owner r), until_of r) else None)"

definition reply_holder :: "chat_db \<Rightarrow> int \<Rightarrow> (string \<times> time) option" where
  "reply_holder db i = (case reply_by_id i db of None \<Rightarrow> None | Some r \<Rightarrow> sender_of r)"

text \<open>What every statement of every operation does; the relation composes.\<close>

definition sound :: "py_env \<Rightarrow> string \<Rightarrow> time \<Rightarrow> chat_db \<Rightarrow> chat_db \<Rightarrow> bool" where
  "sound env a now db db' \<longleftrightarrow>
     (outbox_inv env db \<longrightarrow> outbox_inv env db' \<and> (\<forall>i. fair a now (reply_holder db i) (reply_holder db' i)))"

lemma sound_refl [simp]: "sound env a now db db"
  by (simp add: sound_def)

lemma sound_trans [trans]: "sound env a now db db1 \<Longrightarrow> sound env a now db1 db2 \<Longrightarrow> sound env a now db db2"
  unfolding sound_def by (blast intro: fair_trans)

section \<open>Parts\<close>

lemma part_rows_cong [simp]:
  "manual_reply_part_rows i (db\<lparr>replies := rs\<rparr>) = manual_reply_part_rows i db"
  "manual_reply_part_rows i (db\<lparr>reply_seq := n\<rparr>) = manual_reply_part_rows i db"
  "manual_reply_part_rows i (db\<lparr>chat_messages := ms\<rparr>) = manual_reply_part_rows i db"
  by (simp_all add: manual_reply_part_rows_def)

lemma write_replies_sel [simp]:
  "replies (write_replies P f db) = sql_update P f (replies db)"
  "reply_parts (write_replies P f db) = reply_parts db"
  "reply_seq (write_replies P f db) = reply_seq db"
  "chat_messages (write_replies P f db) = chat_messages db"
  "manual_reply_part_rows i (write_replies P f db) = manual_reply_part_rows i db"
  by (simp_all add: write_replies_def)

lemma in_part_rows: "p \<in> set (manual_reply_part_rows i db) \<longleftrightarrow> p \<in> set (reply_parts db) \<and> pt_outbox p = i"
  by (auto simp: manual_reply_part_rows_def)

lemma part_rows_empty: "manual_reply_part_rows i db = [] \<longleftrightarrow> (\<forall>p \<in> set (reply_parts db). pt_outbox p \<noteq> i)"
  by (auto simp: manual_reply_part_rows_def filter_empty_conv simp flip: set_empty)

lemma acks_pending: "(\<And>p. p \<in> set rows \<Longrightarrow> pt_acked p = None) \<Longrightarrow> acks_in_order rows"
  by (cases rows) (auto simp: list_all_iff)

lemma pending_none: "pending_parts rows = [] \<longleftrightarrow> (\<forall>p \<in> set rows. pt_acked p \<noteq> None)"
  by (auto simp: pending_parts_def filter_empty_conv)

lemma part_rows_update:
  assumes "\<And>p. pt_outbox (f p) = pt_outbox p" "\<And>p. pt_index (f p) = pt_index p"
  shows "manual_reply_part_rows i (db\<lparr>reply_parts := sql_update P f (reply_parts db)\<rparr>) =
    sql_update P f (manual_reply_part_rows i db)"
proof -
  let ?h = "\<lambda>p. if P p then f p else p"
  have "pt_outbox (?h p) = pt_outbox p" "pt_index (?h p) = pt_index p" for p using assms by auto
  then show ?thesis
    using order_by_map [of pt_index ?h] by (simp add: manual_reply_part_rows_def sql_update_def filter_map o_def)
qed

lemma acks_update:
  assumes "\<And>p. pt_acked (f p) = pt_acked p"
  shows "acks_in_order (sql_update P f rows) = acks_in_order rows"
    "(pending_parts (sql_update P f rows) = []) = (pending_parts rows = [])"
proof -
  have *: "list_all (\<lambda>q. pt_acked q = None) (sql_update P f rows) = list_all (\<lambda>q. pt_acked q = None) rows" for rows
    by (induction rows) (auto simp: assms)
  show "acks_in_order (sql_update P f rows) = acks_in_order rows"
    by (induction rows) (auto simp: assms *)
  show "(pending_parts (sql_update P f rows) = []) = (pending_parts rows = [])"
    by (induction rows) (auto simp: pending_parts_def assms)
qed

lemma reply_ok_update:
  assumes "\<And>p. pt_acked (f p) = pt_acked p" "\<And>p. spec_of (f p) = spec_of p"
  shows "reply_ok env (sql_update P f rows) r = reply_ok env rows r"
proof -
  have "map spec_of (sql_update P f rows) = map spec_of rows" by (rule map_sql_update) (rule assms)
  moreover have "sql_update P f rows = [] \<longleftrightarrow> rows = []" by (simp add: sql_update_def)
  ultimately show ?thesis by (simp add: reply_ok_def deliverable_def acks_update [OF assms(1)])
qed

lemma add_parts_sel [simp]:
  "replies (add_parts i specs db) = replies db" "reply_seq (add_parts i specs db) = reply_seq db"
  "chat_messages (add_parts i specs db) = chat_messages db"
  by (simp_all add: add_parts_def)

lemma new_part_sel [simp]:
  "pt_outbox (new_part i s) = i" "pt_acked (new_part i s) = None" "spec_of (new_part i s) = s"
  by (simp_all add: new_part_def spec_of_def)

lemma fold_insert_ignore:
  "p \<in> set (fold (\<lambda>s. sql_insert_ignore part_key (new_part i s)) specs ps) \<Longrightarrow> p \<in> set ps \<or> (\<exists>s \<in> set specs. p = new_part i s)"
  "unique_key part_key ps \<Longrightarrow> unique_key part_key (fold (\<lambda>s. sql_insert_ignore part_key (new_part i s)) specs ps)"
  "j \<noteq> i \<Longrightarrow> filter (\<lambda>p. pt_outbox p = j) (fold (\<lambda>s. sql_insert_ignore part_key (new_part i s)) specs ps) =
     filter (\<lambda>p. pt_outbox p = j) ps"
proof -
  show "p \<in> set (fold (\<lambda>s. sql_insert_ignore part_key (new_part i s)) specs ps) \<Longrightarrow> p \<in> set ps \<or> (\<exists>s \<in> set specs. p = new_part i s)"
    by (induction specs arbitrary: ps) (fastforce simp: sql_insert_ignore_def split: if_splits)+
  show "unique_key part_key ps \<Longrightarrow> unique_key part_key (fold (\<lambda>s. sql_insert_ignore part_key (new_part i s)) specs ps)"
    by (induction specs arbitrary: ps) (auto simp: part_keys.unique_insert_ignore)
  show "j \<noteq> i \<Longrightarrow> filter (\<lambda>p. pt_outbox p = j) (fold (\<lambda>s. sql_insert_ignore part_key (new_part i s)) specs ps) =
     filter (\<lambda>p. pt_outbox p = j) ps"
    by (induction specs arbitrary: ps) (auto simp: sql_insert_ignore_def)
qed

lemma add_parts_rows:
  shows "j \<noteq> i \<Longrightarrow> manual_reply_part_rows j (add_parts i specs db) = manual_reply_part_rows j db"
    "manual_reply_part_rows i db = [] \<Longrightarrow> p \<in> set (manual_reply_part_rows i (add_parts i specs db)) \<Longrightarrow> pt_acked p = None"
proof -
  show "j \<noteq> i \<Longrightarrow> manual_reply_part_rows j (add_parts i specs db) = manual_reply_part_rows j db"
    by (simp add: manual_reply_part_rows_def add_parts_def fold_insert_ignore(3))
  assume "manual_reply_part_rows i db = []" "p \<in> set (manual_reply_part_rows i (add_parts i specs db))"
  then have "p \<notin> set (reply_parts db)" "p \<in> set (reply_parts (add_parts i specs db))"
    by (auto simp: in_part_rows part_rows_empty)
  then obtain s where "p = new_part i s" unfolding add_parts_def by (auto dest!: fold_insert_ignore(1))
  then show "pt_acked p = None" by simp
qed

section \<open>Statements\<close>

lemma fair_cong: "replies db' = replies db \<Longrightarrow> fair a now (reply_holder db i) (reply_holder db' i)"
  by (simp add: reply_holder_def)

lemma holder_in: "outbox_inv env db \<Longrightarrow> r \<in> set (replies db) \<Longrightarrow> reply_holder db (rp_id r) = sender_of r"
  using reply_ids.find_iff [of "replies db" "rp_id r" r] by (simp add: reply_holder_def outbox_inv_def)

lemma sound_write:
  assumes "\<And>r. \<lbrakk>r \<in> set (replies db); P r; reply_ok env (rows_in db r) r\<rbrakk> \<Longrightarrow>
      reply_ok env (rows_in db r) (f r) \<and> fair a now (sender_of r) (sender_of (f r))"
    and "\<And>r. rp_id (f r) = rp_id r"
  shows "sound env a now db (write_replies P f db)"
  unfolding sound_def
proof (intro impI conjI allI)
  assume inv: "outbox_inv env db"
  note i = outbox_invD [OF inv]
  show "outbox_inv env (write_replies P f db)"
  proof (rule outbox_invI)
    show "unique_key rp_id (replies (write_replies P f db))"
      using i(1) assms(2) by (simp add: reply_ids.unique_update)
    fix r assume "r \<in> set (replies (write_replies P f db))"
    then obtain q where q: "q \<in> set (replies db)" "r = (if P q then f q else q)" by (auto simp: in_sql_update)
    show "1 \<le> rp_id r \<and> rp_id r \<le> reply_seq (write_replies P f db)" using i(4) [OF q(1)] q(2) assms(2) by simp
    show "reply_ok env (rows_in (write_replies P f db) r) r"
      using i(6) [OF q(1)] assms(1) [OF q(1)] q(2) assms(2) by auto
  qed (use i in auto)
  fix j
  show "fair a now (reply_holder db j) (reply_holder (write_replies P f db) j)"
  proof (cases "reply_by_id j db")
    case (Some r)
    then have r: "r \<in> set (replies db)" by (auto dest: find_SomeD)
    show ?thesis
      using Some i(6) [OF r] assms(1) [OF r] assms(2)
      by (auto simp: reply_holder_def reply_ids.find_update)
  qed (use assms(2) in \<open>simp add: reply_holder_def reply_ids.find_update\<close>)
qed

lemma sound_add_parts:
  assumes "r \<in> set (replies db)" "rows_in db r = []" "rp_status r \<in> set ACTIVE_STATUSES"
  shows "sound env a now db (add_parts (rp_id r) specs db)"
  unfolding sound_def
proof (intro impI conjI allI)
  assume inv: "outbox_inv env db"
  note i = outbox_invD [OF inv]
  let ?db = "add_parts (rp_id r) specs db"
  show "outbox_inv env ?db"
  proof (rule outbox_invI)
    show "unique_key part_key (reply_parts ?db)" using i(2) by (simp add: add_parts_def fold_insert_ignore(2))
    show "pt_outbox p \<le> reply_seq ?db" if "p \<in> set (reply_parts ?db)" for p
      using that i(4) [OF assms(1)] i(5) by (auto simp: add_parts_def dest!: fold_insert_ignore(1))
    fix q assume q: "q \<in> set (replies ?db)"
    show "reply_ok env (rows_in ?db q) q"
    proof (cases "rp_id q = rp_id r")
      case True
      with q i(1) assms(1) have "q = r" by (auto intro: reply_ids.same_row)
      moreover have "acks_in_order (rows_in ?db r)" by (rule acks_pending) (use add_parts_rows(2) assms(2) in blast)
      ultimately show ?thesis
        using i(6) [OF assms(1)] assms(2,3) by (auto simp: reply_ok_def deliverable_def ACTIVE_STATUSES_def)
    qed (use i(6) q in \<open>simp add: add_parts_rows\<close>)
  qed (use i in auto)
  show "fair a now (reply_holder db j) (reply_holder ?db j)" for j by (rule fair_cong) simp
qed

lemma sound_append:
  assumes "rp_id r = reply_seq db + 1" "rp_status r \<in> {RDraft, RQueued}" "rp_attempts r = 0" "rp_max r = 10"
    "rp_owner r = None" "rp_until r = None" "media_ok (rp_media r)"
  shows "sound env a now db (db\<lparr>replies := replies db @ [r], reply_seq := reply_seq db + 1\<rparr>)"
  unfolding sound_def
proof (intro impI conjI allI)
  assume inv: "outbox_inv env db"
  note i = outbox_invD [OF inv]
  let ?db = "db\<lparr>replies := replies db @ [r], reply_seq := reply_seq db + 1\<rparr>"
  have "rp_id q \<noteq> rp_id r" if "q \<in> set (replies db)" for q using i(4) [OF that] assms(1) by simp
  then have new: "reply_by_id (rp_id r) db = None" by (simp add: find_None_iff)
  have "pt_outbox p \<noteq> rp_id r" if "p \<in> set (reply_parts db)" for p using i(5) [OF that] assms(1) by simp
  then have "rows_in db r = []" by (simp add: part_rows_empty)
  then have ok: "reply_ok env (rows_in db r) r" using assms by (auto simp: reply_ok_def pending_parts_def)
  show "outbox_inv env ?db"
  proof (rule outbox_invI)
    show "unique_key rp_id (replies ?db)" using reply_ids.unique_insert [OF i(1) new] by simp
    fix q assume "q \<in> set (replies ?db)"
    then have q: "q \<in> set (replies db) \<or> q = r" by auto
    show "1 \<le> rp_id q \<and> rp_id q \<le> reply_seq ?db" using q i(3) i(4) [of q] assms(1) by auto
    show "reply_ok env (rows_in ?db q) q" using q i(6) ok by auto
  next
    fix p assume "p \<in> set (reply_parts ?db)"
    then show "pt_outbox p \<le> reply_seq ?db" using i(5) [of p] by simp
  qed (use i in simp_all)
  fix j
  show "fair a now (reply_holder db j) (reply_holder ?db j)"
    using new assms(2) by (auto simp: reply_holder_def reply_ids.find_append_new sender_of_def split: option.split)
qed

lemma sound_delete:
  assumes "\<And>r. r \<in> set (replies db) \<Longrightarrow> P r \<Longrightarrow> rp_status r \<noteq> RSending"
  shows "sound env a now db (db\<lparr>replies := sql_delete P (replies db)\<rparr>)"
  unfolding sound_def
proof (intro impI conjI allI)
  assume inv: "outbox_inv env db"
  note i = outbox_invD [OF inv]
  show "outbox_inv env (db\<lparr>replies := sql_delete P (replies db)\<rparr>)"
    using inv by (auto simp: outbox_inv_def list_all_iff reply_ids.unique_delete in_sql_delete)
  show "fair a now (reply_holder db j) (reply_holder (db\<lparr>replies := sql_delete P (replies db)\<rparr>) j)" for j
    using assms by (auto simp: reply_holder_def reply_ids.find_delete [OF i(1)] sender_of_def split: option.split dest: find_SomeD)
qed

lemma sound_messages: "sound env a now db (db\<lparr>chat_messages := ms\<rparr>)"
  by (simp add: sound_def fair_cong outbox_inv_def)

lemma sound_sent: "sound env a now db (db\<lparr>reply_parts := sql_update P (\<lambda>p. p\<lparr>pt_sent := m\<rparr>) (reply_parts db)\<rparr>)"
  (is "sound env a now db ?db")
  unfolding sound_def
proof (intro impI conjI allI)
  assume inv: "outbox_inv env db"
  have rows: "manual_reply_part_rows j ?db = sql_update P (\<lambda>p. p\<lparr>pt_sent := m\<rparr>) (manual_reply_part_rows j db)" for j
    by (rule part_rows_update) simp_all
  have "reply_ok env (rows_in ?db r) r = reply_ok env (rows_in db r) r" for r
    unfolding rows by (rule reply_ok_update) (simp_all add: spec_of_def)
  moreover have "unique_key part_key (reply_parts ?db)"
    using inv by (simp add: outbox_inv_def part_keys.unique_update part_key_def)
  ultimately show "outbox_inv env ?db"
    using inv by (auto simp: outbox_inv_def list_all_iff in_sql_update)
  show "fair a now (reply_holder db j) (reply_holder ?db j)" for j by (rule fair_cong) simp
qed

lemma sound_orphans:
  "sound env a now db (db\<lparr>reply_parts := sql_delete (\<lambda>p. pt_outbox p \<notin> rp_id ` set (replies db)) (reply_parts db)\<rparr>)"
  (is "sound env a now db ?db")
  unfolding sound_def
proof (intro impI conjI allI)
  assume inv: "outbox_inv env db"
  have rows: "rows_in ?db r = rows_in db r" if "r \<in> set (replies db)" for r
  proof -
    have "filter (\<lambda>p. pt_outbox p = rp_id r) (reply_parts ?db) = filter (\<lambda>p. pt_outbox p = rp_id r) (reply_parts db)"
      using that by (simp add: sql_delete_def) (rule filter_cong, auto)
    then show ?thesis by (simp add: manual_reply_part_rows_def)
  qed
  moreover have "unique_key part_key (reply_parts ?db)"
    using inv by (simp add: outbox_inv_def part_keys.unique_delete)
  ultimately show "outbox_inv env ?db"
    using inv by (simp add: outbox_inv_def list_all_iff in_sql_delete)
  show "fair a now (reply_holder db j) (reply_holder ?db j)" for j by (rule fair_cong) simp
qed

section \<open>Acknowledging a part\<close>

text \<open>The first pending part is acknowledged.\<close>

lemma acks_settle:
  assumes "pending_parts rows = p # rest" "distinct (map pt_index rows)" "acks_in_order rows" "\<And>q. pt_acked (f q) \<noteq> None"
  shows "acks_in_order (sql_update (\<lambda>q. pt_index q = pt_index p \<and> pt_acked q = None) f rows)"
    "pending_parts (sql_update (\<lambda>q. pt_index q = pt_index p \<and> pt_acked q = None) f rows) = rest"
proof -
  have "acks_in_order (sql_update (\<lambda>q. pt_index q = pt_index p \<and> pt_acked q = None) f rows) \<and>
    pending_parts (sql_update (\<lambda>q. pt_index q = pt_index p \<and> pt_acked q = None) f rows) = rest"
    using assms(1-3)
  proof (induction rows)
    case (Cons q rows)
    show ?case
    proof (cases "pt_acked q = None")
      case True
      with Cons.prems have q: "q = p" "pending_parts rows = rest" "list_all (\<lambda>q. pt_acked q = None) rows"
        by (auto simp: pending_parts_def)
      have "pt_index r \<noteq> pt_index p" if "r \<in> set rows" for r using Cons.prems(2) q(1) that by (auto simp: image_iff)
      then have "sql_update (\<lambda>q. pt_index q = pt_index p \<and> pt_acked q = None) f rows = rows" by (auto intro: sql_update_none)
      moreover have "acks_in_order rows" using q(3) by (auto intro: acks_pending simp: list_all_iff)
      ultimately show ?thesis using q assms(4) True by (simp add: pending_parts_def)
    next
      case False
      with Cons show ?thesis by (auto simp: pending_parts_def)
    qed
  qed (simp add: pending_parts_def)
  then show "acks_in_order (sql_update (\<lambda>q. pt_index q = pt_index p \<and> pt_acked q = None) f rows)"
    "pending_parts (sql_update (\<lambda>q. pt_index q = pt_index p \<and> pt_acked q = None) f rows) = rest" by auto
qed

lemma part_index_unique:
  assumes "unique_key part_key (reply_parts db)"
  shows "distinct (map pt_index (manual_reply_part_rows i db))"
proof -
  have "inj_on pt_index (set (filter (\<lambda>p. pt_outbox p = i) (reply_parts db)))"
    using assms by (auto simp: unique_key_def distinct_map inj_on_def part_key_def)
  with assms show ?thesis by (auto simp: manual_reply_part_rows_def unique_key_def distinct_map order_by_def)
qed

lemma settled_rows:
  assumes "unique_key part_key (reply_parts db)" "pending_parts (manual_reply_part_rows i db) = p # rest"
    and db1: "db1 = db\<lparr>reply_parts := sql_update (\<lambda>q. part_key q = part_key p \<and> pt_acked q = None) (acked_part now media) (reply_parts db)\<rparr>"
  shows "j \<noteq> i \<Longrightarrow> manual_reply_part_rows j db1 = manual_reply_part_rows j db"
    "acks_in_order (manual_reply_part_rows i db) \<Longrightarrow> acks_in_order (manual_reply_part_rows i db1)"
    "acks_in_order (manual_reply_part_rows i db) \<Longrightarrow> pending_parts (manual_reply_part_rows i db1) = rest"
    "map spec_of (manual_reply_part_rows i db1) = map spec_of (manual_reply_part_rows i db)"
proof -
  let ?f = "acked_part now media"
  let ?hit = "\<lambda>q. part_key q = part_key p \<and> pt_acked q = None"
  have "p \<in> set (pending_parts (manual_reply_part_rows i db))" by (simp add: assms(2))
  then have p: "pt_outbox p = i" by (simp add: pending_parts_def in_part_rows)
  have rows: "manual_reply_part_rows j db1 = sql_update ?hit ?f (manual_reply_part_rows j db)" for j
    unfolding db1 by (rule part_rows_update) (simp_all add: acked_part_def)
  show "manual_reply_part_rows j db1 = manual_reply_part_rows j db" if "j \<noteq> i"
    unfolding rows by (rule sql_update_none) (use that p in \<open>auto simp: in_part_rows part_key_def\<close>)
  have "(if ?hit q then ?f q else q) = (if pt_index q = pt_index p \<and> pt_acked q = None then ?f q else q)"
    if "q \<in> set (manual_reply_part_rows i db)" for q
    using that p by (simp add: in_part_rows part_key_def)
  then have own: "manual_reply_part_rows i db1 =
      sql_update (\<lambda>q. pt_index q = pt_index p \<and> pt_acked q = None) ?f (manual_reply_part_rows i db)"
    unfolding rows sql_update_def by (rule map_cong [OF refl])
  show "acks_in_order (manual_reply_part_rows i db1)" if "acks_in_order (manual_reply_part_rows i db)"
    unfolding own by (rule acks_settle(1) [OF assms(2) part_index_unique [OF assms(1)] that]) (simp add: acked_part_def)
  show "pending_parts (manual_reply_part_rows i db1) = rest" if "acks_in_order (manual_reply_part_rows i db)"
    unfolding own by (rule acks_settle(2) [OF assms(2) part_index_unique [OF assms(1)] that]) (simp add: acked_part_def)
  show "map spec_of (manual_reply_part_rows i db1) = map spec_of (manual_reply_part_rows i db)"
    unfolding rows by (rule map_sql_update) (simp add: spec_of_def acked_part_def)
qed

lemma remaining_zero:
  "sql_count (\<lambda>q. pt_outbox q = i \<and> pt_acked q = None) (reply_parts db) = 0 \<longleftrightarrow> pending_parts (manual_reply_part_rows i db) = []"
  by (auto simp: sql_count_0_iff pending_none in_part_rows)

text \<open>What a successful \<open>settle_part\<close> leaves behind.\<close>

lemma settle_effect:
  assumes inv: "outbox_inv env db" and r: "r \<in> set (replies db)" and p: "pending_parts (rows_in db r) = p # rest"
    and s: "settle_part now r p owner media db = (db2, Some ans)"
  shows "holds_lease (rp_id r) owner now r" "ans = answer_of p (rest = [])" "chat_messages db2 = chat_messages db"
    "reply_seq db2 = reply_seq db"
    "reply_parts db2 = sql_update (\<lambda>q. part_key q = part_key p \<and> pt_acked q = None) (acked_part now media) (reply_parts db)"
    "replies db2 = sql_update (holds_lease (rp_id r) owner now) (after_part now (rest = [])) (replies db)"
proof -
  note i = outbox_invD [OF inv]
  define db1 where db1: "db1 = db\<lparr>reply_parts := sql_update (\<lambda>q. part_key q = part_key p \<and> pt_acked q = None) (acked_part now media) (reply_parts db)\<rparr>"
  have "acks_in_order (rows_in db r)" using i(6) [OF r] by (simp add: reply_ok_def)
  then have rem: "sql_count (\<lambda>q. pt_outbox q = rp_id r \<and> pt_acked q = None) (reply_parts db1) = 0 \<longleftrightarrow> rest = []"
    using settled_rows(3) [OF i(2) p db1] by (simp add: remaining_zero)
  have "sql_count (holds_lease (rp_id r) owner now) (replies db) = 1"
    and e: "ans = answer_of p (rest = [])" "db2 = write_replies (holds_lease (rp_id r) owner now) (after_part now (rest = [])) db1"
    using s rem unfolding settle_part_def Let_def db1 [symmetric] by (simp_all add: db1 split: if_splits)
  then have "sql_count (holds_lease (rp_id r) owner now) (replies db) \<noteq> 0" by simp
  then obtain q where q: "q \<in> set (replies db)" "holds_lease (rp_id r) owner now q" by (auto simp: sql_count_0_iff)
  then have "q = r" using reply_ids.same_row [OF i(1) q(1) r] by (simp add: holds_lease_def)
  with q show "holds_lease (rp_id r) owner now r" by simp
  show "ans = answer_of p (rest = [])" by (rule e(1))
  show "chat_messages db2 = chat_messages db" "reply_seq db2 = reply_seq db"
    "reply_parts db2 = sql_update (\<lambda>q. part_key q = part_key p \<and> pt_acked q = None) (acked_part now media) (reply_parts db)"
    "replies db2 = sql_update (holds_lease (rp_id r) owner now) (after_part now (rest = [])) (replies db)"
    by (simp_all add: e(2) db1)
qed

lemma after_part_sel [simp]:
  "rp_id (after_part now b q) = rp_id q" "rp_attempts (after_part now b q) = rp_attempts q" "rp_max (after_part now b q) = rp_max q"
  "rp_content (after_part now b q) = rp_content q" "rp_media (after_part now b q) = rp_media q"
  "rp_status (after_part now b q) = (if b then RAcknowledged else rp_status q)"
  "rp_owner (after_part now b q) = (if b then None else rp_owner q)"
  "rp_until (after_part now b q) = (if b then None else rp_until q)"
  by (simp_all add: after_part_def)

lemma sound_settle:
  assumes inv: "outbox_inv env db" and r: "r \<in> set (replies db)" and p: "pending_parts (rows_in db r) = p # rest"
    and s: "settle_part now r p owner media db = (db2, Some ans)"
  shows "sound env owner now db db2"
  unfolding sound_def
proof (intro impI conjI allI)
  note i = outbox_invD [OF inv] and e = settle_effect [OF inv r p s]
  let ?db1 = "db\<lparr>reply_parts := reply_parts db2\<rparr>"
  note rows = settled_rows [OF i(2) p, of ?db1 now media, unfolded e(5), OF refl]
  have parts: "manual_reply_part_rows j db2 = manual_reply_part_rows j ?db1" for j by (simp add: manual_reply_part_rows_def)
  have acks: "acks_in_order (rows_in db r)" using i(6) [OF r] by (simp add: reply_ok_def)
  show "outbox_inv env db2"
  proof (rule outbox_invI)
    show "unique_key rp_id (replies db2)" using i(1) by (simp add: e(6) reply_ids.unique_update)
    show "unique_key part_key (reply_parts db2)"
      using i(2) by (simp add: e(5) part_keys.unique_update part_key_def acked_part_def)
    show "0 \<le> reply_seq db2" using i(3) by (simp add: e(4))
    show "pt_outbox q \<le> reply_seq db2" if "q \<in> set (reply_parts db2)" for q
      using that i(5) by (auto simp: e(4,5) in_sql_update acked_part_def)
    fix q assume "q \<in> set (replies db2)"
    then obtain q0 where q0: "q0 \<in> set (replies db)"
      and q: "q = (if holds_lease (rp_id r) owner now q0 then after_part now (rest = []) q0 else q0)"
      by (auto simp: e(6) in_sql_update)
    show "1 \<le> rp_id q \<and> rp_id q \<le> reply_seq db2" using i(4) [OF q0] by (simp add: q e(4))
    show "reply_ok env (rows_in db2 q) q"
    proof (cases "rp_id q0 = rp_id r")
      case True
      then have "q0 = r" by (rule reply_ids.same_row [OF i(1) q0 r])
      then have qr: "q = after_part now (rest = []) r" using q e(1) by simp
      have "length (rows_in db2 r) = length (rows_in db r)" using arg_cong [OF rows(4), of length] by (simp add: parts e(5))
      then have "rows_in db2 r = [] \<longleftrightarrow> rows_in db r = []" by (metis length_0_conv)
      with i(6) [OF r] rows(2-4) acks e(1) show ?thesis
        by (simp add: qr parts reply_ok_def deliverable_def holds_lease_def e(5))
    next
      case False
      then have "q = q0" by (simp add: q holds_lease_def)
      with i(6) [OF q0] rows(1) [OF False] show ?thesis by (simp add: parts e(5))
    qed
  qed
  fix j
  have "reply_holder db2 j = (case reply_by_id j db of None \<Rightarrow> None | Some q \<Rightarrow>
      sender_of (if holds_lease (rp_id r) owner now q then after_part now (rest = []) q else q))"
    by (simp add: reply_holder_def e(6) reply_ids.find_update split: option.split)
  then show "fair owner now (reply_holder db j) (reply_holder db2 j)"
    by (auto simp: reply_holder_def sender_of_def holds_lease_def text_of_def until_of_def split: option.split)
qed

end
