(* ===== verification/Manual_System.thy ===== *)
theory Manual_System
  imports Manual_Invariants
begin

text \<open>
  Every operation on the reply outbox keeps its invariant and the lease contract; the runs of the
  outbox under arbitrary interleaving.
\<close>

section \<open>Parts on demand\<close>

lemma worker_ensure:
  assumes r: "r \<in> set (replies db)" and e: "ensure_manual_reply_parts env r db = (db1, res)"
  shows "sound env a now db db1" "replies db1 = replies db" "chat_messages db1 = chat_messages db" "reply_seq db1 = reply_seq db"
    "res = Inr parts \<Longrightarrow> parts = rows_in db1 r"
    "res = Inr parts \<Longrightarrow> parts \<noteq> [] \<Longrightarrow> rp_status r \<noteq> RAcknowledged \<Longrightarrow> deliverable env r parts"
proof -
  have "fst (ensure_manual_reply_parts env r db) = db \<or> (\<exists>specs. fst (ensure_manual_reply_parts env r db) =
      add_parts (rp_id r) specs db \<and> rows_in db r = [] \<and> rp_status r \<in> set ACTIVE_STATUSES)"
    by (auto simp: ensure_manual_reply_parts_def Let_def split: sum.split)
  then have "db1 = db \<or> (\<exists>specs. db1 = add_parts (rp_id r) specs db \<and> rows_in db r = [] \<and> rp_status r \<in> set ACTIVE_STATUSES)"
    by (simp add: e)
  then show "sound env a now db db1" "replies db1 = replies db" "chat_messages db1 = chat_messages db" "reply_seq db1 = reply_seq db"
    using sound_add_parts [OF r] by auto
  show "parts = rows_in db1 r" if "res = Inr parts"
    using e that by (auto simp: ensure_manual_reply_parts_def Let_def split: sum.splits if_splits)
  show "deliverable env r parts" if "res = Inr parts" "parts \<noteq> []" "rp_status r \<noteq> RAcknowledged"
    using e that by (auto simp: ensure_manual_reply_parts_def worker_tombstone_def deliverable_def Let_def split: sum.splits if_splits)
qed

lemma records_ensure:
  assumes q: "q \<in> set (replies db)" "rp_id q = rp_id r" "rp_status q = rp_status r"
    and e: "records_ensure_parts env r db = (db1, res)"
  shows "sound env a now db db1" "replies db1 = replies db" "chat_messages db1 = chat_messages db" "reply_seq db1 = reply_seq db"
    "res = Inr parts \<Longrightarrow> parts = rows_in db1 r"
proof -
  have "fst (records_ensure_parts env r db) = db \<or> (\<exists>specs. fst (records_ensure_parts env r db) =
      add_parts (rp_id r) specs db \<and> rows_in db r = [] \<and> rp_status r \<in> set ACTIVE_STATUSES)"
    by (auto simp: records_ensure_parts_def Let_def split: sum.split)
  then have "db1 = db \<or> (\<exists>specs. db1 = add_parts (rp_id r) specs db \<and> rows_in db r = [] \<and> rp_status r \<in> set ACTIVE_STATUSES)"
    by (simp add: e)
  then show "sound env a now db db1" "replies db1 = replies db" "chat_messages db1 = chat_messages db" "reply_seq db1 = reply_seq db"
    using sound_add_parts [OF q(1)] q(2,3) by auto
  show "parts = rows_in db1 r" if "res = Inr parts"
    using e that by (auto simp: records_ensure_parts_def Let_def split: sum.splits if_splits)
qed

text \<open>A reply that is being sent passes both checks, so neither side takes it away from its sender.\<close>

lemma records_specs:
  "manual_reply_part_specs env c m = Inr specs \<Longrightarrow> records_part_specs env c m = Inr specs"
  by (auto simp: manual_reply_part_specs_def records_part_specs_def split: sum.splits dest!: worker_then_backend)

lemma ensure_sending:
  assumes "outbox_inv env db" "r \<in> set (replies db)" "rp_status r = RSending"
  shows "ensure_manual_reply_parts env r db = (db, Inr (rows_in db r))"
    "records_ensure_parts env r db = (db, Inr (rows_in db r))"
proof -
  have ok: "acks_in_order (rows_in db r)" "rows_in db r \<noteq> []"
    and sp: "manual_reply_part_specs env (rp_content r) (rp_media r) = Inr (map spec_of (rows_in db r))"
    using outbox_invD(6) [OF assms(1,2)] assms(3) by (auto simp: reply_ok_def deliverable_def)
  show "ensure_manual_reply_parts env r db = (db, Inr (rows_in db r))"
    using ok assms(3) by (simp add: ensure_manual_reply_parts_def worker_tombstone_def sp)
  show "records_ensure_parts env r db = (db, Inr (rows_in db r))"
    using ok assms(3) by (simp add: records_ensure_parts_def manual_reply_is_tombstone_def records_specs [OF sp])
qed

section \<open>Claiming\<close>

lemma sound_review: "rp_status r \<noteq> RSending \<Longrightarrow> reply_ok env rows r \<Longrightarrow>
    reply_ok env rows (invalid_payload now' r) \<and> fair a now (sender_of r) (sender_of (invalid_payload now' r))"
  by (simp add: reply_ok_def invalid_payload_def sender_of_def)

lemma invalid_payload_id [simp]: "rp_id (invalid_payload now r) = rp_id r"
  by (simp add: invalid_payload_def)

lemma sound_invalidate:
  assumes "unique_key rp_id (replies db)" "r \<in> set (replies db)" "rp_status r \<noteq> RSending" "\<And>q. P q \<Longrightarrow> rp_id q = rp_id r"
  shows "sound env a now db (write_replies P (invalid_payload now') db)"
proof (rule sound_write)
  fix q assume q: "q \<in> set (replies db)" "P q" "reply_ok env (rows_in db q) q"
  then have "q = r" using assms(4) by (auto intro: reply_ids.same_row [OF assms(1) _ assms(2)])
  with assms(3) q(3) show "reply_ok env (rows_in db q) (invalid_payload now' q) \<and>
      fair a now (sender_of q) (sender_of (invalid_payload now' q))" by (simp add: sound_review)
qed simp

lemma take_reply_sel [simp]:
  "rp_id (take_reply now w ls r) = rp_id r" "rp_status (take_reply now w ls r) = RSending"
  "rp_owner (take_reply now w ls r) = Some w" "rp_until (take_reply now w ls r) = Some (now + ls)"
  "rp_attempts (take_reply now w ls r) = rp_attempts r + 1" "rp_max (take_reply now w ls r) = rp_max r"
  "rp_content (take_reply now w ls r) = rp_content r" "rp_media (take_reply now w ls r) = rp_media r"
  by (simp_all add: take_reply_def)

lemma validate_ok:
  "validate_claimable_manual_reply env r parts = Inr x \<Longrightarrow> pending_parts parts \<noteq> []"
  by (auto simp: validate_claimable_manual_reply_def split: sum.splits if_splits)

lemma claim_candidate_facts:
  assumes inv: "outbox_inv env db" and c: "cand \<in> set (replies db)" "sendable now cand" and o: "owner \<noteq> []"
    and e: "claim_candidate env now owner ls cand db = (db', res)"
  shows "sound env owner now db db'"
    "\<And>r. r \<in> set (replies db) \<Longrightarrow> rp_id r \<noteq> rp_id cand \<Longrightarrow> r \<in> set (replies db')"
    "res = Some (r, parts) \<Longrightarrow> r = take_reply now owner ls cand \<and> r \<in> set (replies db') \<and> parts = rows_in db' cand \<and>
       validate_claimable_manual_reply env cand parts = Inr ()"
proof -
  obtain db1 er where en: "ensure_manual_reply_parts env cand db = (db1, er)" by fastforce
  note f = worker_ensure [OF c(1) en]
  have inv1: "outbox_inv env db1" using f(1) inv by (auto simp: sound_def)
  define quar where "quar = write_replies (\<lambda>r. rp_id r = rp_id cand \<and> rp_status r \<in> {RQueued, RRetry}) (invalid_payload now) db1"
  have quar: "sound env owner now db quar"
    by (rule sound_trans [OF f(1)]) (auto simp: quar_def intro!: sound_write sound_review)
  consider (q) "db' = quar" "res = None"
    | (t) parts where "er = Inr parts" "validate_claimable_manual_reply env cand parts = Inr ()"
  proof (cases er)
    case (Inl x)
    with e en show thesis by (intro q) (auto simp: claim_candidate_def quar_def)
  next
    case (Inr parts)
    show thesis
    proof (cases "validate_claimable_manual_reply env cand parts")
      case (Inl x)
      with e en Inr show thesis by (intro q) (auto simp: claim_candidate_def quar_def)
    qed (use t Inr in simp)
  qed
  then have "sound env owner now db db' \<and>
    (\<forall>r. r \<in> set (replies db) \<longrightarrow> rp_id r \<noteq> rp_id cand \<longrightarrow> r \<in> set (replies db')) \<and>
    (\<forall>r parts. res = Some (r, parts) \<longrightarrow> r = take_reply now owner ls cand \<and> r \<in> set (replies db') \<and> parts = rows_in db' cand \<and>
       validate_claimable_manual_reply env cand parts = Inr ())"
  proof cases
    case q
    with quar show ?thesis by (auto simp: quar_def f(2) in_sql_update)
  next
    case (t parts)
    let ?hit = "\<lambda>r. rp_id r = rp_id cand \<and> sendable now r"
    define db2 where "db2 = write_replies ?hit (take_reply now owner ls) db1"
    have p: "parts = rows_in db1 cand" "parts \<noteq> []" using f(5) t(1) validate_ok [OF t(2)] by (auto simp: pending_parts_def)
    have d: "deliverable env cand parts"
      using f(6) [OF t(1) p(2)] c(2) by (auto simp: sendable_def)
    have same: "r = cand" if "r \<in> set (replies db1)" "rp_id r = rp_id cand" for r
      using reply_ids.same_row [OF outbox_invD(1) [OF inv]] that c(1) f(2) by simp
    have "sound env owner now db1 db2"
      unfolding db2_def
    proof (rule sound_write)
      fix r assume r: "r \<in> set (replies db1)" "rp_id r = rp_id cand \<and> sendable now r" "reply_ok env (rows_in db1 r) r"
      then have "r = cand" using same by simp
      with r(3) d validate_ok [OF t(2)] c(2) o show "reply_ok env (rows_in db1 r) (take_reply now owner ls r) \<and>
          fair owner now (sender_of r) (sender_of (take_reply now owner ls r))"
        by (auto simp: reply_ok_def deliverable_def p(1) sendable_def sender_of_def text_of_def)
    qed simp
    then have g: "sound env owner now db db2" by (rule sound_trans [OF f(1)])
    have t1: "take_reply now owner ls cand \<in> set (replies db2)"
      using c by (auto simp: db2_def in_sql_update f(2) intro!: bexI [of _ cand])
    have found: "reply_by_id (rp_id cand) db2 = Some (take_reply now owner ls cand)"
      using g inv t1 reply_ids.find_iff [of "replies db2" "rp_id cand"] by (auto simp: sound_def outbox_inv_def)
    have "res = None \<or> res = Some (take_reply now owner ls cand, parts)" "db' = db2"
      using e en t found unfolding claim_candidate_def by (auto simp: Let_def db2_def split: if_splits)
    moreover have "r \<in> set (replies db2)" if "r \<in> set (replies db)" "rp_id r \<noteq> rp_id cand" for r
      using that by (auto simp: db2_def in_sql_update f(2))
    ultimately show ?thesis using g t1 t(2) p(1) by (auto simp: db2_def)
  qed
  then show "sound env owner now db db'"
    "\<And>r. r \<in> set (replies db) \<Longrightarrow> rp_id r \<noteq> rp_id cand \<Longrightarrow> r \<in> set (replies db')"
    "res = Some (r, parts) \<Longrightarrow> r = take_reply now owner ls cand \<and> r \<in> set (replies db') \<and> parts = rows_in db' cand \<and>
       validate_claimable_manual_reply env cand parts = Inr ()" by blast+
qed

lemma claim_loop_facts:
  assumes "outbox_inv env db" "set cands \<subseteq> set (replies db)" "distinct (map rp_id cands)" "list_all (sendable now) cands"
    "owner \<noteq> []" "claim_loop env now owner ls n cands db = (db', out)"
  shows "sound env owner now db db'"
    "\<And>r. r \<in> set (replies db) \<Longrightarrow> rp_id r \<notin> rp_id ` set cands \<Longrightarrow> r \<in> set (replies db')"
    "\<And>r parts. (r, parts) \<in> set out \<Longrightarrow> r \<in> set (replies db') \<and>
       (\<exists>c \<in> set cands. r = take_reply now owner ls c \<and> validate_claimable_manual_reply env c parts = Inr ())"
proof -
  have "sound env owner now db db' \<and> (\<forall>r. r \<in> set (replies db) \<longrightarrow> rp_id r \<notin> rp_id ` set cands \<longrightarrow> r \<in> set (replies db')) \<and>
    (\<forall>r parts. (r, parts) \<in> set out \<longrightarrow> r \<in> set (replies db') \<and>
       (\<exists>c \<in> set cands. r = take_reply now owner ls c \<and> validate_claimable_manual_reply env c parts = Inr ()))"
    using assms
  proof (induction env now owner ls n cands db arbitrary: db' out rule: claim_loop.induct)
    case (3 env now owner ls n cand rest db)
    obtain db1 res where c: "claim_candidate env now owner ls cand db = (db1, res)" by fastforce
    have f: "sound env owner now db db1"
      "\<And>r. r \<in> set (replies db) \<Longrightarrow> rp_id r \<noteq> rp_id cand \<Longrightarrow> r \<in> set (replies db1)"
      "\<And>r parts. res = Some (r, parts) \<Longrightarrow> r = take_reply now owner ls cand \<and> r \<in> set (replies db1) \<and>
         validate_claimable_manual_reply env cand parts = Inr ()"
      using claim_candidate_facts [OF "3.prems"(1) _ _ "3.prems"(5) c] "3.prems"(2,4) by auto
    have inv1: "outbox_inv env db1" using f(1) "3.prems"(1) by (simp add: sound_def)
    have rest: "set rest \<subseteq> set (replies db1)" "distinct (map rp_id rest)" "list_all (sendable now) rest"
      "rp_id cand \<notin> rp_id ` set rest"
      using "3.prems"(2-4) f(2) by (auto simp: image_iff) (metis subsetD)
    show ?case
    proof (cases res)
      case None
      with "3.prems"(6) c have l: "claim_loop env now owner ls (Suc n) rest db1 = (db', out)" by simp
      from "3.IH"(1) [OF c [symmetric] None inv1 rest(1-3) "3.prems"(5) l] f(1,2) show ?thesis
        by (auto intro: sound_trans)
    next
      case (Some cl)
      obtain r0 p0 where cl: "cl = (r0, p0)" by fastforce
      obtain out2 where l: "claim_loop env now owner ls n rest db1 = (db', out2)" and out: "out = cl # out2"
        using "3.prems"(6) c Some by (auto split: prod.splits)
      note ih = "3.IH"(2) [OF c [symmetric] Some inv1 rest(1-3) "3.prems"(5) l]
      have r0: "r0 = take_reply now owner ls cand" "r0 \<in> set (replies db1)" "validate_claimable_manual_reply env cand p0 = Inr ()"
        using f(3) Some cl by auto
      then have "rp_id r0 \<notin> rp_id ` set rest" using rest(4) by simp
      with ih r0(2) have "r0 \<in> set (replies db')" by blast
      with ih f(1,2) r0 out cl show ?thesis by (auto intro: sound_trans)
    qed
  qed auto
  then show "sound env owner now db db'"
    "\<And>r. r \<in> set (replies db) \<Longrightarrow> rp_id r \<notin> rp_id ` set cands \<Longrightarrow> r \<in> set (replies db')"
    "\<And>r parts. (r, parts) \<in> set out \<Longrightarrow> r \<in> set (replies db') \<and>
       (\<exists>c \<in> set cands. r = take_reply now owner ls c \<and> validate_claimable_manual_reply env c parts = Inr ())" by blast+
qed

lemma sound_recover: "sound env a now db (db\<lparr>replies := recover_sending now (replies db)\<rparr>)"
  unfolding recover_sending_def write_replies_def [symmetric]
  by (rule sound_write) (auto simp: reply_ok_def sender_of_def)

lemma sound_exhausted: "sound env a now db (db\<lparr>replies := review_exhausted now (replies db)\<rparr>)"
  unfolding review_exhausted_def write_replies_def [symmetric]
  by (rule sound_write) (auto simp: reply_ok_def sender_of_def)

lemma claim_facts:
  assumes inv: "outbox_inv env db" and e: "claim_manual_replies env now w limit ls db = (db', res)"
  shows "sound env (py_strip w) now db db'"
    "res = Inr out \<Longrightarrow> (r, parts) \<in> set out \<Longrightarrow> r \<in> set (replies db') \<and> py_strip w \<noteq> [] \<and>
       (\<exists>c. r = take_reply now (py_strip w) ls c \<and> sendable now c \<and> validate_claimable_manual_reply env c parts = Inr ())"
proof -
  define db1 where "db1 = db\<lparr>replies := review_exhausted now (recover_sending now (replies db))\<rparr>"
  let ?cands = "order_by rp_available (order_by rp_id (filter (sendable now) (replies db1)))"
  have g1: "sound env (py_strip w) now db db1"
    using sound_trans [OF sound_recover sound_exhausted] by (simp add: db1_def)
  then have inv1: "outbox_inv env db1" using inv by (simp add: sound_def)
  have d: "distinct (map rp_id ?cands)"
    using outbox_invD(1) [OF inv1] by (simp add: unique_key_def distinct_map_filter)
  obtain db2 cs where l: "claim_loop env now (py_strip w) ls (nat limit) ?cands db1 = (db2, cs)" by fastforce
  consider (err) "db' = db" "\<And>out. res \<noteq> Inr out" | (run) "db' = db2" "res = Inr cs" "py_strip w \<noteq> []"
    using e l unfolding claim_manual_replies_def Let_def db1_def [symmetric] by (auto split: if_splits)
  then have "sound env (py_strip w) now db db' \<and> (res = Inr out \<longrightarrow> (r, parts) \<in> set out \<longrightarrow> r \<in> set (replies db') \<and> py_strip w \<noteq> [] \<and>
       (\<exists>c. r = take_reply now (py_strip w) ls c \<and> sendable now c \<and> validate_claimable_manual_reply env c parts = Inr ()))"
  proof cases
    case run
    note f = claim_loop_facts [OF inv1 _ d _ run(3) l]
    have "set ?cands \<subseteq> set (replies db1)" "list_all (sendable now) ?cands" by (auto simp: list_all_iff)
    note f = f [OF this]
    show ?thesis
      using sound_trans [OF g1 f(1)] f(3) run by fastforce
  qed simp
  then show "sound env (py_strip w) now db db'"
    "res = Inr out \<Longrightarrow> (r, parts) \<in> set out \<Longrightarrow> r \<in> set (replies db') \<and> py_strip w \<noteq> [] \<and>
       (\<exists>c. r = take_reply now (py_strip w) ls c \<and> sendable now c \<and> validate_claimable_manual_reply env c parts = Inr ())" by auto
qed

section \<open>The other operations of the worker\<close>

lemma sound_renew:
  "sound env (py_strip w) now db (fst (renew_manual_reply_lease now i w ls db))"
proof -
  have "sound env (py_strip w) now db (write_replies (holds_lease i (py_strip w) now)
      (\<lambda>r. r\<lparr>rp_until := Some (now + ls), rp_updated := now\<rparr>) db)"
    by (rule sound_write)
      (simp_all add: reply_ok_def deliverable_def holds_lease_def sender_of_def text_of_def until_of_def fair_def)
  then show ?thesis by (simp add: renew_manual_reply_lease_def Let_def)
qed

lemma sound_fail:
  assumes "outbox_inv env db"
  shows "sound env owner now db (fst (fail_manual_reply now i owner code delay terminal db))"
proof (cases "fst (fail_manual_reply now i owner code delay terminal db) = db")
  case False
  then obtain row where row: "reply_by_id i db = Some row" "rp_status row = RSending" "text_of (rp_owner row) = owner"
    and e: "fst (fail_manual_reply now i owner code delay terminal db) =
      write_replies (\<lambda>r. rp_id r = i) (failed_reply now (failure_status terminal row) delay code) db"
    by (auto simp: fail_manual_reply_def split: option.splits if_splits)
  show ?thesis
    unfolding e
  proof (rule sound_write)
    fix r assume r: "r \<in> set (replies db)" "rp_id r = i" "reply_ok env (rows_in db r) r"
    then have "r = row"
      using row(1) reply_ids.find_iff [OF outbox_invD(1) [OF assms], of i r] by simp
    with r(3) row show "reply_ok env (rows_in db r) (failed_reply now (failure_status terminal row) delay code r) \<and>
      fair owner now (sender_of r) (sender_of (failed_reply now (failure_status terminal row) delay code r))"
      by (simp add: reply_ok_def sender_of_def failed_reply_def failure_status_def Let_def)
  qed (simp add: failed_reply_def)
qed simp

lemma sound_get:
  assumes inv: "outbox_inv env db"
  shows "sound env a now db (fst (get_manual_reply env now i db))"
proof (cases "reply_by_id i db")
  case (Some r)
  then have r: "r \<in> set (replies db)" "rp_id r = i" by (auto dest: find_SomeD)
  obtain db1 er where en: "ensure_manual_reply_parts env r db = (db1, er)" by fastforce
  note f = worker_ensure [OF r(1) en]
  show ?thesis
  proof (cases er)
    case (Inl e)
    have ns: "rp_status r \<noteq> RSending" using ensure_sending(1) [OF inv r(1)] en Inl by auto
    have "unique_key rp_id (replies db1)" "r \<in> set (replies db1)" using inv r f(2) by (simp_all add: outbox_inv_def)
    then have "sound env a now db1 (write_replies (\<lambda>q. rp_id q = i) (invalid_payload now) db1)"
      using ns r(2) by (simp add: sound_invalidate)
    then show ?thesis
      using sound_trans [OF f(1)] f(1) by (simp add: get_manual_reply_def Some en Inl)
  qed (use f(1) in \<open>simp add: get_manual_reply_def Some en\<close>)
qed (simp add: get_manual_reply_def)

lemma record_message_cases:
  assumes "record_message env now r p parts sender payload media db = (db1, Inr x)"
  obtains ms m where "db1 = db\<lparr>chat_messages := ms\<rparr>" "message_of_source (part_source_id (rp_id r) p parts) db1 = Some m"
    "m = new_message now r sender (part_source_id (rp_id r) p parts) payload media \<or>
     message_agrees env r p sender payload m = Inr True"
proof (cases "message_of_source (part_source_id (rp_id r) p parts) db")
  case None
  with assms show thesis
    by (intro that [of "chat_messages db1" "new_message now r sender (part_source_id (rp_id r) p parts) payload media"])
      (auto simp: record_message_def message_of_source_def find_snoc new_message_def)
next
  case (Some m)
  with assms show thesis
    by (intro that [of "chat_messages db1" m]) (auto simp: record_message_def split: sum.splits if_splits)
qed

lemma ack_pending_cases:
  assumes "ack_pending env now r p parts owner sender sent db = (db2, Inr (Some ans))"
  obtains payload media db1 q rest where "rp_status r = RSending" "text_of (rp_owner r) = owner" "now < until_of r"
    "pending_parts parts = q # rest" "pt_index q = pt_index p"
    "ack_payload env r p sent = Inr payload" "media_json env (MediaValue (stored_items (snd (snd payload)))) = Inr media"
    "record_message env now r p parts sender payload media db = (db1, Inr ())"
    "settle_part now r p owner media db1 = (db2, Some ans)"
  using assms unfolding ack_pending_def
  by (auto split: if_splits list.splits sum.splits prod.splits option.splits)

lemma ack_part_cases:
  assumes "acknowledge_manual_reply_part env now i owner raw_sender k sent db = (db', res)"
  obtains (kept) "db' = db" "\<And>a. res \<noteq> Inr (Some a)"
    | (again) r db1 parts p ans where "reply_by_id i db = Some r" "ensure_manual_reply_parts env r db = (db1, Inr parts)"
        "find (\<lambda>p. pt_index p = k) parts = Some p" "pt_acked p \<noteq> None"
        "ack_again env r p parts (py_strip raw_sender) sent db1 = Inr ans" "db' = db1" "res = Inr ans"
    | (fresh) r db1 parts p ans where "reply_by_id i db = Some r" "ensure_manual_reply_parts env r db = (db1, Inr parts)"
        "find (\<lambda>p. pt_index p = k) parts = Some p" "pt_acked p = None"
        "ack_pending env now r p parts owner (py_strip raw_sender) sent db1 = (db', Inr (Some ans))" "res = Inr (Some ans)"
proof -
  show thesis
  proof (cases "reply_by_id i db")
    case None
    with assms show thesis by (intro kept) (auto simp: acknowledge_manual_reply_part_def Let_def split: if_splits)
  next
    case (Some r)
    obtain db1 er where en: "ensure_manual_reply_parts env r db = (db1, er)" by fastforce
    consider "db' = db" "\<And>a. res \<noteq> Inr (Some a)"
      | parts p where "er = Inr parts" "find (\<lambda>p. pt_index p = k) parts = Some p"
        "(if pt_acked p \<noteq> None
          then (case ack_again env r p parts (py_strip raw_sender) sent db1 of Inl e \<Rightarrow> (db, Inl e) | Inr a \<Rightarrow> (db1, Inr a))
          else (case ack_pending env now r p parts owner (py_strip raw_sender) sent db1 of
                  (_, Inl e) \<Rightarrow> (db, Inl e) | (_, Inr None) \<Rightarrow> (db, Inr None) | (db2, Inr (Some a)) \<Rightarrow> (db2, Inr (Some a)))) = (db', res)"
      using assms Some en unfolding acknowledge_manual_reply_part_def Let_def
      by (auto split: if_splits sum.splits option.splits)
    then show thesis
    proof cases
      case (2 parts p)
      show thesis
      proof (cases "pt_acked p = None")
        case True
        with 2 show thesis
          using kept fresh [OF Some en [unfolded 2(1)] 2(2) True] by (auto split: sum.splits option.splits prod.splits)
      next
        case False
        show thesis
        proof (cases "ack_again env r p parts (py_strip raw_sender) sent db1")
          case (Inl x)
          with 2(3) False show thesis by (intro kept) auto
        next
          case (Inr ans)
          with 2(3) False show thesis by (intro again [OF Some en [unfolded 2(1)] 2(2) False, of ans]) auto
        qed
      qed
    qed (rule kept)
  qed
qed

lemma ack_fresh_facts:
  assumes inv: "outbox_inv env db" and r: "reply_by_id i db = Some r"
    and en: "ensure_manual_reply_parts env r db = (db1, Inr parts)" and p: "find (\<lambda>p. pt_index p = k) parts = Some p"
    and a: "ack_pending env now r p parts owner sender sent db1 = (db', Inr (Some ans))"
  obtains payload media db2 rest where "rp_status r = RSending" "text_of (rp_owner r) = owner" "now < until_of r"
    "parts = rows_in db r" "db1 = db" "pending_parts parts = p # rest" "ack_payload env r p sent = Inr payload"
    "media_json env (MediaValue (stored_items (snd (snd payload)))) = Inr media"
    "record_message env now r p parts sender payload media db = (db2, Inr ())" "outbox_inv env db2"
    "sound env owner now db db2" "replies db2 = replies db" "reply_parts db2 = reply_parts db"
    "settle_part now r p owner media db2 = (db', Some ans)"
proof -
  from a obtain payload media db2 q rest where c: "rp_status r = RSending" "text_of (rp_owner r) = owner" "now < until_of r"
    "pending_parts parts = q # rest" "pt_index q = pt_index p" "ack_payload env r p sent = Inr payload"
    "media_json env (MediaValue (stored_items (snd (snd payload)))) = Inr media"
    "record_message env now r p parts sender payload media db1 = (db2, Inr ())"
    "settle_part now r p owner media db2 = (db', Some ans)" by (rule ack_pending_cases)
  have rin: "r \<in> set (replies db)" using r by (auto dest: find_SomeD)
  have db1: "db1 = db" "parts = rows_in db r" using ensure_sending(1) [OF inv rin c(1)] en by auto
  have "q \<in> set (pending_parts parts)" by (simp add: c(4))
  then have "q \<in> set parts" by (simp add: pending_parts_def)
  moreover have "p \<in> set parts" using p by (auto dest: find_SomeD)
  ultimately have "q = p"
    using part_index_unique [OF outbox_invD(2) [OF inv], of "rp_id r"] c(5) distinct_map_eqD [of pt_index parts q p] by (simp add: db1(2))
  obtain ms where ms: "db2 = db\<lparr>chat_messages := ms\<rparr>" using c(8) by (rule record_message_cases) (simp add: db1)
  have g: "sound env owner now db db2" unfolding ms by (rule sound_messages)
  then have "outbox_inv env db2" using inv by (simp add: sound_def)
  with c db1 \<open>q = p\<close> g show thesis by (intro that [of rest payload media db2]) (simp_all add: ms)
qed

lemma sound_ack_part:
  assumes inv: "outbox_inv env db"
  shows "sound env owner now db (fst (acknowledge_manual_reply_part env now i owner sender k sent db))"
proof -
  obtain db' res where e: "acknowledge_manual_reply_part env now i owner sender k sent db = (db', res)" by fastforce
  then have "sound env owner now db db'"
  proof (cases rule: ack_part_cases)
    case (again r db1 parts p ans)
    then show ?thesis using worker_ensure(1) [OF _ again(2)] by (auto dest: find_SomeD)
  next
    case (fresh r db1 parts p ans)
    from ack_fresh_facts [OF inv fresh(1-3,5)] obtain media db2 rest where
      f: "parts = rows_in db r" "pending_parts parts = p # rest" "outbox_inv env db2" "sound env owner now db db2"
        "replies db2 = replies db" "reply_parts db2 = reply_parts db" "settle_part now r p owner media db2 = (db', Some ans)" by metis
    have "rows_in db2 r = rows_in db r" by (simp add: manual_reply_part_rows_def f(6))
    with f fresh(1) show ?thesis
      by (intro sound_trans [OF f(4)] sound_settle [OF f(3) _ _ f(7)]) (auto dest: find_SomeD)
  qed simp
  then show ?thesis by (simp add: e)
qed

lemma sound_ack:
  assumes inv: "outbox_inv env db"
  shows "sound env owner now db (fst (acknowledge_manual_reply env now i owner sender sent db))"
proof -
  obtain db1 g where e: "get_manual_reply env now i db = (db1, g)" by fastforce
  have g1: "sound env owner now db db1" using sound_get [OF inv, of owner now i] by (simp add: e)
  then have "outbox_inv env db1" using inv by (simp add: sound_def)
  note g2 = sound_trans [OF g1 sound_ack_part [OF this]]
  show ?thesis
  proof (cases "\<exists>f. fst (acknowledge_manual_reply env now i owner sender sent db) =
      fst (acknowledge_manual_reply_part env now i owner sender f sent db1)")
    case False
    then have "fst (acknowledge_manual_reply env now i owner sender sent db) = db1"
      unfolding acknowledge_manual_reply_def e Let_def
      by (cases g) (auto simp: case_prod_beta split: option.split sum.split if_splits)
    with g1 show ?thesis by simp
  qed (use g2 in auto)
qed

section \<open>The operations of the backend\<close>

lemma sound_trim:
  assumes "\<And>r. P r \<Longrightarrow> rp_status r = RDraft"
  shows "sound env a now db (trim_drafts n P db)"
  unfolding trim_drafts_def by (rule sound_delete) (use assms in force)

lemma sound_draft: "sound env a now' db (fst (append_manual_draft inp now user content chat db))"
proof -
  have "sound env a now' db (trim_drafts 500 (\<lambda>r. rp_status r = RDraft)
      (db\<lparr>replies := replies db @ [r], reply_seq := reply_seq db + 1\<rparr>))"
    if "rp_id r = reply_seq db + 1" "rp_status r = RDraft" "rp_attempts r = 0" "rp_max r = 10" "rp_owner r = None" "rp_until r = None"
      "rp_media r = Decoded (PList [])" for r
    by (rule sound_trans [OF sound_append sound_trim]) (simp_all add: that)
  then show ?thesis by (simp add: append_manual_draft_def Let_def split: option.split)
qed

lemma sound_compact: "sound env a now db (compact_manual_reply_outbox env' sha db)"
proof -
  let ?kept = "newest MANUAL_REPLY_FULL_RETENTION (delivered_in_full db) (replies db)"
  define ids where "ids = map rp_id (filter (\<lambda>r. delivered_in_full db r \<and> rp_id r \<notin> set ?kept) (replies db))"
  define db1 where "db1 = write_replies (\<lambda>r. rp_id r \<in> set ids \<and> rp_status r = RAcknowledged) (compacted env' sha) db"
  define db2 where "db2 = db1\<lparr>reply_parts := sql_update (\<lambda>p. pt_outbox p \<in> set ids) (\<lambda>p. p\<lparr>pt_sent := Decoded (PList [])\<rparr>) (reply_parts db1)\<rparr>"
  define db3 where "db3 = db2\<lparr>replies := sql_delete (\<lambda>r. is_compacted r \<and>
    rp_id r \<notin> set (newest MANUAL_REPLY_TOMBSTONE_RETENTION is_compacted (replies db2))) (replies db2)\<rparr>"
  have "sound env a now db db1"
    unfolding db1_def by (rule sound_write) (auto simp: compacted_def reply_ok_def sender_of_def)
  moreover have "sound env a now db1 db2" unfolding db2_def by (rule sound_sent)
  moreover have "sound env a now db2 db3" unfolding db3_def by (rule sound_delete) (auto simp: is_compacted_def)
  moreover have "compact_manual_reply_outbox env' sha db =
      db3\<lparr>reply_parts := sql_delete (\<lambda>p. pt_outbox p \<notin> rp_id ` set (replies db3)) (reply_parts db3)\<rparr>"
    unfolding compact_manual_reply_outbox_def Let_def ids_def [symmetric]
    by (simp add: db3_def db2_def db1_def)
  ultimately show ?thesis using sound_trans sound_orphans by metis
qed

lemma sound_resume:
  assumes "r \<in> set (replies db)"
  shows "sound env a now db (fst (resume_reply env sha digest r db))"
proof (cases "fst (resume_reply env sha digest r db) = db")
  case False
  define known where "known = (if text_of (rp_digest r) = []
    then manual_reply_digest env sha (rp_chat r) (rp_content r) (MediaText (rp_media r)) else text_of (rp_digest r))"
  define db1 where "db1 = (if text_of (rp_digest r) = [] then write_replies (\<lambda>q. rp_id q = rp_id r) (\<lambda>q. q\<lparr>rp_digest := Some known\<rparr>) db else db)"
  have g: "sound env a now db db1"
    by (auto simp: db1_def reply_ok_def deliverable_def sender_of_def until_of_def intro!: sound_write)
  have q: "(if text_of (rp_digest r) = [] then r\<lparr>rp_digest := Some known\<rparr> else r) \<in> set (replies db1)"
    using assms by (auto simp: db1_def in_sql_update)
  obtain db2 er where en: "records_ensure_parts env r db1 = (db2, er)" by fastforce
  have "sound env a now db1 db2" by (rule records_ensure(1) [OF q _ _ en]) simp_all
  then have "sound env a now db db2" by (rule sound_trans [OF g])
  with False en show ?thesis
    unfolding resume_reply_def Let_def known_def [symmetric] db1_def [symmetric] by (auto split: sum.splits if_splits)
qed simp

lemma sound_start:
  "sound env a now' db (fst (start_reply env sha inp now user content chat request media digest db))"
proof (cases "fst (start_reply env sha inp now user content chat request media digest db) = db")
  case False
  then obtain checked target db2 parts where v: "validate_manual_reply_media env (qi_files inp) media = Inr checked" and
    row: "records_ensure_parts env (queued_reply now (reply_seq db + 1) user content chat request digest target
        (records_media_json env (MediaValue (stored_items checked))))
      (db\<lparr>replies := replies db @ [queued_reply now (reply_seq db + 1) user content chat request digest target
        (records_media_json env (MediaValue (stored_items checked)))], reply_seq := reply_seq db + 1\<rparr>) = (db2, Inr parts)"
      (is "records_ensure_parts env ?row ?db1 = _")
    and e: "fst (start_reply env sha inp now user content chat request media digest db) =
      compact_manual_reply_outbox env sha (trim_drafts 2000 (\<lambda>r. rp_status r = RDraft \<and> text_of (rp_request r) = []) db2)"
    by (auto simp: start_reply_def Let_def split: sum.splits option.splits if_splits prod.splits)
  have "sound env a now' db ?db1" using images_stored(2) [OF validated_images(1) [OF v]] validated_images(1) [OF v]
    by (intro sound_append) (auto simp: queued_reply_def media_ok_def)
  moreover have "sound env a now' ?db1 db2" by (rule records_ensure(1) [OF _ refl refl row]) simp
  moreover have "sound env a now' db2 (trim_drafts 2000 (\<lambda>r. rp_status r = RDraft \<and> text_of (rp_request r) = []) db2)"
    by (rule sound_trim) simp
  ultimately show ?thesis unfolding e by (blast intro: sound_trans sound_compact)
qed simp

lemma sound_enqueue: "sound env a now' db (fst (enqueue_manual_reply env sha inp now user content chat request media db))"
  using sound_resume sound_start
  by (auto simp: enqueue_manual_reply_def Let_def split: sum.split option.split dest: find_SomeD)

lemma sound_status:
  assumes inv: "outbox_inv env db"
  shows "sound env a now' db (fst (manual_reply_status env inp now request db))"
proof (cases "find (\<lambda>r. rp_request r = Some (py_strip request)) (replies db)")
  case (Some r)
  then have r: "r \<in> set (replies db)" by (auto dest: find_SomeD)
  obtain db1 er where en: "records_ensure_parts env r db = (db1, er)" by fastforce
  note f = records_ensure [OF r refl refl en]
  have "sound env a now' db1 (mark_invalid_payload now r db1)" if "er = Inl e" for e
  proof -
    have ns: "rp_status r \<noteq> RSending" using ensure_sending(2) [OF inv r] en that by auto
    have "unique_key rp_id (replies db1)" "r \<in> set (replies db1)" using inv r f(2) by (simp_all add: outbox_inv_def)
    then show ?thesis using ns by (simp add: mark_invalid_payload_def sound_invalidate)
  qed
  then show ?thesis
    using f(1) Some en by (auto simp: manual_reply_status_def split: sum.split intro: sound_trans)
qed (simp add: manual_reply_status_def)

section \<open>Runs\<close>

datatype outbox_op =
    ODraft queue_input string string string
  | OEnqueue queue_input string string string string pyval
  | OStatus queue_input string
  | OClaim string int time
  | ORenew int string time
  | OFail int string string time bool
  | OAckPart int string string int media_arg
  | OAck int string string media_arg
  | OGet int
  | OMessages "message_row list" \<comment> \<open>any change of the messages by other parts of the program\<close>

fun outbox_actor :: "outbox_op \<Rightarrow> string" where
  "outbox_actor (OClaim w limit ls) = py_strip w"
| "outbox_actor (ORenew i w ls) = py_strip w"
| "outbox_actor (OFail i w code delay terminal) = w"
| "outbox_actor (OAckPart i w sender k sent) = w"
| "outbox_actor (OAck i w sender sent) = w"
| "outbox_actor _ = []"

fun outbox_apply :: "py_env \<Rightarrow> (pyval \<Rightarrow> string) \<Rightarrow> time \<Rightarrow> outbox_op \<Rightarrow> chat_db \<Rightarrow> chat_db" where
  "outbox_apply env sha now (ODraft inp user content chat) db = fst (append_manual_draft inp now user content chat db)"
| "outbox_apply env sha now (OEnqueue inp user content chat request media) db =
     fst (enqueue_manual_reply env sha inp now user content chat request media db)"
| "outbox_apply env sha now (OStatus inp request) db = fst (manual_reply_status env inp now request db)"
| "outbox_apply env sha now (OClaim w limit ls) db = fst (claim_manual_replies env now w limit ls db)"
| "outbox_apply env sha now (ORenew i w ls) db = fst (renew_manual_reply_lease now i w ls db)"
| "outbox_apply env sha now (OFail i w code delay terminal) db = fst (fail_manual_reply now i w code delay terminal db)"
| "outbox_apply env sha now (OAckPart i w sender k sent) db = fst (acknowledge_manual_reply_part env now i w sender k sent db)"
| "outbox_apply env sha now (OAck i w sender sent) db = fst (acknowledge_manual_reply env now i w sender sent db)"
| "outbox_apply env sha now (OGet i) db = fst (get_manual_reply env now i db)"
| "outbox_apply env sha now (OMessages ms) db = db\<lparr>chat_messages := ms\<rparr>"

fun run_outbox :: "py_env \<Rightarrow> (pyval \<Rightarrow> string) \<Rightarrow> (time \<times> outbox_op) list \<Rightarrow> chat_db \<Rightarrow> chat_db" where
  "run_outbox env sha [] db = db"
| "run_outbox env sha ((now, opr) # ops) db = run_outbox env sha ops (outbox_apply env sha now opr db)"

definition empty_chat_db :: chat_db where
  "empty_chat_db = \<lparr>replies = [], reply_seq = 0, reply_parts = [], chat_messages = []\<rparr>"

lemma sound_apply:
  assumes "outbox_inv env db"
  shows "sound env (outbox_actor opr) now db (outbox_apply env sha now opr db)"
  using claim_facts(1) [OF assms prod.collapse [symmetric]]
  by (cases opr) (simp_all add: sound_draft sound_enqueue sound_status sound_renew sound_fail sound_ack_part sound_ack sound_get sound_messages assms)

lemma outbox_inv_empty: "outbox_inv env empty_chat_db"
  by (simp add: outbox_inv_def empty_chat_db_def unique_key_def)

lemma inv_apply: "outbox_inv env db \<Longrightarrow> outbox_inv env (outbox_apply env sha now opr db)"
  using sound_apply by (auto simp: sound_def)

inductive outbox_step :: "py_env \<Rightarrow> (pyval \<Rightarrow> string) \<Rightarrow> chat_db \<Rightarrow> chat_db \<Rightarrow> bool" for env sha where
  "outbox_step env sha db (outbox_apply env sha now opr db)"

inductive_cases outbox_stepE: "outbox_step env sha db db'"

interpretation outbox: transition_system "\<lambda>db. db = empty_chat_db" "outbox_step env sha" "outbox_inv env" for env sha
  by unfold_locales (auto elim!: outbox_stepE simp: outbox_inv_empty inv_apply)

inductive outbox_acts :: "py_env \<Rightarrow> (pyval \<Rightarrow> string) \<Rightarrow> string \<Rightarrow> time \<Rightarrow> chat_db \<Rightarrow> chat_db \<Rightarrow> bool" for env sha where
  "outbox_inv env db \<Longrightarrow> outbox_acts env sha (outbox_actor opr) now db (outbox_apply env sha now opr db)"

inductive_cases outbox_actsE: "outbox_acts env sha a now db db'"

lemma outbox_fair: "outbox_acts env sha a now s s' \<Longrightarrow> fair a now (reply_holder s i) (reply_holder s' i)"
  by (erule outbox_actsE) (use sound_apply in \<open>auto simp: sound_def\<close>)

interpretation reply_lease: fenced_lease reply_holder "outbox_acts env sha" for env sha
proof
  show "reply_holder s' r = Some (w, u)"
    if "outbox_acts env sha a now s s'" "reply_holder s r = Some (w, u)" "a \<noteq> w" "now < u" for a now s s' r w u
    using outbox_fair [OF that(1), of r] that by (auto simp: fair_def)
  show "a = w"
    if "outbox_acts env sha a now s s'" "reply_holder s' r = Some (w, u)" "reply_holder s r \<noteq> Some (w, u)" for a now s s' r w u
    using outbox_fair [OF that(1), of r] that by (auto simp: fair_def)
qed

lemma run_outbox_history:
  assumes "outbox_inv env db"
  shows "history (outbox_acts env sha) db (map (\<lambda>(now, opr). (outbox_actor opr, now)) ops) (run_outbox env sha ops db)"
  using assms
proof (induction ops arbitrary: db)
  case (Cons e ops)
  obtain now opr where e: "e = (now, opr)" by (cases e)
  from Cons inv_apply have "history (outbox_acts env sha) (outbox_apply env sha now opr db)
      (map (\<lambda>(now, opr). (outbox_actor opr, now)) ops) (run_outbox env sha ops (outbox_apply env sha now opr db))" by blast
  moreover have "outbox_acts env sha (outbox_actor opr) now db (outbox_apply env sha now opr db)"
    using Cons.prems by (rule outbox_acts.intros)
  ultimately show ?case unfolding e by (simp add: history.act)
qed (simp add: history.start)

lemma run_outbox_inv: "outbox_inv env db \<Longrightarrow> outbox_inv env (run_outbox env sha ops db)"
  by (induction env sha ops db rule: run_outbox.induct) (simp_all add: inv_apply)

end
