(* ===== verification/Manual_Delivery.thy ===== *)
theory Manual_Delivery
  imports Manual_System
begin

text \<open>
  From the backend to the worker: what a new reply leaves in the outbox, and that a claim hands it out.
\<close>

section \<open>The parts of a new reply\<close>

lemma new_part_index: "pt_index (new_part i s) = fst s"
  by (simp add: new_part_def)

lemma fold_insert_new:
  assumes "distinct (map fst specs)" "\<And>p. p \<in> set ps \<Longrightarrow> pt_outbox p = i \<Longrightarrow> pt_index p \<notin> fst ` set specs"
  shows "fold (\<lambda>s. sql_insert_ignore part_key (new_part i s)) specs ps = ps @ map (new_part i) specs"
  using assms
proof (induction specs arbitrary: ps)
  case (Cons s specs)
  have "sql_insert_ignore part_key (new_part i s) ps = ps @ [new_part i s]"
    using Cons.prems(2) by (auto simp: sql_insert_ignore_def find_None_iff part_key_def new_part_index)
  moreover have "fold (\<lambda>s. sql_insert_ignore part_key (new_part i s)) specs (ps @ [new_part i s]) =
      (ps @ [new_part i s]) @ map (new_part i) specs"
  proof (rule Cons.IH)
    show "distinct (map fst specs)" using Cons.prems(1) by simp
    show "pt_index p \<notin> fst ` set specs" if "p \<in> set (ps @ [new_part i s])" "pt_outbox p = i" for p
    proof (cases "p \<in> set ps")
      case True
      with Cons.prems(2) [of p] that(2) show ?thesis by simp
    next
      case False
      with that(1) have "pt_index p = fst s" by (simp add: new_part_index)
      with Cons.prems(1) show ?thesis by simp
    qed
  qed
  ultimately show ?case by simp
qed simp

lemma specs_sorted: "sorted (map fst (part_specs_of n content))" "distinct (map fst (part_specs_of n content))"
proof -
  have m: "map fst (part_specs_of n content) = map int [0..<(if py_strip content = [] then n else Suc n)]"
    by (simp add: part_specs_of_def image_specs_def)
  show "sorted (map fst (part_specs_of n content))" unfolding m by (simp add: sorted_map)
  show "distinct (map fst (part_specs_of n content))" unfolding m by (simp add: distinct_map)
qed

lemma specs_nonempty: "part_specs_of n content = [] \<longleftrightarrow> n = 0 \<and> py_strip content = []"
  by (auto simp: part_specs_of_def image_specs_def)

lemma new_parts_rows:
  assumes "manual_reply_part_rows i db = []"
  shows "manual_reply_part_rows i (add_parts i (part_specs_of n content) db) = map (new_part i) (part_specs_of n content)"
proof -
  have none: "pt_outbox p \<noteq> i" if "p \<in> set (reply_parts db)" for p using assms that by (simp add: part_rows_empty)
  have parts: "reply_parts (add_parts i (part_specs_of n content) db) = reply_parts db @ map (new_part i) (part_specs_of n content)"
    using none fold_insert_new [OF specs_sorted(2), of "reply_parts db" i n content] by (simp add: add_parts_def)
  have "filter (\<lambda>p. pt_outbox p = i) (reply_parts db) = []" using none by (simp add: filter_empty_conv)
  moreover have "map pt_index (map (new_part i) (part_specs_of n content)) = map fst (part_specs_of n content)"
    by (simp add: new_part_index)
  ultimately show ?thesis
    using specs_sorted(1) [of n content] unfolding manual_reply_part_rows_def parts order_by_def
    by (simp add: sort_key_id_if_sorted del: map_map)
qed

text \<open>A reply with an accepted payload and its parts passes the worker's checks.\<close>

definition claimable_reply :: "chat_db \<Rightarrow> outbox_row \<Rightarrow> bool" where
  "claimable_reply db r \<longleftrightarrow> r \<in> set (replies db) \<and> py_strip (rp_chat r) \<noteq> [] \<and> py_strip (text_of (rp_recipient r)) \<noteq> [] \<and>
     py_len (rp_content r) \<le> 4096 \<and> rows_in db r \<noteq> [] \<and> pending_parts (rows_in db r) \<noteq> [] \<and>
     (\<exists>items. images_ok items \<and> rp_media r = Decoded (stored_items items) \<and>
        map spec_of (rows_in db r) = part_specs_of (length items) (rp_content r))"

lemma claimable_ensure:
  assumes "claimable_reply db r" "acks_in_order (rows_in db r)" "rp_status r \<noteq> RAcknowledged"
  shows "ensure_manual_reply_parts env r db = (db, Inr (rows_in db r))"
    "validate_claimable_manual_reply env r (rows_in db r) = Inr ()"
proof -
  obtain items where it: "images_ok items" "rp_media r = Decoded (stored_items items)"
    "map spec_of (rows_in db r) = part_specs_of (length items) (rp_content r)" using assms(1) by (auto simp: claimable_reply_def)
  have ne: "rows_in db r \<noteq> []" using assms(1) by (simp add: claimable_reply_def)
  note n = images_stored(1) [OF it(1), of env]
  show "ensure_manual_reply_parts env r db = (db, Inr (rows_in db r))"
    using ne assms(3) it(3)
    by (simp add: ensure_manual_reply_parts_def manual_reply_part_specs_def it(2) n worker_tombstone_def Let_def)
  have "map spec_of (rows_in db r) \<noteq> []" using ne by simp
  then have "\<not> (py_strip (rp_content r) = [] \<and> items = [])" unfolding it(3) by (auto simp: specs_nonempty)
  then show "validate_claimable_manual_reply env r (rows_in db r) = Inr ()"
    using assms by (auto simp: validate_claimable_manual_reply_def it(2) n claimable_reply_def MANUAL_REPLY_MAX_CONTENT_CHARS_def)
qed

section \<open>A claim reaches every candidate\<close>

lemma claim_candidate_rows:
  assumes "claim_candidate env now owner ls cand db = (db', res)" "i \<noteq> rp_id cand"
  shows "manual_reply_part_rows i db' = manual_reply_part_rows i db"
proof -
  obtain db1 er where en: "ensure_manual_reply_parts env cand db = (db1, er)" by fastforce
  have "fst (ensure_manual_reply_parts env cand db) = db \<or> (\<exists>specs. fst (ensure_manual_reply_parts env cand db) = add_parts (rp_id cand) specs db)"
    by (auto simp: ensure_manual_reply_parts_def Let_def split: sum.split)
  then have "manual_reply_part_rows i db1 = manual_reply_part_rows i db" using assms(2) en by (auto simp: add_parts_rows)
  moreover have "manual_reply_part_rows i db' = manual_reply_part_rows i db1"
    using assms(1) en by (auto simp: claim_candidate_def Let_def split: sum.splits if_splits)
  ultimately show ?thesis by simp
qed

lemma claim_candidate_takes:
  assumes inv: "outbox_inv env db" and c: "claimable_reply db cand" "sendable now cand"
  shows "\<exists>db'. claim_candidate env now owner ls cand db = (db', Some (take_reply now owner ls cand, rows_in db cand))"
proof -
  have cin: "cand \<in> set (replies db)" using c(1) by (simp add: claimable_reply_def)
  have "acks_in_order (rows_in db cand)" "rp_status cand \<noteq> RAcknowledged"
    using outbox_invD(6) [OF inv cin] c(2) by (auto simp: reply_ok_def sendable_def)
  note e = claimable_ensure [OF c(1) this, of env]
  let ?hit = "\<lambda>r. rp_id r = rp_id cand \<and> sendable now r"
  have u: "unique_key rp_id (replies db)" by (rule outbox_invD(1) [OF inv])
  have "sql_count ?hit (replies db) = 1" using count_key_le [OF u, of "rp_id cand" "sendable now"] cin c(2) by auto
  moreover have "reply_by_id (rp_id cand) db = Some cand" using reply_ids.find_iff [OF u] cin by simp
  ultimately show ?thesis
    using c(2) by (simp add: claim_candidate_def e reply_ids.find_update Let_def)
qed

lemma claim_loop_complete:
  assumes "outbox_inv env db" "set cands \<subseteq> set (replies db)" "distinct (map rp_id cands)" "list_all (sendable now) cands"
    "owner \<noteq> []" "length cands \<le> n" "cand \<in> set cands" "claimable_reply db cand"
  shows "\<exists>parts. (take_reply now owner ls cand, parts) \<in> set (snd (claim_loop env now owner ls n cands db))"
  using assms
proof (induction env now owner ls n cands db rule: claim_loop.induct)
  case (3 env now owner ls n c rest db)
  obtain db1 res where e: "claim_candidate env now owner ls c db = (db1, res)" by fastforce
  have cin: "c \<in> set (replies db)" "sendable now c" using "3.prems"(2,4) by auto
  note f = claim_candidate_facts [OF "3.prems"(1) cin "3.prems"(5) e]
  have inv1: "outbox_inv env db1" using f(1) "3.prems"(1) by (simp add: sound_def)
  have rest: "set rest \<subseteq> set (replies db1)" "distinct (map rp_id rest)" "list_all (sendable now) rest" "length rest \<le> n"
    "rp_id c \<notin> rp_id ` set rest"
    using "3.prems"(2-4,6) f(2) by (auto simp: image_iff) (metis subsetD)
  have keep: "claimable_reply db1 cand" if "cand \<in> set rest"
  proof -
    have ne: "rp_id cand \<noteq> rp_id c" using that rest(5) by (metis image_eqI)
    with claim_candidate_rows [OF e ne] f(2) [of cand] "3.prems"(8) show ?thesis by (simp add: claimable_reply_def)
  qed
  show ?case
  proof (cases "cand = c")
    case True
    with claim_candidate_takes [OF "3.prems"(1), of c] "3.prems"(8) cin(2) e
    have "res = Some (take_reply now owner ls c, rows_in db c)" by (metis prod.inject)
    with True e show ?thesis by (auto split: prod.split)
  next
    case False
    then have c: "cand \<in> set rest" using "3.prems"(7) by simp
    show ?thesis
    proof (cases res)
      case None
      from "3.IH"(1) [OF e [symmetric] None inv1 rest(1-3) "3.prems"(5) _ c keep [OF c]] rest(4) None e show ?thesis by auto
    next
      case (Some cl)
      from "3.IH"(2) [OF e [symmetric] Some inv1 rest(1-3) "3.prems"(5) rest(4) c keep [OF c]] Some e show ?thesis
        by (auto split: prod.split)
    qed
  qed
qed auto

section \<open>What enqueueing leaves behind\<close>

lemma compact_keeps:
  assumes "unique_key rp_id (replies db)" "r \<in> set (replies db)" "rp_status r \<noteq> RAcknowledged"
  shows "r \<in> set (replies (compact_manual_reply_outbox env sha db))"
    "rows_in (compact_manual_reply_outbox env sha db) r = rows_in db r"
proof -
  define ids where "ids = map rp_id (filter (\<lambda>q. delivered_in_full db q \<and>
    rp_id q \<notin> set (newest MANUAL_REPLY_FULL_RETENTION (delivered_in_full db) (replies db))) (replies db))"
  have no: "rp_id r \<notin> set ids"
  proof
    assume "rp_id r \<in> set ids"
    then obtain q where "q \<in> set (replies db)" "rp_id q = rp_id r" "delivered_in_full db q" by (auto simp: ids_def)
    with reply_ids.same_row [OF assms(1) _ assms(2)] assms(3) show False by (auto simp: delivered_in_full_def)
  qed
  show rin: "r \<in> set (replies (compact_manual_reply_outbox env sha db))"
    using assms(2,3) unfolding compact_manual_reply_outbox_def Let_def ids_def [symmetric]
    by (auto simp: in_sql_delete in_sql_update is_compacted_def intro!: bexI [of _ r])
  obtain rs where c: "compact_manual_reply_outbox env sha db = db\<lparr>replies := rs, reply_parts :=
      sql_delete (\<lambda>p. pt_outbox p \<notin> rp_id ` set rs) (sql_update (\<lambda>p. pt_outbox p \<in> set ids) (\<lambda>p. p\<lparr>pt_sent := Decoded (PList [])\<rparr>) (reply_parts db))\<rparr>"
    unfolding compact_manual_reply_outbox_def Let_def ids_def [symmetric] by blast
  have "filter (\<lambda>p. pt_outbox p = rp_id r) (sql_delete (\<lambda>p. pt_outbox p \<notin> rp_id ` set rs)
      (sql_update (\<lambda>p. pt_outbox p \<in> set ids) (\<lambda>p. p\<lparr>pt_sent := Decoded (PList [])\<rparr>) ps)) = filter (\<lambda>p. pt_outbox p = rp_id r) ps" for ps :: "part_row list"
    using no rin by (induction ps) (auto simp: c)
  then show "rows_in (compact_manual_reply_outbox env sha db) r = rows_in db r"
    by (simp add: manual_reply_part_rows_def c)
qed

lemma start_facts:
  assumes inv: "outbox_inv env db" and ne: "\<not> (py_strip content = [] \<and> media = [])"
    and e: "start_reply env sha inp now user content chat request media digest db = (db', Inr (row, parts))"
  obtains checked target where "images_ok checked" "length checked = length media"
    "validate_manual_reply_media env (qi_files inp) media = Inr checked"
    "row = queued_reply now (reply_seq db + 1) user content chat request digest target (Decoded (stored_items checked))"
    "row \<in> set (replies db')" "parts = rows_in db' row" "parts = map (new_part (rp_id row)) (part_specs_of (length checked) content)"
    "py_strip (me_user target) \<noteq> []" "chat_messages db' = chat_messages db"
    "\<And>q. q \<in> set (replies db') \<Longrightarrow> q = row \<or> (\<exists>q0 \<in> set (replies db). rp_id q = rp_id q0 \<and> rp_request q = rp_request q0)"
proof -
  from e obtain checked target db2 where v: "validate_manual_reply_media env (qi_files inp) media = Inr checked"
    and t: "py_strip (me_user target) \<noteq> []"
    and row: "row = queued_reply now (reply_seq db + 1) user content chat request digest target
        (records_media_json env (MediaValue (stored_items checked)))"
    and en: "records_ensure_parts env row (db\<lparr>replies := replies db @ [row], reply_seq := reply_seq db + 1\<rparr>) = (db2, Inr parts)"
    and db': "db' = compact_manual_reply_outbox env sha (trim_drafts 2000 (\<lambda>r. rp_status r = RDraft \<and> text_of (rp_request r) = []) db2)"
    unfolding start_reply_def Let_def by (auto split: sum.splits option.splits if_splits prod.splits)
  note ok = validated_images [OF v]
  have row: "row = queued_reply now (reply_seq db + 1) user content chat request digest target (Decoded (stored_items checked))"
    by (simp add: row images_stored(2) [OF ok(1)])
  let ?db1 = "db\<lparr>replies := replies db @ [row], reply_seq := reply_seq db + 1\<rparr>"
  have st: "rp_status row = RQueued" "rp_id row = reply_seq db + 1" "rp_content row = content" "rp_media row = Decoded (stored_items checked)"
    by (simp_all add: row queued_reply_def)
  have "pt_outbox p \<noteq> rp_id row" if "p \<in> set (reply_parts db)" for p using outbox_invD(5) [OF inv that] st(2) by simp
  then have none: "rows_in ?db1 row = []" "rows_in db row = []" by (simp_all add: part_rows_empty)
  have sp: "records_part_specs env (rp_content row) (rp_media row) = Inr (part_specs_of (length checked) content)"
    using worker_then_backend [OF images_stored(1) [OF ok(1)], of env] by (simp add: records_part_specs_def st)
  have "part_specs_of (length checked) content \<noteq> []" using ne ok(2) by (auto simp: specs_nonempty)
  then have db2: "db2 = add_parts (rp_id row) (part_specs_of (length checked) content) ?db1" "parts = rows_in db2 row"
    using en none(1) by (auto simp: records_ensure_parts_def manual_reply_is_tombstone_def sp st(1) ACTIVE_STATUSES_def Let_def split: if_splits)
  then have p: "parts = map (new_part (rp_id row)) (part_specs_of (length checked) content)"
    using new_parts_rows [OF none(1)] by simp
  let ?db3 = "trim_drafts 2000 (\<lambda>r. rp_status r = RDraft \<and> text_of (rp_request r) = []) db2"
  have r3: "row \<in> set (replies ?db3)" "rows_in ?db3 row = parts" "replies ?db3 = sql_delete
      (\<lambda>r. (rp_status r = RDraft \<and> text_of (rp_request r) = []) \<and> rp_id r \<notin> set (newest 2000 (\<lambda>r. rp_status r = RDraft \<and> text_of (rp_request r) = []) (replies db2)))
      (replies db @ [row])"
    using st(1) by (auto simp: trim_drafts_def in_sql_delete db2(1)) (simp add: db2)
  have "sound env [] now db ?db1" by (rule sound_append) (use ok(1) in \<open>auto simp: row queued_reply_def media_ok_def\<close>)
  then have "outbox_inv env ?db1" using inv by (simp add: sound_def)
  then have u: "unique_key rp_id (replies ?db3)"
    unfolding r3(3) by (intro reply_ids.unique_delete) (simp add: outbox_inv_def)
  have old: "q = row \<or> (\<exists>q0 \<in> set (replies db). rp_id q = rp_id q0 \<and> rp_request q = rp_request q0)" if "q \<in> set (replies db')" for q
  proof -
    have "\<exists>q0 \<in> set (replies ?db3). rp_id q = rp_id q0 \<and> rp_request q = rp_request q0 \<and> (rp_status q0 \<noteq> RAcknowledged \<longrightarrow> q = q0)"
      using that unfolding db' compact_manual_reply_outbox_def Let_def by (auto simp: in_sql_delete in_sql_update compacted_def)
    then show ?thesis using st(1) unfolding r3(3) by (auto simp: in_sql_delete)
  qed
  have m: "chat_messages db' = chat_messages db"
    by (simp add: db' compact_manual_reply_outbox_def trim_drafts_def Let_def db2(1))
  show thesis
    using that [OF ok v row _ _ p t m old] compact_keeps [OF u r3(1), of env sha] st(1) r3(2) by (simp add: db')
qed

end
