(* ===== verification/Manual_Acks.thy ===== *)
theory Manual_Acks
  imports Manual_Delivery
begin

text \<open>
  Acknowledging a part: what is stored of the acknowledgement, and what a second acknowledgement finds.
\<close>

section \<open>Stored acknowledgements\<close>

lemma ack_payload_cong:
  assumes "rp_content r = rp_content r'" "pt_kind p = pt_kind p'"
  shows "ack_payload env r p sent = ack_payload env r' p' sent"
  unfolding ack_payload_def assms ..

definition payload_ok :: "outbox_row \<Rightarrow> part_row \<Rightarrow> string \<times> string \<times> media_item list \<Rightarrow> bool" where
  "payload_ok r p payload \<longleftrightarrow>
     (case pt_kind p of
        TextPart \<Rightarrow> payload = (rp_content r, ''text'', []) \<and> py_strip (rp_content r) \<noteq> []
      | ImagePart \<Rightarrow> (\<exists>i. payload = ([], ''image'', [i]) \<and> mi_type i = ''image'' \<and> mi_url i \<noteq> [] \<and> mi_path i = None \<and>
          (has_texts i \<longrightarrow> item_ok i)))"

lemma public_item:
  assumes "normalize_items env False xs = Inr [i]"
  shows "mi_path i = None" "has_texts i \<Longrightarrow> item_ok i"
proof -
  have "list_all (\<lambda>i. mi_path i = None) items" if "normalize_items env ap xs = Inr items" "ap = False" for items env ap xs
    using that
  proof (induction env ap xs arbitrary: items rule: normalize_items.induct)
    case (2 env ap d xs)
    then show ?case
      by (auto simp: normalize_item_def worker_path_def media_fields_def Let_def split: sum.splits option.splits if_splits)
  qed auto
  then show "mi_path i = None" using assms by force
  show "item_ok i" if "has_texts i" using normalize_items_ok [OF assms] that by simp
qed

lemma ack_payload_ok:
  assumes "ack_payload env r p sent = Inr payload"
  shows "payload_ok r p payload"
proof (cases "pt_kind p")
  case ImagePart
  with assms obtain v i where v: "one_public_image env v" "normalize_media env False (MediaValue v) = Inr [i]"
    and i: "mi_type i = ''image''" "mi_url i \<noteq> []" "payload = ([], ''image'', [i])"
    by (auto simp: ack_payload_def Let_def split: option.splits if_splits sum.splits list.splits)
  from v(1) obtain xs where "v = PList xs" by (auto simp: one_public_image_def split: pyval.splits)
  with v(2) have "normalize_items env False xs = Inr [i]" by (simp add: normalize_media_def)
  from public_item [OF this] i ImagePart show ?thesis by (simp add: payload_ok_def)
next
  case TextPart
  with assms show ?thesis
    by (auto simp: ack_payload_def payload_ok_def Let_def split: option.splits if_splits)
qed

lemma stored_public_item:
  assumes "item_ok i" "mi_url i \<noteq> []" "mi_path i = None" "item_value i = PDict d"
  shows "normalize_item env False d = Inr (Some i)"
proof -
  have "worker_path env False d = []" by (simp add: worker_path_def Let_def)
  moreover have "worker_path env True d = []" using stored_fields(3) [OF assms(1,4)] assms(3) by simp
  moreover have "addressed i" using assms(2) by (simp add: addressed_def)
  note normalize_stored [OF assms(1) this assms(4), of env]
  ultimately show ?thesis by (simp add: normalize_item_def)
qed

lemma ack_stored:
  assumes ok: "payload_ok r p payload" and t: "list_all has_texts (snd (snd payload))"
    and sz: "pe_size env (stored_items (snd (snd payload))) \<le> 64 * 1024"
  shows "media_json env (MediaValue (stored_items (snd (snd payload)))) = Inr (Decoded (stored_items (snd (snd payload))))"
    "ack_payload env r p (MediaText (Decoded (stored_items (snd (snd payload))))) = Inr payload"
proof -
  have "list_all (\<lambda>i. item_ok i \<and> addressed i) (snd (snd payload))"
    using ok t by (cases "pt_kind p") (auto simp: payload_ok_def addressed_def)
  from normalize_stored_items [OF this, of env] sz
  show "media_json env (MediaValue (stored_items (snd (snd payload)))) = Inr (Decoded (stored_items (snd (snd payload))))"
    by (simp add: media_json_def normalize_media_def stored_items_def)
  show "ack_payload env r p (MediaText (Decoded (stored_items (snd (snd payload))))) = Inr payload"
  proof (cases "pt_kind p")
    case ImagePart
    with ok t obtain i where i: "payload = ([], ''image'', [i])" "mi_type i = ''image''" "mi_url i \<noteq> []" "mi_path i = None" "item_ok i"
      by (auto simp: payload_ok_def)
    obtain d where d: "item_value i = PDict d" by (simp add: item_value_def)
    have "''image'' \<in> set MEDIA_TYPES" by (simp add: MEDIA_TYPES_def)
    from media_types_lower [OF this] have "says_image env d" by (simp add: says_image_def stored_gets [OF d] i(2))
    then have "one_public_image env (PList [PDict d])" by (simp add: one_public_image_def stored_gets [OF d] i(4))
    with stored_public_item [OF i(5,3,4) d, of env] ImagePart show ?thesis
      by (simp add: ack_payload_def i(1) stored_items_def d normalize_media_def i(2,3))
  next
    case TextPart
    with ok show ?thesis by (simp add: payload_ok_def ack_payload_def stored_items_def)
  qed
qed

lemma message_agrees_cong:
  assumes "rp_content r = rp_content r'" "rp_chat r = rp_chat r'" "rp_item r = rp_item r'" "pt_kind p = pt_kind p'"
  shows "message_agrees env r p sender payload m = message_agrees env r' p' sender payload m"
  unfolding message_agrees_def ack_payload_cong [OF assms(1,4)] assms(2,3) ..

lemma new_message_agrees:
  assumes "ack_payload env r p (MediaText media) = Inr payload"
  shows "message_agrees env r p sender payload (new_message now r sender source payload media) = Inr True"
  using assms by (cases payload) (simp add: message_agrees_def new_message_def text_of_def)

lemma part_source_cong:
  assumes "spec_of p = spec_of p'" "map spec_of rows = map spec_of rows'"
  shows "part_source_id i p rows = part_source_id i p' rows'"
proof -
  have k: "list_ex (\<lambda>q. pt_kind q = ImagePart) rows = (ImagePart \<in> (fst \<circ> snd) ` set (map spec_of rows))" for rows
    by (auto simp: list_ex_iff spec_of_def image_iff) metis+
  have l: "list_ex (\<lambda>q. pt_kind q = ImagePart) rows = list_ex (\<lambda>q. pt_kind q = ImagePart) rows'" unfolding k assms(2) ..
  have s: "pt_kind p = pt_kind p'" "pt_media p = pt_media p'" using assms(1) by (simp_all add: spec_of_def)
  show ?thesis unfolding part_source_id_def l s ..
qed

section \<open>After an acknowledgement\<close>

lemma ensure_deliverable:
  assumes "media_ok (rp_media r)" "deliverable env r (rows_in db r)"
  shows "ensure_manual_reply_parts env r db = (db, Inr (rows_in db r))"
proof -
  obtain items where it: "images_ok items" "rp_media r = Decoded (stored_items items)" using assms(1) by (auto simp: media_ok_def)
  have "list_all (\<lambda>i. item_ok i \<and> addressed i) items"
    using it(1) by (auto simp: images_ok_def list_all_iff image_ok_def addressed_def split: option.splits)
  from normalize_stored_items [OF this, of env] have n: "normalize_media env True (MediaText (rp_media r)) = Inr items"
    by (simp add: it(2) normalize_media_def stored_items_def)
  have "worker_tombstone env r = Inr (rp_status r = RAcknowledged \<and> rp_chat r = [] \<and> rp_item r = [] \<and> rp_content r = [] \<and> items = [])"
    by (auto simp: worker_tombstone_def n)
  then show ?thesis
    using assms(2) by (simp add: ensure_manual_reply_parts_def deliverable_def Let_def)
qed

lemma find_part:
  assumes "unique_key part_key (reply_parts db)" "p \<in> set (manual_reply_part_rows i db)"
  shows "find (\<lambda>q. pt_index q = pt_index p) (manual_reply_part_rows i db) = Some p"
proof -
  obtain q where q: "find (\<lambda>q. pt_index q = pt_index p) (manual_reply_part_rows i db) = Some q"
    using assms(2) by (cases "find (\<lambda>q. pt_index q = pt_index p) (manual_reply_part_rows i db)") (auto simp: find_None_iff)
  then have "q \<in> set (manual_reply_part_rows i db)" "pt_index q = pt_index p" by (auto dest: find_SomeD)
  then have "q = p" using distinct_map_eqD [OF part_index_unique [OF assms(1)]] assms(2) by metis
  with q show ?thesis by simp
qed

text \<open>The state after a first acknowledgement of a part.\<close>

lemma ack_part_facts:
  assumes inv: "outbox_inv env db" and r: "reply_by_id i db = Some r" and p: "p \<in> set (rows_in db r)" "pt_acked p = None"
    and a: "acknowledge_manual_reply_part env now i owner raw_sender (pt_index p) sent db = (db', Inr (Some ans))"
  obtains payload media rest m where
    "rp_status r = RSending" "rp_owner r = Some owner" "now < until_of r"
    "pending_parts (rows_in db r) = p # rest" "ack_payload env r p sent = Inr payload"
    "media_json env (MediaValue (stored_items (snd (snd payload)))) = Inr media"
    "message_of_source (part_source_id i p (rows_in db r)) db' = Some m"
    "m = new_message now r (py_strip raw_sender) (part_source_id i p (rows_in db r)) payload media \<or>
     message_agrees env r p (py_strip raw_sender) payload m = Inr True"
    "outbox_inv env db'" "reply_by_id i db' = Some (after_part now (rest = []) r)"
    "pending_parts (rows_in db' r) = rest" "map spec_of (rows_in db' r) = map spec_of (rows_in db r)"
    "acked_part now media p \<in> set (rows_in db' r)" "ans = answer_of p (rest = [])"
  using a
proof (cases rule: ack_part_cases)
  case (again r1 db1 parts p1 ans1)
  then have "r1 = r" using r by simp
  have rin: "r \<in> set (replies db)" "rp_id r = i" using r by (auto dest: find_SomeD)
  note f = worker_ensure [OF rin(1), of env db1 "Inr parts"]
  have en: "ensure_manual_reply_parts env r db = (db1, Inr parts)" using again(2) \<open>r1 = r\<close> by simp
  have parts: "parts = rows_in db1 r" by (rule f(5) [OF en refl])
  have "db1 = db \<or> rows_in db r = []"
    using en by (auto simp: ensure_manual_reply_parts_def Let_def split: sum.splits if_splits)
  then have "parts = rows_in db r" using parts p(1) by auto
  then have "p1 = p" using again(3) find_part [OF outbox_invD(2) [OF inv] p(1)] by simp
  with again(4) p(2) show thesis by simp
next
  case (fresh r1 db1 parts p1 ans1)
  then have "r1 = r" "ans1 = ans" using r by auto
  have rin: "r \<in> set (replies db)" "rp_id r = i" using r by (auto dest: find_SomeD)
  note i = outbox_invD [OF inv]
  from ack_fresh_facts [OF inv fresh(1-3,5)] obtain payload media db2 rest where
    f: "rp_status r = RSending" "text_of (rp_owner r) = owner" "now < until_of r"
      "parts = rows_in db r" "pending_parts parts = p1 # rest" "ack_payload env r p1 sent = Inr payload"
      "media_json env (MediaValue (stored_items (snd (snd payload)))) = Inr media"
      "record_message env now r p1 parts (py_strip raw_sender) payload media db = (db2, Inr ())" "outbox_inv env db2"
      "sound env owner now db db2" "replies db2 = replies db" "reply_parts db2 = reply_parts db"
      "settle_part now r p1 owner media db2 = (db', Some ans)"
    unfolding \<open>r1 = r\<close> \<open>ans1 = ans\<close> by metis
  have p1: "p1 = p" using fresh(3) find_part [OF i(2) p(1)] f(4) by simp
  have rows2: "manual_reply_part_rows j db2 = manual_reply_part_rows j db" for j by (simp add: manual_reply_part_rows_def f(12))
  have pend: "pending_parts (rows_in db r) = p # rest" "pending_parts (rows_in db2 r) = p # rest" using f(4,5) p1 rows2 by auto
  have rin2: "r \<in> set (replies db2)" by (simp add: f(11) rin)
  note st = settle_effect [OF f(9) rin2 pend(2) f(13) [unfolded p1]]
  have inv': "outbox_inv env db'" using sound_settle [OF f(9) rin2 pend(2) f(13) [unfolded p1]] f(9) by (simp add: sound_def)
  have own: "rp_owner r = Some owner" using st(1) by (simp add: holds_lease_def)
  have "reply_by_id i db2 = Some r" by (simp add: f(11) r)
  then have r': "reply_by_id i db' = Some (after_part now (rest = []) r)"
    using st(1) by (simp add: st(6) reply_ids.find_update)
  obtain m where m: "message_of_source (part_source_id i p (rows_in db r)) db2 = Some m"
    "m = new_message now r (py_strip raw_sender) (part_source_id i p (rows_in db r)) payload media \<or>
     message_agrees env r p (py_strip raw_sender) payload m = Inr True"
    using f(8) by (rule record_message_cases) (auto simp: rin(2) f(4) p1)
  have m': "message_of_source (part_source_id i p (rows_in db r)) db' = Some m" using m(1) by (simp add: message_of_source_def st(3))
  have acks: "acks_in_order (rows_in db2 r)" using outbox_invD(6) [OF f(9) rin2] by (simp add: reply_ok_def)
  define db1' where "db1' = db2\<lparr>reply_parts := reply_parts db'\<rparr>"
  have db1': "db1' = db2\<lparr>reply_parts := sql_update (\<lambda>q. part_key q = part_key p \<and> pt_acked q = None) (acked_part now media) (reply_parts db2)\<rparr>"
    by (simp add: db1'_def st(5))
  note rs = settled_rows [OF outbox_invD(2) [OF f(9)] pend(2) db1']
  have rows': "rows_in db' r = rows_in db1' r" by (simp add: manual_reply_part_rows_def db1'_def)
  have "p \<in> set (reply_parts db2)" "pt_outbox p = rp_id r" using p(1) f(12) by (auto simp: in_part_rows)
  then have ap: "acked_part now media p \<in> set (rows_in db' r)"
    using p(2) by (auto simp: in_part_rows st(5) in_sql_update acked_part_def intro!: bexI [of _ p])
  show thesis
    by (rule that [of rest payload media m])
      (use f own pend m m' inv' r' rs(3) [OF acks] rs(4) rows2 rows' ap st(2) p1 rin in simp_all)
qed (use a in auto)

text \<open>A second acknowledgement of the part with the same media finds the first one.\<close>

lemma ack_again_accepts:
  assumes inv: "outbox_inv env db" and r: "reply_by_id i db = Some r" and p: "p \<in> set (rows_in db r)" "pt_acked p = None"
    and a: "acknowledge_manual_reply_part env now i owner raw_sender (pt_index p) sent db = (db', Inr (Some ans))"
    and t: "\<And>payload. ack_payload env r p sent = Inr payload \<Longrightarrow> list_all has_texts (snd (snd payload)) \<and>
      pe_size env (stored_items (snd (snd payload))) \<le> 64 * 1024"
  shows "acknowledge_manual_reply_part env now2 i owner2 raw_sender (pt_index p) sent db' = (db', Inr (Some ans))"
proof -
  from ack_part_facts [OF inv r p a] obtain payload media rest m where
    f: "rp_status r = RSending" "pending_parts (rows_in db r) = p # rest" "ack_payload env r p sent = Inr payload"
      "media_json env (MediaValue (stored_items (snd (snd payload)))) = Inr media"
      "message_of_source (part_source_id i p (rows_in db r)) db' = Some m"
      "m = new_message now r (py_strip raw_sender) (part_source_id i p (rows_in db r)) payload media \<or>
       message_agrees env r p (py_strip raw_sender) payload m = Inr True"
      "outbox_inv env db'" "reply_by_id i db' = Some (after_part now (rest = []) r)"
      "pending_parts (rows_in db' r) = rest" "map spec_of (rows_in db' r) = map spec_of (rows_in db r)"
      "acked_part now media p \<in> set (rows_in db' r)" "ans = answer_of p (rest = [])"
    by metis
  let ?r = "after_part now (rest = []) r" and ?p = "acked_part now media p" and ?rows = "rows_in db' r"
  have rin: "r \<in> set (replies db)" "rp_id r = i" using r by (auto dest: find_SomeD)
  note ok = outbox_invD(6) [OF inv rin(1)]
  have same: "rp_content ?r = rp_content r" "rp_chat ?r = rp_chat r" "rp_item ?r = rp_item r" "pt_kind ?p = pt_kind p" "pt_index ?p = pt_index p"
    "spec_of ?p = spec_of p" "rp_id ?r = i" "pt_sent ?p = media" "pt_acked ?p = Some now"
    using rin(2) by (simp_all add: acked_part_def after_part_def spec_of_def)
  note st = ack_stored [OF ack_payload_ok [OF f(3)], of env] t [OF f(3)]
  have media: "media = Decoded (stored_items (snd (snd payload)))" using st f(4) by simp
  have stored: "ack_payload env r p (MediaText media) = Inr payload" unfolding media using st by simp
  have agrees: "message_agrees env r p (py_strip raw_sender) payload m = Inr True"
    using f(6) new_message_agrees [OF stored] by auto
  have "?rows \<noteq> []" using f(11) by auto
  moreover have "media_ok (rp_media r)" "manual_reply_part_specs env (rp_content r) (rp_media r) = Inr (map spec_of (rows_in db r))"
    using ok f(1) by (simp_all add: reply_ok_def deliverable_def)
  ultimately have en: "ensure_manual_reply_parts env ?r db' = (db', Inr ?rows)"
    using ensure_deliverable [of ?r env db'] by (simp add: deliverable_def f(10))
  have fp: "find (\<lambda>q. pt_index q = pt_index p) ?rows = Some ?p"
    using find_part [OF outbox_invD(2) [OF f(7)] f(11)] same(5) by simp
  have src: "part_source_id (rp_id ?r) ?p ?rows = part_source_id i p (rows_in db r)"
    unfolding same(7) by (rule part_source_cong [OF same(6) f(10)])
  have again: "ack_again env ?r ?p ?rows (py_strip raw_sender) sent db' = Inr (Some (answer_of ?p (rest = [])))"
    unfolding ack_again_def ack_payload_cong [OF same(1,4)] message_agrees_cong [OF same(1-4)] src same(8)
    by (simp add: f(3,5,9) stored agrees)
  have "answer_of ?p (rest = []) = ans" by (simp add: f(12) answer_of_def acked_part_def)
  moreover have "\<not> (i < 1 \<or> pt_index p < 0 \<or> py_strip raw_sender = [])"
    using a by (auto simp: acknowledge_manual_reply_part_def Let_def split: if_splits)
  ultimately show ?thesis
    by (simp add: acknowledge_manual_reply_part_def f(8) en fp same(9) again)
qed

end
