(* ===== verification/Manual_Correctness.thy ===== *)
theory Manual_Correctness
  imports Manual_Acks
begin

text \<open>
  Properties of the reply outbox.
\<close>

section \<open>An outbox with one reply\<close>

definition desk_env :: py_env where
  "desk_env = \<lparr>pe_repr = (\<lambda>_. ''[]''), pe_int = (\<lambda>_. None), pe_size = (\<lambda>_. 2)\<rparr>"

definition desk_sha :: "pyval \<Rightarrow> string" where
  "desk_sha v = (if v = PList [PStr ''c1'', PStr ''no''] then replicate 64 (CHR ''b'') else replicate 64 (CHR ''a''))"

definition desk_input :: queue_input where
  "desk_input = \<lparr>qi_visible = (\<lambda>_. True), qi_manual = (\<lambda>_. True), qi_files = (\<lambda>_. None)\<rparr>"

definition buyer_message :: message_row where
  "buyer_message = \<lparr>me_user = ''u1'', me_item = ''i1'', me_role = ''user'', me_content = ''hi'', me_time = 0,
     me_chat = Some ''c1'', me_source = None, me_type = ''text'', me_media = Decoded (PList [])\<rparr>"

definition desk_open :: chat_db where
  "desk_open = empty_chat_db\<lparr>chat_messages := [buyer_message]\<rparr>"

definition desk_reply :: outbox_row where
  "desk_reply = queued_reply 1 1 ''7'' ''ok'' ''c1'' ''k1'' (replicate 64 (CHR ''a'')) buyer_message (Decoded (PList []))"

definition desk_part :: part_row where
  "desk_part = new_part 1 (0, TextPart, None)"

definition desk_db :: chat_db where
  "desk_db = \<lparr>replies = [desk_reply], reply_seq = 1, reply_parts = [desk_part], chat_messages = [buyer_message]\<rparr>"

lemma desk_strings: "py_strip ''c1'' = ''c1''" "py_strip ''k1'' = ''k1''" "py_strip ''w1'' = ''w1''" "py_strip ''w2'' = ''w2''"
  "py_strip ''ok'' = ''ok''" "py_strip ''u1'' = ''u1''" "py_strip ''me'' = ''me''" "py_len ''ok'' = 2" "py_len ''w1'' = 2" "py_len ''w2'' = 2"
  by (rule py_strip_plain, code_simp, rule py_strip_plain, code_simp, rule py_strip_plain, code_simp,
      rule py_strip_plain, code_simp, rule py_strip_plain, code_simp, rule py_strip_plain, code_simp,
      rule py_strip_plain, code_simp, code_simp, code_simp, code_simp)

lemma no_images [simp]:
  "normalise_manual_reply_private_media env (MediaText (Decoded (PList []))) = Inr []"
  "normalize_manual_reply_media env (MediaText (Decoded (PList []))) = Inr []"
  using images_stored(1) [of "[]" env] worker_then_backend [of env "MediaText (Decoded (PList []))" "[]"]
  by (simp_all add: stored_items_def)

lemma desk_specs: "part_specs_of 0 ''ok'' = [(0, TextPart, None)]"
  by (simp add: part_specs_of_def image_specs_def desk_strings)

lemma desk_enqueue:
  "enqueue_manual_reply desk_env desk_sha desk_input 1 ''7'' ''ok'' ''c1'' ''k1'' PNone desk_open = (desk_db, Inr (desk_reply, [desk_part]))"
proof -
  have r: "records_ensure_parts desk_env desk_reply (desk_open\<lparr>replies := [desk_reply], reply_seq := 1\<rparr>) = (desk_db, Inr [desk_part])"
    by (simp add: records_ensure_parts_def manual_reply_is_tombstone_def records_part_specs_def desk_reply_def queued_reply_def
        desk_specs manual_reply_part_rows_def order_by_def desk_open_def empty_chat_db_def ACTIVE_STATUSES_def add_parts_def
        sql_insert_ignore_def desk_part_def new_part_def spec_of_def desk_db_def Let_def part_key_def)
  have d: "manual_reply_digest desk_env desk_sha c ''ok'' m = replicate 64 (CHR ''a'')" for c m
    by (simp add: manual_reply_digest_def digest_payload_def desk_sha_def Let_def)
  have v: "validate_manual_reply_media desk_env f [] = Inr []" for f
    by (simp add: validate_manual_reply_media_def normalise_manual_reply_media_input_def stored_items_def)
  have q: "queued_reply 1 1 ''7'' ''ok'' ''c1'' ''k1'' (replicate 64 (CHR ''a'')) buyer_message (records_media_json desk_env (MediaValue (PList []))) = desk_reply"
    by (simp add: desk_reply_def records_media_json_def normalise_media_def records_items_def stored_items_def map_filter_simps)
  have t: "compact_manual_reply_outbox desk_env desk_sha (trim_drafts 2000 (\<lambda>r. rp_status r = RDraft \<and> text_of (rp_request r) = []) desk_db) = desk_db"
    by (simp add: trim_drafts_def desk_db_def compact_manual_reply_outbox_def newest_def order_by_def delivered_in_full_def
        is_compacted_def desk_reply_def queued_reply_def desk_part_def new_part_def Let_def)
  have o: "replies desk_open = []" "reply_seq desk_open = 0" "chat_messages desk_open = [buyer_message]"
    by (simp_all add: desk_open_def empty_chat_db_def)
  show ?thesis
    using r t q d v by (simp add: enqueue_manual_reply_def normalise_manual_reply_media_input_def desk_strings o
        conversation_visible_def buyer_message_def desk_input_def start_reply_def last_message_def stored_items_def Let_def)
qed

lemma run_outbox_steps: "(outbox_step env sha)\<^sup>*\<^sup>* db (run_outbox env sha ops db)"
  by (induction env sha ops db rule: run_outbox.induct)
    (auto intro: converse_rtranclp_into_rtranclp outbox_step.intros)

lemma desk_open_reach: "(outbox_step desk_env desk_sha)\<^sup>*\<^sup>* empty_chat_db desk_open"
  using run_outbox_steps [of desk_env desk_sha empty_chat_db "[(0, OMessages [buyer_message])]"] by (simp add: desk_open_def)

lemma desk_reach: "(outbox_step desk_env desk_sha)\<^sup>*\<^sup>* empty_chat_db desk_db"
  using desk_open_reach run_outbox_steps [of desk_env desk_sha desk_open "[(1, OEnqueue desk_input ''7'' ''ok'' ''c1'' ''k1'' PNone)]"]
  by (simp add: desk_enqueue)

definition desk_claimed :: chat_db where
  "desk_claimed = desk_db\<lparr>replies := [take_reply 2 ''w1'' 60 desk_reply]\<rparr>"

lemma desk_sel: "rp_id desk_reply = 1" "rp_status desk_reply = RQueued" "rp_attempts desk_reply = 0" "rp_max desk_reply = 10"
  "rp_available desk_reply = 1" "rp_chat desk_reply = ''c1''" "rp_content desk_reply = ''ok''" "rp_recipient desk_reply = Some ''u1''"
  "rp_media desk_reply = Decoded (PList [])" "rp_item desk_reply = ''i1''" "rp_request desk_reply = Some ''k1''"
  "pt_outbox desk_part = 1" "pt_index desk_part = 0" "pt_acked desk_part = None" "pt_kind desk_part = TextPart" "pt_media desk_part = None"
  by (simp_all add: desk_reply_def queued_reply_def buyer_message_def desk_part_def new_part_def)

lemma desk_rows: "manual_reply_part_rows 1 desk_db = [desk_part]" "manual_reply_part_rows 1 desk_claimed = [desk_part]"
  by (simp_all add: manual_reply_part_rows_def desk_claimed_def desk_db_def desk_sel order_by_def)

lemma desk_claim:
  "claim_manual_replies desk_env 2 ''w1'' 5 60 desk_db = (desk_claimed, Inr [(take_reply 2 ''w1'' 60 desk_reply, [desk_part])])"
proof -
  have e: "ensure_manual_reply_parts desk_env desk_reply desk_db = (desk_db, Inr [desk_part])"
    by (simp add: ensure_manual_reply_parts_def manual_reply_part_specs_def desk_sel desk_specs desk_rows worker_tombstone_def
        spec_of_def Let_def)
  have v: "validate_claimable_manual_reply desk_env desk_reply [desk_part] = Inr ()"
    by (simp add: validate_claimable_manual_reply_def desk_sel desk_strings text_of_def MANUAL_REPLY_MAX_CONTENT_CHARS_def pending_parts_def)
  have s: "sendable 2 desk_reply" by (simp add: sendable_def desk_sel)
  have r: "replies desk_db = [desk_reply]" by (simp add: desk_db_def)
  have c: "claim_candidate desk_env 2 ''w1'' 60 desk_reply desk_db = (desk_claimed, Some (take_reply 2 ''w1'' 60 desk_reply, [desk_part]))"
    using e v s by (simp add: claim_candidate_def r desk_sel write_replies_def desk_claimed_def Let_def)
  have x: "desk_db\<lparr>replies := review_exhausted 2 (recover_sending 2 (replies desk_db))\<rparr> = desk_db"
    by (simp add: r review_exhausted_def recover_sending_def desk_sel desk_db_def)
  show ?thesis
    unfolding claim_manual_replies_def Let_def x by (simp add: desk_strings r s order_by_def c numeral_eq_Suc)
qed

lemma desk_claimed_reach: "(outbox_step desk_env desk_sha)\<^sup>*\<^sup>* empty_chat_db desk_claimed"
  using desk_reach run_outbox_steps [of desk_env desk_sha desk_db "[(2, OClaim ''w1'' 5 60)]"]
  by (simp add: desk_claim)

lemma reachable_outbox_inv: "(outbox_step env sha)\<^sup>*\<^sup>* empty_chat_db db \<Longrightarrow> outbox_inv env db"
  using outbox.inv_reachable by blast

section \<open>Acknowledgements\<close>

text \<open>C31: In every reachable outbox the parts of a reply are acknowledged in order, a reply counts as acknowledged only when
  none of its parts is pending, a reply being sent has a holder, an end of lease and a pending part, no other reply has a
  holder, and the attempts stay between 0 and 10.\<close>

theorem reply_parts_in_order:
  assumes "(outbox_step env sha)\<^sup>*\<^sup>* empty_chat_db db" "r \<in> set (replies db)"
  shows "acks_in_order (manual_reply_part_rows (rp_id r) db) \<and>
    (rp_status r = RAcknowledged \<longrightarrow> pending_parts (manual_reply_part_rows (rp_id r) db) = []) \<and>
    (rp_status r = RSending \<longrightarrow> rp_owner r \<notin> {None, Some []} \<and> rp_until r \<noteq> None \<and>
       pending_parts (manual_reply_part_rows (rp_id r) db) \<noteq> []) \<and>
    (rp_status r \<noteq> RSending \<longrightarrow> rp_owner r = None \<and> rp_until r = None) \<and>
    0 \<le> rp_attempts r \<and> rp_attempts r \<le> 10 \<and> unique_key rp_id (replies db)"
  using outbox_invD(6) [OF reachable_outbox_inv [OF assms(1)] assms(2)] outbox_invD(1) [OF reachable_outbox_inv [OF assms(1)]]
  by (auto simp: reply_ok_def)

theorem reply_parts_in_order_witness:
  "rp_status (take_reply 2 ''w1'' 60 desk_reply) = RSending \<and> pending_parts (manual_reply_part_rows 1 desk_claimed) \<noteq> []"
  using reply_parts_in_order [OF desk_claimed_reach, of "take_reply 2 ''w1'' 60 desk_reply"]
  by (simp add: desk_claimed_def desk_db_def desk_sel)

text \<open>C30: When a pending part is acknowledged, the caller holds the lease of the reply, every earlier part was acknowledged
  before, the part is the next one, its message is in the conversation afterwards, and the reply is acknowledged
  exactly if it was the last part.\<close>

theorem part_acknowledged_in_order:
  assumes reach: "(outbox_step env sha)\<^sup>*\<^sup>* empty_chat_db db" and r: "reply_by_id i db = Some r"
    and p: "p \<in> set (manual_reply_part_rows i db)" "pt_acked p = None"
    and a: "acknowledge_manual_reply_part env now i owner sender (pt_index p) sent db = (db', Inr (Some ans))"
  shows "rp_owner r = Some owner \<and> now < until_of r \<and>
    list_all (\<lambda>q. pt_index q < pt_index p \<longrightarrow> pt_acked q \<noteq> None) (manual_reply_part_rows i db) \<and>
    pending_parts (manual_reply_part_rows i db) = p # pending_parts (manual_reply_part_rows i db') \<and>
    message_of_source (part_source_id i p (manual_reply_part_rows i db)) db' \<noteq> None \<and>
    aa_complete ans = (pending_parts (manual_reply_part_rows i db') = []) \<and>
    map_option rp_status (reply_by_id i db') = Some (if aa_complete ans then RAcknowledged else RSending)"
proof -
  have i: "rp_id r = i" using r by (auto dest: find_SomeD)
  note inv = reachable_outbox_inv [OF reach]
  from ack_part_facts [OF inv r p [folded i] a] obtain rest m where
    f: "rp_status r = RSending" "rp_owner r = Some owner" "now < until_of r" "pending_parts (rows_in db r) = p # rest"
      "message_of_source (part_source_id i p (rows_in db r)) db' = Some m"
      "reply_by_id i db' = Some (after_part now (rest = []) r)" "pending_parts (rows_in db' r) = rest" "ans = answer_of p (rest = [])"
    by metis
  have "pt_acked q \<noteq> None" if "q \<in> set (rows_in db r)" "pt_index q < pt_index p" for q
  proof
    assume "pt_acked q = None"
    have "sorted (map pt_index (pending_parts (rows_in db r)))"
      by (simp add: pending_parts_def manual_reply_part_rows_def order_by_def sorted_filter)
    moreover have "q \<in> set (pending_parts (rows_in db r))" using that \<open>pt_acked q = None\<close> by (simp add: pending_parts_def)
    ultimately show False using that(2) unfolding f(4) by auto
  qed
  with f i show ?thesis by (simp add: list_all_iff answer_of_def)
qed

definition desk_acked :: chat_db where
  "desk_acked = fst (acknowledge_manual_reply_part desk_env 3 1 ''w1'' ''me'' 0 (MediaValue PNone) desk_claimed)"

lemma desk_found: "reply_by_id 1 desk_claimed = Some (take_reply 2 ''w1'' 60 desk_reply)"
  by (simp add: desk_claimed_def desk_sel)

lemma desk_payload: "ack_payload desk_env (take_reply 2 ''w1'' 60 desk_reply) desk_part (MediaValue PNone) = Inr (''ok'', ''text'', [])"
  by (simp add: ack_payload_def desk_sel desk_strings)

lemma desk_ack:
  "acknowledge_manual_reply_part desk_env 3 1 ''w1'' ''me'' 0 (MediaValue PNone) desk_claimed =
     (desk_acked, Inr (Some (answer_of desk_part True)))"
proof -
  let ?r = "take_reply 2 ''w1'' 60 desk_reply"
  have en: "ensure_manual_reply_parts desk_env ?r desk_claimed = (desk_claimed, Inr [desk_part])"
    using ensure_sending(1) [OF reachable_outbox_inv [OF desk_claimed_reach], of ?r]
    by (simp add: desk_rows desk_sel) (simp add: desk_claimed_def)
  have m: "media_json desk_env (MediaValue (PList [])) = Inr (Decoded (PList []))"
    by (simp add: media_json_def normalize_media_def stored_items_def)
  have rec: "record_message desk_env 3 ?r desk_part [desk_part] ''me'' (''ok'', ''text'', []) (Decoded (PList [])) desk_claimed =
      (desk_claimed\<lparr>chat_messages := [buyer_message, new_message 3 ?r ''me'' (part_source_id 1 desk_part [desk_part]) (''ok'', ''text'', []) (Decoded (PList []))]\<rparr>, Inr ())"
    by (simp add: record_message_def message_of_source_def desk_claimed_def desk_db_def buyer_message_def desk_sel Let_def)
  have "snd (acknowledge_manual_reply_part desk_env 3 1 ''w1'' ''me'' 0 (MediaValue PNone) desk_claimed) = Inr (Some (answer_of desk_part True))"
    by (simp add: acknowledge_manual_reply_part_def desk_strings desk_found en desk_sel ack_pending_def text_of_def until_of_def
        pending_parts_def desk_payload m stored_items_def rec settle_part_def part_key_def acked_part_def holds_lease_def Let_def)
      (simp add: desk_claimed_def desk_db_def desk_sel part_key_def acked_part_def holds_lease_def until_of_def)
  then show ?thesis by (simp add: desk_acked_def prod_eq_iff)
qed

theorem part_acknowledged_in_order_witness:
  "map_option rp_status (reply_by_id 1 desk_acked) = Some RAcknowledged"
  using part_acknowledged_in_order [OF desk_claimed_reach desk_found _ _ desk_ack [folded desk_sel(13)], simplified desk_rows]
  by (simp add: desk_sel answer_of_def)

text \<open>Acknowledging a part again with the same media is answered as the first time and changes nothing, whoever
  asks and whenever, provided what is stored of the media fits the limit of 64 KiB.\<close>

theorem acknowledgement_can_be_retried:
  assumes reach: "(outbox_step env sha)\<^sup>*\<^sup>* empty_chat_db db" and r: "reply_by_id i db = Some r"
    and p: "p \<in> set (manual_reply_part_rows i db)" "pt_acked p = None"
    and pay: "ack_payload env r p sent = Inr (content, kind, items)" "list_all has_texts items" "pe_size env (stored_items items) \<le> 64 * 1024"
    and a: "acknowledge_manual_reply_part env now i owner sender (pt_index p) sent db = (db', Inr (Some ans))"
  shows "acknowledge_manual_reply_part env later i anyone sender (pt_index p) sent db' = (db', Inr (Some ans))"
proof -
  have i: "rp_id r = i" using r by (auto dest: find_SomeD)
  show ?thesis
    by (rule ack_again_accepts [OF reachable_outbox_inv [OF reach] r p [folded i] a]) (use pay in auto)
qed

theorem acknowledgement_can_be_retried_witness:
  "acknowledge_manual_reply_part desk_env 500 1 ''w2'' ''me'' 0 (MediaValue PNone) desk_acked =
     (desk_acked, Inr (Some (answer_of desk_part True)))"
  using acknowledgement_can_be_retried [OF desk_claimed_reach desk_found _ _ desk_payload _ _ desk_ack [folded desk_sel(13)], of 500 "''w2''"]
  by (simp add: desk_rows desk_sel desk_env_def)

section \<open>Leases\<close>

lemma claimed_holder:
  assumes "outbox_inv env db" "claim_manual_replies env now w limit ls db = (db', Inr out)" "(r, parts) \<in> set out"
  shows "reply_holder db' (rp_id r) = Some (py_strip w, now + ls)" "outbox_inv env db'"
proof -
  note f = claim_facts [OF assms(1,2)]
  from f(2) [OF refl assms(3)] obtain c where r: "r \<in> set (replies db')" "r = take_reply now (py_strip w) ls c" by blast
  show inv: "outbox_inv env db'" using f(1) assms(1) by (simp add: sound_def)
  show "reply_holder db' (rp_id r) = Some (py_strip w, now + ls)"
    using holder_in [OF inv r(1)] r(2) by (simp add: sender_of_def text_of_def until_of_def)
qed

text \<open>C29: A reply that was claimed stays with the claimer until the lease ends, whatever others do to the outbox, and
  nobody else's claim returns it before then.\<close>

theorem reply_lease_is_exclusive:
  assumes reach: "(outbox_step env sha)\<^sup>*\<^sup>* empty_chat_db db"
    and c: "claim_manual_replies env now w limit ls db = (db1, Inr out)" "(r, parts) \<in> set out"
    and others: "others_before (py_strip w) (now + ls) (map (\<lambda>(t, opr). (outbox_actor opr, t)) ops)"
    and other: "claim_manual_replies env t v limit' ls' (run_outbox env sha ops db1) = (db2, Inr out')" "py_strip v \<noteq> py_strip w" "t < now + ls"
  shows "reply_holder (run_outbox env sha ops db1) (rp_id r) = Some (py_strip w, now + ls) \<and> rp_id r \<notin> rp_id ` fst ` set out'"
proof -
  note h = claimed_holder [OF reachable_outbox_inv [OF reach] c]
  let ?db = "run_outbox env sha ops db1"
  have held: "reply_holder ?db (rp_id r) = Some (py_strip w, now + ls)"
    by (rule reply_lease.held_through [OF run_outbox_history [OF h(2)] h(1) others])
  have inv: "outbox_inv env ?db" by (rule run_outbox_inv [OF h(2)])
  have "outbox_acts env sha (outbox_actor (OClaim v limit' ls')) t ?db (outbox_apply env sha t (OClaim v limit' ls') ?db)"
    using inv by (rule outbox_acts.intros)
  then have "reply_holder db2 (rp_id r) = Some (py_strip w, now + ls)"
    using reply_lease.fence [OF _ held] other by simp
  then have "rp_id q \<noteq> rp_id r" if "(q, ps) \<in> set out'" for q ps
    using claimed_holder(1) [OF inv other(1) that] other(2) by auto
  with held show ?thesis by force
qed

lemma w2_claims_nothing: "claim_manual_replies desk_env 10 ''w2'' 5 60 desk_claimed = (desk_claimed, Inr [])"
  by (simp add: claim_manual_replies_def desk_strings desk_claimed_def review_exhausted_def recover_sending_def until_of_def
      sendable_def order_by_def numeral_eq_Suc Let_def)

theorem reply_lease_is_exclusive_witness:
  "reply_holder (run_outbox desk_env desk_sha [(5, OFail 1 ''w2'' [] 0 True)] desk_claimed) 1 = Some (''w1'', 62)"
proof -
  have "run_outbox desk_env desk_sha [(5, OFail 1 ''w2'' [] 0 True)] desk_claimed = desk_claimed"
    by (simp add: fail_manual_reply_def desk_found text_of_def)
  then show ?thesis
    using reply_lease_is_exclusive [OF desk_reach desk_claim, of _ _ "[(5, OFail 1 ''w2'' [] 0 True)]" 10 "''w2''" 5 60 desk_claimed "[]"]
      w2_claims_nothing by (simp add: desk_strings desk_sel)
qed

section \<open>Media\<close>

text \<open>C36: The images of every reply in a reachable outbox are stored as at most eight well-formed image items with
  distinct file names, and the worker's strict normaliser reads exactly them.\<close>

theorem stored_media_is_well_formed:
  assumes "(outbox_step env sha)\<^sup>*\<^sup>* empty_chat_db db" "r \<in> set (replies db)"
  shows "\<exists>items. rp_media r = Decoded (stored_items items) \<and> length items \<le> 8 \<and> list_all image_ok items \<and>
    distinct (map mi_path items) \<and> normalize_manual_reply_media env (MediaText (rp_media r)) = Inr items"
proof -
  from outbox_invD(6) [OF reachable_outbox_inv [OF assms(1)] assms(2)] obtain items where
    "images_ok items" "rp_media r = Decoded (stored_items items)" by (auto simp: reply_ok_def media_ok_def)
  with images_stored(1) [of items env] show ?thesis by (auto simp: images_ok_def)
qed

theorem stored_media_is_well_formed_witness:
  "\<exists>items. rp_media desk_reply = Decoded (stored_items items) \<and> length items \<le> 8 \<and> list_all image_ok items \<and>
    distinct (map mi_path items) \<and> normalize_manual_reply_media desk_env (MediaText (rp_media desk_reply)) = Inr items"
  by (rule stored_media_is_well_formed [OF desk_reach]) (simp add: desk_db_def)

text \<open>C35: The images the backend has checked are stored and read back unchanged, by the worker and by the backend.\<close>

theorem checked_images_round_trip:
  assumes "validate_manual_reply_media env files media = Inr checked"
  shows "normalize_manual_reply_media env (MediaText (records_media_json env (MediaValue (stored_items checked)))) = Inr checked \<and>
    normalise_manual_reply_private_media env (MediaText (records_media_json env (MediaValue (stored_items checked)))) = Inr checked"
  using images_stored [OF validated_images(1) [OF assms], of env] worker_then_backend by simp

definition desk_image :: media_item where
  "desk_image = \<lparr>mi_type = ''image'', mi_url = [], mi_alt = ''a'', mi_width = 10, mi_height = 20, mi_duration = 0,
     mi_label = [], mi_path = Some (''manual_reply_'' @ replicate 32 (CHR ''0'') @ ''.png''), mi_mime = None, mi_name = Some ''n''\<rparr>"

definition desk_files :: "string \<Rightarrow> image_file option" where
  "desk_files name = Some \<lparr>im_size = 100, im_header = bytes [137, 80, 78, 71, 13, 10, 26, 10]\<rparr>"

lemma desk_image_ok: "image_ok desk_image"
  by code_simp

lemma desk_validated: "validate_manual_reply_media desk_env desk_files [desk_image] = Inr [desk_image\<lparr>mi_mime := Some ''image/png''\<rparr>]"
proof -
  obtain d where d: "item_value desk_image = PDict d" by (simp add: item_value_def)
  have "images_ok [desk_image]" using desk_image_ok by (simp add: images_ok_def)
  from stored_records_items [OF this, of desk_env] have i: "records_item desk_env True d = desk_image"
    by (simp add: records_items_def d map_filter_simps)
  obtain p where p: "mi_path desk_image = Some p" "image_name p" "manual_image_filename desk_env (dict_get d ''path'') = p" "says_image desk_env d"
    using desk_image_ok d by (rule image_ok_path)
  have "media_input_items desk_env [] [item_value desk_image] = Inr [desk_image]"
    using p image_name_chars(2) [OF p(2)] by (simp add: d i Let_def) (simp add: desk_image_def)
  then have n: "normalise_manual_reply_media_input desk_env (stored_items [desk_image]) = Inr [desk_image]"
    by (simp add: normalise_manual_reply_media_input_def stored_items_def)
  have x: "file_extension (''manual_reply_'' @ replicate 32 (CHR ''0'') @ ''.png'') = ''png''"
    "detect_mime (bytes [137, 80, 78, 71, 13, 10, 26, 10]) ''png'' = Some ''image/png''" by code_simp+
  have "py_strip [] = []" by code_simp
  then have "check_image_file desk_files desk_image = Inr (desk_image\<lparr>mi_mime := Some ''image/png''\<rparr>)"
    using x by (simp add: check_image_file_def desk_image_def desk_files_def MANUAL_IMAGE_MAX_BYTES_def text_of_def media_lower.simps ascii_lower_def Let_def)
  with n show ?thesis by (simp add: validate_manual_reply_media_def)
qed

theorem checked_images_round_trip_witness:
  "normalize_manual_reply_media desk_env (MediaText (records_media_json desk_env
     (MediaValue (stored_items [desk_image\<lparr>mi_mime := Some ''image/png''\<rparr>])))) = Inr [desk_image\<lparr>mi_mime := Some ''image/png''\<rparr>]"
  using checked_images_round_trip [OF desk_validated] by simp

text \<open>C37: Worker and backend agree on every reply: whatever the worker's strict normaliser accepts, the backend's accepts
  with the same items and the same parts; the converse fails only where the worker's conversion of a number overflows.\<close>

theorem worker_and_backend_agree:
  "(normalize_manual_reply_media env (MediaText media) = Inr items) =
     (normalise_manual_reply_private_media env (MediaText media) = Inr items \<and>
      (\<forall>e. normalize_manual_reply_media env (MediaText media) \<noteq> Inl (OverflowError e))) \<and>
   (manual_reply_part_specs env content media = Inr specs) =
     (records_part_specs env content media = Inr specs \<and>
      (\<forall>e. normalize_manual_reply_media env (MediaText media) \<noteq> Inl (OverflowError e)))"
proof -
  let ?w = "normalize_manual_reply_media env (MediaText media)" and ?b = "normalise_manual_reply_private_media env (MediaText media)"
  have a: "(?w = Inr items) = (?b = Inr items \<and> (\<forall>e. ?w \<noteq> Inl (OverflowError e)))" for items
    using worker_then_backend [of env "MediaText media" items] backend_then_worker [of env "MediaText media" items] by auto
  have "manual_reply_part_specs env content media = Inr specs \<longleftrightarrow> (\<exists>items. ?w = Inr items \<and> specs = part_specs_of (length items) content)"
    "records_part_specs env content media = Inr specs \<longleftrightarrow> (\<exists>items. ?b = Inr items \<and> specs = part_specs_of (length items) content)"
    by (auto simp: manual_reply_part_specs_def records_part_specs_def split: sum.split)
  with a show ?thesis by auto
qed

section \<open>From the backend to the worker\<close>

lemma enqueue_new:
  assumes inv: "outbox_inv env db" and new: "list_all (\<lambda>r. rp_request r \<noteq> Some (py_strip request)) (replies db)"
    and e: "enqueue_manual_reply env sha inp now user content chat request media db = (db1, Inr (row, parts))"
  obtains clean where "normalise_manual_reply_media_input env media = Inr clean" "\<not> (py_strip content = [] \<and> clean = [])"
    "conversation_visible inp (py_strip chat) db"
    "start_reply env sha inp now user content (py_strip chat) (py_strip request) clean
       (manual_reply_digest env sha (py_strip chat) content (MediaValue (stored_items clean))) db = (db1, Inr (row, parts))"
proof -
  have "find (\<lambda>r. rp_request r = Some (py_strip request)) (replies db) = None" using new by (auto simp: find_None_iff list_all_iff)
  moreover obtain clean where c: "normalise_manual_reply_media_input env media = Inr clean"
    using e by (auto simp: enqueue_manual_reply_def Let_def split: sum.splits)
  ultimately show thesis
    using e by (intro that [OF c]) (auto simp: enqueue_manual_reply_def Let_def split: if_splits)
qed






section \<open>Idempotency keys\<close>

lemma known_digest: "(\<And>v. length (sha v) = 64) \<Longrightarrow> manual_reply_digest env sha c t m \<noteq> []"
  by (simp add: manual_reply_digest_def flip: length_0_conv)

lemma find_request:
  assumes inv: "outbox_inv env db" "outbox_inv env db1" and new: "list_all (\<lambda>r. rp_request r \<noteq> Some key) (replies db)"
    and row: "row \<in> set (replies db1)" "rp_request row = Some key"
    and old: "\<And>q. q \<in> set (replies db1) \<Longrightarrow> q = row \<or> (\<exists>q0 \<in> set (replies db). rp_id q = rp_id q0 \<and> rp_request q = rp_request q0)"
  shows "find (\<lambda>r. rp_request r = Some key) (replies db1) = Some row"
proof -
  obtain q where q: "find (\<lambda>r. rp_request r = Some key) (replies db1) = Some q"
    using row by (cases "find (\<lambda>r. rp_request r = Some key) (replies db1)") (auto simp: find_None_iff)
  then have "q \<in> set (replies db1)" "rp_request q = Some key" by (auto dest: find_SomeD)
  with old [of q] new have "q = row" by (auto simp: list_all_iff)
  with q show ?thesis by simp
qed

text \<open>A request that was accepted can be repeated: the same request is answered with the same reply and adds nothing, and
  the same key with another payload is refused and changes nothing.\<close>

theorem enqueue_can_be_retried:
  assumes reach: "(outbox_step env sha)\<^sup>*\<^sup>* empty_chat_db db" and sha: "\<And>v. length (sha v) = 64"
    and new: "list_all (\<lambda>r. rp_request r \<noteq> Some (py_strip request)) (replies db)"
    and e: "enqueue_manual_reply env sha inp now user content chat request media db = (db1, Inr (row, parts))"
    and other: "normalise_manual_reply_media_input env media' = Inr clean'" "py_strip content' \<noteq> []"
      "normalise_manual_reply_media_input env media = Inr clean"
      "manual_reply_digest env sha (py_strip chat) content' (MediaValue (stored_items clean')) \<noteq>
       manual_reply_digest env sha (py_strip chat) content (MediaValue (stored_items clean))"
  shows "enqueue_manual_reply env sha inp later user content chat request media db1 = (db1, Inr (row, parts)) \<and>
    enqueue_manual_reply env sha inp later user content' chat request media' db1 = (db1, Inl (QueueError ''idempotency_conflict''))"
proof -
  note inv = reachable_outbox_inv [OF reach]
  from inv new e obtain clean0 where c: "normalise_manual_reply_media_input env media = Inr clean0" "\<not> (py_strip content = [] \<and> clean0 = [])"
    "conversation_visible inp (py_strip chat) db"
    "start_reply env sha inp now user content (py_strip chat) (py_strip request) clean0
       (manual_reply_digest env sha (py_strip chat) content (MediaValue (stored_items clean0))) db = (db1, Inr (row, parts))"
    by (rule enqueue_new)
  have "clean0 = clean" using c(1) other(3) by simp
  let ?digest = "manual_reply_digest env sha (py_strip chat) content (MediaValue (stored_items clean))"
  from start_facts [OF inv c(2,4)] obtain checked target where
    f: "images_ok checked"
      "row = queued_reply now (reply_seq db + 1) user content (py_strip chat) (py_strip request) ?digest target (Decoded (stored_items checked))"
      "row \<in> set (replies db1)" "parts = rows_in db1 row"
      "parts = map (new_part (rp_id row)) (part_specs_of (length checked) content)" "chat_messages db1 = chat_messages db"
      "\<And>q. q \<in> set (replies db1) \<Longrightarrow> q = row \<or> (\<exists>q0 \<in> set (replies db). rp_id q = rp_id q0 \<and> rp_request q = rp_request q0)"
      "length checked = length clean"
    unfolding \<open>clean0 = clean\<close> by metis
  have s: "rp_request row = Some (py_strip request)" "rp_digest row = Some ?digest" "rp_status row = RQueued"
    "rp_content row = content" "rp_media row = Decoded (stored_items checked)" by (simp_all add: f(2) queued_reply_def)
  have inv1: "outbox_inv env db1"
    using sound_enqueue [of env "[]" now db sha inp now user content chat request media] inv by (simp add: e sound_def)
  note found = find_request [OF inv inv1 new f(3) s(1) f(7)]
  have vis: "conversation_visible inp (py_strip chat) db1" using c(3) by (simp add: conversation_visible_def f(6))
  have d: "text_of (rp_digest row) = ?digest" "?digest \<noteq> []" using known_digest [OF sha] by (simp_all add: s(2) text_of_def)
  have "parts \<noteq> []" using c(2) f(8) by (auto simp: f(5) specs_nonempty \<open>clean0 = clean\<close>)
  moreover have "records_part_specs env (rp_content row) (rp_media row) = Inr (map spec_of parts)"
    using worker_then_backend [OF images_stored(1) [OF f(1)], of env] by (simp add: records_part_specs_def s f(5) o_def)
  moreover have "acks_in_order parts" by (rule acks_pending) (auto simp: f(5))
  ultimately have en: "records_ensure_parts env row db1 = (db1, Inr parts)"
    by (simp add: records_ensure_parts_def manual_reply_is_tombstone_def s(3) Let_def f(4) [symmetric])
  have "enqueue_manual_reply env sha inp later user content chat request media db1 = (db1, Inr (row, parts))"
    using c(2) by (simp add: enqueue_manual_reply_def other(3) vis found resume_reply_def d en Let_def \<open>clean0 = clean\<close>)
  moreover have "enqueue_manual_reply env sha inp later user content' chat request media' db1 = (db1, Inl (QueueError ''idempotency_conflict''))"
    using other(2,4) by (simp add: enqueue_manual_reply_def other(1) vis found resume_reply_def d Let_def)
  ultimately show ?thesis ..
qed

theorem enqueue_can_be_retried_witness:
  "enqueue_manual_reply desk_env desk_sha desk_input 9 ''7'' ''no'' ''c1'' ''k1'' PNone desk_db = (desk_db, Inl (QueueError ''idempotency_conflict''))"
proof -
  have n: "normalise_manual_reply_media_input desk_env PNone = Inr []" by (simp add: normalise_manual_reply_media_input_def)
  have p: "digest_payload desk_env c t (MediaValue (stored_items [])) = PList [PStr c, PStr t]" for c t
    by (simp add: digest_payload_def normalise_media_def stored_items_def records_items_def map_filter_simps)
  have "py_strip ''no'' = ''no''" by (rule py_strip_plain) code_simp
  then show ?thesis
    using enqueue_can_be_retried [OF desk_open_reach _ _ desk_enqueue n, of "''no''" "[]" 9] n
    by (simp add: desk_sha_def desk_open_def empty_chat_db_def manual_reply_digest_def p desk_strings)
qed

text \<open>What compaction keeps of a reply is the digest of the stored images, which have their detected type; the
  digest of the request was taken before.\<close>

lemma input_dicts:
  "media_input_items env seen (map item_value items) = Inr clean \<Longrightarrow> list_all (image_dict env) (map item_value items)"
proof (induction items arbitrary: seen clean)
  case (Cons i items)
  obtain d where d: "item_value i = PDict d" by (simp add: item_value_def)
  from Cons.prems have "says_image env d" "manual_image_filename env (dict_get d ''path'') \<noteq> []"
    and r: "\<exists>seen' clean'. media_input_items env seen' (map item_value items) = Inr clean'"
    by (auto simp: d Let_def split: if_splits sum.splits)
  with Cons.IH show ?case by (auto simp: d image_dict_def filename_iff split: if_splits)
qed simp

lemma checked_mimes:
  "check_image_files files items = Inr checked \<Longrightarrow> list_all (\<lambda>i. mi_mime i \<noteq> None) checked"
proof (induction files items arbitrary: checked rule: check_image_files.induct)
  case (2 files i items)
  then show ?case
    by (auto simp: check_image_file_def Let_def split: sum.splits option.splits if_splits)
qed simp

lemma stored_mimes:
  assumes "stored_items xs = stored_items ys" "k < length xs"
  shows "mi_mime (xs ! k) = None \<longleftrightarrow> mi_mime (ys ! k) = None"
proof -
  from assms(1) have m: "map item_value xs = map item_value ys" by (simp add: stored_items_def)
  then have "length ys = length xs" by (metis length_map)
  with m assms(2) have e: "item_value (xs ! k) = item_value (ys ! k)" by (metis nth_map)
  obtain d where d: "item_value (xs ! k) = PDict d" by (simp add: item_value_def)
  have "(case mi_mime (xs ! k) of None \<Rightarrow> PNone | Some p \<Rightarrow> PStr p) = (case mi_mime (ys ! k) of None \<Rightarrow> PNone | Some p \<Rightarrow> PStr p)"
    using stored_gets(9) [OF d] stored_gets(9) [OF d [unfolded e]] by simp
  then show ?thesis by (auto split: option.splits)
qed

lemma digests_differ:
  assumes v: "validate_manual_reply_media env files clean = Inr checked" and k: "k < length clean" "mi_mime (clean ! k) = None"
  shows "digest_payload env chat content (MediaValue (stored_items clean)) \<noteq>
    digest_payload env chat content (MediaText (Decoded (stored_items checked)))"
proof -
  obtain c2 where c: "media_input_items env [] (map item_value clean) = Inr c2" "length clean \<le> 8" "check_image_files files c2 = Inr checked"
    using v by (auto simp: validate_manual_reply_media_def normalise_manual_reply_media_input_def stored_items_def split: sum.splits if_splits)
  let ?raw = "image_items env (map item_value clean)"
  have raw: "normalise_media env True (MediaValue (stored_items clean)) = ?raw"
    using records_images [OF input_dicts [OF c(1)]] c(2) by (simp add: normalise_media_def stored_items_def)
  have chk: "normalise_media env True (MediaText (Decoded (stored_items checked))) = checked"
    using stored_records_items [OF validated_images(1) [OF v], of env] by (simp add: normalise_media_def stored_items_def)
  have len: "length ?raw = length clean" "length checked = length clean" using validated_images(2) [OF v] by (simp_all add: image_items_def)
  obtain d where d: "item_value (clean ! k) = PDict d" by (simp add: item_value_def)
  have "mi_mime (?raw ! k) = None"
    using k by (simp add: image_items_def d records_item_def media_fields_def stored_gets [OF d] optional_text_def)
  moreover have "mi_mime (checked ! k) \<noteq> None" using checked_mimes [OF c(3)] k(1) len(2) by (simp add: list_all_length)
  ultimately have "stored_items ?raw \<noteq> stored_items checked" using stored_mimes [of ?raw checked k] k(1) len(1) by auto
  moreover have "?raw \<noteq> []" "checked \<noteq> []" using k(1) len by auto
  ultimately show ?thesis by (simp add: digest_payload_def raw chk)
qed

text \<open>C40: A reply with an image whose type the request did not name loses its idempotency key when it is compacted: repeating the
  accepted request is then refused as a conflict.\<close>

theorem compaction_breaks_retry:
  assumes v: "validate_manual_reply_media env files clean = Inr checked" and k: "k < length clean" "mi_mime (clean ! k) = None"
    and m: "rp_media r = records_media_json env (MediaValue (stored_items checked))"
    and sha: "inj_on sha {digest_payload env (rp_chat r) (rp_content r) (MediaValue (stored_items clean)),
       digest_payload env (rp_chat r) (rp_content r) (MediaText (rp_media r))}" "\<And>v. length (sha v) = 64"
  shows "resume_reply env sha (manual_reply_digest env sha (rp_chat r) (rp_content r) (MediaValue (stored_items clean)))
    (compacted env sha r) db = (db, Inl (QueueError ''idempotency_conflict''))"
proof -
  have "manual_reply_digest env sha (rp_chat r) (rp_content r) (MediaText (rp_media r)) \<noteq>
      manual_reply_digest env sha (rp_chat r) (rp_content r) (MediaValue (stored_items clean))"
    using sha(1) digests_differ [OF v k, of "rp_chat r" "rp_content r"] images_stored(2) [OF validated_images(1) [OF v], of env]
    by (auto simp: manual_reply_digest_def m)
  then show ?thesis
    using known_digest [of sha env "rp_chat r" "rp_content r" "MediaText (rp_media r)", OF sha(2)]
    by (simp add: resume_reply_def compacted_def text_of_def Let_def)
qed

definition desk_tell :: "pyval \<Rightarrow> string" where
  "desk_tell v = (if v = digest_payload desk_env ''c1'' ''ok'' (MediaValue (stored_items [desk_image]))
     then replicate 64 (CHR ''b'') else replicate 64 (CHR ''a''))"

definition desk_delivered :: outbox_row where
  "desk_delivered = desk_reply\<lparr>rp_status := RAcknowledged,
     rp_media := records_media_json desk_env (MediaValue (stored_items [desk_image\<lparr>mi_mime := Some ''image/png''\<rparr>]))\<rparr>"

theorem compaction_breaks_retry_witness:
  "resume_reply desk_env desk_tell (manual_reply_digest desk_env desk_tell ''c1'' ''ok'' (MediaValue (stored_items [desk_image])))
     (compacted desk_env desk_tell desk_delivered) desk_db = (desk_db, Inl (QueueError ''idempotency_conflict''))"
proof -
  have "rp_chat desk_delivered = ''c1''" "rp_content desk_delivered = ''ok''" by (simp_all add: desk_delivered_def desk_sel)
  then show ?thesis
    using compaction_breaks_retry [OF desk_validated, of 0 desk_delivered desk_tell desk_db]
    by (simp add: desk_tell_def desk_delivered_def desk_image_def inj_on_def)
qed

end
