(* ===== verification/Assistant_Ledger.thy ===== *)
theory Assistant_Ledger
  imports Manual_Outbox
begin

text \<open>
  Automatic replies in an account's chat database (\<^verbatim>\<open>worker/context_manager.py\<close>): the bounded history of messages
  and the ledger \<^verbatim>\<open>assistant_outcomes\<close> that keeps a buyer message from being answered twice, the flags of
  conversations waiting for a human, and the bargaining counters.  Texts of times are represented by the times,
  and an operation reads the clock once.
\<close>

section \<open>Tables\<close>

record outcome_row =
  ao_source :: string
  ao_chat :: string
  ao_user :: string
  ao_item :: string
  ao_role :: string
  ao_content :: string
  ao_created :: time
  ao_updated :: time

record flag_row =
  fl_chat :: string
  fl_needs :: bool
  fl_updated :: time

record bargain_row =
  bc_chat :: string
  bc_count :: int
  bc_updated :: time

record chat_log =
  lg_messages :: "message_row list"
  lg_outcomes :: "outcome_row list"
  lg_flags :: "flag_row list"
  lg_bargains :: "bargain_row list"

interpretation outcome_keys: keyed_table ao_source .
interpretation flag_keys: keyed_table fl_chat .
interpretation bargain_keys: keyed_table bc_chat .

definition OUTCOME_RETENTION_SECONDS :: time where "OUTCOME_RETENTION_SECONDS = 90 * 86400"

definition TERMINAL_ASSISTANT_ROLES :: "string list" where
  "TERMINAL_ASSISTANT_ROLES = [''assistant'', ''assistant_cancelled'', ''assistant_no_reply'']"

definition allowed_roles :: "string list" where
  "allowed_roles = ''assistant_pending'' # TERMINAL_ASSISTANT_ROLES"

definition known_message :: "string \<Rightarrow> chat_log \<Rightarrow> message_row option" where
  "known_message s db = find (\<lambda>m. me_source m = Some s) (lg_messages db)"

definition known_outcome :: "string \<Rightarrow> chat_log \<Rightarrow> outcome_row option" where
  "known_outcome s db = find (\<lambda>oc. ao_source oc = s) (lg_outcomes db)"

definition prune_assistant_outcomes :: "time \<Rightarrow> chat_log \<Rightarrow> chat_log" where
  "prune_assistant_outcomes now db = db\<lparr>lg_outcomes := sql_delete
     (\<lambda>oc. ao_role oc \<noteq> ''assistant_pending'' \<and> ao_updated oc < now - OUTCOME_RETENTION_SECONDS) (lg_outcomes db)\<rparr>"

section \<open>History\<close>

definition CONTENT_TYPES :: "string list" where
  "CONTENT_TYPES = [''text'', ''image'', ''emoji'', ''audio'', ''video'', ''file'', ''link'', ''rich'', ''unknown'']"

definition prunable :: "string \<Rightarrow> message_row \<Rightarrow> bool" where
  "prunable chat m \<longleftrightarrow> me_chat m = Some chat \<and> me_role m \<noteq> ''assistant_pending''"

definition latest_positions :: "nat \<Rightarrow> (message_row \<Rightarrow> bool) \<Rightarrow> message_row list \<Rightarrow> nat list" where
  \<comment> \<open>\<^verbatim>\<open>SELECT id .. WHERE P ORDER BY timestamp DESC, id DESC LIMIT n\<close>; a row's place stands for its id\<close>
  "latest_positions n P ms =
     map fst (take n (rev (order_by (\<lambda>p. me_time (snd p)) (filter (\<lambda>p. P (snd p)) (enumerate 0 ms)))))"

definition prune_history :: "nat \<Rightarrow> string \<Rightarrow> message_row list \<Rightarrow> message_row list" where
  "prune_history n chat ms =
     map snd (filter (\<lambda>p. \<not> (prunable chat (snd p) \<and> fst p \<notin> set (latest_positions n (prunable chat) ms))) (enumerate 0 ms))"

definition insert_message :: "message_row \<Rightarrow> message_row list \<Rightarrow> message_row list" where
  \<comment> \<open>\<^verbatim>\<open>INSERT OR IGNORE\<close> under the unique index on the sources\<close>
  "insert_message m ms = (if me_source m \<noteq> None \<and> list_ex (\<lambda>q. me_source q = me_source m) ms then ms else ms @ [m])"

definition chat_message ::
  "time \<Rightarrow> string \<Rightarrow> string \<Rightarrow> string \<Rightarrow> string \<Rightarrow> string \<Rightarrow> string option \<Rightarrow> string \<Rightarrow> json_col \<Rightarrow> message_row"
where
  "chat_message now chat user item role content source ctype enc =
     (let kind = media_lower (py_strip (if ctype = [] then ''text'' else ctype))
      in \<lparr>me_user = user, me_item = item, me_role = role, me_content = content, me_time = now, me_chat = Some chat, me_source = source,
          me_type = (if kind \<in> set CONTENT_TYPES then kind else ''unknown''), me_media = enc\<rparr>)"

definition add_message_by_chat ::
  "py_env \<Rightarrow> nat \<Rightarrow> time \<Rightarrow> string \<Rightarrow> string \<Rightarrow> string \<Rightarrow> string \<Rightarrow> string \<Rightarrow> string option \<Rightarrow> string \<Rightarrow> media_arg \<Rightarrow>
   chat_log \<Rightarrow> chat_log \<times> bool"
where
  "add_message_by_chat env max_history now chat user item role content source ctype media db =
     (case media_json env media of
        Inl _ \<Rightarrow> (db, False)
      | Inr enc \<Rightarrow>
          (let ms = insert_message (chat_message now chat user item role content source ctype enc) (lg_messages db)
           in (db\<lparr>lg_messages := prune_history max_history chat ms\<rparr>, length ms \<noteq> length (lg_messages db))))"

definition latest_item_id_by_chat :: "string \<Rightarrow> chat_log \<Rightarrow> string" where
  "latest_item_id_by_chat raw db =
     (let chat = py_strip raw in
      if chat = [] then []
      else case find (\<lambda>m. me_chat m = Some chat) (rev (lg_messages db)) of None \<Rightarrow> [] | Some m \<Rightarrow> me_item m)"

record source_view =
  sv_chat :: "string option"
  sv_user :: string
  sv_item :: string
  sv_role :: string
  sv_content :: string

definition message_view :: "message_row \<Rightarrow> source_view" where
  "message_view m = \<lparr>sv_chat = me_chat m, sv_user = me_user m, sv_item = me_item m, sv_role = me_role m, sv_content = me_content m\<rparr>"

definition outcome_view :: "outcome_row \<Rightarrow> source_view" where
  "outcome_view oc = \<lparr>sv_chat = Some (ao_chat oc), sv_user = ao_user oc, sv_item = ao_item oc, sv_role = ao_role oc, sv_content = ao_content oc\<rparr>"

definition stored_view :: "string \<Rightarrow> chat_log \<Rightarrow> source_view option" where
  \<comment> \<open>The message, or else the outcome, of a source\<close>
  "stored_view s db = (case known_message s db of Some m \<Rightarrow> Some (message_view m) | None \<Rightarrow> map_option outcome_view (known_outcome s db))"

definition get_source_message :: "string \<Rightarrow> chat_log \<Rightarrow> source_view option" where
  "get_source_message s db = (if s = [] then None else stored_view s db)"

section \<open>Automatic replies\<close>

definition belongs :: "string \<Rightarrow> string \<Rightarrow> string \<Rightarrow> source_view \<Rightarrow> bool" where
  "belongs chat user item v \<longleftrightarrow> sv_chat v = Some chat \<and> sv_user v = user \<and> sv_item v = item"

definition check_record :: "string \<Rightarrow> string \<Rightarrow> string \<Rightarrow> string \<Rightarrow> source_view option \<Rightarrow> unit result" where
  \<comment> \<open>The body of the loop over the two records\<close>
  "check_record label chat user item rec =
     (case rec of
        None \<Rightarrow> Inr ()
      | Some v \<Rightarrow>
          if \<not> belongs chat user item v then Inl (RuntimeError (label @ '' source collision''))
          else if sv_role v \<notin> set allowed_roles then Inl (RuntimeError (label @ '' has invalid state''))
          else Inr ())"

definition pending_message :: "time \<Rightarrow> string \<Rightarrow> string \<Rightarrow> string \<Rightarrow> string \<Rightarrow> string \<Rightarrow> message_row" where
  "pending_message now chat user item content s = \<lparr>me_user = user, me_item = item, me_role = ''assistant_pending'',
     me_content = content, me_time = now, me_chat = Some chat, me_source = Some s, me_type = ''text'', me_media = Decoded (PList [])\<rparr>"

definition outcome_from :: "time \<Rightarrow> string \<Rightarrow> source_view \<Rightarrow> outcome_row" where
  "outcome_from now s v = \<lparr>ao_source = s, ao_chat = text_of (sv_chat v), ao_user = sv_user v, ao_item = sv_item v,
     ao_role = sv_role v, ao_content = sv_content v, ao_created = now, ao_updated = now\<rparr>"

definition enter_outcome :: "time \<Rightarrow> string \<Rightarrow> string \<Rightarrow> string \<Rightarrow> string \<Rightarrow> source_view \<Rightarrow> chat_log \<Rightarrow> (chat_log, outcome_row) outcome" where
  \<comment> \<open>The insertion into the ledger at the end of \<^verbatim>\<open>prepare_assistant_reply\<close>\<close>
  "enter_outcome now chat user item s v db =
     (let db1 = db\<lparr>lg_outcomes := sql_insert_ignore ao_source (outcome_from now s v) (lg_outcomes db)\<rparr> in
      case known_outcome s db1 of
        None \<Rightarrow> (db, Inl (RuntimeError ''assistant outcome source collision''))
      | Some oc \<Rightarrow>
          if \<not> belongs chat user item (outcome_view oc) \<or> ao_role oc \<notin> set allowed_roles
          then (db, Inl (RuntimeError ''assistant outcome source collision''))
          else (db1, Inr oc))"

definition prepare_assistant_reply ::
  "time \<Rightarrow> string \<Rightarrow> string \<Rightarrow> string \<Rightarrow> string \<Rightarrow> string \<Rightarrow> chat_log \<Rightarrow> (chat_log, outcome_row) outcome"
where
  "prepare_assistant_reply now chat user item content s db =
     (if s = [] \<or> content = [] \<or> py_len content > 4096 then (db, Inl (ValueError ''assistant reply draft is invalid''))
      else
        (let db0 = prune_assistant_outcomes now db;
             message = known_message s db0;
             recorded = known_outcome s db0
         in case check_record ''assistant reply'' chat user item (map_option message_view message) of
              Inl e \<Rightarrow> (db, Inl e)
            | Inr _ \<Rightarrow>
                (case check_record ''assistant outcome'' chat user item (map_option outcome_view recorded) of
                   Inl e \<Rightarrow> (db, Inl e)
                 | Inr _ \<Rightarrow>
                     (case recorded of
                        Some oc \<Rightarrow>
                          if message \<noteq> None \<and> map_option me_role message \<noteq> Some (ao_role oc)
                          then (db, Inl (RuntimeError ''assistant reply state collision''))
                          else (db0, Inr oc)
                      | None \<Rightarrow>
                          (let db1 = (if message = None
                                 then db0\<lparr>lg_messages := lg_messages db0 @ [pending_message now chat user item content s]\<rparr> else db0)
                           in case known_message s db1 of
                                None \<Rightarrow> (db, Inl (RuntimeError ''assistant reply draft was not persisted''))
                              | Some m \<Rightarrow>
                                  (case enter_outcome now chat user item s (message_view m) db1 of
                                     (_, Inl e) \<Rightarrow> (db, Inl e)
                                   | (db2, Inr oc) \<Rightarrow> (db2, Inr oc)))))))"

definition write_messages :: "(message_row \<Rightarrow> bool) \<Rightarrow> (message_row \<Rightarrow> message_row) \<Rightarrow> chat_log \<Rightarrow> chat_log" where
  "write_messages P f db = db\<lparr>lg_messages := sql_update P f (lg_messages db)\<rparr>"

definition close_outcome :: "time \<Rightarrow> string \<Rightarrow> source_view \<Rightarrow> (outcome_row \<Rightarrow> outcome_row) \<Rightarrow> chat_log \<Rightarrow> chat_log" where
  "close_outcome now s v f db = db\<lparr>lg_outcomes := sql_upsert ao_source (outcome_from now s v) f (lg_outcomes db)\<rparr>"

definition NOT_NULL :: py_error where
  \<comment> \<open>The ledger takes no row without a chat\<close>
  "NOT_NULL = IntegrityError ''NOT NULL constraint failed: assistant_outcomes.chat_id''"

definition complete_assistant_reply :: "time \<Rightarrow> string \<Rightarrow> string option \<Rightarrow> chat_log \<Rightarrow> (chat_log, unit) outcome" where
  "complete_assistant_reply now s content db =
     (let db0 = prune_assistant_outcomes now db in
      case stored_view s db0 of
        None \<Rightarrow> (db, Inl (RuntimeError ''assistant reply draft is missing''))
      | Some v \<Rightarrow>
          if sv_role v = ''assistant'' then (db0, Inr ())
          else if sv_role v \<noteq> ''assistant_pending'' then (db, Inl (RuntimeError ''assistant reply draft has invalid state''))
          else if sv_chat v = None then (db, Inl NOT_NULL)
          else
            (let final = (case content of None \<Rightarrow> sv_content v | Some c \<Rightarrow> c);
                 db1 = write_messages (\<lambda>m. me_source m = Some s)
                   (\<lambda>m. m\<lparr>me_role := ''assistant'', me_content := (case content of None \<Rightarrow> me_content m | Some c \<Rightarrow> c)\<rparr>) db0
             in (close_outcome now s (v\<lparr>sv_role := ''assistant'', sv_content := final\<rparr>)
                   (\<lambda>oc. oc\<lparr>ao_role := ''assistant'', ao_content := final, ao_updated := now\<rparr>) db1, Inr ())))"

definition cancel_assistant_reply :: "time \<Rightarrow> string \<Rightarrow> chat_log \<Rightarrow> (chat_log, unit) outcome" where
  "cancel_assistant_reply now s db =
     (let db0 = prune_assistant_outcomes now db in
      case stored_view s db0 of
        None \<Rightarrow> (db, Inl (RuntimeError ''assistant reply draft is missing''))
      | Some v \<Rightarrow>
          if sv_role v \<in> set TERMINAL_ASSISTANT_ROLES then (db0, Inr ())
          else if sv_role v \<noteq> ''assistant_pending'' then (db, Inl (RuntimeError ''assistant reply draft has invalid state''))
          else if sv_chat v = None then (db, Inl NOT_NULL)
          else (close_outcome now s (v\<lparr>sv_role := ''assistant_cancelled''\<rparr>)
                  (\<lambda>oc. oc\<lparr>ao_role := ''assistant_cancelled'', ao_updated := now\<rparr>)
                  (write_messages (\<lambda>m. me_source m = Some s \<and> me_role m = ''assistant_pending'')
                     (\<lambda>m. m\<lparr>me_role := ''assistant_cancelled''\<rparr>) db0), Inr ()))"

definition record_assistant_outcome ::
  "time \<Rightarrow> string \<Rightarrow> string \<Rightarrow> string \<Rightarrow> string \<Rightarrow> string \<Rightarrow> string \<Rightarrow> chat_log \<Rightarrow> (chat_log, outcome_row) outcome"
where
  "record_assistant_outcome now chat user item s role content db =
     (if role \<notin> {''assistant_cancelled'', ''assistant_no_reply''} then (db, Inl (ValueError ''assistant outcome role is invalid''))
      else if s = [] \<or> py_len content > 4096 then (db, Inl (ValueError ''assistant outcome is invalid''))
      else
        (let db0 = prune_assistant_outcomes now db;
             new = (pending_message now chat user item content s)\<lparr>me_role := role\<rparr>;
             db1 = db0\<lparr>lg_messages := insert_message new (lg_messages db0)\<rparr>
         in case known_message s db1 of
              None \<Rightarrow> (db, Inl (RuntimeError ''assistant message source collision''))
            | Some m \<Rightarrow>
                if \<not> belongs chat user item (message_view m) \<or> me_role m \<noteq> role
                then (db, Inl (RuntimeError ''assistant message source collision''))
                else
                  (let db2 = db1\<lparr>lg_outcomes := sql_insert_ignore ao_source (outcome_from now s (message_view new)) (lg_outcomes db1)\<rparr>
                   in case known_outcome s db2 of
                        None \<Rightarrow> (db, Inl (RuntimeError ''assistant outcome source collision''))
                      | Some oc \<Rightarrow>
                          if \<not> belongs chat user item (outcome_view oc) \<or> ao_role oc \<noteq> role
                          then (db, Inl (RuntimeError ''assistant outcome source collision''))
                          else (db2, Inr oc))))"

section \<open>Opening the database\<close>

definition outcome_of_message :: "message_row \<Rightarrow> outcome_row" where
  "outcome_of_message m = \<lparr>ao_source = text_of (me_source m), ao_chat = text_of (me_chat m), ao_user = me_user m, ao_item = me_item m,
     ao_role = me_role m, ao_content = me_content m, ao_created = me_time m, ao_updated = me_time m\<rparr>"

definition recover_outcomes :: "time \<Rightarrow> chat_log \<Rightarrow> chat_log" where
  \<comment> \<open>\<^verbatim>\<open>LIKE\<close> does not distinguish the case of ASCII letters\<close>
  "recover_outcomes now db =
     (let entered = filter (\<lambda>m. prefix ''assistant:'' (ascii_lower (text_of (me_source m))) \<and> me_role m \<in> set allowed_roles) (lg_messages db);
          ocs = fold (\<lambda>m. sql_insert_ignore ao_source (outcome_of_message m)) entered (lg_outcomes db)
      in db\<lparr>lg_outcomes := sql_delete (\<lambda>oc. ao_role oc \<in> set TERMINAL_ASSISTANT_ROLES \<and>
              ao_updated oc < now - OUTCOME_RETENTION_SECONDS) ocs\<rparr>)"

section \<open>Flags and counters\<close>

definition set_conversation_needs_human :: "time \<Rightarrow> string \<Rightarrow> bool \<Rightarrow> chat_log \<Rightarrow> (chat_log, bool) outcome" where
  "set_conversation_needs_human now raw enabled db =
     (let chat = py_strip raw in
      if chat = [] then (db, Inl (ValueError ''chat id is required''))
      else (db\<lparr>lg_flags := sql_upsert fl_chat \<lparr>fl_chat = chat, fl_needs = enabled, fl_updated = now\<rparr>
                (\<lambda>r. r\<lparr>fl_needs := enabled, fl_updated := now\<rparr>) (lg_flags db)\<rparr>, Inr enabled))"

definition conversation_needs_human :: "string \<Rightarrow> chat_log \<Rightarrow> bool" where
  "conversation_needs_human chat db = (case find (\<lambda>r. fl_chat r = chat) (lg_flags db) of None \<Rightarrow> False | Some r \<Rightarrow> fl_needs r)"

definition increment_bargain_count_by_chat :: "time \<Rightarrow> string \<Rightarrow> chat_log \<Rightarrow> chat_log" where
  "increment_bargain_count_by_chat now chat db =
     db\<lparr>lg_bargains := sql_upsert bc_chat \<lparr>bc_chat = chat, bc_count = 1, bc_updated = now\<rparr>
          (\<lambda>r. r\<lparr>bc_count := bc_count r + 1, bc_updated := now\<rparr>) (lg_bargains db)\<rparr>"

definition get_bargain_count_by_chat :: "string \<Rightarrow> chat_log \<Rightarrow> int" where
  "get_bargain_count_by_chat chat db = (case find (\<lambda>r. bc_chat r = chat) (lg_bargains db) of None \<Rightarrow> 0 | Some r \<Rightarrow> bc_count r)"

definition newest_messages :: "nat \<Rightarrow> (message_row \<Rightarrow> bool) \<Rightarrow> message_row list \<Rightarrow> message_row list" where
  \<comment> \<open>The newest \<open>n\<close> rows, oldest first\<close>
  "newest_messages n P ms = rev (take n (rev (order_by me_time (filter P ms))))"

definition get_recent_assistant_replies :: "string \<Rightarrow> int \<Rightarrow> chat_log \<Rightarrow> string list result" where
  "get_recent_assistant_replies chat limit db =
     (if limit < 1 \<or> limit > 50 then Inl (ValueError ''recent assistant reply limit is invalid'')
      else Inr (filter (\<lambda>s. s \<noteq> []) (map (\<lambda>m. py_strip (me_content m))
             (newest_messages (nat limit) (\<lambda>m. me_chat m = Some chat \<and> me_role m = ''assistant'') (lg_messages db)))))"

definition bargain_label :: string where
  \<comment> \<open>The UTF-8 bytes of the text before the number of bargains\<close>
  "bargain_label = map char_of [232, 174, 174, 228, 187, 183, 230, 172, 161, 230, 149, 176, 58, 32 :: nat]"

definition get_context_by_chat :: "nat \<Rightarrow> string \<Rightarrow> chat_log \<Rightarrow> (string \<times> string) list" where
  "get_context_by_chat max_history chat db =
     map (\<lambda>m. (me_role m, me_content m))
       (newest_messages max_history (\<lambda>m. me_chat m = Some chat \<and> me_role m \<in> {''user'', ''assistant''}) (lg_messages db)) @
     (let n = get_bargain_count_by_chat chat db in
      if n > 0 then [(''system'', bargain_label @ str_int n)] else [])"

end
