(* ===== verification/Assistant_Facts.thy ===== *)
theory Assistant_Facts
  imports Assistant_Ledger
begin

text \<open>
  The ledger of automatic replies under arbitrary interleaving: messages and outcomes agree, and what was
  answered or drafted stays so.
\<close>

section \<open>Rows of a source\<close>

definition one_per_source :: "message_row list \<Rightarrow> bool" where
  "one_per_source ms \<longleftrightarrow> (\<forall>s. sql_count (\<lambda>m. me_source m = Some s) ms \<le> 1)"

lemma filter_one: "one_per_source ms \<Longrightarrow> find (\<lambda>m. me_source m = Some s) ms = Some m \<Longrightarrow> filter (\<lambda>m. me_source m = Some s) ms = [m]"
  unfolding one_per_source_def sql_count_def find_filter by (auto split: list.splits dest: spec [of _ s])

lemma subseq_one_per_source: "subseq ms' ms \<Longrightarrow> one_per_source ms \<Longrightarrow> one_per_source ms'"
proof -
  assume "subseq ms' ms"
  then have "sql_count P ms' \<le> sql_count P ms" for P
    unfolding sql_count_def by (intro list_emb_length [of "(=)"] subseq_filter)
  then show "one_per_source ms \<Longrightarrow> one_per_source ms'" unfolding one_per_source_def using le_trans by blast
qed

lemma subseq_find:
  assumes "subseq ms' ms" "one_per_source ms"
  shows "find (\<lambda>m. me_source m = Some s) ms' \<in> {None, find (\<lambda>m. me_source m = Some s) ms}"
proof (cases "find (\<lambda>m. me_source m = Some s) ms'")
  case (Some m)
  have "subseq (filter (\<lambda>m. me_source m = Some s) ms') (filter (\<lambda>m. me_source m = Some s) ms)" using assms(1) by (rule subseq_filter)
  moreover have "filter (\<lambda>m. me_source m = Some s) ms' = [m]" using filter_one [OF subseq_one_per_source [OF assms] Some] .
  moreover have "length (filter (\<lambda>m. me_source m = Some s) ms) \<le> 1" using assms(2) by (simp add: one_per_source_def sql_count_def)
  ultimately have "filter (\<lambda>m. me_source m = Some s) ms = [m]"
    by (cases "filter (\<lambda>m. me_source m = Some s) ms") (auto split: if_splits)
  with Some show ?thesis by (simp add: find_filter)
qed simp

lemma prune_subseq: "subseq (prune_history n c ms) ms"
proof -
  have "subseq (prune_history n c ms) (map snd (enumerate 0 ms))"
    unfolding prune_history_def by (intro subseq_map subseq_filter_left)
  then show ?thesis by simp
qed

lemma prune_keeps_pending:
  "filter (\<lambda>m. \<not> prunable c m) (prune_history n c ms) = filter (\<lambda>m. \<not> prunable c m) ms"
proof -
  have "filter (\<lambda>m. \<not> prunable c m) (map snd (filter (\<lambda>p. \<not> (prunable c (snd p) \<and> Q (fst p))) xs)) =
      filter (\<lambda>m. \<not> prunable c m) (map snd xs)" for Q and xs :: "(nat \<times> message_row) list"
    by (induction xs) auto
  from this [of "\<lambda>i. i \<notin> set (latest_positions n (prunable c) ms)" "enumerate 0 ms"] show ?thesis
    by (simp add: prune_history_def)
qed

lemma prune_find:
  assumes "one_per_source ms"
  shows "find (\<lambda>m. me_source m = Some s) (prune_history n c ms) \<in> {None, find (\<lambda>m. me_source m = Some s) ms}"
    "find (\<lambda>m. me_source m = Some s) ms = Some m \<Longrightarrow> me_role m = ''assistant_pending'' \<Longrightarrow>
       find (\<lambda>m. me_source m = Some s) (prune_history n c ms) = Some m"
proof -
  show a: "find (\<lambda>m. me_source m = Some s) (prune_history n c ms) \<in> {None, find (\<lambda>m. me_source m = Some s) ms}"
    by (rule subseq_find [OF prune_subseq assms])
  assume m: "find (\<lambda>m. me_source m = Some s) ms = Some m" "me_role m = ''assistant_pending''"
  then have "m \<in> set (filter (\<lambda>m. \<not> prunable c m) ms)" "me_source m = Some s" by (auto simp: prunable_def dest: find_SomeD)
  then have "m \<in> set (filter (\<lambda>m. \<not> prunable c m) (prune_history n c ms))" by (simp only: prune_keeps_pending)
  then have "m \<in> set (prune_history n c ms)" by simp
  then have "find (\<lambda>m. me_source m = Some s) (prune_history n c ms) \<noteq> None"
    using \<open>me_source m = Some s\<close> by (auto simp: find_None_iff)
  with a m(1) show "find (\<lambda>m. me_source m = Some s) (prune_history n c ms) = Some m" by auto
qed

section \<open>Invariant\<close>

definition in_ledger :: "string \<Rightarrow> bool" where
  "in_ledger s \<longleftrightarrow> prefix ''assistant:'' s"

definition pair_ok :: "message_row option \<Rightarrow> outcome_row option \<Rightarrow> bool" where
  \<comment> \<open>The message and the outcome of a source\<close>
  "pair_ok mo oo =
     (case mo of
        None \<Rightarrow> (case oo of None \<Rightarrow> True | Some oc \<Rightarrow> ao_role oc \<in> set TERMINAL_ASSISTANT_ROLES)
      | Some m \<Rightarrow>
          (case oo of
             None \<Rightarrow> me_role m \<in> set TERMINAL_ASSISTANT_ROLES \<and> me_chat m \<noteq> None
           | Some oc \<Rightarrow> ao_role oc \<in> set allowed_roles \<and> me_role m = ao_role oc \<and> me_chat m = Some (ao_chat oc) \<and>
                me_user m = ao_user oc \<and> me_item m = ao_item oc))"

definition ledger_inv :: "chat_log \<Rightarrow> bool" where
  "ledger_inv db \<longleftrightarrow> unique_key ao_source (lg_outcomes db) \<and> one_per_source (lg_messages db) \<and>
     (\<forall>s. in_ledger s \<longrightarrow> pair_ok (known_message s db) (known_outcome s db))"

lemma allowed_iff: "role \<in> set allowed_roles \<longleftrightarrow> role = ''assistant_pending'' \<or> role \<in> set TERMINAL_ASSISTANT_ROLES"
  by (simp add: allowed_roles_def)

lemma pending_not_terminal [simp]: "''assistant_pending'' \<notin> set TERMINAL_ASSISTANT_ROLES"
  by (simp add: TERMINAL_ASSISTANT_ROLES_def)

lemma log_sel [simp]:
  "known_message s (db\<lparr>lg_outcomes := x\<rparr>) = known_message s db" "known_outcome s (db\<lparr>lg_messages := y\<rparr>) = known_outcome s db"
  by (simp_all add: known_message_def known_outcome_def)

definition forgotten :: "time \<Rightarrow> outcome_row \<Rightarrow> bool" where
  "forgotten now oc \<longleftrightarrow> ao_role oc \<noteq> ''assistant_pending'' \<and> ao_updated oc < now - OUTCOME_RETENTION_SECONDS"

lemma prune_outcome:
  assumes "unique_key ao_source (lg_outcomes db)"
  shows "known_outcome s (prune_assistant_outcomes now db) =
    (case known_outcome s db of None \<Rightarrow> None | Some oc \<Rightarrow> if forgotten now oc then None else Some oc)"
  using outcome_keys.find_delete [OF assms, of s "\<lambda>oc. ao_role oc \<noteq> ''assistant_pending'' \<and> ao_updated oc < now - OUTCOME_RETENTION_SECONDS"]
  by (simp add: known_outcome_def prune_assistant_outcomes_def forgotten_def cong: option.case_cong)

lemma pair_forget: "pair_ok mo (Some oc) \<Longrightarrow> ao_role oc \<noteq> ''assistant_pending'' \<Longrightarrow> pair_ok mo None"
  by (auto simp: pair_ok_def allowed_iff split: option.splits)

lemma pair_drop: "pair_ok (Some m) oo \<Longrightarrow> me_role m \<noteq> ''assistant_pending'' \<Longrightarrow> pair_ok None oo"
  by (auto simp: pair_ok_def allowed_iff split: option.splits)

lemma prune_sel [simp]:
  "lg_messages (prune_assistant_outcomes now db) = lg_messages db"
  "known_message s (prune_assistant_outcomes now db) = known_message s db"
  by (simp_all add: prune_assistant_outcomes_def)

lemma inv_prune:
  assumes "ledger_inv db"
  shows "ledger_inv (prune_assistant_outcomes now db)"
proof -
  have u: "unique_key ao_source (lg_outcomes db)" using assms by (simp add: ledger_inv_def)
  have "pair_ok (known_message s db) (known_outcome s (prune_assistant_outcomes now db))" if "in_ledger s" for s
  proof (cases "known_outcome s db")
    case (Some oc)
    have p: "pair_ok (known_message s db) (Some oc)" using assms that Some by (auto simp: ledger_inv_def)
    then show ?thesis using pair_forget [OF p] Some by (simp add: prune_outcome [OF u] forgotten_def)
  next
    case None
    moreover have "pair_ok (known_message s db) (known_outcome s db)" using assms that by (auto simp: ledger_inv_def)
    ultimately show ?thesis by (simp add: prune_outcome [OF u])
  qed
  moreover have "unique_key ao_source (lg_outcomes (prune_assistant_outcomes now db))"
    using u by (simp add: prune_assistant_outcomes_def outcome_keys.unique_delete)
  ultimately show ?thesis using assms by (simp add: ledger_inv_def)
qed

lemma inv_at:
  assumes "ledger_inv db" "unique_key ao_source (lg_outcomes db')" "one_per_source (lg_messages db')"
    "\<And>t. in_ledger t \<Longrightarrow> t \<noteq> s \<Longrightarrow> known_message t db' = known_message t db \<and> known_outcome t db' = known_outcome t db"
    "in_ledger s \<Longrightarrow> pair_ok (known_message s db') (known_outcome s db')"
  shows "ledger_inv db'"
proof -
  have "pair_ok (known_message t db') (known_outcome t db')" if "in_ledger t" for t
    using assms(1,4,5) that by (cases "t = s") (auto simp: ledger_inv_def)
  with assms(2,3) show ?thesis by (simp add: ledger_inv_def)
qed

section \<open>Drafting\<close>

lemma known_append:
  "known_message t (db\<lparr>lg_messages := lg_messages db @ [m]\<rparr>) =
     (case known_message t db of None \<Rightarrow> if me_source m = Some t then Some m else None | Some q \<Rightarrow> Some q)"
  by (simp add: known_message_def find_snoc)

lemma one_append:
  assumes "one_per_source ms" "\<And>t. me_source m = Some t \<Longrightarrow> find (\<lambda>q. me_source q = Some t) ms = None"
  shows "one_per_source (ms @ [m])"
  unfolding one_per_source_def
proof
  fix t
  show "sql_count (\<lambda>m. me_source m = Some t) (ms @ [m]) \<le> 1"
  proof (cases "me_source m = Some t")
    case True
    then have "filter (\<lambda>q. me_source q = Some t) ms = []" using assms(2) [OF True] by (auto simp: find_None_iff filter_empty_conv)
    then show ?thesis by (simp add: sql_count_def)
  next
    case False
    with assms(1) show ?thesis by (simp add: sql_count_def one_per_source_def)
  qed
qed

lemma known_insert_outcome:
  "known_outcome t (db\<lparr>lg_outcomes := sql_insert_ignore ao_source new (lg_outcomes db)\<rparr>) =
     (case known_outcome t db of Some oc \<Rightarrow> Some oc | None \<Rightarrow> if ao_source new = t then Some new else None)"
  by (auto simp: known_outcome_def sql_insert_ignore_def outcome_keys.find_append_new split: option.split)

lemma outcome_from_sel [simp]:
  "ao_source (outcome_from now s v) = s" "ao_role (outcome_from now s v) = sv_role v" "ao_user (outcome_from now s v) = sv_user v"
  "ao_item (outcome_from now s v) = sv_item v" "ao_content (outcome_from now s v) = sv_content v"
  "ao_chat (outcome_from now s v) = text_of (sv_chat v)" "ao_updated (outcome_from now s v) = now"
  by (simp_all add: outcome_from_def)

lemma pending_message_sel [simp]:
  "me_source (pending_message now chat user item content s) = Some s" "me_role (pending_message now chat user item content s) = ''assistant_pending''"
  "me_chat (pending_message now chat user item content s) = Some chat" "me_user (pending_message now chat user item content s) = user"
  "me_item (pending_message now chat user item content s) = item" "me_content (pending_message now chat user item content s) = content"
  by (simp_all add: pending_message_def)

lemma view_sel [simp]:
  "sv_chat (message_view m) = me_chat m" "sv_user (message_view m) = me_user m" "sv_item (message_view m) = me_item m"
  "sv_role (message_view m) = me_role m" "sv_content (message_view m) = me_content m"
  "sv_chat (outcome_view oc) = Some (ao_chat oc)" "sv_user (outcome_view oc) = ao_user oc" "sv_item (outcome_view oc) = ao_item oc"
  "sv_role (outcome_view oc) = ao_role oc" "sv_content (outcome_view oc) = ao_content oc"
  by (simp_all add: message_view_def outcome_view_def)

lemma check_record_ok:
  "check_record label chat user item rec = Inr () \<longleftrightarrow> (\<forall>v. rec = Some v \<longrightarrow> belongs chat user item v \<and> sv_role v \<in> set allowed_roles)"
  by (auto simp: check_record_def split: option.split)

definition draft_ok :: "string \<Rightarrow> string \<Rightarrow> bool" where
  "draft_ok content s \<longleftrightarrow> s \<noteq> [] \<and> content \<noteq> [] \<and> py_len content \<le> 4096"

definition owned_by :: "string \<Rightarrow> string \<Rightarrow> string \<Rightarrow> source_view option \<Rightarrow> bool" where
  "owned_by chat user item rec = (case rec of None \<Rightarrow> True | Some v \<Rightarrow> belongs chat user item v \<and> sv_role v \<in> set allowed_roles)"

lemma check_record_simp: "check_record label chat user item rec = (if owned_by chat user item rec then Inr () else
    Inl (RuntimeError (label @ (if belongs chat user item (the rec) then '' has invalid state'' else '' source collision''))))"
  by (auto simp: check_record_def owned_by_def split: option.split)

text \<open>The four ways through \<open>prepare_assistant_reply\<close>.\<close>

lemma prepare_known:
  assumes "draft_ok content s" "owned_by chat user item (map_option message_view (known_message s db))"
    "known_outcome s (prune_assistant_outcomes now db) = Some oc" "belongs chat user item (outcome_view oc)" "ao_role oc \<in> set allowed_roles"
    "\<And>m. known_message s db = Some m \<Longrightarrow> me_role m = ao_role oc"
  shows "prepare_assistant_reply now chat user item content s db = (prune_assistant_outcomes now db, Inr oc)"
  using assms by (cases "known_message s db")
    (auto simp: prepare_assistant_reply_def draft_ok_def check_record_simp owned_by_def Let_def)

lemma prepare_new:
  assumes "draft_ok content s" "owned_by chat user item (map_option message_view (known_message s db))"
    "known_outcome s (prune_assistant_outcomes now db) = None"
  defines "m \<equiv> (case known_message s db of None \<Rightarrow> pending_message now chat user item content s | Some m \<Rightarrow> m)"
  shows "prepare_assistant_reply now chat user item content s db =
    ((prune_assistant_outcomes now db)\<lparr>lg_messages := lg_messages db @ (if known_message s db = None then [m] else []),
       lg_outcomes := sql_insert_ignore ao_source (outcome_from now s (message_view m)) (lg_outcomes (prune_assistant_outcomes now db))\<rparr>,
     Inr (outcome_from now s (message_view m)))"
proof -
  let ?db0 = "prune_assistant_outcomes now db"
  define db1 where "db1 = (if known_message s db = None then ?db0\<lparr>lg_messages := lg_messages ?db0 @ [m]\<rparr> else ?db0)"
  have k: "known_message s db1 = Some m" "known_outcome s db1 = None" "lg_outcomes db1 = lg_outcomes ?db0"
    using assms(3) by (auto simp: db1_def m_def known_append [of s ?db0, simplified] split: option.split)
  have b: "belongs chat user item (message_view m)" "me_role m \<in> set allowed_roles"
    using assms(2) by (auto simp: m_def owned_by_def belongs_def allowed_iff split: option.splits)
  have e: "enter_outcome now chat user item s (message_view m) db1 =
      (db1\<lparr>lg_outcomes := sql_insert_ignore ao_source (outcome_from now s (message_view m)) (lg_outcomes db1)\<rparr>, Inr (outcome_from now s (message_view m)))"
    using b by (simp add: enter_outcome_def known_insert_outcome k(2) belongs_def text_of_def)
  show ?thesis
  proof (cases "known_message s db")
    case None
    then show ?thesis
      using assms(1-3) e k by (simp add: prepare_assistant_reply_def draft_ok_def check_record_simp Let_def db1_def m_def owned_by_def)
  next
    case (Some q)
    then show ?thesis
      using assms(1-3) e k by (simp add: prepare_assistant_reply_def draft_ok_def check_record_simp Let_def db1_def m_def owned_by_def)
  qed
qed

lemma prepare_refused:
  assumes "\<not> (draft_ok content s \<and> owned_by chat user item (map_option message_view (known_message s db)) \<and>
    owned_by chat user item (map_option outcome_view (known_outcome s (prune_assistant_outcomes now db))))"
  shows "\<exists>e. prepare_assistant_reply now chat user item content s db = (db, Inl e)"
  using assms by (auto simp: prepare_assistant_reply_def draft_ok_def check_record_simp Let_def)

lemma inv_pair: "ledger_inv db \<Longrightarrow> in_ledger s \<Longrightarrow> pair_ok (known_message s db) (known_outcome s db)"
  by (simp add: ledger_inv_def)

lemma inv_parts: "ledger_inv db \<Longrightarrow> unique_key ao_source (lg_outcomes db)" "ledger_inv db \<Longrightarrow> one_per_source (lg_messages db)"
  by (simp_all add: ledger_inv_def)

text \<open>Every operation either changes nothing, or works on the ledger without the outcomes that are due to be forgotten.\<close>

lemma prepare_facts:
  assumes inv: "ledger_inv db" and s: "in_ledger s"
    and e: "prepare_assistant_reply now chat user item content s db = (db', res)"
  shows "ledger_inv db'" "\<And>t oc. known_outcome t db = Some oc \<Longrightarrow> \<not> forgotten now oc \<Longrightarrow> known_outcome t db' = Some oc"
proof -
  let ?db0 = "prune_assistant_outcomes now db"
  note inv0 = inv_prune [OF inv, of now] and u = inv_parts(1) [OF inv]
  note p = inv_pair [OF inv0 s]
  have keep0: "known_outcome t ?db0 = Some oc" if "known_outcome t db = Some oc" "\<not> forgotten now oc" for t oc
    using that by (simp add: prune_outcome [OF u])
  have "ledger_inv db' \<and> (\<forall>t oc. known_outcome t db = Some oc \<longrightarrow> \<not> forgotten now oc \<longrightarrow> known_outcome t db' = Some oc)"
  proof (cases "draft_ok content s \<and> owned_by chat user item (map_option message_view (known_message s db)) \<and>
      owned_by chat user item (map_option outcome_view (known_outcome s ?db0))")
    case False
    from prepare_refused [OF this] e inv show ?thesis by auto
  next
    case True
    show ?thesis
    proof (cases "known_outcome s ?db0")
      case (Some oc)
      have "me_role m = ao_role oc" if "known_message s db = Some m" for m using p Some that by (simp add: pair_ok_def)
      then have "db' = ?db0" using prepare_known [of content s chat user item db now oc] True Some e by (simp add: owned_by_def)
      with inv0 keep0 show ?thesis by simp
    next
      case None
      define m where "m = (case known_message s db of None \<Rightarrow> pending_message now chat user item content s | Some m \<Rightarrow> m)"
      have d: "db' = ?db0\<lparr>lg_messages := lg_messages db @ (if known_message s db = None then [m] else []),
          lg_outcomes := sql_insert_ignore ao_source (outcome_from now s (message_view m)) (lg_outcomes ?db0)\<rparr>"
        using prepare_new [of content s chat user item db now] True None e by (simp add: m_def)
      have msg: "known_message t db' = (if t = s then Some m else known_message t db)" for t
        using known_append [of t db m] by (auto simp: d m_def known_message_def find_snoc split: option.splits)
      have out: "known_outcome t db' = (if t = s then Some (outcome_from now s (message_view m)) else known_outcome t ?db0)" for t
        using known_insert_outcome [where t = t and db = ?db0 and new = "outcome_from now s (message_view m)"] None
        by (auto simp: d known_outcome_def split: option.splits)
      have b: "me_role m \<in> set allowed_roles" "me_chat m \<noteq> None"
        using True by (auto simp: m_def owned_by_def belongs_def allowed_iff split: option.splits)
      have "ledger_inv db'"
      proof (rule inv_at [OF inv0, of _ s])
        show "unique_key ao_source (lg_outcomes db')"
          using inv_parts(1) [OF inv0] by (simp add: d outcome_keys.unique_insert_ignore)
        show "one_per_source (lg_messages db')"
          using inv_parts(2) [OF inv] by (auto simp: d m_def known_message_def intro!: one_append)
        show "pair_ok (known_message s db') (known_outcome s db')"
          using b by (auto simp: msg out pair_ok_def text_of_def)
      qed (simp add: msg out)
      moreover have "known_outcome t db' = Some oc" if "known_outcome t db = Some oc" "\<not> forgotten now oc" for t oc
        using keep0 [OF that] None by (auto simp: out)
      ultimately show ?thesis by blast
    qed
  qed
  then show "ledger_inv db'" "\<And>t oc. known_outcome t db = Some oc \<Longrightarrow> \<not> forgotten now oc \<Longrightarrow> known_outcome t db' = Some oc"
    by blast+
qed

section \<open>Closing\<close>

lemma known_write:
  assumes "\<And>m. me_source (f m) = me_source m"
  shows "known_message t (write_messages P f db) = map_option (\<lambda>m. if P m then f m else m) (known_message t db)"
proof -
  have "find (\<lambda>m. me_source m = Some t) (sql_update P f ms) = map_option (\<lambda>m. if P m then f m else m) (find (\<lambda>m. me_source m = Some t) ms)" for ms
    using assms by (induction ms) auto
  then show ?thesis by (simp add: known_message_def write_messages_def)
qed

lemma one_write:
  assumes "\<And>m. me_source (f m) = me_source m"
  shows "one_per_source (sql_update P f ms) = one_per_source ms"
proof -
  have "sql_count (\<lambda>m. me_source m = Some t) (sql_update P f ms) = sql_count (\<lambda>m. me_source m = Some t) ms" for t
    using assms by (induction ms) auto
  then show ?thesis by (simp add: one_per_source_def)
qed

lemma known_close:
  assumes "\<And>oc. ao_source (f oc) = ao_source oc"
  shows "known_outcome t (close_outcome now s v f db) =
    (if t = s then Some (case known_outcome s db of None \<Rightarrow> outcome_from now s v | Some oc \<Rightarrow> f oc) else known_outcome t db)"
  using outcome_keys.find_upsert [of f t "outcome_from now s v" "lg_outcomes db"] assms
  by (auto simp: known_outcome_def close_outcome_def)

text \<open>A pending draft is a message and an outcome that agree.\<close>

lemma pending_draft:
  assumes "ledger_inv db" "in_ledger s" "stored_view s db = Some v" "sv_role v = ''assistant_pending''"
  obtains m oc where "known_message s db = Some m" "v = message_view m" "known_outcome s db = Some oc" "ao_role oc = ''assistant_pending''"
    "me_chat m = Some (ao_chat oc)" "me_user m = ao_user oc" "me_item m = ao_item oc"
proof -
  note p = inv_pair [OF assms(1,2)]
  show thesis
  proof (cases "known_message s db")
    case None
    with assms(3,4) p show ?thesis by (auto simp: stored_view_def pair_ok_def split: option.splits)
  next
    case (Some m)
    with assms(3,4) p show ?thesis by (auto simp: stored_view_def pair_ok_def split: option.splits intro!: that)
  qed
qed

lemma close_facts:
  assumes inv: "ledger_inv db" and s: "in_ledger s" and v: "stored_view s db = Some v" "sv_role v = ''assistant_pending''"
    and f: "\<And>m. me_source (f m) = me_source m \<and> me_chat (f m) = me_chat m \<and> me_user (f m) = me_user m \<and> me_item (f m) = me_item m \<and> me_role (f m) = role"
    and g: "\<And>oc. ao_source (g oc) = ao_source oc \<and> ao_chat (g oc) = ao_chat oc \<and> ao_user (g oc) = ao_user oc \<and> ao_item (g oc) = ao_item oc \<and> ao_role (g oc) = role"
    and P: "\<And>m. P m \<longleftrightarrow> me_source m = Some s \<and> Q m" "\<And>m. me_role m = ''assistant_pending'' \<Longrightarrow> Q m" and role: "role \<in> set allowed_roles"
  shows "ledger_inv (close_outcome now s v' g (write_messages P f db))"
    "known_outcome t (close_outcome now s v' g (write_messages P f db)) =
       (if t = s then map_option g (known_outcome s db) else known_outcome t db)"
proof -
  let ?db = "close_outcome now s v' g (write_messages P f db)"
  obtain m oc where k: "known_message s db = Some m" "v = message_view m" "known_outcome s db = Some oc" "ao_role oc = ''assistant_pending''"
    "me_chat m = Some (ao_chat oc)" "me_user m = ao_user oc" "me_item m = ao_item oc" using inv s v by (rule pending_draft)
  have src: "me_source m = Some s" using k(1) by (auto simp: known_message_def dest: find_SomeD)
  have o: "known_outcome t ?db = (if t = s then map_option g (known_outcome s db) else known_outcome t db)" for t
    using known_close [of g t now s v' "write_messages P f db"] g k(3) by (simp add: write_messages_def)
  then show "known_outcome t ?db = (if t = s then map_option g (known_outcome s db) else known_outcome t db)" .
  have mm: "known_message t ?db = (if t = s then Some (f m) else known_message t db)" for t
  proof -
    have "known_message t ?db = map_option (\<lambda>m. if P m then f m else m) (known_message t db)"
      using known_write [of f t P db] f by (simp add: close_outcome_def)
    moreover have "P m" using P src v(2) k(2) by simp
    moreover have "\<not> P q" if "known_message t db = Some q" "t \<noteq> s" for q
      using that P(1) by (auto simp: known_message_def dest: find_SomeD)
    ultimately show ?thesis using k(1) by (cases "known_message t db") auto
  qed
  show "ledger_inv ?db"
  proof (rule inv_at [OF inv, of _ s])
    show "unique_key ao_source (lg_outcomes ?db)"
      using inv_parts(1) [OF inv] g by (simp add: close_outcome_def write_messages_def outcome_keys.unique_upsert)
    show "one_per_source (lg_messages ?db)"
      using inv_parts(2) [OF inv] one_write [of f P] f by (simp add: close_outcome_def write_messages_def)
    show "pair_ok (known_message s ?db) (known_outcome s ?db)" using k f g role by (simp add: mm o pair_ok_def)
  qed (simp add: mm o)
qed

end
