(* ===== verification/Assistant_Runs.thy ===== *)
theory Assistant_Runs
  imports Assistant_Facts
begin

text \<open>
  Every operation on the messages and the ledger of automatic replies keeps the invariant of the ledger and the
  outcomes that are neither closed by it nor due to be forgotten; the runs under arbitrary interleaving.
\<close>

section \<open>What an operation keeps\<close>

definition keeps :: "time \<Rightarrow> (string \<Rightarrow> bool) \<Rightarrow> chat_log \<Rightarrow> chat_log \<Rightarrow> bool" where
  \<comment> \<open>The outcomes that stay: those of sources the operation does not close, and the closed ones\<close>
  "keeps now closes db db' \<longleftrightarrow> ledger_inv db' \<and>
     (\<forall>t oc. in_ledger t \<longrightarrow> known_outcome t db = Some oc \<longrightarrow> \<not> forgotten now oc \<longrightarrow>
        closes t \<longrightarrow> ao_role oc \<noteq> ''assistant_pending'' \<longrightarrow> known_outcome t db' = Some oc) \<and>
     (\<forall>t oc. in_ledger t \<longrightarrow> known_outcome t db = Some oc \<longrightarrow> \<not> forgotten now oc \<longrightarrow>
        \<not> closes t \<longrightarrow> known_outcome t db' = Some oc)"

lemma keepsI:
  assumes "ledger_inv db'"
    "\<And>t oc. in_ledger t \<Longrightarrow> known_outcome t db = Some oc \<Longrightarrow> \<not> forgotten now oc \<Longrightarrow> closes t \<Longrightarrow> ao_role oc \<noteq> ''assistant_pending'' \<Longrightarrow>
       known_outcome t db' = Some oc"
    "\<And>t oc. in_ledger t \<Longrightarrow> known_outcome t db = Some oc \<Longrightarrow> \<not> forgotten now oc \<Longrightarrow> \<not> closes t \<Longrightarrow> known_outcome t db' = Some oc"
  shows "keeps now closes db db'"
  using assms by (simp add: keeps_def)

lemma keepsD:
  assumes "keeps now closes db db'" "in_ledger t" "known_outcome t db = Some oc" "\<not> forgotten now oc"
    "closes t \<Longrightarrow> ao_role oc \<noteq> ''assistant_pending''"
  shows "known_outcome t db' = Some oc"
  using assms unfolding keeps_def by blast

lemma keeps_refl: "ledger_inv db \<Longrightarrow> keeps now closes db db"
  by (simp add: keeps_def)

lemma kept_by_prune:
  assumes "ledger_inv db" "known_outcome t db = Some oc" "\<not> forgotten now oc"
  shows "known_outcome t (prune_assistant_outcomes now db) = Some oc"
  using assms by (simp add: prune_outcome [OF inv_parts(1)])

lemma keeps_prune: "ledger_inv db \<Longrightarrow> keeps now closes db (prune_assistant_outcomes now db)"
  by (auto intro!: keepsI inv_prune kept_by_prune)

lemma keeps_prepare:
  assumes "ledger_inv db" "in_ledger s"
  shows "keeps now closes db (fst (prepare_assistant_reply now chat user item content s db))"
  using prepare_facts [OF assms prod.collapse [symmetric]] by (auto intro!: keepsI)

section \<open>Closing a draft\<close>

lemma keeps_close:
  assumes inv: "ledger_inv db" and s: "in_ledger s" and v: "stored_view s (prune_assistant_outcomes now db) = Some v" "sv_role v = ''assistant_pending''"
    and f: "\<And>m. me_source (f m) = me_source m \<and> me_chat (f m) = me_chat m \<and> me_user (f m) = me_user m \<and> me_item (f m) = me_item m \<and> me_role (f m) = role"
    and g: "\<And>oc. ao_source (g oc) = ao_source oc \<and> ao_chat (g oc) = ao_chat oc \<and> ao_user (g oc) = ao_user oc \<and> ao_item (g oc) = ao_item oc \<and> ao_role (g oc) = role"
    and P: "\<And>m. P m \<longleftrightarrow> me_source m = Some s \<and> Q m" "\<And>m. me_role m = ''assistant_pending'' \<Longrightarrow> Q m" and role: "role \<in> set allowed_roles"
  shows "keeps now (\<lambda>t. t = s) db (close_outcome now s v' g (write_messages P f (prune_assistant_outcomes now db)))"
proof (rule keepsI)
  note inv0 = inv_prune [OF inv, of now]
  note c = close_facts [OF inv0 s v f g P role, where now = now and v' = v']
  show "ledger_inv (close_outcome now s v' g (write_messages P f (prune_assistant_outcomes now db)))" using c(1) .
  obtain oc' where pend: "known_outcome s (prune_assistant_outcomes now db) = Some oc'" "ao_role oc' = ''assistant_pending''"
    using inv0 s v by (rule pending_draft)
  show "known_outcome t (close_outcome now s v' g (write_messages P f (prune_assistant_outcomes now db))) = Some oc"
    if "known_outcome t db = Some oc" "\<not> forgotten now oc" "t = s" "ao_role oc \<noteq> ''assistant_pending''" for t oc
    using kept_by_prune [OF inv that(1,2)] pend that(3,4) by simp
  show "known_outcome t (close_outcome now s v' g (write_messages P f (prune_assistant_outcomes now db))) = Some oc"
    if "known_outcome t db = Some oc" "\<not> forgotten now oc" "t \<noteq> s" for t oc
    using kept_by_prune [OF inv that(1,2)] that(3) by (simp add: c(2))
qed

lemma roles_allowed [simp]:
  "''assistant'' \<in> set allowed_roles" "''assistant_cancelled'' \<in> set allowed_roles" "''assistant_no_reply'' \<in> set allowed_roles"
  by (simp_all add: allowed_roles_def TERMINAL_ASSISTANT_ROLES_def)

lemma keeps_complete:
  assumes inv: "ledger_inv db" and s: "in_ledger s"
  shows "keeps now (\<lambda>t. t = s) db (fst (complete_assistant_reply now s content db))"
proof (cases "stored_view s (prune_assistant_outcomes now db)")
  case None
  with inv show ?thesis by (simp add: complete_assistant_reply_def keeps_refl)
next
  case (Some v)
  show ?thesis
  proof (cases "sv_role v = ''assistant_pending'' \<and> sv_chat v \<noteq> None")
    case True
    have "keeps now (\<lambda>t. t = s) db (close_outcome now s (v\<lparr>sv_role := ''assistant'', sv_content := (case content of None \<Rightarrow> sv_content v | Some c \<Rightarrow> c)\<rparr>)
        (\<lambda>oc. oc\<lparr>ao_role := ''assistant'', ao_content := (case content of None \<Rightarrow> sv_content v | Some c \<Rightarrow> c), ao_updated := now\<rparr>)
        (write_messages (\<lambda>m. me_source m = Some s)
          (\<lambda>m. m\<lparr>me_role := ''assistant'', me_content := (case content of None \<Rightarrow> me_content m | Some c \<Rightarrow> c)\<rparr>) (prune_assistant_outcomes now db)))"
      by (rule keeps_close [OF inv s Some conjunct1 [OF True], where role = "''assistant''" and Q = "\<lambda>_. True"]) simp_all
    with Some True inv show ?thesis by (simp add: keeps_refl complete_assistant_reply_def Let_def)
  next
    case False
    then have "fst (complete_assistant_reply now s content db) \<in> {db, prune_assistant_outcomes now db}"
      using Some by (simp add: complete_assistant_reply_def Let_def)
    with inv keeps_refl keeps_prune show ?thesis by auto
  qed
qed

lemma keeps_cancel:
  assumes inv: "ledger_inv db" and s: "in_ledger s"
  shows "keeps now (\<lambda>t. t = s) db (fst (cancel_assistant_reply now s db))"
proof (cases "stored_view s (prune_assistant_outcomes now db)")
  case None
  with inv show ?thesis by (simp add: cancel_assistant_reply_def keeps_refl)
next
  case (Some v)
  show ?thesis
  proof (cases "sv_role v = ''assistant_pending'' \<and> sv_chat v \<noteq> None")
    case True
    have "keeps now (\<lambda>t. t = s) db (close_outcome now s (v\<lparr>sv_role := ''assistant_cancelled''\<rparr>)
        (\<lambda>oc. oc\<lparr>ao_role := ''assistant_cancelled'', ao_updated := now\<rparr>)
        (write_messages (\<lambda>m. me_source m = Some s \<and> me_role m = ''assistant_pending'')
          (\<lambda>m. m\<lparr>me_role := ''assistant_cancelled''\<rparr>) (prune_assistant_outcomes now db)))"
      by (rule keeps_close [OF inv s Some conjunct1 [OF True], where role = "''assistant_cancelled''" and Q = "\<lambda>m. me_role m = ''assistant_pending''"]) simp_all
    with Some True inv show ?thesis by (simp add: keeps_refl cancel_assistant_reply_def Let_def)
  next
    case False
    then have "fst (cancel_assistant_reply now s db) \<in> {db, prune_assistant_outcomes now db}"
      using Some by (simp add: cancel_assistant_reply_def Let_def)
    with inv keeps_refl keeps_prune show ?thesis by auto
  qed
qed

section \<open>Recording an outcome without a draft\<close>

lemma known_insert_message:
  assumes "known_message t db = q"
  shows "known_message t (db\<lparr>lg_messages := insert_message m (lg_messages db)\<rparr>) =
    (if q = None \<and> me_source m = Some t then Some m else q)"
  using assms by (auto simp: insert_message_def known_message_def find_snoc find_None_iff list_ex_iff split: option.split)

lemma one_insert_message: "one_per_source ms \<Longrightarrow> one_per_source (insert_message m ms)"
  by (auto simp: insert_message_def list_ex_iff find_None_iff intro!: one_append)

lemma keeps_record:
  assumes inv: "ledger_inv db" and s: "in_ledger s"
  shows "keeps now closes db (fst (record_assistant_outcome now chat user item s role content db))"
proof -
  let ?db0 = "prune_assistant_outcomes now db"
  let ?new = "(pending_message now chat user item content s)\<lparr>me_role := role\<rparr>"
  let ?db1 = "?db0\<lparr>lg_messages := insert_message ?new (lg_messages ?db0)\<rparr>"
  let ?db2 = "?db1\<lparr>lg_outcomes := sql_insert_ignore ao_source (outcome_from now s (message_view ?new)) (lg_outcomes ?db1)\<rparr>"
  note inv0 = inv_prune [OF inv, of now]
  show ?thesis
  proof (cases "role \<in> {''assistant_cancelled'', ''assistant_no_reply''} \<and>
      (\<exists>m. known_message s ?db1 = Some m \<and> belongs chat user item (message_view m) \<and> me_role m = role) \<and>
      (\<exists>oc. known_outcome s ?db2 = Some oc \<and> belongs chat user item (outcome_view oc) \<and> ao_role oc = role)")
    case False
    then have "fst (record_assistant_outcome now chat user item s role content db) = db"
      unfolding record_assistant_outcome_def Let_def by (auto split: option.splits)
    with inv show ?thesis by (simp add: keeps_refl)
  next
    case True
    then obtain m oc where m: "known_message s ?db1 = Some m" "belongs chat user item (message_view m)" "me_role m = role"
      and oc: "known_outcome s ?db2 = Some oc" "belongs chat user item (outcome_view oc)" "ao_role oc = role" and r: "role \<in> set allowed_roles"
      by auto
    have "fst (record_assistant_outcome now chat user item s role content db) \<in> {db, ?db2}"
      unfolding record_assistant_outcome_def Let_def by (auto split: option.splits)
    moreover have "keeps now closes db ?db2"
    proof (rule keepsI)
      have other: "known_message t ?db2 = known_message t ?db0" "known_outcome t ?db2 = known_outcome t ?db0" if "t \<noteq> s" for t
        using that known_insert_message [where t = t and db = ?db0 and m = ?new, OF refl] known_insert_outcome [where t = t and db = ?db1]
        by (auto split: option.splits)
      have old: "known_outcome s ?db2 = Some oc'" if "known_outcome s ?db0 = Some oc'" for oc'
        using that by (subst known_insert_outcome) simp
      show "ledger_inv ?db2"
      proof (rule inv_at [OF inv0, of _ s])
        show "unique_key ao_source (lg_outcomes ?db2)"
          using inv_parts(1) [OF inv0] by (simp add: outcome_keys.unique_insert_ignore)
        show "one_per_source (lg_messages ?db2)"
          using inv_parts(2) [OF inv0] by (simp add: one_insert_message)
        have "known_message s ?db2 = Some m" using m(1) by simp
        then show "pair_ok (known_message s ?db2) (known_outcome s ?db2)"
          using m(2,3) oc(2,3) r unfolding oc(1) by (simp add: pair_ok_def belongs_def)
      qed (use other in blast)
      show "known_outcome t ?db2 = Some oc'" if "known_outcome t db = Some oc'" "\<not> forgotten now oc'" for t oc'
        using kept_by_prune [OF inv that] other(2) [of t] old by (cases "t = s") auto
      then show "known_outcome t ?db2 = Some oc'" if "known_outcome t db = Some oc'" "\<not> forgotten now oc'" for t oc' using that by blast
    qed
    ultimately show ?thesis using keeps_refl [OF inv] by auto
  qed
qed

section \<open>Messages, restarts, flags and counters\<close>

lemma keeps_messages:
  assumes inv: "ledger_inv db" and o: "one_per_source ms"
    and ms: "\<And>t. in_ledger t \<Longrightarrow> find (\<lambda>m. me_source m = Some t) ms \<in> {None, known_message t db}"
      "\<And>t m. in_ledger t \<Longrightarrow> known_message t db = Some m \<Longrightarrow> me_role m = ''assistant_pending'' \<Longrightarrow> find (\<lambda>m. me_source m = Some t) ms = Some m"
  shows "keeps now closes db (db\<lparr>lg_messages := ms\<rparr>)"
proof (rule keepsI)
  have "pair_ok (known_message t (db\<lparr>lg_messages := ms\<rparr>)) (known_outcome t db)" if t: "in_ledger t" for t
  proof (cases "find (\<lambda>m. me_source m = Some t) ms = known_message t db")
    case True
    with inv_pair [OF inv t] show ?thesis by (simp add: known_message_def)
  next
    case False
    then obtain m where m: "known_message t db = Some m" "find (\<lambda>m. me_source m = Some t) ms = None"
      using ms(1) [OF t] by (cases "known_message t db") auto
    then have "me_role m \<noteq> ''assistant_pending''" using ms(2) [OF t] by auto
    with pair_drop [of m "known_outcome t db"] inv_pair [OF inv t] m show ?thesis by (simp add: known_message_def)
  qed
  then show "ledger_inv (db\<lparr>lg_messages := ms\<rparr>)" using inv o by (simp add: ledger_inv_def)
qed simp_all

lemma find_insert_other:
  assumes "me_source m \<noteq> Some t"
  shows "find (\<lambda>q. me_source q = Some t) (insert_message m ms) = find (\<lambda>q. me_source q = Some t) ms"
  using assms by (auto simp: insert_message_def find_snoc split: option.split)

lemma keeps_insert_message:
  assumes "ledger_inv db" "\<not> in_ledger (text_of (me_source m))"
  shows "keeps now closes db (db\<lparr>lg_messages := insert_message m (lg_messages db)\<rparr>)"
proof (rule keeps_messages [OF assms(1)])
  show "one_per_source (insert_message m (lg_messages db))" using inv_parts(2) [OF assms(1)] by (rule one_insert_message)
  have same: "find (\<lambda>q. me_source q = Some t) (insert_message m (lg_messages db)) = known_message t db" if "in_ledger t" for t
    unfolding known_message_def by (rule find_insert_other) (use assms(2) that in \<open>auto simp: text_of_def\<close>)
  then show "find (\<lambda>q. me_source q = Some t) (insert_message m (lg_messages db)) \<in> {None, known_message t db}" if "in_ledger t" for t
    using that by simp
  show "find (\<lambda>q. me_source q = Some t) (insert_message m (lg_messages db)) = Some q" if "in_ledger t" "known_message t db = Some q" for t q
    using same that by simp
qed

lemma keeps_prune_history:
  assumes "ledger_inv db"
  shows "keeps now closes db (db\<lparr>lg_messages := prune_history n c (lg_messages db)\<rparr>)"
proof (rule keeps_messages [OF assms])
  note o = inv_parts(2) [OF assms]
  show "one_per_source (prune_history n c (lg_messages db))" using prune_subseq o by (rule subseq_one_per_source)
qed (use prune_find [OF inv_parts(2) [OF assms]] in \<open>simp_all add: known_message_def\<close>)

lemma keeps_trans: "keeps now closes db db1 \<Longrightarrow> keeps now closes db1 db2 \<Longrightarrow> keeps now closes db db2"
  unfolding keeps_def by meson

lemma chat_message_sel [simp]:
  "me_source (chat_message now chat user item role content source ctype enc) = source"
  "me_chat (chat_message now chat user item role content source ctype enc) = Some chat"
  "me_role (chat_message now chat user item role content source ctype enc) = role"
  by (simp_all add: chat_message_def Let_def)

lemma keeps_add_message:
  assumes inv: "ledger_inv db" and s: "\<not> in_ledger (text_of source)"
  shows "keeps now closes db (fst (add_message_by_chat env n now chat user item role content source ctype media db))"
proof (cases "media_json env media")
  case (Inl e)
  with inv show ?thesis by (simp add: add_message_by_chat_def Let_def keeps_refl)
next
  case (Inr enc)
  let ?m = "chat_message now chat user item role content source ctype enc"
  let ?db1 = "db\<lparr>lg_messages := insert_message ?m (lg_messages db)\<rparr>"
  have k: "keeps now closes db ?db1" by (rule keeps_insert_message [OF inv]) (use s in simp)
  then have "ledger_inv ?db1" by (simp add: keeps_def)
  from keeps_trans [OF k keeps_prune_history [OF this]] show ?thesis
    by (simp add: add_message_by_chat_def Inr Let_def)
qed

lemma find_fold_insert:
  "find (\<lambda>oc. ao_source oc = t) (fold (\<lambda>m. sql_insert_ignore ao_source (f m)) ms ocs) =
     (case find (\<lambda>oc. ao_source oc = t) ocs of Some oc \<Rightarrow> Some oc | None \<Rightarrow> map_option f (find (\<lambda>m. ao_source (f m) = t) ms))"
proof (induction ms arbitrary: ocs)
  case (Cons m ms)
  have "find (\<lambda>oc. ao_source oc = t) (sql_insert_ignore ao_source (f m) ocs) =
      (case find (\<lambda>oc. ao_source oc = t) ocs of Some oc \<Rightarrow> Some oc | None \<Rightarrow> if ao_source (f m) = t then Some (f m) else None)"
    by (auto simp: sql_insert_ignore_def outcome_keys.find_append_new split: option.split)
  then show ?case by (simp add: Cons.IH split: option.split)
qed (simp split: option.split)

lemma unique_fold_insert:
  "unique_key ao_source ocs \<Longrightarrow> unique_key ao_source (fold (\<lambda>m. sql_insert_ignore ao_source (f m)) ms ocs)"
  by (induction ms arbitrary: ocs) (simp_all add: outcome_keys.unique_insert_ignore)

lemma outcome_of_message_sel [simp]:
  "ao_source (outcome_of_message m) = text_of (me_source m)" "ao_chat (outcome_of_message m) = text_of (me_chat m)"
  "ao_user (outcome_of_message m) = me_user m" "ao_item (outcome_of_message m) = me_item m" "ao_role (outcome_of_message m) = me_role m"
  by (simp_all add: outcome_of_message_def)

definition entered :: "chat_log \<Rightarrow> message_row list" where
  "entered db = filter (\<lambda>m. prefix ''assistant:'' (ascii_lower (text_of (me_source m))) \<and> me_role m \<in> set allowed_roles) (lg_messages db)"

lemma entered_message:
  assumes "one_per_source (lg_messages db)" "in_ledger t" "find (\<lambda>m. ao_source (outcome_of_message m) = t) (entered db) = Some m"
  shows "known_message t db = Some m"
proof -
  have "t \<noteq> []" using assms(2) by (auto simp: in_ledger_def)
  then have m: "m \<in> set (lg_messages db)" "me_source m = Some t"
    using find_SomeD [OF assms(3)] by (auto simp: entered_def text_of_def split: option.splits)
  then have "find (\<lambda>m. me_source m = Some t) (lg_messages db) \<noteq> None" by (auto simp: find_None_iff)
  then obtain q where q: "find (\<lambda>m. me_source m = Some t) (lg_messages db) = Some q" by auto
  moreover have "m \<in> set (filter (\<lambda>m. me_source m = Some t) (lg_messages db))" using m by simp
  ultimately have "m = q" using filter_one [OF assms(1) q] by simp
  with q show ?thesis by (simp add: known_message_def)
qed

lemma keeps_recover:
  assumes inv: "ledger_inv db"
  shows "keeps now closes db (recover_outcomes now db)"
proof -
  let ?new = "\<lambda>t. find (\<lambda>m. ao_source (outcome_of_message m) = t) (entered db)"
  let ?P = "\<lambda>oc. ao_role oc \<in> set TERMINAL_ASSISTANT_ROLES \<and> ao_updated oc < now - OUTCOME_RETENTION_SECONDS"
  let ?ocs = "fold (\<lambda>m. sql_insert_ignore ao_source (outcome_of_message m)) (entered db) (lg_outcomes db)"
  have u: "unique_key ao_source ?ocs" using inv_parts(1) [OF inv] by (rule unique_fold_insert)
  have r: "recover_outcomes now db = db\<lparr>lg_outcomes := sql_delete ?P ?ocs\<rparr>" by (simp add: recover_outcomes_def entered_def Let_def)
  have filled: "pair_ok (known_message t db) (find (\<lambda>oc. ao_source oc = t) ?ocs)" if "in_ledger t" for t
  proof (cases "known_outcome t db")
    case (Some oc)
    with inv_pair [OF inv that] show ?thesis by (simp add: find_fold_insert known_outcome_def)
  next
    case None
    show ?thesis
    proof (cases "?new t")
      case (Some m)
      have "known_message t db = Some m" using inv_parts(2) [OF inv] that Some by (rule entered_message)
      then show ?thesis using inv_pair [OF inv that] None Some
        by (auto simp: find_fold_insert known_outcome_def pair_ok_def text_of_def allowed_iff)
    qed (use inv_pair [OF inv that] None in \<open>simp add: find_fold_insert known_outcome_def\<close>)
  qed
  have found: "known_outcome t (recover_outcomes now db) = (case find (\<lambda>oc. ao_source oc = t) ?ocs of None \<Rightarrow> None | Some oc \<Rightarrow> if ?P oc then None else Some oc)" for t
    using outcome_keys.find_delete [OF u, of t ?P] by (simp add: r known_outcome_def cong: option.case_cong)
  show ?thesis
  proof (rule keepsI)
    have "pair_ok (known_message t db) (known_outcome t (recover_outcomes now db))" if "in_ledger t" for t
    proof (cases "find (\<lambda>oc. ao_source oc = t) ?ocs")
      case (Some oc)
      have p: "pair_ok (known_message t db) (Some oc)" using filled [OF that] Some by simp
      moreover have "pair_ok (known_message t db) None" if "ao_role oc \<in> set TERMINAL_ASSISTANT_ROLES"
        using p by (rule pair_forget) (use that in auto)
      ultimately show ?thesis using Some by (simp add: found)
    qed (use filled [OF that] in \<open>simp add: found\<close>)
    then show "ledger_inv (recover_outcomes now db)"
      using inv u by (simp add: ledger_inv_def r outcome_keys.unique_delete)
    show keep: "known_outcome t (recover_outcomes now db) = Some oc" if "known_outcome t db = Some oc" "\<not> forgotten now oc" for t oc
      using that unfolding found by (auto simp: find_fold_insert known_outcome_def forgotten_def)
    show "known_outcome t (recover_outcomes now db) = Some oc" if "known_outcome t db = Some oc" "\<not> forgotten now oc" for t oc
      using that by (rule keep)
  qed
qed

lemma keeps_other:
  assumes "ledger_inv db"
  shows "keeps now closes db (db\<lparr>lg_flags := x\<rparr>)" "keeps now closes db (db\<lparr>lg_bargains := y\<rparr>)"
  using assms by (simp_all add: keeps_def ledger_inv_def known_message_def known_outcome_def)

section \<open>Runs\<close>

datatype ledger_op =
    LMessage string string string string string "string option" string media_arg
  | LPrepare string string string string string
  | LComplete string "string option"
  | LCancel string
  | LRecord string string string string string string
  | LNeedsHuman string bool
  | LBargain string
  | LReopen
  | LSent message_row \<comment> \<open>a message entered by the reply outbox\<close>

fun ledger_apply :: "py_env \<Rightarrow> nat \<Rightarrow> time \<Rightarrow> ledger_op \<Rightarrow> chat_log \<Rightarrow> chat_log" where
  "ledger_apply env n now (LMessage chat user item role content source ctype media) db =
     fst (add_message_by_chat env n now chat user item role content source ctype media db)"
| "ledger_apply env n now (LPrepare chat user item content s) db = fst (prepare_assistant_reply now chat user item content s db)"
| "ledger_apply env n now (LComplete s content) db = fst (complete_assistant_reply now s content db)"
| "ledger_apply env n now (LCancel s) db = fst (cancel_assistant_reply now s db)"
| "ledger_apply env n now (LRecord chat user item s role content) db = fst (record_assistant_outcome now chat user item s role content db)"
| "ledger_apply env n now (LNeedsHuman chat enabled) db = fst (set_conversation_needs_human now chat enabled db)"
| "ledger_apply env n now (LBargain chat) db = increment_bargain_count_by_chat now chat db"
| "ledger_apply env n now LReopen db = recover_outcomes now db"
| "ledger_apply env n now (LSent m) db = db\<lparr>lg_messages := insert_message m (lg_messages db)\<rparr>"

fun well_sourced :: "ledger_op \<Rightarrow> bool" where
  \<comment> \<open>The worker names automatic replies \<^verbatim>\<open>assistant:..\<close>, and nothing else\<close>
  "well_sourced (LMessage chat user item role content source ctype media) \<longleftrightarrow> \<not> in_ledger (text_of source)"
| "well_sourced (LPrepare chat user item content s) \<longleftrightarrow> in_ledger s"
| "well_sourced (LComplete s content) \<longleftrightarrow> in_ledger s"
| "well_sourced (LCancel s) \<longleftrightarrow> in_ledger s"
| "well_sourced (LRecord chat user item s role content) \<longleftrightarrow> in_ledger s"
| "well_sourced (LSent m) \<longleftrightarrow> \<not> in_ledger (text_of (me_source m))"
| "well_sourced _ \<longleftrightarrow> True"

fun closes :: "ledger_op \<Rightarrow> string \<Rightarrow> bool" where
  "closes (LComplete s content) t \<longleftrightarrow> t = s"
| "closes (LCancel s) t \<longleftrightarrow> t = s"
| "closes _ t \<longleftrightarrow> False"

fun run_ledger :: "py_env \<Rightarrow> nat \<Rightarrow> (time \<times> ledger_op) list \<Rightarrow> chat_log \<Rightarrow> chat_log" where
  "run_ledger env n [] db = db"
| "run_ledger env n ((now, opr) # ops) db = run_ledger env n ops (ledger_apply env n now opr db)"

definition empty_log :: chat_log where
  "empty_log = \<lparr>lg_messages = [], lg_outcomes = [], lg_flags = [], lg_bargains = []\<rparr>"

lemma keeps_apply:
  assumes "ledger_inv db" "well_sourced opr"
  shows "keeps now (closes opr) db (ledger_apply env n now opr db)"
proof (cases opr)
  case (LMessage chat user item role content source ctype media)
  with assms show ?thesis by (simp add: keeps_add_message)
next
  case (LSent m)
  with assms show ?thesis by (simp add: keeps_insert_message)
next
  case (LComplete s content)
  then have "closes opr = (\<lambda>t. t = s)" by (simp add: fun_eq_iff)
  with assms LComplete show ?thesis by (simp add: keeps_complete)
next
  case (LCancel s)
  then have "closes opr = (\<lambda>t. t = s)" by (simp add: fun_eq_iff)
  with assms LCancel show ?thesis by (simp add: keeps_cancel)
next
  case (LNeedsHuman chat enabled)
  with assms show ?thesis by (simp add: set_conversation_needs_human_def Let_def keeps_other keeps_refl)
next
  case (LBargain chat)
  with assms show ?thesis by (simp add: increment_bargain_count_by_chat_def keeps_other)
qed (use assms in \<open>simp_all add: keeps_prepare keeps_record keeps_recover\<close>)

lemma ledger_inv_empty: "ledger_inv empty_log"
  by (simp add: ledger_inv_def empty_log_def unique_key_def one_per_source_def known_message_def known_outcome_def pair_ok_def)

lemma ledger_inv_apply: "ledger_inv db \<Longrightarrow> well_sourced opr \<Longrightarrow> ledger_inv (ledger_apply env n now opr db)"
  using keeps_apply by (auto simp: keeps_def)

inductive ledger_step :: "py_env \<Rightarrow> nat \<Rightarrow> chat_log \<Rightarrow> chat_log \<Rightarrow> bool" for env n where
  "well_sourced opr \<Longrightarrow> ledger_step env n db (ledger_apply env n now opr db)"

inductive_cases ledger_stepE: "ledger_step env n db db'"

interpretation ledger: transition_system "\<lambda>db. db = empty_log" "ledger_step env n" ledger_inv for env n
  by unfold_locales (auto elim!: ledger_stepE simp: ledger_inv_empty ledger_inv_apply)

definition sourced_run :: "(time \<times> ledger_op) list \<Rightarrow> bool" where
  "sourced_run ops \<longleftrightarrow> list_all (\<lambda>e. well_sourced (snd e)) ops"

lemma run_ledger_steps: "sourced_run ops \<Longrightarrow> (ledger_step env n)\<^sup>*\<^sup>* db (run_ledger env n ops db)"
proof (induction env n ops db rule: run_ledger.induct)
  case (2 env n now opr ops db)
  then have "ledger_step env n db (ledger_apply env n now opr db)" by (simp add: sourced_run_def ledger_step.intros)
  with 2 show ?case by (simp add: sourced_run_def converse_rtranclp_into_rtranclp)
qed simp

lemma reachable_ledger: "sourced_run ops \<Longrightarrow> ledger_inv (run_ledger env n ops empty_log)"
  using ledger.inv_reachable run_ledger_steps by blast

lemma run_inv: "sourced_run ops \<Longrightarrow> ledger_inv db \<Longrightarrow> ledger_inv (run_ledger env n ops db)"
  using ledger.inv_run run_ledger_steps by blast

definition leaves :: "string \<Rightarrow> time \<times> ledger_op \<Rightarrow> bool" where
  \<comment> \<open>An operation that does not complete or cancel the source\<close>
  "leaves s e \<longleftrightarrow> \<not> closes (snd e) s"

text \<open>An outcome stays as long as it is not forgotten and, if pending, not closed.\<close>

lemma run_keeps:
  assumes "ledger_inv db" "sourced_run ops" "in_ledger s" "known_outcome s db = Some oc"
    "list_all (\<lambda>e. \<not> forgotten (fst e) oc) ops"
    "ao_role oc = ''assistant_pending'' \<Longrightarrow> list_all (leaves s) ops"
  shows "known_outcome s (run_ledger env n ops db) = Some oc"
  using assms
proof (induction ops arbitrary: db)
  case (Cons e ops)
  obtain now opr where e: "e = (now, opr)" by (cases e)
  have w: "well_sourced opr" using Cons.prems(2) by (simp add: e sourced_run_def)
  have "known_outcome s (ledger_apply env n now opr db) = Some oc"
    using keeps_apply [OF Cons.prems(1) w] Cons.prems(3,4)
    by (rule keepsD) (use Cons.prems(5,6) in \<open>auto simp: e leaves_def\<close>)
  moreover have "ledger_inv (ledger_apply env n now opr db)" using Cons.prems(1) w by (rule ledger_inv_apply)
  ultimately have "known_outcome s (run_ledger env n ops (ledger_apply env n now opr db)) = Some oc"
    using Cons.prems(2,3,5,6) by (intro Cons.IH) (auto simp: sourced_run_def)
  then show ?case by (simp add: e)
qed simp

text \<open>What a pending draft becomes when it is completed.\<close>

lemma complete_pending:
  assumes inv: "ledger_inv db" and s: "in_ledger s" and oc: "known_outcome s db = Some oc" "ao_role oc = ''assistant_pending''"
    and e: "complete_assistant_reply now s (Some c) db = (db', res)"
  shows "res = Inr ()" "known_outcome s db' = Some (oc\<lparr>ao_role := ''assistant'', ao_content := c, ao_updated := now\<rparr>)" "ledger_inv db'"
proof -
  let ?db0 = "prune_assistant_outcomes now db"
  have oc0: "known_outcome s ?db0 = Some oc" using inv oc(1) by (rule kept_by_prune) (simp add: forgotten_def oc(2))
  note inv0 = inv_prune [OF inv, of now]
  obtain m where m: "known_message s ?db0 = Some m" "me_role m = ''assistant_pending''" "me_chat m = Some (ao_chat oc)"
    using inv_pair [OF inv0 s] oc0 oc(2) by (auto simp: pair_ok_def split: option.splits)
  have v: "stored_view s ?db0 = Some (message_view m)" using m(1) by (simp add: stored_view_def)
  show "res = Inr ()" using e v m(2,3) by (simp add: complete_assistant_reply_def Let_def)
  have d: "db' = close_outcome now s ((message_view m)\<lparr>sv_role := ''assistant'', sv_content := c\<rparr>)
      (\<lambda>oc. oc\<lparr>ao_role := ''assistant'', ao_content := c, ao_updated := now\<rparr>)
      (write_messages (\<lambda>m. me_source m = Some s) (\<lambda>m. m\<lparr>me_role := ''assistant'', me_content := c\<rparr>) ?db0)"
    using e v m(2,3) by (simp add: complete_assistant_reply_def Let_def)
  show "known_outcome s db' = Some (oc\<lparr>ao_role := ''assistant'', ao_content := c, ao_updated := now\<rparr>)"
    unfolding d by (subst known_close) (simp_all add: write_messages_def oc0 [unfolded prune_assistant_outcomes_def] prune_assistant_outcomes_def)
  show "ledger_inv db'" using keeps_complete [OF inv s, of now "Some c"] e by (simp add: keeps_def)
qed

text \<open>What the ledger answers for a source with an outcome.\<close>

lemma known_view:
  assumes "ledger_inv db" "in_ledger s" "known_outcome s db = Some oc"
  shows "map_option sv_role (get_source_message s db) = Some (ao_role oc)"
  using inv_pair [OF assms(1,2)] assms(2,3)
  by (auto simp: get_source_message_def stored_view_def pair_ok_def in_ledger_def split: option.splits)

lemma prepare_answer:
  assumes "ledger_inv db" "in_ledger s" "known_outcome s db = Some oc" "\<not> forgotten now oc" "ao_role oc \<in> set allowed_roles"
  shows "draft_ok content s \<Longrightarrow> belongs chat user item (outcome_view oc) \<Longrightarrow>
      snd (prepare_assistant_reply now chat user item content s db) = Inr oc"
    "\<not> (draft_ok content s \<and> belongs chat user item (outcome_view oc)) \<Longrightarrow>
      \<exists>e. snd (prepare_assistant_reply now chat user item content s db) = Inl e"
proof -
  note oc0 = kept_by_prune [OF assms(1,3,4)]
  have p: "pair_ok (known_message s db) (Some oc)" using inv_pair [OF assms(1,2)] assms(3) by simp
  show "snd (prepare_assistant_reply now chat user item content s db) = Inr oc"
    if "draft_ok content s" "belongs chat user item (outcome_view oc)"
  proof -
    have "prepare_assistant_reply now chat user item content s db = (prune_assistant_outcomes now db, Inr oc)"
    proof (rule prepare_known [OF _ _ oc0 _ assms(5)])
      show "owned_by chat user item (map_option message_view (known_message s db))"
        using p that(2) by (auto simp: owned_by_def pair_ok_def belongs_def split: option.splits)
      show "me_role m = ao_role oc" if "known_message s db = Some m" for m using p that by (simp add: pair_ok_def)
    qed (use that in simp_all)
    then show ?thesis by simp
  qed
  show "\<exists>e. snd (prepare_assistant_reply now chat user item content s db) = Inl e"
    if "\<not> (draft_ok content s \<and> belongs chat user item (outcome_view oc))"
    using prepare_refused [of content s chat user item db now] that oc0 by (auto simp: owned_by_def)
qed

lemma prepare_stored:
  assumes inv: "ledger_inv db" and s: "in_ledger s" and e: "prepare_assistant_reply now chat user item content s db = (db', Inr oc)"
  shows "ledger_inv db'" "known_outcome s db' = Some oc" "belongs chat user item (outcome_view oc)" "ao_role oc \<in> set allowed_roles"
proof -
  let ?db0 = "prune_assistant_outcomes now db"
  have ok: "draft_ok content s" "owned_by chat user item (map_option message_view (known_message s db))"
    "owned_by chat user item (map_option outcome_view (known_outcome s ?db0))"
    using prepare_refused [of content s chat user item db now] e by auto
  show "ledger_inv db'" using prepare_facts(1) [OF inv s e] .
  have "known_outcome s db' = Some oc \<and> belongs chat user item (outcome_view oc) \<and> ao_role oc \<in> set allowed_roles"
  proof (cases "known_outcome s ?db0")
    case (Some q)
    have "me_role m = ao_role q" if "known_message s db = Some m" for m
      using inv_pair [OF inv_prune [OF inv, of now] s] Some that by (simp add: pair_ok_def)
    with prepare_known [OF ok(1,2) Some] ok(3) Some e show ?thesis by (simp add: owned_by_def)
  next
    case None
    have "belongs chat user item (outcome_view (outcome_from now s (message_view m))) \<and> me_role m \<in> set allowed_roles"
      if "m = (case known_message s db of None \<Rightarrow> pending_message now chat user item content s | Some m \<Rightarrow> m)" for m
      using ok(2) that by (auto simp: owned_by_def belongs_def allowed_iff text_of_def split: option.splits)
    with prepare_new [OF ok(1,2) None] e None show ?thesis
      by (auto simp: known_outcome_def sql_insert_ignore_def find_snoc)
  qed
  then show "known_outcome s db' = Some oc" "belongs chat user item (outcome_view oc)" "ao_role oc \<in> set allowed_roles" by simp_all
qed

text \<open>The two records of a source never contradict each other.\<close>

lemma prepare_errors:
  assumes inv: "ledger_inv db" and s: "in_ledger s" and e: "snd (prepare_assistant_reply now chat user item content s db) = Inl e"
  shows "\<not> draft_ok content s \<and> e = ValueError ''assistant reply draft is invalid'' \<or>
    draft_ok content s \<and> e \<in> {RuntimeError ''assistant reply source collision'', RuntimeError ''assistant outcome source collision''} \<and>
      (\<exists>v. get_source_message s db = Some v \<and> \<not> belongs chat user item v)"
proof (cases "draft_ok content s")
  case False
  with e show ?thesis by (auto simp: prepare_assistant_reply_def draft_ok_def)
next
  case ok: True
  let ?db0 = "prune_assistant_outcomes now db"
  note p = inv_pair [OF inv s] and p0 = inv_pair [OF inv_prune [OF inv, of now] s]
  have s': "s \<noteq> []" using ok by (simp add: draft_ok_def)
  have mrole: "me_role m \<in> set allowed_roles" if "known_message s db = Some m" for m
    using p that by (auto simp: pair_ok_def allowed_iff split: option.splits)
  have orole: "ao_role oc \<in> set allowed_roles" if "known_outcome s ?db0 = Some oc" for oc
    using p0 that by (auto simp: pair_ok_def allowed_iff split: option.splits)
  show ?thesis
  proof (cases "owned_by chat user item (map_option message_view (known_message s db))")
    case False
    then obtain m where m: "known_message s db = Some m" "\<not> belongs chat user item (message_view m)"
      using mrole by (cases "known_message s db") (auto simp: owned_by_def)
    with e ok False show ?thesis
      by (simp add: prepare_assistant_reply_def draft_ok_def check_record_simp Let_def get_source_message_def stored_view_def)
  next
    case own: True
    show ?thesis
    proof (cases "known_outcome s ?db0")
      case None
      from prepare_new [OF ok own None] e show ?thesis by simp
    next
      case (Some oc)
      have agree: "me_role m = ao_role oc" if "known_message s db = Some m" for m using p0 Some that by (simp add: pair_ok_def)
      have alive: "known_outcome s db = Some oc"
        using Some by (auto simp: prune_outcome [OF inv_parts(1) [OF inv]] split: option.splits if_splits)
      have nb: "\<not> belongs chat user item (outcome_view oc)"
        using prepare_known [OF ok own Some _ _ agree] orole [OF Some] e by auto
      moreover have "known_message s db = None"
        using nb own p alive by (auto simp: owned_by_def belongs_def pair_ok_def split: option.splits)
      ultimately show ?thesis using e ok own Some alive s'
        by (simp add: prepare_assistant_reply_def draft_ok_def check_record_simp Let_def get_source_message_def stored_view_def owned_by_def)
    qed
  qed
qed

end
