(* ===== verification/Assistant_History.thy ===== *)
theory Assistant_History
  imports Assistant_Runs
begin

text \<open>The bounded history: how many messages of a chat it keeps, and which.\<close>

lemma newest_first:
  assumes "x \<in> set xs" "x \<notin> set (take n (rev (order_by f xs)))" "y \<in> set (take n (rev (order_by f xs)))"
  shows "f x \<le> f y"
proof -
  let ?r = "rev (order_by f xs)"
  have "sorted_wrt (\<lambda>a b. f b \<le> f a) ?r"
    by (simp add: order_by_def sorted_wrt_rev sorted_wrt_map [symmetric] del: sorted_wrt_map)
  then have "sorted_wrt (\<lambda>a b. f b \<le> f a) (take n ?r @ drop n ?r)" by simp
  then have "\<forall>a \<in> set (take n ?r). \<forall>b \<in> set (drop n ?r). f b \<le> f a" unfolding sorted_wrt_append by blast
  moreover have "set (take n ?r @ drop n ?r) = set xs" unfolding append_take_drop_id by simp
  then have "set (take n ?r) \<union> set (drop n ?r) = set xs" unfolding set_append .
  then have "x \<in> set (drop n ?r)" using assms(1,2) by blast
  ultimately show ?thesis using assms(3) by blast
qed

definition newest_places :: "nat \<Rightarrow> (message_row \<Rightarrow> bool) \<Rightarrow> message_row list \<Rightarrow> (nat \<times> message_row) list" where
  "newest_places n P ms = take n (rev (order_by (\<lambda>p. me_time (snd p)) (filter (\<lambda>p. P (snd p)) (enumerate 0 ms))))"

lemma newest_places_facts:
  "latest_positions n P ms = map fst (newest_places n P ms)" "length (newest_places n P ms) \<le> n"
  "p \<in> set (newest_places n P ms) \<Longrightarrow> p \<in> set (enumerate 0 ms) \<and> P (snd p)"
  by (auto simp: newest_places_def latest_positions_def dest!: in_set_takeD)

lemma same_place: "p \<in> set (enumerate 0 ms) \<Longrightarrow> q \<in> set (enumerate 0 ms) \<Longrightarrow> fst p = fst q \<Longrightarrow> p = q"
  by (auto simp: in_set_enumerate_eq prod_eq_iff)

lemma kept_place:
  assumes "p \<in> set (enumerate 0 ms)" "P (snd p)"
  shows "fst p \<in> set (latest_positions n P ms) \<longleftrightarrow> p \<in> set (newest_places n P ms)"
proof
  assume "fst p \<in> set (latest_positions n P ms)"
  then obtain q where q: "q \<in> set (newest_places n P ms)" "fst p = fst q" by (auto simp: newest_places_facts(1))
  with same_place [OF assms(1), of q] newest_places_facts(3) show "p \<in> set (newest_places n P ms)" by blast
qed (auto simp: newest_places_facts(1))

lemma history_count: "sql_count (prunable c) (prune_history n c ms) \<le> n"
proof -
  let ?ps = "filter (\<lambda>p. prunable c (snd p) \<and> fst p \<in> set (latest_positions n (prunable c) ms)) (enumerate 0 ms)"
  have "sql_count (prunable c) (prune_history n c ms) = length (map fst ?ps)"
    unfolding sql_count_def prune_history_def by (simp add: filter_map o_def) (rule arg_cong [where f = length], rule filter_cong, auto)
  also have "\<dots> = card (set (map fst ?ps))"
    by (intro distinct_card [symmetric] distinct_map_filter) simp
  also have "\<dots> \<le> card (set (map fst (newest_places n (prunable c) ms)))"
    by (intro card_mono) (auto simp: newest_places_facts(1))
  also have "\<dots> \<le> n" using card_length newest_places_facts(2) by (metis length_map le_trans)
  finally show ?thesis .
qed

lemma history_newest:
  assumes d: "d \<in> set ms" "d \<notin> set (prune_history n c ms)" and k: "k \<in> set (prune_history n c ms)" "prunable c k"
  shows "me_time d \<le> me_time k"
proof -
  obtain p where p: "p \<in> set (enumerate 0 ms)" "snd p = d"
    using d(1) by (metis in_set_conv_nth map_snd_enumerate in_set_impl_in_set_zip2 imageE set_map)
  with d(2) have "prunable c d" "fst p \<notin> set (latest_positions n (prunable c) ms)"
    unfolding prune_history_def by (cases p; simp add: image_iff Bex_def)+
  with p kept_place [of p ms "prunable c" n] have np: "p \<notin> set (newest_places n (prunable c) ms)" "p \<in> set (filter (\<lambda>p. prunable c (snd p)) (enumerate 0 ms))"
    by simp_all
  obtain q where q: "q \<in> set (enumerate 0 ms)" "snd q = k" "fst q \<in> set (latest_positions n (prunable c) ms)"
    using k by (auto simp: prune_history_def)
  then have "q \<in> set (newest_places n (prunable c) ms)" using kept_place [of q ms "prunable c" n] k(2) by simp
  then have "me_time (snd p) \<le> me_time (snd q)"
    using newest_first [of p _ n "\<lambda>p. me_time (snd p)" q] np unfolding newest_places_def by blast
  with p q show ?thesis by simp
qed

end
