(* ===== verification/Assistant_Correctness.thy ===== *)
theory Assistant_Correctness
  imports Assistant_History
begin

text \<open>
  Properties of automatic replies.
\<close>

section \<open>A ledger with one draft\<close>

definition shop_env :: py_env where
  "shop_env = \<lparr>pe_repr = (\<lambda>_. ''[]''), pe_int = (\<lambda>_. None), pe_size = (\<lambda>_. 2)\<rparr>"

definition draft_ops :: "(time \<times> ledger_op) list" where
  "draft_ops = [(1, LMessage ''c1'' ''u1'' ''i1'' ''user'' ''hi'' (Some ''g:1'') ''text'' (MediaValue PNone)),
     (2, LPrepare ''c1'' ''me'' ''i1'' ''hello'' ''assistant:g:1'')]"

definition later_ops :: "(time \<times> ledger_op) list" where
  "later_ops = [(4, LReopen), (5, LMessage ''c1'' ''u1'' ''i1'' ''user'' ''hi'' (Some ''g:1'') ''text'' (MediaValue PNone)),
     (6, LPrepare ''c1'' ''me'' ''i1'' ''other'' ''assistant:g:1''), (7, LRecord ''c2'' ''me'' ''i1'' ''assistant:g:2'' ''assistant_no_reply'' [])]"

definition draft_row :: outcome_row where
  "draft_row = \<lparr>ao_source = ''assistant:g:1'', ao_chat = ''c1'', ao_user = ''me'', ao_item = ''i1'', ao_role = ''assistant_pending'',
     ao_content = ''hello'', ao_created = 2, ao_updated = 2\<rparr>"

definition old_message :: "string \<Rightarrow> time \<Rightarrow> message_row" where
  "old_message c t = \<lparr>me_user = ''u1'', me_item = ''i1'', me_role = ''user'', me_content = c, me_time = t, me_chat = Some ''c1'',
     me_source = None, me_type = ''text'', me_media = Decoded (PList [])\<rparr>"

definition busy_log :: chat_log where
  "busy_log = empty_log\<lparr>lg_messages := [old_message ''a'' 1, old_message ''b'' 2]\<rparr>"

lemma shop_strip: "py_strip ''text'' = ''text''"
  by (rule py_strip_plain) code_simp

lemma shop_lower: "media_lower ''text'' = ''text''"
  by (simp add: media_lower.simps ascii_lower_def char_of_def bit_iff_odd)

lemma shop_media: "media_json shop_env (MediaValue PNone) = Inr (Decoded (PList []))"
  by (simp add: media_json_def normalize_media_def stored_items_def shop_env_def)

lemmas shop_text = shop_strip shop_lower shop_media

lemma plain_length [simp]: "py_len ''hello'' = 5" "py_len ''other'' = 5"
  by code_simp+

lemmas history_eval = insert_message_def prune_history_def latest_positions_def prunable_def order_by_def

definition asked :: message_row where
  "asked = chat_message 1 ''c1'' ''u1'' ''i1'' ''user'' ''hi'' (Some ''g:1'') ''text'' (Decoded (PList []))"

lemma draft_run: "run_ledger shop_env 2 draft_ops empty_log = \<lparr>lg_messages = [asked, pending_message 2 ''c1'' ''me'' ''i1'' ''hello'' ''assistant:g:1''],
    lg_outcomes = [draft_row], lg_flags = [], lg_bargains = []\<rparr>"
proof -
  have "add_message_by_chat shop_env 2 1 ''c1'' ''u1'' ''i1'' ''user'' ''hi'' (Some ''g:1'') ''text'' (MediaValue PNone) empty_log =
      (empty_log\<lparr>lg_messages := [asked]\<rparr>, True)"
    by (simp add: add_message_by_chat_def shop_text asked_def [symmetric] empty_log_def history_eval Let_def)
  moreover have "draft_ok ''hello'' ''assistant:g:1''" by (simp add: draft_ok_def)
  ultimately show ?thesis
    by (simp add: draft_ops_def prepare_new [unfolded owned_by_def] empty_log_def known_message_def known_outcome_def
      prune_assistant_outcomes_def asked_def sql_insert_ignore_def outcome_from_def draft_row_def text_of_def)
qed

lemma draft_known: "known_outcome ''assistant:g:1'' (run_ledger shop_env 2 draft_ops empty_log) = Some draft_row"
  by (simp add: draft_run known_outcome_def draft_row_def)

lemma draft_sources: "sourced_run draft_ops" "sourced_run later_ops" "in_ledger ''assistant:g:1''" "draft_ok ''other'' ''assistant:g:1''"
  "list_all (leaves ''assistant:g:1'') later_ops" "list_all (\<lambda>e. fst e \<le> 3 + OUTCOME_RETENTION_SECONDS) later_ops"
  by code_simp+

section \<open>Properties\<close>

text \<open>C23: Whatever happens to an account's messages and its ledger after a drafted reply was completed - replays of
  the buyer's message, drafts and outcomes of any source, pruning of the history, restarts - for the ninety days of
  retention the ledger answers that the source is answered, and an attempt to draft it again yields the
  completed outcome with the text that was sent (or is refused), never a new draft.\<close>

theorem completed_reply_is_never_sent_again:
  assumes "sourced_run before" "sourced_run later" "in_ledger s"
    and "known_outcome s (run_ledger env n before empty_log) = Some oc" "ao_role oc = ''assistant_pending''"
    and "complete_assistant_reply now s (Some c) (run_ledger env n before empty_log) = (db, res)"
    and "list_all (\<lambda>e. fst e \<le> now + OUTCOME_RETENTION_SECONDS) later" "now' \<le> now + OUTCOME_RETENTION_SECONDS"
  shows "res = Inr () \<and>
    map_option sv_role (get_source_message s (run_ledger env n later db)) = Some ''assistant'' \<and>
    (case snd (prepare_assistant_reply now' chat user item content s (run_ledger env n later db)) of
       Inl e \<Rightarrow> \<not> (draft_ok content s \<and> belongs chat user item (outcome_view oc))
     | Inr q \<Rightarrow> q = oc\<lparr>ao_role := ''assistant'', ao_content := c, ao_updated := now\<rparr>)"
proof -
  let ?oc = "oc\<lparr>ao_role := ''assistant'', ao_content := c, ao_updated := now\<rparr>"
  let ?db = "run_ledger env n later db"
  note fin = complete_pending [OF reachable_ledger [OF assms(1)] assms(3-6)]
  have inv: "ledger_inv ?db" using assms(2) fin(3) by (rule run_inv)
  have kept: "known_outcome s ?db = Some ?oc"
    using fin(3) assms(2,3) fin(2) by (rule run_keeps) (use assms(7) in \<open>auto simp: list_all_iff forgotten_def\<close>)
  have young: "\<not> forgotten now' ?oc" using assms(8) by (simp add: forgotten_def)
  have b: "belongs chat user item (outcome_view ?oc) = belongs chat user item (outcome_view oc)" by (simp add: belongs_def)
  note p = prepare_answer [OF inv assms(3) kept young]
  have "case snd (prepare_assistant_reply now' chat user item content s ?db) of
      Inl e \<Rightarrow> \<not> (draft_ok content s \<and> belongs chat user item (outcome_view oc)) | Inr q \<Rightarrow> q = ?oc"
    by (cases "draft_ok content s \<and> belongs chat user item (outcome_view oc)") (use p [of content chat user item] b in auto)
  with fin(1) known_view [OF inv assms(3) kept] show ?thesis by simp
qed

theorem completed_reply_is_never_sent_again_witness:
  "map_option sv_role (get_source_message ''assistant:g:1'' (run_ledger shop_env 2 later_ops
      (fst (complete_assistant_reply 3 ''assistant:g:1'' (Some ''hello'') (run_ledger shop_env 2 draft_ops empty_log))))) = Some ''assistant'' \<and>
   snd (prepare_assistant_reply 9 ''c1'' ''me'' ''i1'' ''other'' ''assistant:g:1'' (run_ledger shop_env 2 later_ops
      (fst (complete_assistant_reply 3 ''assistant:g:1'' (Some ''hello'') (run_ledger shop_env 2 draft_ops empty_log))))) \<noteq>
     Inr draft_row"
proof -
  have "9 \<le> (3::time) + OUTCOME_RETENTION_SECONDS" by (simp add: OUTCOME_RETENTION_SECONDS_def)
  from completed_reply_is_never_sent_again [OF draft_sources(1-3) draft_known _ prod.collapse [symmetric] draft_sources(6) this,
      where chat = "''c1''" and user = "''me''" and item = "''i1''" and content = "''other''" and c = "''hello''"]
  show ?thesis by (auto simp: draft_row_def split: sum.splits)
qed

text \<open>C24: A draft that was not completed or cancelled is found again at any later time: whatever else happens, preparing the
  source again for the same conversation returns the first draft unchanged, so a replay after a crash sends the
  text that was stored and not another one.\<close>

theorem pending_draft_is_stable:
  assumes "sourced_run before" "sourced_run later" "in_ledger s"
    and "prepare_assistant_reply now chat user item content s (run_ledger env n before empty_log) = (db, Inr oc)"
    and "ao_role oc = ''assistant_pending''" "list_all (leaves s) later" "draft_ok content' s"
  shows "snd (prepare_assistant_reply now' chat user item content' s (run_ledger env n later db)) = Inr oc \<and>
    map_option sv_role (get_source_message s (run_ledger env n later db)) = Some ''assistant_pending''"
proof -
  note st = prepare_stored [OF reachable_ledger [OF assms(1)] assms(3,4)]
  have inv: "ledger_inv (run_ledger env n later db)" using assms(2) st(1) by (rule run_inv)
  have kept: "known_outcome s (run_ledger env n later db) = Some oc"
    using st(1) assms(2,3) st(2) by (rule run_keeps) (use assms(5,6) in \<open>auto simp: list_all_iff forgotten_def\<close>)
  have young: "\<not> forgotten now' oc" using assms(5) by (simp add: forgotten_def)
  show ?thesis
    using prepare_answer(1) [OF inv assms(3) kept young st(4) assms(7) st(3)] assms(5) known_view [OF inv assms(3) kept] by simp
qed

theorem pending_draft_is_stable_witness:
  "snd (prepare_assistant_reply 9 ''c1'' ''me'' ''i1'' ''other'' ''assistant:g:1''
     (run_ledger shop_env 2 later_ops (fst (prepare_assistant_reply 2 ''c1'' ''me'' ''i1'' ''hello'' ''assistant:g:1'' (run_ledger shop_env 2 [] empty_log))))) = Inr draft_row"
proof -
  have s: "sourced_run []" by (simp add: sourced_run_def)
  have p: "prepare_assistant_reply 2 ''c1'' ''me'' ''i1'' ''hello'' ''assistant:g:1'' (run_ledger shop_env 2 [] empty_log) =
      (fst (prepare_assistant_reply 2 ''c1'' ''me'' ''i1'' ''hello'' ''assistant:g:1'' (run_ledger shop_env 2 [] empty_log)), Inr draft_row)"
    using prepare_new [of "''hello''" "''assistant:g:1''" "''c1''" "''me''" "''i1''" empty_log 2]
    by (simp add: owned_by_def draft_ok_def empty_log_def known_message_def known_outcome_def
      prune_assistant_outcomes_def outcome_from_def draft_row_def text_of_def)
  from pending_draft_is_stable [OF s draft_sources(2,3) p _ draft_sources(5,4), of 9] show ?thesis by (simp add: draft_row_def)
qed

text \<open>In every reachable ledger, drafting a reply fails only for a draft without text or source or over the limit, or
  because the source belongs to another conversation, seller account or item: the message and the outcome
  of a source never contradict each other, and no half of a draft is ever missing.\<close>

theorem drafting_fails_only_for_strangers:
  assumes "sourced_run ops" "in_ledger s"
    and "snd (prepare_assistant_reply now chat user item content s (run_ledger env n ops empty_log)) = Inl e"
  shows "\<not> draft_ok content s \<and> e = ValueError ''assistant reply draft is invalid'' \<or>
    draft_ok content s \<and> e \<in> {RuntimeError ''assistant reply source collision'', RuntimeError ''assistant outcome source collision''} \<and>
      (\<exists>v. get_source_message s (run_ledger env n ops empty_log) = Some v \<and> \<not> belongs chat user item v)"
  using reachable_ledger [OF assms(1)] assms(2,3) by (rule prepare_errors)

theorem drafting_fails_only_for_strangers_witness:
  "\<exists>v. get_source_message ''assistant:g:1'' (run_ledger shop_env 2 draft_ops empty_log) = Some v \<and> \<not> belongs ''c2'' ''me'' ''i1'' v"
proof -
  have "snd (prepare_assistant_reply 9 ''c2'' ''me'' ''i1'' ''other'' ''assistant:g:1'' (run_ledger shop_env 2 draft_ops empty_log)) =
      Inl (RuntimeError ''assistant reply source collision'')"
    by (simp add: draft_run prepare_assistant_reply_def prune_assistant_outcomes_def known_message_def asked_def check_record_def belongs_def Let_def)
  from drafting_fails_only_for_strangers [OF draft_sources(1,3) this] show ?thesis by (simp add: draft_sources(4))
qed

text \<open>C25: After a message was added the chat has at most the configured number of messages besides pending drafts; the
  messages of other chats and the pending drafts are all still there in their order, and no message that was dropped
  is newer than one of the chat that was kept.\<close>

theorem history_keeps_the_newest:
  assumes "add_message_by_chat env n now chat user item role content source ctype media db = (db', added)"
    and "media_json env media = Inr enc" "role \<noteq> ''assistant_pending''"
  shows "sql_count (prunable chat) (lg_messages db') \<le> n \<and>
    filter (\<lambda>m. \<not> prunable chat m) (lg_messages db') = filter (\<lambda>m. \<not> prunable chat m) (lg_messages db) \<and>
    (\<forall>d k. d \<in> set (lg_messages db) \<longrightarrow> d \<notin> set (lg_messages db') \<longrightarrow> k \<in> set (lg_messages db') \<longrightarrow> prunable chat k \<longrightarrow>
       me_time d \<le> me_time k)"
proof -
  let ?m = "chat_message now chat user item role content source ctype enc"
  have m: "lg_messages db' = prune_history n chat (insert_message ?m (lg_messages db))" "prunable chat ?m"
    using assms by (auto simp: add_message_by_chat_def Let_def prunable_def)
  have "set (lg_messages db) \<subseteq> set (insert_message ?m (lg_messages db))" by (auto simp: insert_message_def)
  moreover have "filter (\<lambda>m. \<not> prunable chat m) (insert_message ?m (lg_messages db)) = filter (\<lambda>m. \<not> prunable chat m) (lg_messages db)"
    using m(2) by (simp add: insert_message_def)
  ultimately show ?thesis
    unfolding m(1) prune_keeps_pending using history_count history_newest by blast
qed

theorem history_keeps_the_newest_witness:
  "sql_count (prunable ''c1'') (lg_messages (fst (add_message_by_chat shop_env 2 3 ''c1'' ''u1'' ''i1'' ''user'' ''hi'' (Some ''g:1'') ''text''
      (MediaValue PNone) busy_log))) \<le> 2"
proof -
  from history_keeps_the_newest [OF prod.collapse [symmetric] shop_media, where role = "''user''"]
  have "sql_count (prunable chat) (lg_messages (fst (add_message_by_chat shop_env n now chat user item ''user'' content source ctype
      (MediaValue PNone) db))) \<le> n" for n now chat user item content source ctype db by simp
  then show ?thesis .
qed

end
