(* ===== verification/Reply_Config.thy ===== *)
theory Reply_Config
  imports Manual_Media
begin

text \<open>
  The configuration of automatic replies (\<^verbatim>\<open>worker/main.py\<close>): the settings file, the file of reply rules, what the
  worker keeps of them when they change or break, business hours, and the choice of a rule.  The facts of a file
  (type, mode, size, content) are inputs; so are \<^verbatim>\<open>str.casefold\<close> and the hash of a rules document.  The
  messages of errors are abbreviated.
\<close>

section \<open>Files\<close>

datatype file_text = BadText | NotJson | JsonValue pyval

record private_file =
  pf_signature :: string
  pf_regular :: bool
  pf_mode :: nat
  pf_size :: nat
  pf_content :: file_text

definition load_private_json_file :: "nat \<Rightarrow> private_file option \<Rightarrow> dict result" where
  \<comment> \<open>With \<^verbatim>\<open>expected_type=dict\<close>; the mode \<^verbatim>\<open>0o600\<close> is 384\<close>
  "load_private_json_file maximum f =
     (case f of
        None \<Rightarrow> Inl (RuntimeError ''unreadable'')
      | Some p \<Rightarrow>
          if \<not> pf_regular p then Inl (RuntimeError ''not a regular file'')
          else if pf_mode p \<noteq> 384 then Inl (RuntimeError ''mode must be 0600'')
          else if pf_size p > maximum then Inl (RuntimeError ''too large'')
          else (case pf_content p of
                  BadText \<Rightarrow> Inl (UnicodeDecodeError ''utf-8'')
                | NotJson \<Rightarrow> Inl (RuntimeError ''unreadable'')
                | JsonValue (PDict d) \<Rightarrow> Inr d
                | JsonValue _ \<Rightarrow> Inl (RuntimeError ''invalid structure'')))"

definition get_default :: "dict \<Rightarrow> string \<Rightarrow> pyval \<Rightarrow> pyval" where
  \<comment> \<open>\<^verbatim>\<open>d.get(k, default)\<close>\<close>
  "get_default d k v = (case map_of (rev d) k of None \<Rightarrow> v | Some x \<Rightarrow> x)"

definition only_keys :: "string list \<Rightarrow> dict \<Rightarrow> bool" where
  "only_keys ks d \<longleftrightarrow> list_all (\<lambda>(k, _). k \<in> set ks) d"

fun equals_one :: "pyval \<Rightarrow> bool" where
  \<comment> \<open>\<^verbatim>\<open>v == 1\<close>\<close>
  "equals_one (PBool b) = b"
| "equals_one (PInt i) = (i = 1)"
| "equals_one (PFloat x r) = (x = 1)"
| "equals_one _ = False"

section \<open>Settings\<close>

record settings =
  st_strategy :: string
  st_enabled :: bool
  st_rules_enabled :: bool
  st_ai_enabled :: bool
  st_first_reply :: string
  st_fallback_reply :: string
  st_delay_min :: int
  st_delay_max :: int
  st_trigger_cooldown :: int
  st_takeover_cooldown :: int
  st_hours_enabled :: bool
  st_start :: string
  st_end :: string

definition default_settings :: settings where
  "default_settings = \<lparr>st_strategy = ''standard'', st_enabled = True, st_rules_enabled = True, st_ai_enabled = True,
     st_first_reply = [], st_fallback_reply = [], st_delay_min = 0, st_delay_max = 0, st_trigger_cooldown = 0,
     st_takeover_cooldown = 0, st_hours_enabled = False, st_start = ''09:00'', st_end = ''23:30''\<rparr>"

definition settings_keys :: "string list" where
  "settings_keys = [''version'', ''strategy'', ''enabled'', ''rules_enabled'', ''ai_enabled'', ''first_reply'', ''fallback_reply'',
     ''delay_min_seconds'', ''delay_max_seconds'', ''trigger_cooldown_seconds'', ''manual_takeover_cooldown_seconds'',
     ''business_hours_enabled'', ''business_start'', ''business_end'']"

definition VALID_AUTOMATION_STRATEGIES :: "string list" where
  "VALID_AUTOMATION_STRATEGIES = [''conservative'', ''standard'', ''aggressive'']"

definition has_control :: "string \<Rightarrow> bool" where
  \<comment> \<open>\<^verbatim>\<open>[\x00-\x08\x0b\x0c\x0e-\x1f\x7f]\<close>\<close>
  "has_control s \<longleftrightarrow> list_ex (\<lambda>c. let n = (of_char c :: nat) in n \<le> 8 \<or> n = 11 \<or> n = 12 \<or> (14 \<le> n \<and> n \<le> 31) \<or> n = 127) s"

definition decimal_zeros :: "nat list" where
  \<comment> \<open>The zero of every block of decimal digits of Unicode 15, which \<^verbatim>\<open>\d\<close> and \<^verbatim>\<open>int\<close> accept\<close>
  "decimal_zeros = [48, 1632, 1776, 1984, 2406, 2534, 2662, 2790, 2918, 3046, 3174, 3302, 3430, 3558, 3664, 3792, 3872, 4160,
     4240, 6112, 6160, 6470, 6608, 6784, 6800, 6992, 7088, 7232, 7248, 42528, 43216, 43264, 43472, 43504, 43600, 44016, 65296,
     66720, 68912, 69734, 69872, 69942, 70096, 70384, 70736, 70864, 71248, 71360, 71472, 71904, 72016, 72784, 73040, 73120,
     73552, 92768, 92864, 93008, 120782, 120792, 120802, 120812, 120822, 123200, 123632, 124144, 125264, 130032]"

definition decimal_value :: "nat \<Rightarrow> nat option" where
  "decimal_value n = map_option (\<lambda>z. n - z) (find (\<lambda>z. z \<le> n \<and> n < z + 10) decimal_zeros)"

definition clock_minutes :: "string \<Rightarrow> nat option" where
  \<comment> \<open>\<^verbatim>\<open>([01]\d|2[0-3]):[0-5]\d\<close>, and the minutes it names\<close>
  "clock_minutes s =
     (case code_points (map of_char s) of
        [a, b, c, d, e] \<Rightarrow>
          (case (decimal_value b, decimal_value e) of
             (Some h, Some m) \<Rightarrow>
               if c = 58 \<and> 48 \<le> d \<and> d \<le> 53 \<and> (a = 48 \<or> a = 49 \<or> (a = 50 \<and> 48 \<le> b \<and> b \<le> 51))
               then Some (60 * (10 * (a - 48) + h) + 10 * (d - 48) + m) else None
           | _ \<Rightarrow> None)
      | _ \<Rightarrow> None)"

fun check_bool :: "pyval \<Rightarrow> bool result" where
  "check_bool (PBool b) = Inr b"
| "check_bool _ = Inl (RuntimeError ''automation settings'')"

fun check_reply :: "pyval \<Rightarrow> string result" where
  "check_reply (PStr s) = (if py_len (py_strip s) > 1000 \<or> has_control s then Inl (RuntimeError ''automation settings'') else Inr (py_strip s))"
| "check_reply _ = Inl (RuntimeError ''automation settings'')"

fun check_seconds :: "int \<Rightarrow> pyval \<Rightarrow> int result" where
  "check_seconds limit (PInt i) = (if 0 \<le> i \<and> i \<le> limit then Inr i else Inl (RuntimeError ''automation settings''))"
| "check_seconds limit _ = Inl (RuntimeError ''automation settings'')"

fun check_clock :: "pyval \<Rightarrow> string result" where
  "check_clock (PStr s) = (if clock_minutes (py_strip s) = None then Inl (RuntimeError ''automation settings'') else Inr (py_strip s))"
| "check_clock _ = Inl (RuntimeError ''automation settings'')"

fun check_strategy :: "pyval \<Rightarrow> string result" where
  "check_strategy (PStr s) = (let t = media_lower (py_strip s) in
     if t \<in> set VALID_AUTOMATION_STRATEGIES then Inr t else Inl (RuntimeError ''automation settings''))"
| "check_strategy _ = Inl (RuntimeError ''automation settings'')"

definition load_automation_settings :: "private_file option \<Rightarrow> settings result" where
  \<comment> \<open>Of a path that is not empty\<close>
  "load_automation_settings f =
     bind_result (load_private_json_file (1024 * 1024) f) (\<lambda>d.
     if \<not> only_keys settings_keys d \<or> \<not> equals_one (get_default d ''version'' (PInt 1)) then Inl (RuntimeError ''automation settings'')
     else
       bind_result (check_strategy (get_default d ''strategy'' (PStr ''standard''))) (\<lambda>strategy.
       bind_result (check_bool (get_default d ''enabled'' (PBool True))) (\<lambda>enabled.
       bind_result (check_bool (get_default d ''rules_enabled'' (PBool enabled))) (\<lambda>rules.
       bind_result (check_bool (get_default d ''ai_enabled'' (PBool enabled))) (\<lambda>ai.
       bind_result (check_reply (get_default d ''first_reply'' (PStr []))) (\<lambda>first.
       bind_result (check_reply (get_default d ''fallback_reply'' (PStr []))) (\<lambda>fallback.
       bind_result (check_seconds 60 (get_default d ''delay_min_seconds'' (PInt 0))) (\<lambda>dmin.
       bind_result (check_seconds 60 (get_default d ''delay_max_seconds'' (PInt 0))) (\<lambda>dmax.
       bind_result (check_seconds 300 (get_default d ''trigger_cooldown_seconds'' (PInt 0))) (\<lambda>trigger.
       bind_result (check_seconds 300 (get_default d ''manual_takeover_cooldown_seconds'' (PInt 0))) (\<lambda>takeover.
       bind_result (check_bool (get_default d ''business_hours_enabled'' (PBool False))) (\<lambda>hours.
       bind_result (check_clock (get_default d ''business_start'' (PStr ''09:00''))) (\<lambda>start.
       bind_result (check_clock (get_default d ''business_end'' (PStr ''23:30''))) (\<lambda>ends.
       Inr \<lparr>st_strategy = strategy, st_enabled = enabled, st_rules_enabled = rules, st_ai_enabled = ai, st_first_reply = first,
         st_fallback_reply = fallback, st_delay_min = dmin, st_delay_max = dmax, st_trigger_cooldown = trigger,
         st_takeover_cooldown = takeover, st_hours_enabled = hours, st_start = start, st_end = ends\<rparr>))))))))))))))"

definition merchant_minutes :: "time \<Rightarrow> int" where
  \<comment> \<open>The minute of the day in UTC+8\<close>
  "merchant_minutes now = (\<lfloor>now / 60\<rfloor> + 480) mod 1440"

definition within_business_hours :: "settings \<Rightarrow> time \<Rightarrow> bool" where
  \<comment> \<open>The texts have passed \<open>check_clock\<close>\<close>
  "within_business_hours st now =
     (if \<not> st_hours_enabled st then True
      else case (clock_minutes (st_start st), clock_minutes (st_end st)) of
             (Some a, Some b) \<Rightarrow>
               (let current = merchant_minutes now in
                if a \<le> b then int a \<le> current \<and> current \<le> int b else current \<ge> int a \<or> current \<le> int b)
           | _ \<Rightarrow> True)"

definition human_reply_delay :: "settings \<Rightarrow> real \<Rightarrow> real" where
  \<comment> \<open>\<open>u\<close> is the number \<^verbatim>\<open>random.uniform(0, delay_max)\<close> returns\<close>
  "human_reply_delay st u = min (of_int (st_delay_min st) + u) 120"

section \<open>Reply rules\<close>

record reply_rule =
  rr_id :: string
  rr_name :: string
  rr_item :: string
  rr_enabled :: bool
  rr_keywords :: "string list"
  rr_reply :: string

definition MAX_REPLY_RULES :: nat where "MAX_REPLY_RULES = 100"
definition MAX_REPLY_RULE_KEYWORDS :: nat where "MAX_REPLY_RULE_KEYWORDS = 20"
definition MAX_REPLY_RULE_KEYWORD_CHARS :: nat where "MAX_REPLY_RULE_KEYWORD_CHARS = 128"
definition MAX_REPLY_RULE_REPLY_CHARS :: nat where "MAX_REPLY_RULE_REPLY_CHARS = 4096"
definition MAX_REPLY_RULE_FILE_BYTES :: nat where "MAX_REPLY_RULE_FILE_BYTES = 256 * 1024"

definition RULE_ERROR :: py_error where "RULE_ERROR = RuntimeError ''reply rules''"

definition hex64 :: "string \<Rightarrow> bool" where
  \<comment> \<open>\<^verbatim>\<open>[0-9a-f]{64}\<close>\<close>
  "hex64 s \<longleftrightarrow> length s = 64 \<and> list_all hex_char s"

definition plan_char :: "char \<Rightarrow> bool" where
  "plan_char c \<longleftrightarrow> (let n = (of_char c :: nat) in (48 \<le> n \<and> n \<le> 57) \<or> (65 \<le> n \<and> n \<le> 90) \<or> (97 \<le> n \<and> n \<le> 122))"

definition plan_name :: "string \<Rightarrow> bool" where
  \<comment> \<open>\<^verbatim>\<open>[A-Za-z0-9][A-Za-z0-9_-]{0,79}\<close>\<close>
  "plan_name s \<longleftrightarrow> s \<noteq> [] \<and> length s \<le> 80 \<and> plan_char (hd s) \<and> list_all (\<lambda>c. plan_char c \<or> c = CHR ''_'' \<or> c = CHR ''-'') s"

definition valid_receipt :: "dict \<Rightarrow> bool" where
  "valid_receipt r \<longleftrightarrow> only_keys [''plan_id'', ''item_id'', ''digest'', ''after_hash''] r \<and>
     list_all (\<lambda>k. case dict_get r k of PStr s \<Rightarrow> plan_name s | _ \<Rightarrow> False) [''plan_id'', ''item_id''] \<and>
     list_all (\<lambda>k. case dict_get r k of PStr s \<Rightarrow> hex64 s | _ \<Rightarrow> False) [''digest'', ''after_hash'']"

definition check_receipt :: "(dict \<Rightarrow> string result) \<Rightarrow> dict \<Rightarrow> unit result" where
  "check_receipt doc_hash d =
     (case map_of (rev d) ''_ops_receipt'' of
        None \<Rightarrow> Inr ()
      | Some (PDict r) \<Rightarrow>
          if \<not> valid_receipt r then Inl RULE_ERROR
          else bind_result (doc_hash (filter (\<lambda>(k, _). k \<noteq> ''_ops_receipt'') d)) (\<lambda>digest.
                 if dict_get r ''after_hash'' = PStr digest then Inr () else Inl RULE_ERROR)
      | Some _ \<Rightarrow> Inl RULE_ERROR)"

fun clean_keywords :: "(string \<Rightarrow> string) \<Rightarrow> pyval list \<Rightarrow> string list \<Rightarrow> string list result" where
  "clean_keywords casefold [] acc = Inr acc"
| "clean_keywords casefold (PStr s # ks) acc =
     (let k = py_strip s in
      if k = [] \<or> py_len k > MAX_REPLY_RULE_KEYWORD_CHARS then Inl RULE_ERROR
      else clean_keywords casefold ks (if casefold k \<in> set acc then acc else acc @ [casefold k]))"
| "clean_keywords casefold (_ # ks) acc = Inl RULE_ERROR"

fun scalar_text :: "pyval \<Rightarrow> string option" where
  \<comment> \<open>\<^verbatim>\<open>str(v)\<close> of a \<^verbatim>\<open>str\<close> or an \<^verbatim>\<open>int\<close> that is no \<^verbatim>\<open>bool\<close>\<close>
  "scalar_text (PStr s) = Some s"
| "scalar_text (PInt i) = Some (str_int i)"
| "scalar_text _ = None"

definition rule_name :: "nat \<Rightarrow> pyval" where
  "rule_name index = PStr (map char_of [232, 167, 132, 229, 136, 153, 32 :: nat] @ str_nat (index + 1))"

definition normal_rule :: "(string \<Rightarrow> string) \<Rightarrow> nat \<Rightarrow> pyval \<Rightarrow> reply_rule result" where
  \<comment> \<open>One round of the loop, without the test of the ids seen before\<close>
  "normal_rule casefold index raw =
     (case raw of
        PDict d \<Rightarrow>
          if \<not> only_keys [''id'', ''name'', ''item_id'', ''enabled'', ''match'', ''keywords'', ''reply''] d then Inl RULE_ERROR
          else (case (get_default d ''enabled'' (PBool True), get_default d ''name'' (rule_name index),
              scalar_text (case get_default d ''item_id'' (PStr []) of PNone \<Rightarrow> PStr [] | v \<Rightarrow> v)) of
            (PBool enabled, PStr name, Some item_text) \<Rightarrow>
              (let item = py_strip item_text in
               if py_strip name = [] \<or> py_len (py_strip name) > 80 \<or> CHR 0x0D \<in> set name \<or> CHR 0x0A \<in> set name \<or>
                  (item \<noteq> [] \<and> (py_len item > 64 \<or> \<not> ascii_digits item)) \<or>
                  get_default d ''match'' (PStr ''contains'') \<noteq> PStr ''contains''
               then Inl RULE_ERROR
               else (case dict_get d ''keywords'' of
                       PList ks \<Rightarrow>
                         if length ks < 1 \<or> length ks > MAX_REPLY_RULE_KEYWORDS then Inl RULE_ERROR
                         else bind_result (clean_keywords casefold ks []) (\<lambda>keywords.
                           if keywords = [] then Inl RULE_ERROR
                           else (case (dict_get d ''reply'', scalar_text (get_default d ''id'' (PStr (str_nat (index + 1))))) of
                                   (PStr reply, Some rule_id) \<Rightarrow>
                                     if py_strip reply = [] \<or> py_len (py_strip reply) > MAX_REPLY_RULE_REPLY_CHARS \<or>
                                        py_strip rule_id = [] \<or> py_len (py_strip rule_id) > 128 then Inl RULE_ERROR
                                     else Inr \<lparr>rr_id = py_strip rule_id, rr_name = py_strip name, rr_item = item, rr_enabled = enabled,
                                       rr_keywords = keywords, rr_reply = py_strip reply\<rparr>
                                 | _ \<Rightarrow> Inl RULE_ERROR))
                     | _ \<Rightarrow> Inl RULE_ERROR))
          | _ \<Rightarrow> Inl RULE_ERROR)
      | _ \<Rightarrow> Inl RULE_ERROR)"

fun normal_rules :: "(string \<Rightarrow> string) \<Rightarrow> nat \<Rightarrow> pyval list \<Rightarrow> reply_rule list \<Rightarrow> reply_rule list result" where
  "normal_rules casefold index [] acc = Inr acc"
| "normal_rules casefold index (raw # raws) acc =
     bind_result (normal_rule casefold index raw) (\<lambda>r.
       if rr_id r \<in> rr_id ` set acc then Inl RULE_ERROR else normal_rules casefold (index + 1) raws (acc @ [r]))"

definition load_reply_rules :: "(string \<Rightarrow> string) \<Rightarrow> (dict \<Rightarrow> string result) \<Rightarrow> private_file option \<Rightarrow> reply_rule list result" where
  "load_reply_rules casefold doc_hash f =
     (if f = None then Inr []
      else bind_result (load_private_json_file MAX_REPLY_RULE_FILE_BYTES f) (\<lambda>d.
        if \<not> only_keys [''version'', ''rules'', ''_ops_receipt''] d then Inl RULE_ERROR
        else bind_result (check_receipt doc_hash d) (\<lambda>_.
          if \<not> equals_one (dict_get d ''version'') then Inl RULE_ERROR
          else (case dict_get d ''rules'' of
                  PList raws \<Rightarrow> if length raws > MAX_REPLY_RULES then Inl RULE_ERROR else normal_rules casefold 0 raws []
                | _ \<Rightarrow> Inl RULE_ERROR))))"

section \<open>What the worker keeps\<close>

datatype automation_mode = RulesOnly | RulesAi

record automation =
  au_mode :: automation_mode
  au_settings :: settings
  au_settings_available :: bool
  au_settings_signature :: "string option"
  au_strategy :: string
  au_rules :: "reply_rule list"
  au_rules_available :: bool
  au_rules_signature :: "string option"

definition paused_settings :: settings where
  "paused_settings = default_settings\<lparr>st_enabled := False, st_rules_enabled := False, st_ai_enabled := False\<rparr>"

definition take_settings :: "settings \<Rightarrow> bool \<Rightarrow> string option \<Rightarrow> automation \<Rightarrow> automation" where
  "take_settings st ok sig au = au\<lparr>au_settings := st, au_settings_available := ok, au_strategy := st_strategy st, au_settings_signature := sig\<rparr>"

definition refresh_automation_settings :: "private_file option \<Rightarrow> automation \<Rightarrow> (automation, unit) outcome" where
  \<comment> \<open>An error that is no \<^verbatim>\<open>RuntimeError\<close> passes through\<close>
  "refresh_automation_settings f au =
     (let sig = map_option pf_signature f in
      if sig = au_settings_signature au then (au, Inr ())
      else if f = None then (take_settings paused_settings False sig au, Inr ())
      else (case load_automation_settings f of
              Inr st \<Rightarrow> (take_settings st True sig au, Inr ())
            | Inl (RuntimeError _) \<Rightarrow> (take_settings paused_settings False sig au, Inr ())
            | Inl e \<Rightarrow> (au, Inl e)))"

definition take_rules :: "reply_rule list \<Rightarrow> bool \<Rightarrow> string option \<Rightarrow> automation \<Rightarrow> automation" where
  "take_rules rules ok sig au = au\<lparr>au_rules := rules, au_rules_available := ok, au_rules_signature := sig\<rparr>"

definition refresh_reply_rules ::
  "(string \<Rightarrow> string) \<Rightarrow> (dict \<Rightarrow> string result) \<Rightarrow> private_file option \<Rightarrow> automation \<Rightarrow> (automation, unit) outcome"
where
  "refresh_reply_rules casefold doc_hash f au =
     (let sig = map_option pf_signature f in
      if sig = au_rules_signature au then (au, Inr ())
      else if f = None then (take_rules [] False None au, Inr ())
      else (case load_reply_rules casefold doc_hash f of
              Inr rules \<Rightarrow> (take_rules rules True sig au, Inr ())
            | Inl (RuntimeError _) \<Rightarrow> (take_rules [] False sig au, Inr ())
            | Inl e \<Rightarrow> (au, Inl e)))"

definition loaded_automation_revision ::
  "(automation_mode \<Rightarrow> settings \<Rightarrow> reply_rule list \<Rightarrow> string) \<Rightarrow> automation \<Rightarrow> string option"
where
  "loaded_automation_revision snapshot_hash au =
     (if \<not> au_settings_available au \<or> \<not> au_rules_available au then None
      else Some (snapshot_hash (au_mode au) (au_settings au) (au_rules au)))"

section \<open>The choice of a rule\<close>

definition occurs_in :: "string \<Rightarrow> string \<Rightarrow> bool" where
  "occurs_in k s \<longleftrightarrow> list_ex (prefix k) (suffixes s)"

definition rule_hits :: "string \<Rightarrow> string \<Rightarrow> reply_rule \<Rightarrow> bool" where
  "rule_hits content item r \<longleftrightarrow> rr_enabled r \<and> (rr_item r = [] \<or> rr_item r = item) \<and> list_ex (\<lambda>k. occurs_in k content) (rr_keywords r)"

definition first_max :: "(reply_rule \<Rightarrow> nat) \<Rightarrow> reply_rule list \<Rightarrow> reply_rule" where
  \<comment> \<open>\<^verbatim>\<open>max(xs, key=f)\<close>: the first of the greatest\<close>
  "first_max f rs = foldl (\<lambda>best r. if f r > f best then r else best) (hd rs) (tl rs)"

definition longest_keyword :: "reply_rule \<Rightarrow> nat" where
  "longest_keyword r = foldr max (map py_len (rr_keywords r)) 0"

definition match_reply_rule :: "(string \<Rightarrow> string) \<Rightarrow> automation \<Rightarrow> string \<Rightarrow> string \<Rightarrow> string option" where
  "match_reply_rule casefold au content item =
     (if au_strategy au = ''conservative'' \<and> py_len (py_strip content) > 240 then None
      else
        (let hits = filter (rule_hits (casefold content) item) (au_rules au);
             scoped = filter (\<lambda>r. rr_item r \<noteq> []) hits;
             generic = filter (\<lambda>r. rr_item r = []) hits;
             matches = (if scoped \<noteq> [] then scoped else generic)
         in if matches = [] then None
            else if au_strategy au = ''aggressive'' then Some (rr_reply (first_max longest_keyword matches))
            else Some (rr_reply (hd matches))))"

end
