(* ===== verification/Reply_Text.thy ===== *)
theory Reply_Text
  imports Reply_Config
begin

text \<open>
  The texts of automatic replies (\<^verbatim>\<open>worker/main.py\<close>): the split of a long reply into a few messages, and the checks of what
  the language model wrote.  \<^verbatim>\<open>json.loads\<close>, the normal form of a reply for comparison (a regular expression over
  Unicode word characters and \<^verbatim>\<open>casefold\<close>) and the ratio of \<^verbatim>\<open>difflib\<close> are arguments.
\<close>

section \<open>Bubbles\<close>

definition REPLY_BUBBLE_MAX_CHARS :: nat where "REPLY_BUBBLE_MAX_CHARS = 90"
definition REPLY_BUBBLE_MAX_COUNT :: nat where "REPLY_BUBBLE_MAX_COUNT = 3"

definition sentence_ends :: "string list" where
  \<comment> \<open>The full stop, exclamation mark, question mark and semicolon of Chinese texts, their ASCII forms but the stop, and the line feed\<close>
  "sentence_ends = map (map char_of) [[227, 128, 130], [239, 188, 129], [239, 188, 159], [33], [63], [239, 188, 155], [59], [10 :: nat]]"

definition ends_sentence :: "string \<Rightarrow> bool" where
  "ends_sentence s \<longleftrightarrow> list_ex (\<lambda>d. suffix d s) sentence_ends"

fun split_after :: "string \<Rightarrow> string \<Rightarrow> string list" where
  \<comment> \<open>\<^verbatim>\<open>re.split\<close> at the places behind a mark\<close>
  "split_after acc [] = [acc]"
| "split_after acc (c # s) = (if ends_sentence (acc @ [c]) then (acc @ [c]) # split_after [] s else split_after (acc @ [c]) s)"

fun pack_parts :: "nat \<Rightarrow> string list \<Rightarrow> string list \<Rightarrow> string \<Rightarrow> string list" where
  "pack_parts m [] bubbles current = (if current \<noteq> [] then bubbles @ [current] else bubbles)"
| "pack_parts m (part # parts) bubbles current =
     (if current \<noteq> [] \<and> py_len current + py_len part > m then pack_parts m parts (bubbles @ [current]) part
      else pack_parts m parts bubbles (current @ part))"

definition join_rest :: "nat \<Rightarrow> string list \<Rightarrow> string list" where
  "join_rest n bubbles = (if length bubbles > n then take (n - 1) bubbles @ [concat (drop (n - 1) bubbles)] else bubbles)"

definition sentences :: "string \<Rightarrow> string list" where
  "sentences s = filter (\<lambda>p. p \<noteq> []) (map py_strip (split_after [] s))"

definition split_reply_bubbles :: "string \<Rightarrow> string list" where
  "split_reply_bubbles raw =
     (let s = py_strip raw in
      if s = [] then []
      else if py_len s \<le> REPLY_BUBBLE_MAX_CHARS \<or> occurs_in ''http'' (ascii_lower s) then [s]
      else filter (\<lambda>b. b \<noteq> []) (join_rest REPLY_BUBBLE_MAX_COUNT (pack_parts REPLY_BUBBLE_MAX_CHARS (sentences s) [] [])))"

section \<open>Checks of the model's replies\<close>

definition ai_replies_similar :: "(string \<Rightarrow> string) \<Rightarrow> (string \<Rightarrow> string \<Rightarrow> real) \<Rightarrow> string \<Rightarrow> string \<Rightarrow> bool" where
  "ai_replies_similar normal ratio candidate previous =
     (let left = normal candidate; right = normal previous in
      if left = [] \<or> right = [] then False
      else if left = right then True
      else if min (py_len left) (py_len right) < 8 then False
      else ratio left right \<ge> 9 / 10)"

definition unsafe_ai_reply :: "(string \<Rightarrow> pyval option) \<Rightarrow> pyval \<Rightarrow> bool" where
  "unsafe_ai_reply loads v =
     (case v of
        PStr s \<Rightarrow>
          (let clean = py_strip s in
           clean \<in> {''-'', ''[TRIAL]'', ''[TUTORIAL]''} \<or> occurs_in ''```'' clean \<or>
           (take 1 clean \<in> {''{'', ''[''} \<and> (case loads clean of Some (PDict _) \<Rightarrow> True | Some (PList _) \<Rightarrow> True | _ \<Rightarrow> False)))
      | _ \<Rightarrow> True)"

section \<open>What splitting keeps\<close>

lemma concat_split_after: "concat (split_after acc s) = acc @ s"
  by (induction acc s rule: split_after.induct) auto

lemma concat_pack_parts: "concat (pack_parts m parts bubbles current) = concat bubbles @ current @ concat parts"
  by (induction m parts bubbles current rule: pack_parts.induct) auto

lemma pack_parts_nonempty:
  "list_all (\<lambda>b. b \<noteq> []) bubbles \<Longrightarrow> list_all (\<lambda>p. p \<noteq> []) parts \<Longrightarrow> list_all (\<lambda>b. b \<noteq> []) (pack_parts m parts bubbles current)"
  by (induction m parts bubbles current rule: pack_parts.induct) auto

lemma concat_join_rest: "n \<ge> 1 \<Longrightarrow> concat (join_rest n bubbles) = concat bubbles"
  by (simp add: join_rest_def) (metis append_take_drop_id concat_append)

lemma length_join_rest: "n \<ge> 1 \<Longrightarrow> length (join_rest n bubbles) \<le> n"
  by (simp add: join_rest_def)

lemma concat_nonempty: "concat (filter (\<lambda>b. b \<noteq> []) bs) = concat bs"
  by (induction bs) auto

text \<open>Every bubble that is cut off is within the limit or a single sentence.\<close>

definition bubble_fits :: "nat \<Rightarrow> string list \<Rightarrow> string \<Rightarrow> bool" where
  "bubble_fits m parts b \<longleftrightarrow> py_len b \<le> m \<or> b \<in> set parts"

lemma py_len_append: "py_len (s @ t) = py_len s + py_len t"
  by (simp add: py_len_def)

lemma pack_parts_fit:
  assumes "\<forall>b \<in> set bubbles. bubble_fits m ps b" "current = [] \<or> bubble_fits m ps current" "set parts \<subseteq> set ps"
  shows "\<forall>b \<in> set (pack_parts m parts bubbles current). bubble_fits m ps b"
  using assms
proof (induction m parts bubbles current rule: pack_parts.induct)
  case (2 m part parts bubbles current)
  then show ?case by (auto simp: bubble_fits_def py_len_append)
qed (auto split: if_splits)

end
