(* ===== verification/Task_Monad.thy ===== *)
theory Task_Monad
  imports Py_Values
begin

text \<open>
  Tasks of the worker: a task runs on a state, ends with a value or an exception, and leaves a list of events (what it
  handed to the outside).  The state of an exception is kept, as Python keeps objects and committed rows.  A triple
  states what a task keeps on both ends and of its events.
\<close>

type_synonym ('s, 'e, 'a) task = "'s \<Rightarrow> 's \<times> 'a result \<times> 'e list"

definition give :: "'a \<Rightarrow> ('s, 'e, 'a) task" where
  "give x s = (s, Inr x, [])"

definition fail :: "py_error \<Rightarrow> ('s, 'e, 'a) task" where
  "fail e s = (s, Inl e, [])"

definition seq :: "('s, 'e, 'a) task \<Rightarrow> ('a \<Rightarrow> ('s, 'e, 'b) task) \<Rightarrow> ('s, 'e, 'b) task" where
  "seq m f s =
     (case m s of
        (s1, Inl e, es) \<Rightarrow> (s1, Inl e, es)
      | (s1, Inr x, es) \<Rightarrow> (case f x s1 of (s2, r, es') \<Rightarrow> (s2, r, es @ es')))"

definition handle :: "('s, 'e, 'a) task \<Rightarrow> (py_error \<Rightarrow> ('s, 'e, 'a) task) \<Rightarrow> ('s, 'e, 'a) task" where
  \<comment> \<open>\<^verbatim>\<open>try\<close> with a handler that re-raises what it does not catch\<close>
  "handle m h s =
     (case m s of
        (s1, Inr x, es) \<Rightarrow> (s1, Inr x, es)
      | (s1, Inl e, es) \<Rightarrow> (case h e s1 of (s2, r, es') \<Rightarrow> (s2, r, es @ es')))"

definition look :: "('s \<Rightarrow> 'a) \<Rightarrow> ('s, 'e, 'a) task" where
  "look f s = (s, Inr (f s), [])"

definition change :: "('s \<Rightarrow> 's) \<Rightarrow> ('s, 'e, unit) task" where
  "change f s = (f s, Inr (), [])"

definition act :: "('s \<Rightarrow> ('s, 'a) outcome) \<Rightarrow> ('s, 'e, 'a) task" where
  "act f s = (case f s of (s1, r) \<Rightarrow> (s1, r, []))"

definition raising :: "'a result \<Rightarrow> ('s, 'e, 'a) task" where
  "raising r s = (s, r, [])"

definition emit :: "('s \<Rightarrow> 'e) \<Rightarrow> ('s, 'e, unit) task" where
  \<comment> \<open>An event carries what the state was\<close>
  "emit f s = (s, Inr (), [f s])"

text \<open>What holds before, after a value, after an exception, and of every event.\<close>

definition ends :: "('a \<Rightarrow> 's \<Rightarrow> bool) \<Rightarrow> (py_error \<Rightarrow> 's \<Rightarrow> bool) \<Rightarrow> ('e \<Rightarrow> bool) \<Rightarrow> 's \<times> 'a result \<times> 'e list \<Rightarrow> bool" where
  "ends Q X E out \<longleftrightarrow> (\<forall>e \<in> set (snd (snd out)). E e) \<and> (case fst (snd out) of Inr x \<Rightarrow> Q x (fst out) | Inl e \<Rightarrow> X e (fst out))"

definition triple ::
  "('s \<Rightarrow> bool) \<Rightarrow> ('s, 'e, 'a) task \<Rightarrow> ('a \<Rightarrow> 's \<Rightarrow> bool) \<Rightarrow> (py_error \<Rightarrow> 's \<Rightarrow> bool) \<Rightarrow> ('e \<Rightarrow> bool) \<Rightarrow> bool"
where
  "triple P m Q X E \<longleftrightarrow> (\<forall>s. P s \<longrightarrow> ends Q X E (m s))"

named_theorems triples "rules of triples"

lemma ends_simps [simp]:
  "ends Q X E (s, Inr x, es) \<longleftrightarrow> (\<forall>e \<in> set es. E e) \<and> Q x s" "ends Q X E (s, Inl e, es) \<longleftrightarrow> (\<forall>e \<in> set es. E e) \<and> X e s"
  by (simp_all add: ends_def)

lemma ends_append: "ends Q X E (s, r, es @ es') \<longleftrightarrow> (\<forall>e \<in> set es. E e) \<and> ends Q X E (s, r, es')"
  by (cases r) auto

lemma tripleI: "(\<And>s. P s \<Longrightarrow> ends Q X E (m s)) \<Longrightarrow> triple P m Q X E"
  by (simp add: triple_def)

lemma tripleD: "triple P m Q X E \<Longrightarrow> P s \<Longrightarrow> ends Q X E (m s)"
  by (simp add: triple_def)

lemma triple_give [triples]: "(\<And>s. P s \<Longrightarrow> Q x s) \<Longrightarrow> triple P (give x) Q X E"
  by (simp add: triple_def give_def)

lemma triple_fail [triples]: "(\<And>s. P s \<Longrightarrow> X e s) \<Longrightarrow> triple P (fail e) Q X E"
  by (simp add: triple_def fail_def)

lemma triple_look [triples]: "(\<And>s. P s \<Longrightarrow> Q (f s) s) \<Longrightarrow> triple P (look f) Q X E"
  by (simp add: triple_def look_def)

lemma triple_change [triples]: "(\<And>s. P s \<Longrightarrow> Q () (f s)) \<Longrightarrow> triple P (change f) Q X E"
  by (simp add: triple_def change_def)

lemma triple_emit [triples]: "(\<And>s. P s \<Longrightarrow> Q () s \<and> E (f s)) \<Longrightarrow> triple P (emit f) Q X E"
  by (simp add: triple_def emit_def)

lemma triple_raising [triples]:
  "(\<And>s x. P s \<Longrightarrow> r = Inr x \<Longrightarrow> Q x s) \<Longrightarrow> (\<And>s e. P s \<Longrightarrow> r = Inl e \<Longrightarrow> X e s) \<Longrightarrow> triple P (raising r) Q X E"
  by (cases r) (simp_all add: triple_def raising_def)

lemma triple_act [triples]:
  assumes "\<And>s s' x. P s \<Longrightarrow> f s = (s', Inr x) \<Longrightarrow> Q x s'" "\<And>s s' e. P s \<Longrightarrow> f s = (s', Inl e) \<Longrightarrow> X e s'"
  shows "triple P (act f) Q X E"
proof (rule tripleI)
  fix s assume p: "P s"
  show "ends Q X E (act f s)"
  proof (cases "f s")
    case (Pair s1 r)
    then show ?thesis using assms [OF p] by (cases r) (simp_all add: act_def)
  qed
qed

lemma triple_seq:
  assumes "triple P m R X E" "\<And>x. triple (R x) (f x) Q X E"
  shows "triple P (seq m f) Q X E"
proof (rule tripleI)
  fix s assume "P s"
  note t = tripleD [OF assms(1) this]
  obtain s1 r1 es1 where m: "m s = (s1, r1, es1)" by (metis prod_cases3)
  show "ends Q X E (seq m f s)"
  proof (cases r1)
    case (Inl e)
    with t m show ?thesis by (simp add: seq_def)
  next
    case (Inr x)
    with t m have "R x s1" by simp
    from tripleD [OF assms(2) this] t m Inr show ?thesis by (cases "f x s1") (simp add: seq_def ends_append)
  qed
qed

lemma triple_handle:
  assumes "triple P m Q R E" "\<And>e. triple (R e) (h e) Q X E"
  shows "triple P (handle m h) Q X E"
proof (rule tripleI)
  fix s assume "P s"
  note t = tripleD [OF assms(1) this]
  obtain s1 r1 es1 where m: "m s = (s1, r1, es1)" by (metis prod_cases3)
  show "ends Q X E (handle m h s)"
  proof (cases r1)
    case (Inr x)
    with t m show ?thesis by (simp add: handle_def)
  next
    case (Inl e)
    with t m have "R e s1" by simp
    from tripleD [OF assms(2) this] t m Inl show ?thesis by (cases "h e s1") (simp add: handle_def ends_append)
  qed
qed

lemma triple_weaken:
  assumes "triple P m Q X E" "\<And>s. P' s \<Longrightarrow> P s" "\<And>x s. Q x s \<Longrightarrow> Q' x s" "\<And>e s. X e s \<Longrightarrow> X' e s" "\<And>e. E e \<Longrightarrow> E' e"
  shows "triple P' m Q' X' E'"
proof (rule tripleI)
  fix s assume "P' s"
  with assms(1,2) have "ends Q X E (m s)" by (simp add: triple_def)
  with assms(3-5) show "ends Q' X' E' (m s)" by (auto simp: ends_def split: sum.splits)
qed

lemma triple_if [triples]:
  "(b \<Longrightarrow> triple P m Q X E) \<Longrightarrow> (\<not> b \<Longrightarrow> triple P n Q X E) \<Longrightarrow> triple P (if b then m else n) Q X E"
  by simp

lemma triple_option [triples]:
  "(v = None \<Longrightarrow> triple P m Q X E) \<Longrightarrow> (\<And>x. v = Some x \<Longrightarrow> triple P (f x) Q X E) \<Longrightarrow> triple P (case v of None \<Rightarrow> m | Some x \<Rightarrow> f x) Q X E"
  by (cases v) simp_all

section \<open>Events and invariants\<close>

definition emits :: "('e \<Rightarrow> bool) \<Rightarrow> ('s, 'e, 'a) task \<Rightarrow> bool" where
  "emits E m \<longleftrightarrow> triple (\<lambda>_. True) m (\<lambda>_ _. True) (\<lambda>_ _. True) E"

definition holds :: "('s \<Rightarrow> bool) \<Rightarrow> ('s, 'e, 'a) task \<Rightarrow> bool" where
  "holds I m \<longleftrightarrow> triple I m (\<lambda>_. I) (\<lambda>_. I) (\<lambda>_. True)"

named_theorems emitting "rules for events"
named_theorems holding "rules for invariants"

lemma emits_basic [emitting]:
  "emits E (give x)" "emits E (fail e)" "emits E (look f)" "emits E (change g)" "emits E (act h)" "emits E (raising r)"
  by (auto simp: emits_def triple_def give_def fail_def look_def change_def act_def raising_def ends_def split: prod.splits sum.splits)

lemma emits_emit [emitting]: "(\<And>s. E (f s)) \<Longrightarrow> emits E (emit f)"
  by (simp add: emits_def triple_emit)

lemma emits_seq [emitting]: "emits E m \<Longrightarrow> (\<And>x. emits E (f x)) \<Longrightarrow> emits E (seq m f)"
  unfolding emits_def by (rule triple_seq)

lemma emits_handle [emitting]: "emits E m \<Longrightarrow> (\<And>e. emits E (h e)) \<Longrightarrow> emits E (handle m h)"
  unfolding emits_def by (rule triple_handle)

lemma emits_if [emitting]: "emits E m \<Longrightarrow> emits E n \<Longrightarrow> emits E (if b then m else n)"
  by simp

lemma holds_basic [holding]: "holds I (give x)" "holds I (fail e)" "holds I (look f)" "holds I (raising r)" "holds I (emit k)"
  by (auto simp: holds_def triple_def give_def fail_def look_def raising_def emit_def ends_def split: sum.splits)

lemma holds_change: "(\<And>s. I s \<Longrightarrow> I (g s)) \<Longrightarrow> holds I (change g)"
  by (simp add: holds_def triple_change)

lemma holds_act: "(\<And>s. I s \<Longrightarrow> I (fst (h s))) \<Longrightarrow> holds I (act h)"
  unfolding holds_def by (rule triple_act) (metis fst_conv)+

lemma holds_seq [holding]: "holds I m \<Longrightarrow> (\<And>x. holds I (f x)) \<Longrightarrow> holds I (seq m f)"
  unfolding holds_def by (rule triple_seq)

lemma holds_handle [holding]: "holds I m \<Longrightarrow> (\<And>e. holds I (h e)) \<Longrightarrow> holds I (handle m h)"
  unfolding holds_def by (rule triple_handle)

lemma holds_if [holding]: "holds I m \<Longrightarrow> holds I n \<Longrightarrow> holds I (if b then m else n)"
  by simp

lemma triple_True: "emits E m \<Longrightarrow> triple P m (\<lambda>_ _. True) (\<lambda>_ _. True) E"
  unfolding emits_def by (rule triple_weaken) auto

text \<open>Only the last part of a task decides how it ends.\<close>

lemma triple_last:
  assumes "\<And>x. triple (\<lambda>_. True) (f x) Q (\<lambda>_ _. True) (\<lambda>_. True)"
  shows "triple P (seq m f) Q (\<lambda>_ _. True) (\<lambda>_. True)"
proof -
  have "triple (\<lambda>_. True) m (\<lambda>_ _. True) (\<lambda>_ _. True) (\<lambda>_. True)"
    by (auto simp: triple_def ends_def split: sum.splits)
  then have "triple (\<lambda>_. True) (seq m f) Q (\<lambda>_ _. True) (\<lambda>_. True)" using assms by (rule triple_seq)
  then show ?thesis by (rule triple_weaken) auto
qed

lemma emitsD: "emits E m \<Longrightarrow> m s = (s', r, es) \<Longrightarrow> e \<in> set es \<Longrightarrow> E e"
  unfolding emits_def triple_def ends_def by (metis snd_conv)

lemma holdsD: "holds I m \<Longrightarrow> I s \<Longrightarrow> m s = (s', r, es) \<Longrightarrow> I s'"
  unfolding holds_def triple_def ends_def by (cases r) force+

end
