(* ===== verification/Reply_Automation.thy ===== *)
theory Reply_Automation
  imports Assistant_Runs Reply_Text Task_Monad Fulfilment
begin

text \<open>
  The handling of one message of a buyer (\<^verbatim>\<open>_process_buyer_chat\<close> and what it calls in \<^verbatim>\<open>worker/main.py\<close>, with the tables of
  drafts' origins and of conversation scopes): the ledger of replies, the reply rules, the language model under its
  budget, and the send with its checks before every attempt.  Inputs are the configuration files at every
  refresh, the platform's and the model's answers, the clock, and what other tasks do to the worker's state
  while this one awaits.  An event records a message together with the state in which it was handed to the connection.
\<close>

section \<open>State\<close>

datatype reply_origin = ByRule | ByAi

record provenance_row =
  pv_source :: string
  pv_origin :: reply_origin
  pv_config :: "int option"
  pv_automation :: "string option"
  pv_updated :: time

datatype conversation_scope = Owned | Foreign | Unknown

record scope_row =
  sc_chat :: string
  sc_item :: string
  sc_account :: string
  sc_scope :: conversation_scope
  sc_checked :: time

interpretation provenance_keys: keyed_table pv_source .
interpretation scope_keys: keyed_table sc_chat .

record chat_worker =
  cw_log :: chat_log
  cw_manual :: manual_db
  cw_replies :: "reply_row list"
  cw_usage :: "usage_row list"
  cw_provenance :: "provenance_row list"
  cw_scopes :: "scope_row list"
  cw_auto :: automation

record chat_env =
  ce_py :: py_env
  ce_history :: nat
  ce_casefold :: "string \<Rightarrow> string"
  ce_doc_hash :: "dict \<Rightarrow> string result"
  ce_snapshot_hash :: "automation_mode \<Rightarrow> settings \<Rightarrow> reply_rule list \<Rightarrow> string"
  ce_loads :: "string \<Rightarrow> pyval option"
  ce_normal :: "string \<Rightarrow> string"
  ce_ratio :: "string \<Rightarrow> string \<Rightarrow> real"
  ce_digest :: "string \<Rightarrow> time \<Rightarrow> string"
  ce_me :: string \<comment> \<open>\<^verbatim>\<open>self.myid\<close>\<close>
  ce_account :: string \<comment> \<open>the first 16 digits of its hash\<close>
  ce_bot :: bool \<comment> \<open>\<^verbatim>\<open>self.bot is not None\<close>\<close>
  ce_attempts :: nat \<comment> \<open>\<^verbatim>\<open>llm_retry_attempts\<close>\<close>

record reply_event =
  re_key :: string
  re_chat :: string
  re_to :: string
  re_text :: string
  re_state :: chat_worker

datatype chat_event = Said reply_event | Asked

type_synonym 'a chat_task = "(chat_worker, chat_event, 'a) task"

text \<open>What other tasks did during an await: operations on the ledger, and any change of the other tables.\<close>

record meanwhile =
  mw_ledger :: "(time \<times> ledger_op) list"
  mw_store :: "(manual_db \<times> reply_row list \<times> usage_row list) option"
  mw_tables :: "(provenance_row list \<times> scope_row list) option"
  mw_auto :: "automation option"

definition others :: "chat_env \<Rightarrow> meanwhile \<Rightarrow> chat_worker \<Rightarrow> chat_worker" where
  "others env mw w =
     (let w1 = w\<lparr>cw_log := run_ledger (ce_py env) (ce_history env) (mw_ledger mw) (cw_log w)\<rparr>;
          w2 = (case mw_store mw of None \<Rightarrow> w1 | Some (m, r, u) \<Rightarrow> w1\<lparr>cw_manual := m, cw_replies := r, cw_usage := u\<rparr>);
          w3 = (case mw_tables mw of None \<Rightarrow> w2 | Some (p, sc) \<Rightarrow> w2\<lparr>cw_provenance := p, cw_scopes := sc\<rparr>)
      in case mw_auto mw of None \<Rightarrow> w3 | Some au \<Rightarrow> w3\<lparr>cw_auto := au\<rparr>)"

definition await :: "chat_env \<Rightarrow> meanwhile \<Rightarrow> unit chat_task" where
  "await env mw = change (others env mw)"

definition on_log :: "(chat_log \<Rightarrow> (chat_log, 'a) outcome) \<Rightarrow> 'a chat_task" where
  "on_log f = act (\<lambda>w. case f (cw_log w) of (l, r) \<Rightarrow> (w\<lparr>cw_log := l\<rparr>, r))"

section \<open>Origins of drafts\<close>

definition valid_config :: "pyval \<Rightarrow> bool" where
  "valid_config v = (case v of PInt i \<Rightarrow> i \<ge> 0 | _ \<Rightarrow> False)"

definition store_assistant_draft_provenance ::
  "time \<Rightarrow> string \<Rightarrow> reply_origin \<Rightarrow> pyval \<Rightarrow> string \<Rightarrow> provenance_row list \<Rightarrow> (provenance_row list, unit) outcome"
where
  "store_assistant_draft_provenance now s origin config revision t =
     (if origin = ByAi \<and> \<not> valid_config config then (t, Inl (ValueError ''assistant draft config revision is invalid''))
      else if \<not> hex64 revision then (t, Inl (ValueError ''assistant draft automation revision is invalid''))
      else
        (let c = (case config of PInt i \<Rightarrow> if origin = ByAi then Some i else None | _ \<Rightarrow> None) in
         if (case c of Some i \<Rightarrow> i \<ge> 2 ^ 63 | None \<Rightarrow> False) then (t, Inl (OverflowError ''Python int too large to convert to SQLite INTEGER''))
         else (sql_upsert pv_source \<lparr>pv_source = s, pv_origin = origin, pv_config = c, pv_automation = Some revision, pv_updated = now\<rparr>
                 (\<lambda>r. r\<lparr>pv_origin := origin, pv_config := c, pv_automation := Some revision, pv_updated := now\<rparr>) t, Inr ())))"

definition assistant_draft_provenance :: "string \<Rightarrow> provenance_row list \<Rightarrow> provenance_row option" where
  "assistant_draft_provenance s t = find (\<lambda>r. pv_source r = s) t"

definition delete_assistant_draft_provenance :: "string \<Rightarrow> provenance_row list \<Rightarrow> provenance_row list" where
  "delete_assistant_draft_provenance s t = sql_delete (\<lambda>r. pv_source r = s) t"

definition init_assistant_draft_provenance :: "chat_log \<Rightarrow> provenance_row list \<Rightarrow> provenance_row list" where
  \<comment> \<open>The clean-up when the worker starts\<close>
  "init_assistant_draft_provenance l t =
     sql_delete (\<lambda>r. \<not> list_ex (\<lambda>oc. ao_source oc = pv_source r \<and> ao_role oc = ''assistant_pending'') (lg_outcomes l)) t"

definition forget_origin :: "string \<Rightarrow> unit chat_task" where
  "forget_origin s = change (\<lambda>w. w\<lparr>cw_provenance := delete_assistant_draft_provenance s (cw_provenance w)\<rparr>)"

section \<open>Scope of a conversation\<close>

definition hex16 :: "string \<Rightarrow> bool" where
  "hex16 s \<longleftrightarrow> length s = 16 \<and> list_all hex_char s"

definition set_customer_conversation_scope ::
  "string \<Rightarrow> string \<Rightarrow> string \<Rightarrow> conversation_scope \<Rightarrow> time \<Rightarrow> scope_row list \<Rightarrow> (scope_row list, unit) outcome"
where
  "set_customer_conversation_scope chat item account scope checked t =
     (let c = py_strip chat; i = py_strip item; a = py_strip account in
      if c = [] \<or> py_len c > 256 \<or> py_len i > 128 then (t, Inl (ValueError ''invalid conversation scope identity''))
      else if \<not> hex16 a then (t, Inl (ValueError ''invalid conversation scope''))
      else if checked < 0 then (t, Inl (ValueError ''invalid conversation scope timestamp''))
      else (sql_upsert sc_chat \<lparr>sc_chat = c, sc_item = i, sc_account = a, sc_scope = scope, sc_checked = checked\<rparr>
              (\<lambda>r. r\<lparr>sc_item := i, sc_account := a, sc_scope := scope, sc_checked := checked\<rparr>) t, Inr ()))"

definition get_customer_conversation_scope :: "string \<Rightarrow> string \<Rightarrow> string \<Rightarrow> scope_row list \<Rightarrow> scope_row option" where
  "get_customer_conversation_scope chat item account t =
     find (\<lambda>r. sc_chat r = py_strip chat \<and> sc_item r = py_strip item \<and> sc_account r = py_strip account) t"

record scope_input =
  si_now :: time
  si_snapshot :: "private_file option"
  si_head :: "pyval result" \<comment> \<open>the platform's head information\<close>
  si_waiting :: meanwhile

definition snapshot_lists :: "chat_env \<Rightarrow> string \<Rightarrow> dict \<Rightarrow> bool" where
  "snapshot_lists env item d \<longleftrightarrow>
     equals_one (dict_get d ''version'') \<and> dict_get d ''account_ref'' = PStr (ce_account env) \<and>
     (case dict_get d ''products'' of
        PList ps \<Rightarrow> list_ex (\<lambda>p. case p of PDict pd \<Rightarrow> str_or (ce_py env) (dict_get pd ''id'') [] = item | _ \<Rightarrow> False) ps
      | _ \<Rightarrow> False)"

definition head_scope :: "chat_env \<Rightarrow> string \<Rightarrow> pyval \<Rightarrow> conversation_scope" where
  "head_scope env item response =
     (let data = sub_object (ce_loads env) (json_object (ce_loads env) response) ''data'';
          common = sub_object (ce_loads env) data ''commonData''
      in case common of
           None \<Rightarrow> Unknown
         | Some c \<Rightarrow>
             if c \<noteq> [] \<and> numeric_identifier (dict_get c ''itemId'') = Some item
             then (case platform_boolean (dict_get c ''seller'') of None \<Rightarrow> Unknown | Some b \<Rightarrow> if b then Owned else Foreign)
             else Unknown)"

definition fresh_scope :: "time \<Rightarrow> scope_row \<Rightarrow> bool" where
  "fresh_scope now r \<longleftrightarrow> 0 \<le> now - sc_checked r \<and> now - sc_checked r < (if sc_scope r = Unknown then 30 else 300)"

definition keep_scope :: "chat_env \<Rightarrow> scope_input \<Rightarrow> string \<Rightarrow> string \<Rightarrow> conversation_scope \<Rightarrow> conversation_scope chat_task" where
  "keep_scope env inp chat item scope =
     seq (act (\<lambda>w. case set_customer_conversation_scope chat item (ce_account env) scope (si_now inp) (cw_scopes w) of
                    (t, r) \<Rightarrow> (w\<lparr>cw_scopes := t\<rparr>, r)))
       (\<lambda>_. give scope)"

definition ask_scope :: "chat_env \<Rightarrow> scope_input \<Rightarrow> string \<Rightarrow> string \<Rightarrow> conversation_scope chat_task" where
  "ask_scope env inp chat item =
     seq (await env (si_waiting inp)) (\<lambda>_.
       case si_head inp of
         Inl CancelledError \<Rightarrow> fail CancelledError
       | Inl _ \<Rightarrow> keep_scope env inp chat item Unknown
       | Inr response \<Rightarrow> keep_scope env inp chat item (head_scope env item response))"

definition shop_snapshot :: "private_file option \<Rightarrow> dict result" where
  "shop_snapshot f = (case load_private_json_file (5 * 1024 * 1024) f of Inl (RuntimeError _) \<Rightarrow> Inr [] | r \<Rightarrow> r)"

definition customer_conversation_scope :: "chat_env \<Rightarrow> scope_input \<Rightarrow> string \<Rightarrow> string \<Rightarrow> conversation_scope chat_task" where
  "customer_conversation_scope env inp chat item =
     (if item = [] then give Unknown
      else
        seq (raising (shop_snapshot (si_snapshot inp))) (\<lambda>snapshot.
          if snapshot_lists env item snapshot then keep_scope env inp chat item Owned
          else
            seq (look (\<lambda>w. get_customer_conversation_scope chat item (ce_account env) (cw_scopes w))) (\<lambda>cached.
              case cached of
                None \<Rightarrow> ask_scope env inp chat item
              | Some r \<Rightarrow> if fresh_scope (si_now inp) r then give (sc_scope r) else ask_scope env inp chat item)))"

section \<open>Reasons against a reply\<close>

record config_input =
  cf_now :: time
  cf_settings :: "private_file option"
  cf_rules :: "private_file option"

definition on_auto :: "(automation \<Rightarrow> (automation, unit) outcome) \<Rightarrow> unit chat_task" where
  "on_auto f = act (\<lambda>w. case f (cw_auto w) of (au, r) \<Rightarrow> (w\<lparr>cw_auto := au\<rparr>, r))"

definition refresh_config :: "chat_env \<Rightarrow> config_input \<Rightarrow> unit chat_task" where
  "refresh_config env rf =
     seq (on_auto (refresh_automation_settings (cf_settings rf)))
       (\<lambda>_. on_auto (refresh_reply_rules (ce_casefold env) (ce_doc_hash env) (cf_rules rf)))"

definition manual_now :: "chat_env \<Rightarrow> time \<Rightarrow> string \<Rightarrow> bool chat_task" where
  "manual_now env now chat = act (\<lambda>w. case is_manual_mode (ce_digest env) now chat (cw_manual w) of (m, b) \<Rightarrow> (w\<lparr>cw_manual := m\<rparr>, Inr b))"

definition configured_reason :: "time \<Rightarrow> automation \<Rightarrow> string option" where
  "configured_reason now au =
     (if \<not> au_rules_available au then Some ''reply_rules_invalid''
      else if \<not> st_rules_enabled (au_settings au) \<and> \<not> st_ai_enabled (au_settings au) then Some ''automation_disabled''
      else if \<not> within_business_hours (au_settings au) now then Some ''business_hours''
      else None)"

definition cooling :: "int \<Rightarrow> time \<Rightarrow> time option \<Rightarrow> bool" where
  "cooling seconds now t \<longleftrightarrow> (case t of None \<Rightarrow> False | Some x \<Rightarrow> seconds > 0 \<and> now - x < of_int seconds)"

definition cooldown_reason :: "time \<Rightarrow> string \<Rightarrow> chat_worker \<Rightarrow> string option" where
  "cooldown_reason now chat w =
     (if cooling (st_takeover_cooldown (au_settings (cw_auto w))) now (manual_exit_at chat (cw_manual w)) then Some ''manual_takeover_cooldown''
      else if cooling (st_trigger_cooldown (au_settings (cw_auto w))) now (automation_last_reply_at chat (cw_replies w)) then Some ''trigger_cooldown''
      else None)"

definition automatic_reply_suppression_reason :: "chat_env \<Rightarrow> config_input \<Rightarrow> string \<Rightarrow> string option chat_task" where
  "automatic_reply_suppression_reason env rf chat =
     seq (refresh_config env rf) (\<lambda>_.
     seq (look (\<lambda>w. configured_reason (cf_now rf) (cw_auto w))) (\<lambda>r.
       case r of
         Some x \<Rightarrow> give (Some x)
       | None \<Rightarrow>
           seq (manual_now env (cf_now rf) chat) (\<lambda>manual.
             if manual then give (Some ''manual_mode'') else look (cooldown_reason (cf_now rf) chat))))"

definition revision_now :: "chat_env \<Rightarrow> string option chat_task" where
  "revision_now env = look (\<lambda>w. loaded_automation_revision (ce_snapshot_hash env) (cw_auto w))"

section \<open>Closing without a reply\<close>

datatype finish = NotCustomer | Unconfirmed | AlreadyDone | TakenOver | Suppressed string | Silent string | CalledOff string | Answered

definition set_needs_human :: "time \<Rightarrow> string \<Rightarrow> bool \<Rightarrow> unit chat_task" where
  \<comment> \<open>\<^verbatim>\<open>mark_needs_human\<close> and \<^verbatim>\<open>clear_needs_human\<close> swallow errors\<close>
  "set_needs_human now chat b = change (\<lambda>w. w\<lparr>cw_log := fst (set_conversation_needs_human now chat b (cw_log w))\<rparr>)"

definition record_outcome :: "chat_env \<Rightarrow> time \<Rightarrow> string \<Rightarrow> string \<Rightarrow> string \<Rightarrow> string \<Rightarrow> finish \<Rightarrow> finish chat_task" where
  "record_outcome env now chat item s role fin =
     seq (on_log (record_assistant_outcome now chat (ce_me env) item s role [])) (\<lambda>_. give fin)"

definition cancel_draft :: "time \<Rightarrow> string \<Rightarrow> finish \<Rightarrow> finish chat_task" where
  "cancel_draft now s fin = seq (on_log (cancel_assistant_reply now s)) (\<lambda>_. seq (forget_origin s) (\<lambda>_. give fin))"

definition suppress_reply ::
  "chat_env \<Rightarrow> time \<Rightarrow> string \<Rightarrow> string \<Rightarrow> string \<Rightarrow> bool \<Rightarrow> string \<Rightarrow> finish chat_task"
where
  "suppress_reply env now chat item s drafted reason =
     (if drafted then cancel_draft now s (Suppressed reason)
      else if reason = ''manual_mode'' then record_outcome env now chat item s ''assistant_cancelled'' (Suppressed reason)
      else record_outcome env now chat item s ''assistant_no_reply'' (Suppressed reason))"

definition cancel_pending :: "time \<Rightarrow> string \<Rightarrow> finish \<Rightarrow> finish chat_task" where
  "cancel_pending now s fin =
     seq (look (\<lambda>w. get_source_message s (cw_log w))) (\<lambda>p.
       if map_option sv_role p = Some ''assistant_pending'' then cancel_draft now s fin else give fin)"

section \<open>The language model\<close>

record ai_answer =
  aa_reply :: pyval
  aa_decision :: pyval
  aa_reason :: pyval
  aa_config :: pyval

type_synonym ai_call = "pyval result \<times> meanwhile"

definition generate_llm_reply :: "chat_env \<Rightarrow> ai_call \<Rightarrow> ai_answer chat_task" where
  \<comment> \<open>The result of the call behind its slot, timeouts included\<close>
  "generate_llm_reply env call =
     seq (look (\<lambda>w. ce_bot env \<and> au_mode (cw_auto w) = RulesAi)) (\<lambda>ready.
       if \<not> ready then fail (RuntimeError ''AI reply is unavailable in rules mode'')
       else
         seq (emit (\<lambda>w. Asked)) (\<lambda>_.
         seq (await env (snd call)) (\<lambda>_.
           case fst call of
             Inl e \<Rightarrow> fail e
           | Inr (PDict d) \<Rightarrow> give \<lparr>aa_reply = dict_get d ''reply'', aa_decision = dict_get d ''decision'',
               aa_reason = dict_get d ''reason_code'', aa_config = dict_get d ''config_revision''\<rparr>
           | Inr _ \<Rightarrow> fail (RuntimeError ''AI reply result is invalid''))))"

definition transient :: "py_error \<Rightarrow> bool" where
  \<comment> \<open>A timeout or a service error that is no configuration error\<close>
  "transient e = (case e of TimeoutError _ \<Rightarrow> True | LLMServiceError _ \<Rightarrow> True | _ \<Rightarrow> False)"

fun call_ai_with_retry :: "chat_env \<Rightarrow> ai_call list \<Rightarrow> ai_answer chat_task" where
  \<comment> \<open>One call per attempt; the pause before the next attempt belongs to the next call's await\<close>
  "call_ai_with_retry env [] = fail (TypeError ''cannot unpack non-iterable NoneType object'')"
| "call_ai_with_retry env [c] = generate_llm_reply env c"
| "call_ai_with_retry env (c # d # cs) =
     handle (generate_llm_reply env c) (\<lambda>e. if transient e then call_ai_with_retry env (d # cs) else fail e)"

datatype choice = Stop finish | Chosen pyval bool bool pyval \<comment> \<open>reply, from a rule, from the model, configuration\<close>

record stage_clock =
  sg_add :: time
  sg_manual :: time
  sg_record :: time
  sg_budget :: time
  sg_flag :: time
  sg_store :: time
  sg_prepare :: time
  sg_close :: time

record try_input =
  ti_first_look :: time
  ti_waiting :: meanwhile
  ti_connect :: "py_error option" \<comment> \<open>no connection in time\<close>
  ti_second_look :: time
  ti_socket :: bool \<comment> \<open>\<^verbatim>\<open>self.ws is not None\<close>\<close>
  ti_scope :: scope_input
  ti_refresh :: config_input
  ti_ready :: "unit result \<times> meanwhile"
  ti_sent :: "unit result"
  ti_sending :: meanwhile
  ti_closing :: meanwhile

record chat_input =
  ci_refresh :: config_input
  ci_refresh_error :: "py_error option" \<comment> \<open>of the products and cards, refreshed with the automation\<close>
  ci_scope :: scope_input
  ci_clock :: stage_clock
  ci_first :: config_input
  ci_item :: "nat result" \<comment> \<open>the length of the JSON of the product facts\<close>
  ci_item_wait :: meanwhile
  ci_calls :: "nat \<Rightarrow> ai_call"
  ci_recalls :: "nat \<Rightarrow> ai_call"
  ci_uniform :: real
  ci_delay :: meanwhile
  ci_second :: config_input
  ci_tries :: "nat \<Rightarrow> try_input \<times> try_input" \<comment> \<open>the two attempts for each bubble\<close>
  ci_pause :: "nat \<Rightarrow> meanwhile"

definition no_reply :: "chat_env \<Rightarrow> chat_input \<Rightarrow> string \<Rightarrow> string \<Rightarrow> string \<Rightarrow> string \<Rightarrow> finish chat_task" where
  "no_reply env inp chat item s reason = record_outcome env (sg_record (ci_clock inp)) chat item s ''assistant_no_reply'' (Silent reason)"

definition no_choice :: "chat_env \<Rightarrow> chat_input \<Rightarrow> string \<Rightarrow> string \<Rightarrow> string \<Rightarrow> string \<Rightarrow> choice chat_task" where
  "no_choice env inp chat item s reason = seq (no_reply env inp chat item s reason) (\<lambda>fin. give (Stop fin))"

definition reserve_budget :: "time \<Rightarrow> string \<Rightarrow> nat \<Rightarrow> bool chat_task" where
  "reserve_budget now chat n = act (\<lambda>w. case reserve_llm_budget now chat (PInt (int n)) (cw_usage w) of (u, r) \<Rightarrow> (w\<lparr>cw_usage := u\<rparr>, r))"

definition refuse_decision :: "chat_env \<Rightarrow> chat_input \<Rightarrow> string \<Rightarrow> string \<Rightarrow> string \<Rightarrow> ai_answer \<Rightarrow> choice chat_task" where
  "refuse_decision env inp chat item s a =
     seq (if aa_decision a = PStr ''handoff'' then set_needs_human (sg_flag (ci_clock inp)) chat True else give ())
       (\<lambda>_. no_choice env inp chat item s ''ai_decision'')"

definition similar_to_any :: "chat_env \<Rightarrow> string \<Rightarrow> string list \<Rightarrow> bool" where
  "similar_to_any env reply previous \<longleftrightarrow> list_ex (ai_replies_similar (ce_normal env) (ce_ratio env) reply) previous"

definition last_eight :: "string list \<Rightarrow> string list" where
  "last_eight xs = drop (length xs - 8) xs"

definition total_chars :: "string list \<Rightarrow> nat" where
  "total_chars xs = sum_list (map py_len xs)"

definition ask_again ::
  "chat_env \<Rightarrow> chat_input \<Rightarrow> string \<Rightarrow> string \<Rightarrow> string \<Rightarrow> nat \<Rightarrow> string list \<Rightarrow> string \<Rightarrow> choice chat_task"
where
  \<comment> \<open>The second round, after a reply too similar to a recent one\<close>
  "ask_again env inp chat item s base recent first =
     (let candidate = py_strip first; retry_recent = last_eight (recent @ [candidate]) in
      seq (reserve_budget (sg_budget (ci_clock inp)) chat (base + total_chars retry_recent)) (\<lambda>granted.
        if \<not> granted then no_choice env inp chat item s ''budget_exhausted''
        else
          seq (call_ai_with_retry env (map (ci_recalls inp) [0..<ce_attempts env])) (\<lambda>a.
            if aa_decision a \<noteq> PStr ''reply'' then refuse_decision env inp chat item s a
            else if unsafe_ai_reply (ce_loads env) (aa_reply a) then no_choice env inp chat item s ''unsafe_ai_reply''
            else (case aa_reply a of
                    PStr reply \<Rightarrow>
                      if similar_to_any env reply (candidate # recent) then no_choice env inp chat item s ''reply_recent_duplicate''
                      else give (Chosen (PStr reply) False True (aa_config a))
                  | _ \<Rightarrow> no_choice env inp chat item s ''unsafe_ai_reply''))))"

definition ask_model ::
  "chat_env \<Rightarrow> chat_input \<Rightarrow> string \<Rightarrow> string \<Rightarrow> string \<Rightarrow> nat \<Rightarrow> string list \<Rightarrow> choice chat_task"
where
  \<comment> \<open>The body of the \<^verbatim>\<open>try\<close> statement\<close>
  "ask_model env inp chat item s base recent =
     seq (call_ai_with_retry env (map (ci_calls inp) [0..<ce_attempts env])) (\<lambda>a.
       if aa_decision a \<noteq> PStr ''reply'' then refuse_decision env inp chat item s a
       else if unsafe_ai_reply (ce_loads env) (aa_reply a) then no_choice env inp chat item s ''unsafe_ai_reply''
       else (case aa_reply a of
               PStr reply \<Rightarrow>
                 if similar_to_any env reply recent then ask_again env inp chat item s base recent reply
                 else give (Chosen (PStr reply) False True (aa_config a))
             | _ \<Rightarrow> no_choice env inp chat item s ''unsafe_ai_reply''))"

definition reply_by_ai ::
  "chat_env \<Rightarrow> chat_input \<Rightarrow> string \<Rightarrow> string \<Rightarrow> string \<Rightarrow> string \<Rightarrow> (string \<times> string) list \<Rightarrow> choice chat_task"
where
  "reply_by_ai env inp chat item s content prior =
     seq (await env (ci_item_wait inp)) (\<lambda>_.
     seq (raising (ci_item inp)) (\<lambda>item_chars.
     seq (look (\<lambda>w. get_recent_assistant_replies chat 8 (cw_log w))) (\<lambda>rr.
     seq (raising rr) (\<lambda>recent.
       (let base = py_len content + item_chars + total_chars (map snd prior) in
        seq (reserve_budget (sg_budget (ci_clock inp)) chat (base + total_chars recent)) (\<lambda>granted.
          if \<not> granted then no_choice env inp chat item s ''budget_exhausted''
          else handle (ask_model env inp chat item s base recent)
                 (\<lambda>e. if e = CancelledError then fail e else no_choice env inp chat item s ''ai_error'')))))))"

section \<open>The choice of a reply\<close>

definition prior_context :: "nat \<Rightarrow> string \<Rightarrow> string \<Rightarrow> chat_log \<Rightarrow> (string \<times> string) list" where
  "prior_context n chat content l =
     (let ctx = get_context_by_chat n chat l in
      if ctx \<noteq> [] \<and> last ctx = (''user'', content) then butlast ctx else ctx)"

definition reply_without_rule ::
  "chat_env \<Rightarrow> chat_input \<Rightarrow> string \<Rightarrow> string \<Rightarrow> string \<Rightarrow> string \<Rightarrow> choice chat_task"
where
  "reply_without_rule env inp chat item s content =
     seq (look (\<lambda>w. (au_mode (cw_auto w), au_settings (cw_auto w), prior_context (ce_history env) chat content (cw_log w))))
       (\<lambda>(mode, st, prior).
         if mode = RulesOnly then
           (if \<not> st_rules_enabled st then no_choice env inp chat item s ''rules_disabled''
            else if py_strip (st_first_reply st) \<noteq> [] \<and> \<not> list_ex (\<lambda>m. fst m = ''user'') prior
            then give (Chosen (PStr (py_strip (st_first_reply st))) False False PNone)
            else if py_strip (st_fallback_reply st) \<noteq> [] then give (Chosen (PStr (py_strip (st_fallback_reply st))) False False PNone)
            else no_choice env inp chat item s ''no_rule_match'')
         else if \<not> st_ai_enabled st then no_choice env inp chat item s ''ai_disabled''
         else if \<not> ce_bot env then no_choice env inp chat item s ''ai_configuration_invalid''
         else reply_by_ai env inp chat item s content prior)"

definition choose_reply ::
  "chat_env \<Rightarrow> chat_input \<Rightarrow> string \<Rightarrow> string \<Rightarrow> string \<Rightarrow> string \<Rightarrow> choice chat_task"
where
  "choose_reply env inp chat item s content =
     seq (look (\<lambda>w. if st_rules_enabled (au_settings (cw_auto w)) then match_reply_rule (ce_casefold env) (cw_auto w) content item else None))
       (\<lambda>rule. case rule of
          Some reply \<Rightarrow> give (Chosen (PStr reply) True False PNone)
        | None \<Rightarrow> reply_without_rule env inp chat item s content)"

section \<open>Sending\<close>

record draft_plan =
  dp_chat :: string
  dp_to :: string
  dp_item :: string
  dp_source :: string \<comment> \<open>of the buyer's message\<close>
  dp_ai :: bool
  dp_config :: pyval
  dp_revision :: string

definition ensure_ai_reply_ready :: "chat_env \<Rightarrow> unit result \<times> meanwhile \<Rightarrow> unit chat_task" where
  "ensure_ai_reply_ready env ready =
     seq (look (\<lambda>w. ce_bot env \<and> au_mode (cw_auto w) = RulesAi)) (\<lambda>ok.
       if \<not> ok then fail (AutomationReplySuppressed ''ai_readiness_unavailable'')
       else
         seq (await env (snd ready)) (\<lambda>_.
           case fst ready of
             Inr _ \<Rightarrow> give ()
           | Inl CancelledError \<Rightarrow> fail CancelledError
           | Inl _ \<Rightarrow> fail (AutomationReplySuppressed ''ai_readiness_failed'')))"

definition verify_automatic_reply :: "chat_env \<Rightarrow> draft_plan \<Rightarrow> try_input \<Rightarrow> unit chat_task" where
  \<comment> \<open>\<^verbatim>\<open>verify_automatic_reply_before_attempt\<close>\<close>
  "verify_automatic_reply env dp ti =
     seq (customer_conversation_scope env (ti_scope ti) (dp_chat dp) (dp_item dp)) (\<lambda>scope.
       if scope \<noteq> Owned then fail (AutomationReplySuppressed ''not_verified_seller'')
       else
         seq (automatic_reply_suppression_reason env (ti_refresh ti) (dp_chat dp)) (\<lambda>reason.
           case reason of
             Some x \<Rightarrow> fail (AutomationReplySuppressed x)
           | None \<Rightarrow>
               seq (revision_now env) (\<lambda>rev.
                 if rev \<noteq> Some (dp_revision dp) then fail (AutomationReplySuppressed ''automation_config_changed'')
                 else if dp_ai dp then ensure_ai_reply_ready env (ti_ready ti) else give ())))"

definition forbid_manual :: "chat_env \<Rightarrow> time \<Rightarrow> string \<Rightarrow> unit chat_task" where
  "forbid_manual env now chat =
     seq (manual_now env now chat) (\<lambda>b. if b then fail (ManualTakeoverError ''chat entered manual mode'') else give ())"

definition message_key :: "draft_plan \<Rightarrow> nat \<Rightarrow> string" where
  "message_key dp index = ''reply:'' @ dp_source dp @ (if index = 0 then [] else '':'' @ str_nat index)"

definition try_send :: "chat_env \<Rightarrow> draft_plan \<Rightarrow> nat \<Rightarrow> string \<Rightarrow> try_input \<Rightarrow> unit chat_task" where
  \<comment> \<open>One round of the loop of \<^verbatim>\<open>send_text_reliably\<close>\<close>
  "try_send env dp index bubble ti =
     seq (forbid_manual env (ti_first_look ti) (dp_chat dp)) (\<lambda>_.
     seq (await env (ti_waiting ti)) (\<lambda>_.
       case ti_connect ti of
         Some e \<Rightarrow> fail e
       | None \<Rightarrow>
           seq (forbid_manual env (ti_second_look ti) (dp_chat dp)) (\<lambda>_.
           seq (if ti_socket ti then verify_automatic_reply env dp ti else fail (ConnectionError ''websocket is unavailable'')) (\<lambda>_.
           seq (emit (\<lambda>w. Said \<lparr>re_key = message_key dp index, re_chat = dp_chat dp, re_to = dp_to dp, re_text = bubble, re_state = w\<rparr>)) (\<lambda>_.
           seq (await env (ti_sending ti)) (\<lambda>_. raising (ti_sent ti)))))))"

definition send_bubble :: "chat_env \<Rightarrow> draft_plan \<Rightarrow> nat \<Rightarrow> string \<Rightarrow> try_input \<times> try_input \<Rightarrow> unit chat_task" where
  "send_bubble env dp index bubble tries =
     handle (try_send env dp index bubble (fst tries)) (\<lambda>e.
       if gives_up e then fail e
       else seq (await env (ti_closing (fst tries))) (\<lambda>_. try_send env dp index bubble (snd tries)))"

fun send_bubbles :: "chat_env \<Rightarrow> draft_plan \<Rightarrow> chat_input \<Rightarrow> nat \<Rightarrow> string list \<Rightarrow> unit chat_task" where
  "send_bubbles env dp inp index [] = give ()"
| "send_bubbles env dp inp index (b # bs) =
     seq (send_bubble env dp index b (ci_tries inp index)) (\<lambda>_.
     seq (if bs = [] then give () else await env (ci_pause inp index)) (\<lambda>_. send_bubbles env dp inp (index + 1) bs))"

definition on_provenance :: "(provenance_row list \<Rightarrow> (provenance_row list, 'a) outcome) \<Rightarrow> 'a chat_task" where
  "on_provenance f = act (\<lambda>w. case f (cw_provenance w) of (t, r) \<Rightarrow> (w\<lparr>cw_provenance := t\<rparr>, r))"

definition conclude_reply :: "chat_env \<Rightarrow> draft_plan \<Rightarrow> chat_input \<Rightarrow> string \<Rightarrow> string \<Rightarrow> finish chat_task" where
  "conclude_reply env dp inp s bot_reply =
     seq (on_log (complete_assistant_reply (sg_close (ci_clock inp)) s (Some bot_reply))) (\<lambda>_.
     seq (forget_origin s) (\<lambda>_.
     seq (change (\<lambda>w. w\<lparr>cw_replies := fst (mark_automation_reply_sent (sg_close (ci_clock inp)) (dp_chat dp) None (cw_replies w))\<rparr>)) (\<lambda>_.
     seq (set_needs_human (sg_flag (ci_clock inp)) (dp_chat dp) False) (\<lambda>_. give Answered))))"

definition send_draft :: "chat_env \<Rightarrow> draft_plan \<Rightarrow> chat_input \<Rightarrow> string \<Rightarrow> string \<Rightarrow> finish chat_task" where
  \<comment> \<open>From \<^verbatim>\<open>_store_assistant_draft_provenance\<close> to the end\<close>
  "send_draft env dp inp s reply =
     seq (on_provenance (store_assistant_draft_provenance (sg_store (ci_clock inp)) s (if dp_ai dp then ByAi else ByRule) (dp_config dp) (dp_revision dp))) (\<lambda>_.
     seq (on_log (prepare_assistant_reply (sg_prepare (ci_clock inp)) (dp_chat dp) (ce_me env) (dp_item dp) reply s)) (\<lambda>draft.
       (let bot_reply = ao_content draft; bubbles = (if dp_ai dp then split_reply_bubbles bot_reply else [bot_reply]) in
        seq (handle (seq (send_bubbles env dp inp 0 bubbles) (\<lambda>_. give Answered)) (\<lambda>e.
               case e of
                 ManualTakeoverError _ \<Rightarrow> cancel_draft (sg_close (ci_clock inp)) s (CalledOff ''manual_mode'')
               | AutomationReplySuppressed reason \<Rightarrow> cancel_draft (sg_close (ci_clock inp)) s (CalledOff reason)
               | _ \<Rightarrow> fail e))
          (\<lambda>fin. if fin = Answered then conclude_reply env dp inp s bot_reply else give fin))))"

section \<open>A message of a buyer\<close>

definition MAX_REPLY_CHARS :: nat where "MAX_REPLY_CHARS = 4096"

definition replayed_choice :: "chat_env \<Rightarrow> chat_input \<Rightarrow> string \<Rightarrow> string \<Rightarrow> string \<Rightarrow> source_view \<Rightarrow> (choice \<times> string) chat_task" where
  \<comment> \<open>A pending draft is sent again if it is known where it came from and the automation has not changed\<close>
  "replayed_choice env inp chat item s draft =
     seq (look (\<lambda>w. (assistant_draft_provenance s (cw_provenance w), loaded_automation_revision (ce_snapshot_hash env) (cw_auto w)))) (\<lambda>(pv, loaded).
       case pv of
         None \<Rightarrow> seq (suppress_reply env (sg_record (ci_clock inp)) chat item s True ''draft_provenance_missing'') (\<lambda>fin. give (Stop fin, []))
       | Some p \<Rightarrow>
           (case pv_automation p of
              Some r \<Rightarrow>
                if hex64 r \<and> loaded = Some r
                then give (Chosen (PStr (sv_content draft)) (pv_origin p = ByRule) (pv_origin p = ByAi)
                       (case pv_config p of None \<Rightarrow> PNone | Some i \<Rightarrow> PInt i), r)
                else seq (suppress_reply env (sg_record (ci_clock inp)) chat item s True ''automation_config_changed'') (\<lambda>fin. give (Stop fin, []))
            | None \<Rightarrow> seq (suppress_reply env (sg_record (ci_clock inp)) chat item s True ''automation_config_changed'') (\<lambda>fin. give (Stop fin, []))))"

definition new_choice :: "chat_env \<Rightarrow> chat_input \<Rightarrow> string \<Rightarrow> string \<Rightarrow> string \<Rightarrow> string \<Rightarrow> (choice \<times> string) chat_task" where
  "new_choice env inp chat item s content =
     seq (revision_now env) (\<lambda>rev.
       case rev of
         Some r \<Rightarrow>
           if hex64 r then seq (choose_reply env inp chat item s content) (\<lambda>c. give (c, r))
           else seq (suppress_reply env (sg_record (ci_clock inp)) chat item s False ''automation_revision_invalid'') (\<lambda>fin. give (Stop fin, []))
       | None \<Rightarrow> seq (suppress_reply env (sg_record (ci_clock inp)) chat item s False ''automation_revision_invalid'') (\<lambda>fin. give (Stop fin, [])))"

definition before_draft ::
  "chat_env \<Rightarrow> chat_input \<Rightarrow> draft_plan \<Rightarrow> string \<Rightarrow> bool \<Rightarrow> string \<Rightarrow> finish chat_task"
where
  \<comment> \<open>The checks after the delay\<close>
  "before_draft env inp dp s drafted reply =
     (let suppress = suppress_reply env (sg_record (ci_clock inp)) (dp_chat dp) (dp_item dp) s drafted in
      seq (automatic_reply_suppression_reason env (ci_second inp) (dp_chat dp)) (\<lambda>reason.
        case reason of
          Some x \<Rightarrow> suppress x
        | None \<Rightarrow>
            seq (revision_now env) (\<lambda>rev.
              if rev \<noteq> Some (dp_revision dp) then suppress ''automation_config_changed''
              else if dp_ai dp \<and> \<not> valid_config (dp_config dp) then suppress ''ai_config_revision_invalid''
              else send_draft env dp inp s reply)))"

definition deliver_choice ::
  "chat_env \<Rightarrow> chat_input \<Rightarrow> draft_plan \<Rightarrow> string \<Rightarrow> bool \<Rightarrow> bool \<Rightarrow> pyval \<Rightarrow> finish chat_task"
where
  "deliver_choice env inp dp s drafted by_rule v =
     (let silent = no_reply env inp (dp_chat dp) (dp_item dp) s in
      case v of
        PStr raw \<Rightarrow>
          (let reply = py_strip raw in
           if reply = [] then silent ''empty_reply''
           else if py_len reply > MAX_REPLY_CHARS \<and> \<not> by_rule \<and> \<not> drafted then silent ''reply_too_long''
           else
             (let cut = py_take MAX_REPLY_CHARS reply in
              seq (look (\<lambda>w. if drafted then 0 else human_reply_delay (au_settings (cw_auto w)) (ci_uniform inp))) (\<lambda>delay.
              seq (if delay = 0 then give () else await env (ci_delay inp)) (\<lambda>_. before_draft env inp dp s drafted cut))))
      | _ \<Rightarrow> silent ''empty_reply'')"

definition reply_source :: "string \<Rightarrow> string" where
  \<comment> \<open>\<^verbatim>\<open>assistant_source\<close>\<close>
  "reply_source source = ''assistant:'' @ source"

definition answer_buyer ::
  "chat_env \<Rightarrow> chat_input \<Rightarrow> string \<Rightarrow> string \<Rightarrow> string \<Rightarrow> string \<Rightarrow> string \<Rightarrow> source_view option \<Rightarrow> finish chat_task"
where
  \<comment> \<open>A message that has no outcome yet, or a pending draft\<close>
  "answer_buyer env inp chat sender item content source draft =
     (let s = reply_source source in
      seq (manual_now env (sg_manual (ci_clock inp)) chat) (\<lambda>manual.
        if manual
        then (if draft \<noteq> None then cancel_draft (sg_record (ci_clock inp)) s TakenOver
              else record_outcome env (sg_record (ci_clock inp)) chat item s ''assistant_cancelled'' TakenOver)
        else
          seq (automatic_reply_suppression_reason env (ci_first inp) chat) (\<lambda>reason.
            case reason of
              Some x \<Rightarrow> suppress_reply env (sg_record (ci_clock inp)) chat item s (draft \<noteq> None) x
            | None \<Rightarrow>
                seq (case draft of Some v \<Rightarrow> replayed_choice env inp chat item s v | None \<Rightarrow> new_choice env inp chat item s content) (\<lambda>(c, rev).
                  case c of
                    Stop fin \<Rightarrow> give fin
                  | Chosen v by_rule by_ai config \<Rightarrow>
                      deliver_choice env inp \<lparr>dp_chat = chat, dp_to = sender, dp_item = item, dp_source = source, dp_ai = by_ai,
                        dp_config = config, dp_revision = rev\<rparr> s (draft \<noteq> None) by_rule v))))"

definition same_message :: "string \<Rightarrow> string \<Rightarrow> string \<Rightarrow> string \<Rightarrow> source_view option \<Rightarrow> bool" where
  "same_message chat sender item content v =
     (case v of None \<Rightarrow> False | Some x \<Rightarrow> belongs chat sender item x \<and> sv_role x = ''user'' \<and> sv_content x = content)"

definition owned_message ::
  "chat_env \<Rightarrow> chat_input \<Rightarrow> string \<Rightarrow> string \<Rightarrow> string \<Rightarrow> string \<Rightarrow> string \<Rightarrow> finish chat_task"
where
  \<comment> \<open>A customer's message: what its source's state allows\<close>
  "owned_message env inp chat sender item content source =
     seq (look (\<lambda>w. get_source_message (reply_source source) (cw_log w))) (\<lambda>draft.
       case map_option sv_role draft of
         None \<Rightarrow> answer_buyer env inp chat sender item content source None
       | Some role \<Rightarrow>
           if role \<in> set TERMINAL_ASSISTANT_ROLES then give AlreadyDone
           else if role \<noteq> ''assistant_pending'' then fail (RuntimeError ''assistant reply source has invalid state'')
           else answer_buyer env inp chat sender item content source draft)"

definition process_buyer_chat ::
  "chat_env \<Rightarrow> chat_input \<Rightarrow> string \<Rightarrow> string \<Rightarrow> string \<Rightarrow> string \<Rightarrow> string \<Rightarrow> media_arg \<Rightarrow> string \<Rightarrow> finish chat_task"
where
  "process_buyer_chat env inp chat sender item content source media ctype =
     (let s = reply_source source; clock = ci_clock inp in
      seq (refresh_config env (ci_refresh inp)) (\<lambda>_.
      seq (case ci_refresh_error inp of None \<Rightarrow> give () | Some e \<Rightarrow> fail e) (\<lambda>_.
      seq (customer_conversation_scope env (ci_scope inp) chat item) (\<lambda>scope.
        if scope = Foreign then cancel_pending (sg_record clock) s NotCustomer
        else
          seq (act (\<lambda>w. case add_message_by_chat (ce_py env) (ce_history env) (sg_add clock) chat sender item ''user'' content (Some source) ctype media (cw_log w) of
                      (l, b) \<Rightarrow> (w\<lparr>cw_log := l\<rparr>, Inr b))) (\<lambda>inserted.
          seq (look (\<lambda>w. inserted \<or> same_message chat sender item content (get_source_message source (cw_log w)))) (\<lambda>ok.
            if \<not> ok then fail (RuntimeError ''buyer message source collision'')
            else if scope \<noteq> Owned then cancel_pending (sg_record clock) s Unconfirmed
            else owned_message env inp chat sender item content source))))))"

end
