(* ===== verification/Reply_Settled.thy ===== *)
theory Reply_Settled
  imports Reply_Automation
begin

text \<open>
  A message that was handled has an outcome: whichever way \<open>process_buyer_chat\<close> returns for a customer's message, its source is
  closed in the ledger.
\<close>

section \<open>Closing operations\<close>

definition role_of :: "string \<Rightarrow> chat_log \<Rightarrow> string option" where
  "role_of s l = map_option sv_role (get_source_message s l)"

definition source_closed :: "string \<Rightarrow> chat_log \<Rightarrow> bool" where
  "source_closed s l \<longleftrightarrow> (\<exists>r \<in> set TERMINAL_ASSISTANT_ROLES. role_of s l = Some r)"

lemma role_of_eq:
  "s \<noteq> [] \<Longrightarrow> role_of s l = (case known_message s l of Some m \<Rightarrow> Some (me_role m) | None \<Rightarrow> map_option ao_role (known_outcome s l))"
  by (auto simp: role_of_def get_source_message_def stored_view_def option.map_comp o_def split: option.split)

lemma stored_role: "stored_view s l = Some v \<Longrightarrow> s \<noteq> [] \<Longrightarrow> role_of s l = Some (sv_role v)"
  by (simp add: role_of_def get_source_message_def)

lemma record_closes:
  assumes "record_assistant_outcome now chat user item s role content l = (l', Inr oc)"
  shows "source_closed s l'"
proof -
  let ?l0 = "prune_assistant_outcomes now l"
  let ?new = "(pending_message now chat user item content s)\<lparr>me_role := role\<rparr>"
  let ?l1 = "?l0\<lparr>lg_messages := insert_message ?new (lg_messages ?l0)\<rparr>"
  have s: "s \<noteq> []" "role \<in> {''assistant_cancelled'', ''assistant_no_reply''}"
    using assms by (auto simp: record_assistant_outcome_def split: if_splits)
  obtain m where m: "known_message s ?l1 = Some m" "me_role m = role" and l': "known_message s l' = known_message s ?l1"
    using assms s by (auto simp: record_assistant_outcome_def Let_def split: option.splits if_splits)
  then have "role_of s l' = Some role" using s(1) by (simp add: role_of_eq)
  then show ?thesis using s(2) by (auto simp: source_closed_def TERMINAL_ASSISTANT_ROLES_def)
qed

lemma closing_role:
  assumes v: "stored_view s l = Some v" "sv_role v = ''assistant_pending''" and s: "s \<noteq> []"
    and f: "\<And>m. me_source (f m) = me_source m \<and> me_role (f m) = role" and g: "\<And>oc. ao_source (g oc) = ao_source oc \<and> ao_role (g oc) = role"
    and P: "\<And>m. me_source m = Some s \<Longrightarrow> me_role m = ''assistant_pending'' \<Longrightarrow> P m" and role: "sv_role v' = role"
  shows "role_of s (close_outcome now s v' g (write_messages P f l)) = Some role"
proof -
  let ?l = "close_outcome now s v' g (write_messages P f l)"
  have msg: "known_message s ?l = map_option (\<lambda>m. if P m then f m else m) (known_message s l)"
    using known_write [of f s P l] f by (simp add: close_outcome_def)
  have out: "known_outcome s ?l = Some (case known_outcome s (write_messages P f l) of None \<Rightarrow> outcome_from now s v' | Some oc \<Rightarrow> g oc)"
    using known_close [of g s now s v' "write_messages P f l"] g by simp
  show ?thesis
  proof (cases "known_message s l")
    case (Some m)
    then have "me_source m = Some s" "me_role m = ''assistant_pending''" using v by (auto simp: known_message_def stored_view_def dest: find_SomeD)
    with Some P f s show ?thesis by (simp add: role_of_eq msg)
  next
    case None
    with g role s show ?thesis by (auto simp: role_of_eq msg out split: option.split)
  qed
qed

lemma cancel_closes:
  assumes "cancel_assistant_reply now s l = (l', Inr u)" "s \<noteq> []"
  shows "source_closed s l'"
proof -
  let ?l0 = "prune_assistant_outcomes now l"
  obtain v where v: "stored_view s ?l0 = Some v"
    using assms(1) by (auto simp: cancel_assistant_reply_def Let_def split: option.splits)
  show ?thesis
  proof (cases "sv_role v \<in> set TERMINAL_ASSISTANT_ROLES")
    case True
    then have "l' = ?l0" using assms(1) v by (simp add: cancel_assistant_reply_def)
    with True stored_role [OF v assms(2)] show ?thesis by (auto simp: source_closed_def)
  next
    case False
    then have p: "sv_role v = ''assistant_pending''" and l': "l' = close_outcome now s (v\<lparr>sv_role := ''assistant_cancelled''\<rparr>)
          (\<lambda>oc. oc\<lparr>ao_role := ''assistant_cancelled'', ao_updated := now\<rparr>)
          (write_messages (\<lambda>m. me_source m = Some s \<and> me_role m = ''assistant_pending'') (\<lambda>m. m\<lparr>me_role := ''assistant_cancelled''\<rparr>) ?l0)"
      using assms(1) v by (auto simp: cancel_assistant_reply_def Let_def split: if_splits)
    have "role_of s l' = Some ''assistant_cancelled''" unfolding l' by (rule closing_role [OF v p assms(2)]) simp_all
    then show ?thesis by (simp add: source_closed_def TERMINAL_ASSISTANT_ROLES_def)
  qed
qed

lemma complete_closes:
  assumes "complete_assistant_reply now s c l = (l', Inr u)" "s \<noteq> []"
  shows "role_of s l' = Some ''assistant''"
proof -
  let ?l0 = "prune_assistant_outcomes now l"
  obtain v where v: "stored_view s ?l0 = Some v"
    using assms(1) by (auto simp: complete_assistant_reply_def Let_def split: option.splits)
  show ?thesis
  proof (cases "sv_role v = ''assistant''")
    case True
    then have "l' = ?l0" using assms(1) v by (simp add: complete_assistant_reply_def)
    with True stored_role [OF v assms(2)] show ?thesis by simp
  next
    case False
    let ?final = "case c of None \<Rightarrow> sv_content v | Some x \<Rightarrow> x"
    from False have p: "sv_role v = ''assistant_pending''" and l': "l' = close_outcome now s (v\<lparr>sv_role := ''assistant'', sv_content := ?final\<rparr>)
          (\<lambda>oc. oc\<lparr>ao_role := ''assistant'', ao_content := ?final, ao_updated := now\<rparr>)
          (write_messages (\<lambda>m. me_source m = Some s)
             (\<lambda>m. m\<lparr>me_role := ''assistant'', me_content := (case c of None \<Rightarrow> me_content m | Some x \<Rightarrow> x)\<rparr>) ?l0)"
      using assms(1) v by (auto simp: complete_assistant_reply_def Let_def split: if_splits)
    show ?thesis unfolding l' by (rule closing_role [OF v p assms(2)]) simp_all
  qed
qed

section \<open>Tasks that close a source\<close>

definition settles :: "('a \<Rightarrow> bool) \<Rightarrow> string \<Rightarrow> 'a chat_task \<Rightarrow> bool" where
  \<comment> \<open>With a value for which \<open>D\<close> holds, the source is closed\<close>
  "settles D s m \<longleftrightarrow> triple (\<lambda>_. True) m (\<lambda>x w. D x \<longrightarrow> source_closed s (cw_log w)) (\<lambda>_ _. True) (\<lambda>_. True)"

named_theorems settling "rules for closing"

lemma settles_seq [settling]: "(\<And>x. settles D s (f x)) \<Longrightarrow> settles D s (seq m f)"
  unfolding settles_def by (rule triple_last)

lemma settles_basic [settling]: "\<not> D x \<Longrightarrow> settles D s (give x)" "settles D s (fail e)" "settles D s m \<Longrightarrow> settles D s n \<Longrightarrow> settles D s (if b then m else n)"
  by (auto simp: settles_def intro!: triple_give triple_fail)

lemma settles_handle [settling]: "settles D s m \<Longrightarrow> (\<And>e. settles D s (h e)) \<Longrightarrow> settles D s (handle m h)"
  unfolding settles_def by (rule triple_handle [where R = "\<lambda>_ _. True"]) auto

lemma settles_chain:
  assumes "triple (\<lambda>_. True) m (\<lambda>_ w. source_closed s (cw_log w)) (\<lambda>_ _. True) (\<lambda>_. True)"
    "\<And>x. holds (\<lambda>w. source_closed s (cw_log w)) (f x)"
  shows "settles D s (seq m f)"
  unfolding settles_def
proof (rule triple_weaken [OF triple_seq [OF assms(1)]])
  show "triple (\<lambda>w. source_closed s (cw_log w)) (f x) (\<lambda>_ w. source_closed s (cw_log w)) (\<lambda>_ _. True) (\<lambda>_. True)" for x
    by (rule triple_weaken [OF assms(2) [of x, unfolded holds_def]]) auto
qed auto

lemma on_log_closes:
  assumes "\<And>l l' x. f l = (l', Inr x) \<Longrightarrow> source_closed s l'"
  shows "triple (\<lambda>_. True) (on_log f) (\<lambda>_ w. source_closed s (cw_log w)) (\<lambda>_ _. True) (\<lambda>_. True)"
  unfolding on_log_def by (rule triple_act) (auto split: prod.splits dest: assms)

lemma forget_origin_closed: "holds (\<lambda>w. source_closed s (cw_log w)) (forget_origin t)"
  by (simp add: forget_origin_def holds_change)

lemma flags_closed: "holds (\<lambda>w. source_closed s (cw_log w)) (set_needs_human now chat b)"
proof -
  have flags: "role_of s (l\<lparr>lg_flags := x\<rparr>) = role_of s l" for l x
    by (simp add: role_of_def get_source_message_def stored_view_def known_message_def known_outcome_def cong: option.case_cong)
  have "role_of s (fst (set_conversation_needs_human now chat b l)) = role_of s l" for l
    by (simp add: set_conversation_needs_human_def Let_def flags)
  then show ?thesis by (simp add: set_needs_human_def holds_change source_closed_def)
qed

lemma record_settles [settling]: "settles D s (record_outcome env now chat item s role fin)"
  unfolding record_outcome_def by (rule settles_chain [OF on_log_closes holds_basic(1)]) (rule record_closes)

lemma cancel_settles [settling]: "s \<noteq> [] \<Longrightarrow> settles D s (cancel_draft now s fin)"
  unfolding cancel_draft_def
  by (rule settles_chain [OF on_log_closes]) (auto intro: cancel_closes intro!: holding forget_origin_closed)

lemma suppress_settles [settling]: "s \<noteq> [] \<Longrightarrow> settles D s (suppress_reply env now chat item s drafted reason)"
  unfolding suppress_reply_def by (auto intro!: settling)

lemma no_reply_settles [settling]: "settles D s (no_reply env inp chat item s reason)"
  unfolding no_reply_def by (rule record_settles)

lemma conclude_settles [settling]:
  assumes "s \<noteq> []"
  shows "settles D s (conclude_reply env dp inp s reply)"
  unfolding conclude_reply_def
proof (rule settles_chain [OF on_log_closes])
  show "source_closed s l'" if "complete_assistant_reply now s c l = (l', Inr x)" for now c l l' x
    using complete_closes [OF that assms] by (simp add: source_closed_def TERMINAL_ASSISTANT_ROLES_def)
qed (auto intro!: holding forget_origin_closed flags_closed holds_change)

definition stops :: "choice \<Rightarrow> bool" where
  "stops c = (case c of Stop _ \<Rightarrow> True | Chosen _ _ _ _ \<Rightarrow> False)"

lemma no_choice_settles [settling]: "settles D s (no_choice env inp chat item s reason)"
  unfolding no_choice_def settles_def
proof (rule triple_seq [where R = "\<lambda>_ w. source_closed s (cw_log w)"])
  show "triple (\<lambda>_. True) (no_reply env inp chat item s reason) (\<lambda>_ w. source_closed s (cw_log w)) (\<lambda>_ _. True) (\<lambda>_. True)"
    using no_reply_settles [of "\<lambda>_. True" s env inp chat item reason] by (simp add: settles_def)
qed (auto intro!: triple_give)

lemma refuse_settles [settling]: "settles D s (refuse_decision env inp chat item s a)"
  unfolding refuse_decision_def by (intro settling)

lemma chosen_settles [settling]: "settles stops s (give (Chosen v b c d))"
  by (rule settles_basic) (simp add: stops_def)

lemma ask_again_settles [settling]: "settles stops s (ask_again env inp chat item s base recent first)"
  unfolding ask_again_def Let_def by (intro settling) (auto intro!: settling split: pyval.split)

lemma ask_model_settles [settling]: "settles stops s (ask_model env inp chat item s base recent)"
  unfolding ask_model_def by (intro settling) (auto intro!: settling split: pyval.split)

lemma reply_by_ai_settles [settling]: "settles stops s (reply_by_ai env inp chat item s content prior)"
  unfolding reply_by_ai_def Let_def by (intro settling)

lemma reply_without_rule_settles [settling]: "settles stops s (reply_without_rule env inp chat item s content)"
  unfolding reply_without_rule_def by (intro settling) (auto intro!: settling)

lemma choose_settles: "settles stops s (choose_reply env inp chat item s content)"
  unfolding choose_reply_def by (intro settling) (auto intro!: settling split: option.split)

definition stops_first :: "choice \<times> string \<Rightarrow> bool" where
  "stops_first c = stops (fst c)"

lemma stop_settles [settling]:
  assumes "settles (\<lambda>_. True) s m"
  shows "settles stops_first s (seq m (\<lambda>fin. give (Stop fin, r)))"
  using assms unfolding settles_def by (rule triple_seq [THEN triple_weaken]) (auto intro!: triple_give)

lemma new_choice_settles: "s \<noteq> [] \<Longrightarrow> settles stops_first s (new_choice env inp chat item s content)"
proof -
  assume s: "s \<noteq> []"
  have "settles stops_first s (seq (choose_reply env inp chat item s content) (\<lambda>c. give (c, r)))" for r
    using choose_settles unfolding settles_def by (rule triple_seq) (auto intro!: triple_give simp: stops_first_def)
  then show ?thesis unfolding new_choice_def by (intro settling) (auto intro!: settling s split: option.split)
qed

lemma replayed_settles: "s \<noteq> [] \<Longrightarrow> settles stops_first s (replayed_choice env inp chat item s draft)"
  unfolding replayed_choice_def
  by (intro settling) (auto intro!: settling simp: stops_first_def stops_def split: option.split)

section \<open>Handling a message\<close>

lemma send_draft_settles [settling]:
  assumes s: "s \<noteq> []"
  shows "settles D s (send_draft env dp inp s reply)"
proof -
  have sent: "settles (\<lambda>fin. fin \<noteq> Answered) s
      (handle (seq (send_bubbles env dp inp 0 bs) (\<lambda>_. give Answered))
        (\<lambda>e. case e of ManualTakeoverError _ \<Rightarrow> cancel_draft now s (CalledOff ''manual_mode'')
            | AutomationReplySuppressed reason \<Rightarrow> cancel_draft now s (CalledOff reason) | _ \<Rightarrow> fail e))" for bs now
    by (intro settling) (auto intro!: settling s split: py_error.split)
  have rest: "triple (\<lambda>w. fin \<noteq> Answered \<longrightarrow> source_closed s (cw_log w)) (if fin = Answered then conclude_reply env dp inp s x else give fin)
      (\<lambda>y w. D y \<longrightarrow> source_closed s (cw_log w)) (\<lambda>_ _. True) (\<lambda>_. True)" for fin x
  proof (cases "fin = Answered")
    case True
    have "settles D s (conclude_reply env dp inp s x)" using s by (rule conclude_settles)
    then show ?thesis unfolding settles_def using True by (simp add: triple_def)
  qed (auto intro!: triple_give)
  have "settles D s (seq (handle (seq (send_bubbles env dp inp 0 bs) (\<lambda>_. give Answered))
        (\<lambda>e. case e of ManualTakeoverError _ \<Rightarrow> cancel_draft now s (CalledOff ''manual_mode'')
            | AutomationReplySuppressed reason \<Rightarrow> cancel_draft now s (CalledOff reason) | _ \<Rightarrow> fail e))
      (\<lambda>fin. if fin = Answered then conclude_reply env dp inp s x else give fin))" for bs now x
    using sent unfolding settles_def by (rule triple_seq) (rule rest)
  then show ?thesis unfolding send_draft_def Let_def by (rule settles_seq [OF settles_seq])
qed

lemma before_draft_settles [settling]: "s \<noteq> [] \<Longrightarrow> settles D s (before_draft env inp dp s drafted reply)"
  unfolding before_draft_def Let_def by (intro settling) (auto intro!: settling split: option.split)

lemma deliver_settles [settling]: "s \<noteq> [] \<Longrightarrow> settles D s (deliver_choice env inp dp s drafted by_rule v)"
  unfolding deliver_choice_def Let_def by (cases v) (auto intro!: settling)

lemma reply_source_nonempty [simp]: "reply_source source \<noteq> []"
  by (simp add: reply_source_def)

lemma answer_settles [settling]: "settles D (reply_source source) (answer_buyer env inp chat sender item content source draft)"
proof -
  let ?s = "reply_source source"
  have go: "settles D ?s (seq m (\<lambda>(c, rev). case c of Stop fin \<Rightarrow> give fin
      | Chosen v by_rule by_ai config \<Rightarrow> deliver_choice env inp \<lparr>dp_chat = chat, dp_to = sender, dp_item = item, dp_source = source, dp_ai = by_ai,
          dp_config = config, dp_revision = rev\<rparr> ?s drafted by_rule v))"
    if "settles stops_first ?s m" for m drafted
    using that unfolding settles_def
  proof (rule triple_seq)
    fix x :: "choice \<times> string"
    obtain c rev where x: "x = (c, rev)" by (cases x)
    show "triple (\<lambda>w. stops_first x \<longrightarrow> source_closed ?s (cw_log w)) (case x of (c, rev) \<Rightarrow> case c of Stop fin \<Rightarrow> give fin
        | Chosen v by_rule by_ai config \<Rightarrow> deliver_choice env inp \<lparr>dp_chat = chat, dp_to = sender, dp_item = item, dp_source = source, dp_ai = by_ai,
          dp_config = config, dp_revision = rev\<rparr> ?s drafted by_rule v) (\<lambda>y w. D y \<longrightarrow> source_closed ?s (cw_log w)) (\<lambda>_ _. True) (\<lambda>_. True)"
    proof (cases c)
      case (Stop fin)
      then show ?thesis by (auto simp: x stops_first_def stops_def intro!: triple_give)
    next
      case (Chosen v by_rule by_ai config)
      have "settles D ?s (deliver_choice env inp \<lparr>dp_chat = chat, dp_to = sender, dp_item = item, dp_source = source, dp_ai = by_ai,
          dp_config = config, dp_revision = rev\<rparr> ?s drafted by_rule v)" by (rule deliver_settles) simp
      then show ?thesis unfolding settles_def by (simp add: x Chosen triple_def)
    qed
  qed
  have "settles stops_first ?s (case draft of Some v \<Rightarrow> replayed_choice env inp chat item ?s v | None \<Rightarrow> new_choice env inp chat item ?s content)"
    by (auto intro!: replayed_settles new_choice_settles split: option.split)
  from go [OF this, of "draft \<noteq> None"] show ?thesis
    unfolding answer_buyer_def Let_def by (intro settling) (auto intro!: settling split: option.split)
qed

definition customer :: "finish \<Rightarrow> bool" where
  "customer fin \<longleftrightarrow> fin \<noteq> NotCustomer \<and> fin \<noteq> Unconfirmed"

lemma cancel_pending_settles [settling]: "s \<noteq> [] \<Longrightarrow> \<not> D fin \<Longrightarrow> settles D s (cancel_pending now s fin)"
  unfolding cancel_pending_def by (intro settling)

lemma closed_view: "Some v = get_source_message s l \<Longrightarrow> sv_role v \<in> set TERMINAL_ASSISTANT_ROLES \<Longrightarrow> source_closed s l"
  by (auto simp: source_closed_def role_of_def dest: sym)

lemma owned_settles [settling]: "settles customer (reply_source source) (owned_message env inp chat sender item content source)"
  unfolding owned_message_def settles_def
proof (rule triple_seq [where R = "\<lambda>draft w. draft = get_source_message (reply_source source) (cw_log w)"])
  let ?s = "reply_source source"
  fix draft
  have answer: "triple P (answer_buyer env inp chat sender item content source d) (\<lambda>y w. customer y \<longrightarrow> source_closed ?s (cw_log w)) (\<lambda>_ _. True) (\<lambda>_. True)" for P d
    using answer_settles [of customer source env inp chat sender item content d] unfolding settles_def by (simp add: triple_def)
  show "triple (\<lambda>w. draft = get_source_message ?s (cw_log w))
      (case map_option sv_role draft of None \<Rightarrow> answer_buyer env inp chat sender item content source None
       | Some role \<Rightarrow> if role \<in> set TERMINAL_ASSISTANT_ROLES then give AlreadyDone
           else if role \<noteq> ''assistant_pending'' then fail (RuntimeError ''assistant reply source has invalid state'')
           else answer_buyer env inp chat sender item content source draft)
      (\<lambda>y w. customer y \<longrightarrow> source_closed ?s (cw_log w)) (\<lambda>_ _. True) (\<lambda>_. True)"
  proof (cases draft)
    case (Some v)
    then show ?thesis using answer closed_view by (simp add: triple_if triple_give triple_fail)
  next
    case None
    show ?thesis using answer [of _ None] by (simp only: None option.map option.case)
  qed
qed (auto intro!: triple_look)

lemma process_settles: "settles customer (reply_source source) (process_buyer_chat env inp chat sender item content source media ctype)"
  unfolding process_buyer_chat_def Let_def by (intro settling) (simp_all add: customer_def)

end
