(* ===== verification/Reply_Steady.thy ===== *)
theory Reply_Steady
  imports Reply_Automation
begin

text \<open>
  What the handling of a message does to the ledger of replies are operations of the ledger: a property of the ledger that
  the operations of a set keep is kept by every message handled with operations of the set, whatever other tasks do with them in between.
\<close>

type_synonym timed_op = "time \<times> ledger_op"

definition calm :: "(timed_op \<Rightarrow> bool) \<Rightarrow> meanwhile \<Rightarrow> bool" where
  "calm R mw \<longleftrightarrow> list_all R (mw_ledger mw)"

definition calm_try :: "(timed_op \<Rightarrow> bool) \<Rightarrow> try_input \<Rightarrow> bool" where
  "calm_try R ti \<longleftrightarrow> calm R (ti_waiting ti) \<and> calm R (si_waiting (ti_scope ti)) \<and> calm R (snd (ti_ready ti)) \<and> calm R (ti_sending ti) \<and> calm R (ti_closing ti)"

definition calm_input :: "(timed_op \<Rightarrow> bool) \<Rightarrow> chat_input \<Rightarrow> bool" where
  "calm_input R inp \<longleftrightarrow> calm R (si_waiting (ci_scope inp)) \<and> calm R (ci_item_wait inp) \<and> calm R (ci_delay inp) \<and>
     (\<forall>i. calm R (snd (ci_calls inp i)) \<and> calm R (snd (ci_recalls inp i)) \<and> calm R (ci_pause inp i) \<and>
          calm_try R (fst (ci_tries inp i)) \<and> calm_try R (snd (ci_tries inp i)))"

definition own_ops :: "(timed_op \<Rightarrow> bool) \<Rightarrow> stage_clock \<Rightarrow> string \<Rightarrow> bool" where
  \<comment> \<open>The operations a message of this source may perform\<close>
  "own_ops R sg source \<longleftrightarrow>
     (let s = reply_source source in
      (\<forall>chat user item role c. R (sg_record sg, LRecord chat user item s role c)) \<and> R (sg_record sg, LCancel s) \<and> R (sg_close sg, LCancel s) \<and>
      (\<forall>c. R (sg_close sg, LComplete s (Some c))) \<and> (\<forall>chat user item c. R (sg_prepare sg, LPrepare chat user item c s)) \<and>
      (\<forall>chat user item role c ctype media. R (sg_add sg, LMessage chat user item role c (Some source) ctype media)) \<and>
      (\<forall>chat b. R (sg_flag sg, LNeedsHuman chat b)))"

lemma others_sel [simp]:
  "cw_log (others env mw w) = run_ledger (ce_py env) (ce_history env) (mw_ledger mw) (cw_log w)"
  by (cases "mw_store mw"; cases "mw_tables mw"; cases "mw_auto mw") (auto simp: others_def Let_def)

locale steady_log =
  fixes env :: chat_env and R :: "timed_op \<Rightarrow> bool" and J :: "chat_log \<Rightarrow> bool"
  assumes steady: "J db \<Longrightarrow> R (now, opr) \<Longrightarrow> J (ledger_apply (ce_py env) (ce_history env) now opr db)"
begin

lemma steady_run: "list_all R ops \<Longrightarrow> J db \<Longrightarrow> J (run_ledger (ce_py env) (ce_history env) ops db)"
proof (induction ops arbitrary: db)
  case (Cons e ops)
  then show ?case using steady by (cases e) auto
qed simp

lemma await_holds [holding]: "calm R mw \<Longrightarrow> holds (\<lambda>w. J (cw_log w)) (await env mw)"
  by (simp add: await_def holds_change calm_def steady_run)

lemma other_act: "(\<And>w. cw_log (fst (h w)) = cw_log w) \<Longrightarrow> holds (\<lambda>w. J (cw_log w)) (act h)"
  by (rule holds_act) simp

lemma on_log_holds: "(\<And>l. J l \<Longrightarrow> J (fst (f l))) \<Longrightarrow> holds (\<lambda>w. J (cw_log w)) (on_log f)"
  unfolding on_log_def by (rule holds_act) (simp split: prod.split, metis fst_conv)

lemma quiet_tasks [holding]:
  "holds (\<lambda>w. J (cw_log w)) (forget_origin s)" "holds (\<lambda>w. J (cw_log w)) (on_provenance p)" "holds (\<lambda>w. J (cw_log w)) (on_auto a)"
  "holds (\<lambda>w. J (cw_log w)) (manual_now env now chat)" "holds (\<lambda>w. J (cw_log w)) (reserve_budget now chat k)"
  "holds (\<lambda>w. J (cw_log w)) (keep_scope env si chat item scope)" "holds (\<lambda>w. J (cw_log w)) (revision_now env)"
  unfolding forget_origin_def on_provenance_def on_auto_def manual_now_def reserve_budget_def keep_scope_def revision_now_def
  by (intro holding other_act holds_change; simp split: prod.split)+

lemma refresh_holds [holding]: "holds (\<lambda>w. J (cw_log w)) (refresh_config env rf)"
  unfolding refresh_config_def by (intro holding)

lemma suppression_holds [holding]: "holds (\<lambda>w. J (cw_log w)) (automatic_reply_suppression_reason env rf chat)"
  unfolding automatic_reply_suppression_reason_def by (intro holding) (auto intro!: holding split: option.split)

lemma ask_scope_holds [holding]: "calm R (si_waiting si) \<Longrightarrow> holds (\<lambda>w. J (cw_log w)) (ask_scope env si chat item)"
  unfolding ask_scope_def by (intro holding) (auto intro!: holding split: sum.split py_error.split)

lemma scope_holds [holding]: "calm R (si_waiting si) \<Longrightarrow> holds (\<lambda>w. J (cw_log w)) (customer_conversation_scope env si chat item)"
  unfolding customer_conversation_scope_def by (intro holding) (auto intro!: holding split: option.split)

lemma ready_holds [holding]: "calm R (snd ready) \<Longrightarrow> holds (\<lambda>w. J (cw_log w)) (ensure_ai_reply_ready env ready)"
  unfolding ensure_ai_reply_ready_def by (intro holding) (auto intro!: holding split: sum.split py_error.split)

lemma verify_holds [holding]: "calm_try R ti \<Longrightarrow> holds (\<lambda>w. J (cw_log w)) (verify_automatic_reply env dp ti)"
  unfolding verify_automatic_reply_def by (intro holding) (auto intro!: holding simp: calm_try_def split: option.split)

lemma forbid_holds [holding]: "holds (\<lambda>w. J (cw_log w)) (forbid_manual env now chat)"
  unfolding forbid_manual_def by (intro holding)

lemma try_holds [holding]: "calm_try R ti \<Longrightarrow> holds (\<lambda>w. J (cw_log w)) (try_send env dp index bubble ti)"
  unfolding try_send_def by (intro holding) (auto intro!: holding simp: calm_try_def split: option.split)

lemma bubble_holds [holding]:
  "calm_try R (fst tries) \<Longrightarrow> calm_try R (snd tries) \<Longrightarrow> holds (\<lambda>w. J (cw_log w)) (send_bubble env dp index bubble tries)"
  unfolding send_bubble_def by (intro holding) (auto simp: calm_try_def)

lemma bubbles_hold [holding]: "calm_input R inp \<Longrightarrow> holds (\<lambda>w. J (cw_log w)) (send_bubbles env dp inp index bs)"
proof (induction bs arbitrary: index)
  case (Cons b bs)
  then show ?case unfolding send_bubbles.simps by (intro holding) (auto simp: calm_input_def)
qed (simp add: holding)

lemma call_holds [holding]: "calm R (snd c) \<Longrightarrow> holds (\<lambda>w. J (cw_log w)) (generate_llm_reply env c)"
  unfolding generate_llm_reply_def by (intro holding) (auto intro!: holding split: sum.split pyval.split)

lemma calls_hold [holding]: "list_all (\<lambda>c. calm R (snd c)) cs \<Longrightarrow> holds (\<lambda>w. J (cw_log w)) (call_ai_with_retry env cs)"
proof (induction cs rule: induct_list012)
  case (2 c)
  then show ?case unfolding call_ai_with_retry.simps by (intro call_holds) simp
next
  case (3 c d cs)
  then show ?case unfolding call_ai_with_retry.simps by (intro holding) simp_all
qed (simp add: holding)

text \<open>The operations on the ledger.\<close>

lemma cancel_holds [holding]: "R (now, LCancel s) \<Longrightarrow> holds (\<lambda>w. J (cw_log w)) (cancel_draft now s fin)"
  unfolding cancel_draft_def using steady [of _ now "LCancel s"] by (intro holding on_log_holds) simp

lemma record_holds [holding]:
  "(\<And>role c user. R (now, LRecord chat user item s role c)) \<Longrightarrow> holds (\<lambda>w. J (cw_log w)) (record_outcome env now chat item s role fin)"
  unfolding record_outcome_def using steady [of _ now "LRecord chat (ce_me env) item s role []"] by (intro holding on_log_holds) simp

lemma flag_holds [holding]: "R (now, LNeedsHuman chat b) \<Longrightarrow> holds (\<lambda>w. J (cw_log w)) (set_needs_human now chat b)"
  unfolding set_needs_human_def using steady [of _ now "LNeedsHuman chat b"] by (intro holds_change) simp

lemma suppress_holds [holding]:
  "(\<And>role c user. R (now, LRecord chat user item s role c)) \<Longrightarrow> R (now, LCancel s) \<Longrightarrow>
   holds (\<lambda>w. J (cw_log w)) (suppress_reply env now chat item s drafted reason)"
  unfolding suppress_reply_def by (intro holding)

lemma cancel_pending_holds [holding]: "R (now, LCancel s) \<Longrightarrow> holds (\<lambda>w. J (cw_log w)) (cancel_pending now s fin)"
  unfolding cancel_pending_def by (intro holding)

text \<open>A message with the inputs of a calm environment and its own operations.\<close>

definition plays :: "chat_input \<Rightarrow> string \<Rightarrow> bool" where
  "plays inp source \<longleftrightarrow> calm_input R inp \<and> own_ops R (ci_clock inp) source"

lemma playsD:
  assumes "plays inp source"
  shows "R (sg_record (ci_clock inp), LRecord chat user item (reply_source source) role c)" "R (sg_record (ci_clock inp), LCancel (reply_source source))"
    "R (sg_close (ci_clock inp), LCancel (reply_source source))" "R (sg_flag (ci_clock inp), LNeedsHuman chat b)"
    "R (sg_close (ci_clock inp), LComplete (reply_source source) (Some c))"
    "R (sg_prepare (ci_clock inp), LPrepare chat user item c (reply_source source))"
    "R (sg_add (ci_clock inp), LMessage chat user item role c (Some source) ctype media)"
    "calm_input R inp" "calm R (si_waiting (ci_scope inp))" "calm R (ci_item_wait inp)" "calm R (ci_delay inp)"
    "list_all (\<lambda>c. calm R (snd c)) (map (ci_calls inp) [0..<k])" "list_all (\<lambda>c. calm R (snd c)) (map (ci_recalls inp) [0..<k])"
  using assms by (auto simp: plays_def own_ops_def calm_input_def Let_def list_all_iff)

lemma no_choice_holds [holding]:
  "plays inp source \<Longrightarrow> holds (\<lambda>w. J (cw_log w)) (no_choice env inp chat item (reply_source source) reason)"
  unfolding no_choice_def no_reply_def by (intro holding) (rule playsD)

lemma refuse_holds [holding]:
  "plays inp source \<Longrightarrow> holds (\<lambda>w. J (cw_log w)) (refuse_decision env inp chat item (reply_source source) a)"
  unfolding refuse_decision_def by (intro holding) (rule playsD)

lemma ask_again_holds [holding]:
  "plays inp source \<Longrightarrow> holds (\<lambda>w. J (cw_log w)) (ask_again env inp chat item (reply_source source) base recent first)"
  unfolding ask_again_def Let_def by (intro holding) (auto intro!: holding playsD split: pyval.split)

lemma ask_model_holds [holding]:
  "plays inp source \<Longrightarrow> holds (\<lambda>w. J (cw_log w)) (ask_model env inp chat item (reply_source source) base recent)"
  unfolding ask_model_def by (intro holding) (auto intro!: holding playsD split: pyval.split)

lemma reply_by_ai_holds [holding]:
  "plays inp source \<Longrightarrow> holds (\<lambda>w. J (cw_log w)) (reply_by_ai env inp chat item (reply_source source) content prior)"
  unfolding reply_by_ai_def Let_def by (intro holding) (auto intro!: playsD)

lemma reply_without_rule_holds [holding]:
  "plays inp source \<Longrightarrow> holds (\<lambda>w. J (cw_log w)) (reply_without_rule env inp chat item (reply_source source) content)"
  unfolding reply_without_rule_def by (intro holding) (auto intro!: holding)

lemma choose_holds [holding]:
  "plays inp source \<Longrightarrow> holds (\<lambda>w. J (cw_log w)) (choose_reply env inp chat item (reply_source source) content)"
  unfolding choose_reply_def by (intro holding) (auto intro!: holding split: option.split)

lemma suppress_own [holding]:
  "plays inp source \<Longrightarrow> holds (\<lambda>w. J (cw_log w)) (suppress_reply env (sg_record (ci_clock inp)) chat item (reply_source source) drafted reason)"
  by (rule suppress_holds) (rule playsD, assumption)+

lemma new_choice_holds [holding]:
  "plays inp source \<Longrightarrow> holds (\<lambda>w. J (cw_log w)) (new_choice env inp chat item (reply_source source) content)"
  unfolding new_choice_def by (intro holding) (auto intro!: holding split: option.split)

lemma replayed_holds [holding]:
  "plays inp source \<Longrightarrow> holds (\<lambda>w. J (cw_log w)) (replayed_choice env inp chat item (reply_source source) draft)"
  unfolding replayed_choice_def by (intro holding) (auto intro!: holding split: option.split)

lemma conclude_holds [holding]:
  assumes "plays inp source"
  shows "holds (\<lambda>w. J (cw_log w)) (conclude_reply env dp inp (reply_source source) reply)"
proof -
  have "holds (\<lambda>w. J (cw_log w)) (on_log (complete_assistant_reply (sg_close (ci_clock inp)) (reply_source source) (Some reply)))"
    using steady [OF _ playsD(5) [OF assms]] by (intro on_log_holds) simp
  then show ?thesis unfolding conclude_reply_def by (intro holding) (auto intro!: holds_change playsD assms)
qed

lemma send_draft_holds [holding]:
  assumes p: "plays inp source"
  shows "holds (\<lambda>w. J (cw_log w)) (send_draft env dp inp (reply_source source) reply)"
proof -
  have "holds (\<lambda>w. J (cw_log w)) (on_log (prepare_assistant_reply (sg_prepare (ci_clock inp)) (dp_chat dp) (ce_me env) (dp_item dp) reply (reply_source source)))"
    using steady [OF _ playsD(6) [OF p]] by (intro on_log_holds) simp
  then show ?thesis unfolding send_draft_def Let_def
    by (intro holding) (use p in \<open>auto intro!: holding playsD split: py_error.split\<close>)
qed

lemma before_draft_holds [holding]:
  "plays inp source \<Longrightarrow> holds (\<lambda>w. J (cw_log w)) (before_draft env inp dp (reply_source source) drafted reply)"
  unfolding before_draft_def Let_def by (intro holding) (auto intro!: holding split: option.split)

lemma deliver_holds [holding]:
  "plays inp source \<Longrightarrow> holds (\<lambda>w. J (cw_log w)) (deliver_choice env inp dp (reply_source source) drafted by_rule v)"
  unfolding deliver_choice_def Let_def no_reply_def by (cases v) (auto intro!: holding playsD)

lemma answer_holds [holding]:
  assumes "plays inp source"
  shows "holds (\<lambda>w. J (cw_log w)) (answer_buyer env inp chat sender item content source draft)"
  unfolding answer_buyer_def Let_def
  by (intro holding) (use assms in \<open>auto intro!: holding playsD split: option.split choice.split\<close>)

lemma owned_holds [holding]:
  "plays inp source \<Longrightarrow> holds (\<lambda>w. J (cw_log w)) (owned_message env inp chat sender item content source)"
  unfolding owned_message_def by (intro holding) (auto intro!: holding split: option.split)

lemma process_holds:
  assumes p: "plays inp source"
  shows "holds (\<lambda>w. J (cw_log w)) (process_buyer_chat env inp chat sender item content source media ctype)"
proof -
  have "holds (\<lambda>w. J (cw_log w)) (act (\<lambda>w. case add_message_by_chat (ce_py env) (ce_history env) (sg_add (ci_clock inp)) chat sender item ''user'' content
      (Some source) ctype media (cw_log w) of (l, b) \<Rightarrow> (w\<lparr>cw_log := l\<rparr>, Inr b)))"
    using steady [OF _ playsD(7) [OF p]] by (intro holds_act) (simp split: prod.split, metis fst_conv)
  then show ?thesis unfolding process_buyer_chat_def Let_def
    by (intro holding) (use p in \<open>auto intro!: holding playsD split: option.split\<close>)
qed

end

end
