(* ===== verification/Ledger_Quiet.thy ===== *)
theory Ledger_Quiet
  imports Assistant_Runs
begin

text \<open>Operations of the ledger that leave a source alone: a source without records stays without, a pending draft stays.\<close>

fun touches :: "ledger_op \<Rightarrow> string \<Rightarrow> bool" where
  "touches (LPrepare chat user item content t) s \<longleftrightarrow> t = s"
| "touches (LComplete t content) s \<longleftrightarrow> t = s"
| "touches (LCancel t) s \<longleftrightarrow> t = s"
| "touches (LRecord chat user item t role content) s \<longleftrightarrow> t = s"
| "touches _ s \<longleftrightarrow> False"

definition unknown_source :: "string \<Rightarrow> chat_log \<Rightarrow> bool" where
  "unknown_source s l \<longleftrightarrow> known_message s l = None \<and> known_outcome s l = None"

lemma unknown_prune: "ledger_inv l \<Longrightarrow> unknown_source s l \<Longrightarrow> unknown_source s (prune_assistant_outcomes now l)"
  by (simp add: unknown_source_def prune_outcome [OF inv_parts(1)])

lemma unknown_other [simp]:
  "unknown_source s (l\<lparr>lg_flags := x\<rparr>) = unknown_source s l" "unknown_source s (l\<lparr>lg_bargains := y\<rparr>) = unknown_source s l"
  by (simp_all add: unknown_source_def known_message_def known_outcome_def)

lemma unknown_prepare:
  assumes inv: "ledger_inv l" and u: "unknown_source s l" and t: "t \<noteq> s" "in_ledger t"
  shows "unknown_source s (fst (prepare_assistant_reply now chat user item content t l))"
proof -
  let ?l0 = "prune_assistant_outcomes now l"
  note u0 = unknown_prune [OF inv u, of now]
  show ?thesis
  proof (cases "draft_ok content t \<and> owned_by chat user item (map_option message_view (known_message t l)) \<and>
      owned_by chat user item (map_option outcome_view (known_outcome t ?l0))")
    case False
    from prepare_refused [OF this] u show ?thesis by auto
  next
    case True
    show ?thesis
    proof (cases "known_outcome t ?l0")
      case (Some oc)
      have "me_role m = ao_role oc" if "known_message t l = Some m" for m
        using inv_pair [OF inv_prune [OF inv, of now] t(2)] Some that by (simp add: pair_ok_def)
      then show ?thesis using prepare_known [of content t chat user item l now oc] True Some u0 by (simp add: owned_by_def)
    next
      case None
      define m where "m = (case known_message t l of None \<Rightarrow> pending_message now chat user item content t | Some m \<Rightarrow> m)"
      have e: "fst (prepare_assistant_reply now chat user item content t l) =
          ?l0\<lparr>lg_messages := lg_messages l @ (if known_message t l = None then [m] else []),
            lg_outcomes := sql_insert_ignore ao_source (outcome_from now t (message_view m)) (lg_outcomes ?l0)\<rparr>"
        using prepare_new [of content t chat user item l now] True None by (simp add: m_def)
      show ?thesis
        unfolding e unknown_source_def known_message_def [of s] known_outcome_def [of s]
        using u0 t(1) unfolding unknown_source_def known_message_def [of s] known_outcome_def [of s]
        by (cases "known_message t l") (auto simp: find_snoc m_def sql_insert_ignore_def outcome_keys.find_append_new)
    qed
  qed
qed

lemma unknown_close:
  assumes "unknown_source s l" "t \<noteq> s" "\<And>m. me_source (f m) = me_source m" "\<And>oc. ao_source (g oc) = ao_source oc"
  shows "unknown_source s (close_outcome now t v g (write_messages P f l))"
  using assms(1,2) known_write [of f s P l, OF assms(3)] known_close [of g s now t v "write_messages P f l", OF assms(4)]
  by (simp add: unknown_source_def) (simp add: close_outcome_def write_messages_def known_message_def known_outcome_def)

lemma unknown_complete:
  assumes inv: "ledger_inv l" and u: "unknown_source s l" "t \<noteq> s"
  shows "unknown_source s (fst (complete_assistant_reply now t c l))" "unknown_source s (fst (cancel_assistant_reply now t l))"
  using u unknown_prune [OF inv u(1), of now]
  unfolding complete_assistant_reply_def cancel_assistant_reply_def Let_def
  by (auto split: option.split intro!: unknown_close)

lemma unknown_record:
  assumes inv: "ledger_inv l" and u: "unknown_source s l" "t \<noteq> s"
  shows "unknown_source s (fst (record_assistant_outcome now chat user item t role content l))"
proof -
  let ?l0 = "prune_assistant_outcomes now l"
  let ?new = "(pending_message now chat user item content t)\<lparr>me_role := role\<rparr>"
  let ?l1 = "?l0\<lparr>lg_messages := insert_message ?new (lg_messages ?l0)\<rparr>"
  let ?l2 = "?l1\<lparr>lg_outcomes := sql_insert_ignore ao_source (outcome_from now t (message_view ?new)) (lg_outcomes ?l1)\<rparr>"
  have "fst (record_assistant_outcome now chat user item t role content l) \<in> {l, ?l2}"
    unfolding record_assistant_outcome_def Let_def by (auto split: option.splits)
  moreover have "unknown_source s ?l2"
    using unknown_prune [OF inv u(1), of now] u(2) find_insert_other [of ?new s "lg_messages ?l0"]
    unfolding unknown_source_def known_message_def known_outcome_def
    by (auto simp: sql_insert_ignore_def outcome_keys.find_append_new)
  ultimately show ?thesis using u(1) by auto
qed

lemma unknown_messages:
  assumes "ledger_inv l" "unknown_source s l" "in_ledger s" "\<not> in_ledger (text_of (me_source m))"
  shows "unknown_source s (l\<lparr>lg_messages := insert_message m (lg_messages l)\<rparr>)"
    "unknown_source s (l\<lparr>lg_messages := prune_history k chat (insert_message m (lg_messages l))\<rparr>)"
proof -
  have "find (\<lambda>q. me_source q = Some s) (insert_message m (lg_messages l)) = find (\<lambda>q. me_source q = Some s) (lg_messages l)"
    by (rule find_insert_other) (use assms(3,4) in \<open>auto simp: text_of_def\<close>)
  then have n: "find (\<lambda>q. me_source q = Some s) (insert_message m (lg_messages l)) = None"
    using assms(2) by (simp add: unknown_source_def known_message_def)
  then show "unknown_source s (l\<lparr>lg_messages := insert_message m (lg_messages l)\<rparr>)"
    using assms(2) by (simp add: unknown_source_def known_message_def)
  have "find (\<lambda>q. me_source q = Some s) (prune_history k chat (insert_message m (lg_messages l))) = None"
    using prune_find(1) [OF one_insert_message [OF inv_parts(2) [OF assms(1)]], of s k chat m] n by auto
  then show "unknown_source s (l\<lparr>lg_messages := prune_history k chat (insert_message m (lg_messages l))\<rparr>)"
    using assms(2) by (simp add: unknown_source_def known_message_def)
qed

lemma unknown_recover:
  assumes inv: "ledger_inv l" and u: "unknown_source s l" and s: "in_ledger s"
  shows "unknown_source s (recover_outcomes now l)"
proof -
  let ?ocs = "fold (\<lambda>m. sql_insert_ignore ao_source (outcome_of_message m)) (entered l) (lg_outcomes l)"
  have "find (\<lambda>m. ao_source (outcome_of_message m) = s) (entered l) = None"
  proof (rule ccontr)
    assume "find (\<lambda>m. ao_source (outcome_of_message m) = s) (entered l) \<noteq> None"
    then obtain m where "find (\<lambda>m. ao_source (outcome_of_message m) = s) (entered l) = Some m" by auto
    from entered_message [OF inv_parts(2) [OF inv] s this] u show False by (simp add: unknown_source_def)
  qed
  then have "find (\<lambda>oc. ao_source oc = s) ?ocs = None" using u by (simp add: find_fold_insert unknown_source_def known_outcome_def)
  then have "find (\<lambda>oc. ao_source oc = s) (sql_delete P ?ocs) = None" for P by (auto simp: find_None_iff in_sql_delete)
  then show ?thesis using u by (simp add: unknown_source_def recover_outcomes_def known_message_def known_outcome_def entered_def Let_def)
qed

lemma unknown_apply:
  assumes inv: "ledger_inv l" and u: "unknown_source s l" and s: "in_ledger s" and w: "well_sourced opr" "\<not> touches opr s"
  shows "unknown_source s (ledger_apply env n now opr l)"
proof (cases opr)
  case (LMessage chat user item role content source ctype media)
  have "\<not> in_ledger (text_of (me_source (chat_message now chat user item role content source ctype enc)))" for enc
    using w LMessage by simp
  from unknown_messages(2) [OF inv u s this] show ?thesis
    by (simp add: LMessage add_message_by_chat_def Let_def u split: sum.split)
next
  case (LPrepare chat user item content t)
  with unknown_prepare [OF inv u, of t] w show ?thesis by simp
next
  case (LComplete t c)
  with unknown_complete(1) [OF inv u, of t] w show ?thesis by simp
next
  case (LCancel t)
  with unknown_complete(2) [OF inv u, of t] w show ?thesis by simp
next
  case (LRecord chat user item t role content)
  with unknown_record [OF inv u, of t] w show ?thesis by simp
next
  case LReopen
  with unknown_recover [OF inv u s] show ?thesis by simp
next
  case (LSent m)
  with unknown_messages(1) [OF inv u s, of m] w show ?thesis by simp
qed (simp_all add: u set_conversation_needs_human_def increment_bargain_count_by_chat_def Let_def)

definition open_source :: "string \<Rightarrow> chat_log \<Rightarrow> bool" where
  "open_source s l \<longleftrightarrow> ledger_inv l \<and> (unknown_source s l \<or> (\<exists>oc. known_outcome s l = Some oc \<and> ao_role oc = ''assistant_pending''))"

definition quiet :: "string \<Rightarrow> time \<times> ledger_op \<Rightarrow> bool" where
  "quiet s e \<longleftrightarrow> well_sourced (snd e) \<and> \<not> touches (snd e) s"

lemma quiet_leaves: "quiet s e \<Longrightarrow> \<not> closes (snd e) s"
  by (cases "snd e") (auto simp: quiet_def)

lemma pending_apply:
  assumes "ledger_inv l" "in_ledger s" "known_outcome s l = Some oc" "ao_role oc = ''assistant_pending''" "quiet s (now, opr)"
  shows "known_outcome s (ledger_apply env n now opr l) = Some oc"
proof -
  have "keeps now (closes opr) l (ledger_apply env n now opr l)" using assms(1,5) by (intro keeps_apply) (simp_all add: quiet_def)
  from keepsD [OF this assms(2,3)] show ?thesis using assms(4) quiet_leaves [OF assms(5)] by (simp add: forgotten_def)
qed

lemma open_apply:
  assumes "open_source s l" "in_ledger s" "quiet s (now, opr)"
  shows "open_source s (ledger_apply env n now opr l)"
proof -
  have i: "ledger_inv l" and w: "well_sourced opr" "\<not> touches opr s" using assms(1,3) by (auto simp: open_source_def quiet_def)
  from assms(1) consider "unknown_source s l" | oc where "known_outcome s l = Some oc" "ao_role oc = ''assistant_pending''"
    by (auto simp: open_source_def)
  then show ?thesis
  proof cases
    case 1
    with unknown_apply [OF i 1 assms(2) w] ledger_inv_apply [OF i w(1)] show ?thesis by (simp add: open_source_def)
  next
    case 2
    with pending_apply [OF i assms(2) 2 assms(3)] ledger_inv_apply [OF i w(1)] show ?thesis by (auto simp: open_source_def)
  qed
qed

text \<open>A source the ledger knows nothing final of is open.\<close>

lemma open_by_view:
  assumes "ledger_inv l" "in_ledger s" "map_option sv_role (get_source_message s l) \<in> {None, Some ''assistant_pending''}"
  shows "open_source s l"
proof -
  have s: "s \<noteq> []" using assms(2) by (auto simp: in_ledger_def)
  note p = inv_pair [OF assms(1,2)]
  show ?thesis
  proof (cases "known_message s l")
    case None
    with p assms(1,3) s show ?thesis
      by (auto simp: open_source_def unknown_source_def get_source_message_def stored_view_def pair_ok_def split: option.splits)
  next
    case (Some m)
    with p assms(1,3) s show ?thesis
      by (auto simp: open_source_def get_source_message_def stored_view_def pair_ok_def split: option.splits)
  qed
qed

lemma prepare_open:
  assumes "open_source s l" "in_ledger s" "prepare_assistant_reply now chat user item content s l = (l', Inr oc)"
  shows "ledger_inv l'" "known_outcome s l' = Some oc" "ao_role oc = ''assistant_pending''"
proof -
  have inv: "ledger_inv l" using assms(1) by (simp add: open_source_def)
  note st = prepare_stored [OF inv assms(2,3)]
  show "ledger_inv l'" "known_outcome s l' = Some oc" using st by simp_all
  from assms(1) consider "unknown_source s l" | q where "known_outcome s l = Some q" "ao_role q = ''assistant_pending''"
    by (auto simp: open_source_def)
  then show "ao_role oc = ''assistant_pending''"
  proof cases
    case 1
    have ok: "draft_ok content s" using prepare_refused [of content s chat user item l now] assms(3) by auto
    have u0: "known_outcome s (prune_assistant_outcomes now l) = None" "known_message s l = None"
      using unknown_prune [OF inv 1, of now] 1 by (simp_all add: unknown_source_def)
    from prepare_new [OF ok, of chat user item l now] u0 assms(3) show ?thesis by (auto simp: owned_by_def)
  next
    case 2
    from prepare_facts(2) [OF inv assms(2,3) 2(1)] 2 st(2) show ?thesis by (simp add: forgotten_def)
  qed
qed

end
