(* ===== verification/Reply_Drafts.thy ===== *)
theory Reply_Drafts
  imports Reply_Settled Reply_Steady Ledger_Quiet
begin

text \<open>
  What is said is the stored draft: while other tasks leave the source of a message alone, every message handed to the
  connection is a part of the pending draft in the ledger, and a reply that was sent ends as the completed outcome of the source.
\<close>

section \<open>The interfaces on the ledger\<close>

interpretation sound: steady_log env "\<lambda>e. well_sourced (snd e)" ledger_inv for env
  by unfold_locales (simp add: ledger_inv_apply)

text \<open>The states a source goes through: open, drafted, and closed.\<close>

definition drafted :: "string \<Rightarrow> outcome_row \<Rightarrow> chat_log \<Rightarrow> bool" where
  "drafted s oc l \<longleftrightarrow> ledger_inv l \<and> in_ledger s \<and> known_outcome s l = Some oc \<and> ao_role oc = ''assistant_pending''"

definition open_for :: "string \<Rightarrow> chat_log \<Rightarrow> bool" where
  "open_for s l \<longleftrightarrow> in_ledger s \<and> open_source s l"

definition done_at :: "string \<Rightarrow> outcome_row \<Rightarrow> chat_log \<Rightarrow> bool" where
  "done_at s oc l \<longleftrightarrow> ledger_inv l \<and> in_ledger s \<and> known_outcome s l = Some oc \<and> ao_role oc \<in> set TERMINAL_ASSISTANT_ROLES"

interpretation waiting: steady_log env "quiet s" "open_for s" for env s
  by unfold_locales (simp add: open_for_def open_apply)

interpretation stored: steady_log env "quiet s" "drafted s oc" for env s oc
  by unfold_locales (auto simp: drafted_def quiet_def pending_apply ledger_inv_apply)

definition retained :: "time \<Rightarrow> time \<times> ledger_op \<Rightarrow> bool" where
  \<comment> \<open>An operation before an outcome of this time is forgotten\<close>
  "retained t e \<longleftrightarrow> well_sourced (snd e) \<and> fst e \<le> t + OUTCOME_RETENTION_SECONDS"

interpretation closed: steady_log env "retained (ao_updated oc)" "done_at s oc" for env s oc
proof unfold_locales
  fix db now opr
  assume d: "done_at s oc db" and r: "retained (ao_updated oc) (now, opr)"
  have w: "ledger_inv db" "well_sourced opr" using d r by (simp_all add: done_at_def retained_def)
  have "\<not> forgotten now oc" using r by (simp add: retained_def forgotten_def)
  then have "known_outcome s (ledger_apply (ce_py env) (ce_history env) now opr db) = Some oc"
    using d by (intro keepsD [OF keeps_apply [OF w]]) (auto simp: done_at_def)
  then show "done_at s oc (ledger_apply (ce_py env) (ce_history env) now opr db)"
    using d ledger_inv_apply [OF w] by (simp add: done_at_def)
qed

section \<open>What is said\<close>

lemma silent_tasks [emitting]:
  "emits E (await env mw)" "emits E (on_log f)" "emits E (on_auto a)" "emits E (on_provenance p)" "emits E (forget_origin s)"
  "emits E (manual_now env now chat)" "emits E (reserve_budget now chat k)" "emits E (revision_now env)" "emits E (set_needs_human now chat b)"
  unfolding await_def on_log_def on_auto_def on_provenance_def forget_origin_def manual_now_def reserve_budget_def revision_now_def set_needs_human_def
  by (intro emitting)+

lemma silent_refresh [emitting]: "emits E (refresh_config env rf)"
  unfolding refresh_config_def by (intro emitting)

lemma silent_suppression [emitting]: "emits E (automatic_reply_suppression_reason env rf chat)"
  unfolding automatic_reply_suppression_reason_def by (intro emitting) (auto intro!: emitting split: option.split)

lemma silent_scope [emitting]: "emits E (customer_conversation_scope env si chat item)"
  unfolding customer_conversation_scope_def ask_scope_def keep_scope_def
  by (intro emitting) (auto intro!: emitting split: option.split sum.split py_error.split)

lemma silent_closing [emitting]:
  "emits E (record_outcome env now chat item s role fin)" "emits E (cancel_draft now s fin)" "emits E (cancel_pending now s fin)"
  "emits E (suppress_reply env now chat item s d reason)" "emits E (no_choice env inp chat item s reason)"
  "emits E (refuse_decision env inp chat item s a)" "emits E (no_reply env inp chat item s reason)"
  unfolding record_outcome_def cancel_draft_def cancel_pending_def suppress_reply_def no_choice_def refuse_decision_def no_reply_def
  by (intro emitting)+

lemma call_emits [emitting]: "E Asked \<Longrightarrow> emits E (generate_llm_reply env c)"
  unfolding generate_llm_reply_def by (intro emitting) (auto intro!: emitting split: sum.split pyval.split)

lemma calls_emit [emitting]: "E Asked \<Longrightarrow> emits E (call_ai_with_retry env cs)"
proof (induction cs rule: induct_list012)
  case (3 c d cs)
  then show ?case unfolding call_ai_with_retry.simps by (intro emitting)
qed (simp_all add: emitting)

lemma triple_keep: "holds J m \<Longrightarrow> emits E m \<Longrightarrow> triple J m (\<lambda>_. J) (\<lambda>_. J) E"
  unfolding holds_def emits_def triple_def ends_def by (auto split: sum.splits)

text \<open>Tasks that close the source return what they were given.\<close>

lemma returns_seq: "emits E m \<Longrightarrow> (\<And>x. triple (\<lambda>_. True) (f x) Q X E) \<Longrightarrow> (\<And>e w. X e w) \<Longrightarrow> triple P (seq m f) Q X E"
  by (rule triple_seq [OF triple_weaken [OF triple_True]]) auto

lemma closing_returns [triples]:
  "triple P (record_outcome env now chat item s role fin) (\<lambda>x _. x = fin) (\<lambda>_ _. True) E"
  "triple P (cancel_draft now s fin) (\<lambda>x _. x = fin) (\<lambda>_ _. True) E"
  "triple P (no_reply env inp chat item s reason) (\<lambda>x _. x = Silent reason) (\<lambda>_ _. True) E"
  unfolding record_outcome_def cancel_draft_def no_reply_def
  by (intro returns_seq emitting triple_give; simp)+

lemma suppress_returns [triples]: "triple P (suppress_reply env now chat item s d reason) (\<lambda>x _. x = Suppressed reason) (\<lambda>_ _. True) E"
  unfolding suppress_reply_def by (intro triples)

lemma cancel_pending_returns [triples]: "triple P (cancel_pending now s fin) (\<lambda>x _. x = fin) (\<lambda>_ _. True) E"
  unfolding cancel_pending_def by (intro returns_seq emitting triple_if triple_give triples; simp)

section \<open>The choice of a reply\<close>

definition chooses :: "string \<Rightarrow> (chat_event \<Rightarrow> bool) \<Rightarrow> choice chat_task \<Rightarrow> bool" where
  \<comment> \<open>A choice that goes on leaves the source open, and none claims to have answered\<close>
  "chooses s E m \<longleftrightarrow>
     triple (\<lambda>w. open_for s (cw_log w)) m (\<lambda>c w. c \<noteq> Stop Answered \<and> (stops c \<or> open_for s (cw_log w))) (\<lambda>_ _. True) E"

named_theorems choosing "rules for choices"

lemma chooses_seq:
  "holds (\<lambda>w. open_for s (cw_log w)) m \<Longrightarrow> emits E m \<Longrightarrow> (\<And>x. chooses s E (f x)) \<Longrightarrow> chooses s E (seq m f)"
  unfolding chooses_def by (rule triple_seq [where R = "\<lambda>_ w. open_for s (cw_log w)"]) (auto intro: triple_weaken triple_keep)

lemma chooses_basic [choosing]:
  "chooses s E (give (Chosen v b c d))" "chooses s E (fail e)" "chooses s E m \<Longrightarrow> chooses s E n \<Longrightarrow> chooses s E (if b then m else n)"
  by (auto simp: chooses_def intro!: triple_give triple_fail)

lemma stop_anyway: "triple P (no_choice env inp chat item s' reason) (\<lambda>c _. stops c \<and> c \<noteq> Stop Answered) (\<lambda>_ _. True) E"
  unfolding no_choice_def by (rule triple_seq [OF closing_returns(3)]) (auto intro!: triple_give simp: stops_def)

lemma refuse_anyway: "triple P (refuse_decision env inp chat item s' a) (\<lambda>c _. stops c \<and> c \<noteq> Stop Answered) (\<lambda>_ _. True) E"
  unfolding refuse_decision_def by (intro returns_seq emitting stop_anyway) simp

lemma chooses_stop [choosing]: "chooses s E (no_choice env inp chat item s' reason)" "chooses s E (refuse_decision env inp chat item s' a)"
  unfolding chooses_def by (rule triple_weaken [OF stop_anyway] triple_weaken [OF refuse_anyway]; simp)+

lemma calm_calls:
  "calm_input R inp \<Longrightarrow> list_all (\<lambda>c. calm R (snd c)) (map (ci_calls inp) ks)"
  "calm_input R inp \<Longrightarrow> list_all (\<lambda>c. calm R (snd c)) (map (ci_recalls inp) ks)"
  by (auto simp: calm_input_def list_all_iff)

lemma ask_again_chooses [choosing]:
  assumes "E Asked" "calm_input (quiet s) inp"
  shows "chooses s E (ask_again env inp chat item s' base recent first)"
  unfolding ask_again_def Let_def
  by (intro chooses_seq choosing emitting holding calm_calls assms) (auto intro!: choosing chooses_seq emitting holding calm_calls assms split: pyval.split)

lemma ask_model_chooses [choosing]:
  assumes "E Asked" "calm_input (quiet s) inp"
  shows "chooses s E (ask_model env inp chat item s' base recent)"
  unfolding ask_model_def
  by (intro chooses_seq choosing emitting holding calm_calls assms) (auto intro!: choosing assms split: pyval.split)

lemma model_or_stop:
  assumes "E Asked" "calm_input (quiet s) inp"
  shows "chooses s E (handle (ask_model env inp chat item s' base recent) (\<lambda>e. if e = CancelledError then fail e else no_choice env inp chat item s' r))"
  unfolding chooses_def
proof (rule triple_handle [where R = "\<lambda>_ _. True"])
  let ?Q = "\<lambda>c w. c \<noteq> Stop Answered \<and> (stops c \<or> open_for s (cw_log w))"
  show "triple (\<lambda>w. open_for s (cw_log w)) (ask_model env inp chat item s' base recent) ?Q (\<lambda>_ _. True) E"
    using ask_model_chooses [where E = E and s = s, OF assms] by (simp add: chooses_def)
  show "triple (\<lambda>_. True) (if e = CancelledError then fail e else no_choice env inp chat item s' r) ?Q (\<lambda>_ _. True) E" for e
    by (intro triple_if triple_fail triple_weaken [OF stop_anyway]) auto
qed

lemma reply_by_ai_chooses [choosing]:
  assumes "E Asked" "calm_input (quiet s) inp"
  shows "chooses s E (reply_by_ai env inp chat item s' content prior)"
  unfolding reply_by_ai_def Let_def
  by (intro chooses_seq choosing emitting holding model_or_stop assms) (use assms(2) in \<open>simp add: calm_input_def\<close>)

lemma reply_without_rule_chooses [choosing]:
  assumes "E Asked" "calm_input (quiet s) inp"
  shows "chooses s E (reply_without_rule env inp chat item s' content)"
  unfolding reply_without_rule_def
  by (intro chooses_seq emitting holding) (auto intro!: choosing assms)

lemma choose_reply_chooses [choosing]:
  assumes "E Asked" "calm_input (quiet s) inp"
  shows "chooses s E (choose_reply env inp chat item s' content)"
  unfolding choose_reply_def by (intro chooses_seq emitting holding) (auto intro!: choosing assms split: option.split)

section \<open>The send of a draft\<close>

lemma silent_ready [emitting]: "emits E (ensure_ai_reply_ready env ready)"
  unfolding ensure_ai_reply_ready_def by (intro emitting) (auto intro!: emitting split: sum.split py_error.split)

lemma silent_verify [emitting]: "emits E (verify_automatic_reply env dp ti)" "emits E (forbid_manual env now chat)"
  unfolding verify_automatic_reply_def forbid_manual_def by (intro emitting; auto intro!: emitting split: option.split)+

definition says_draft :: "draft_plan \<Rightarrow> string \<Rightarrow> outcome_row \<Rightarrow> nat \<Rightarrow> string \<Rightarrow> chat_event \<Rightarrow> bool" where
  "says_draft dp s oc i text e \<longleftrightarrow>
     (case e of Asked \<Rightarrow> False
      | Said ev \<Rightarrow> re_key ev = message_key dp i \<and> re_chat ev = dp_chat dp \<and> re_to ev = dp_to dp \<and> re_text ev = text \<and> drafted s oc (cw_log (re_state ev)))"

definition keeping :: "('s \<Rightarrow> bool) \<Rightarrow> ('e \<Rightarrow> bool) \<Rightarrow> ('s, 'e, 'a) task \<Rightarrow> bool" where
  "keeping J E m \<longleftrightarrow> triple J m (\<lambda>_. J) (\<lambda>_. J) E"

lemma keeping_silent: "holds J m \<Longrightarrow> emits E m \<Longrightarrow> keeping J E m"
  by (simp add: keeping_def triple_keep)

lemma keeping_seq: "keeping J E m \<Longrightarrow> (\<And>x. keeping J E (f x)) \<Longrightarrow> keeping J E (seq m f)"
  unfolding keeping_def by (rule triple_seq)

lemma keeping_handle: "keeping J E m \<Longrightarrow> (\<And>e. keeping J E (h e)) \<Longrightarrow> keeping J E (handle m h)"
  unfolding keeping_def by (rule triple_handle)

lemma keeping_weaken: "keeping J E m \<Longrightarrow> (\<And>e. E e \<Longrightarrow> E' e) \<Longrightarrow> keeping J E' m"
  unfolding keeping_def by (rule triple_weaken)

lemma calm_tryD: "calm_try R ti \<Longrightarrow> calm R (ti_waiting ti)" "calm_try R ti \<Longrightarrow> calm R (ti_sending ti)" "calm_try R ti \<Longrightarrow> calm R (ti_closing ti)"
  by (simp_all add: calm_try_def)

lemma try_says:
  assumes "calm_try (quiet s) ti"
  shows "keeping (\<lambda>w. drafted s oc (cw_log w)) (says_draft dp s oc i b) (try_send env dp i b ti)"
proof -
  let ?J = "\<lambda>w. drafted s oc (cw_log w)" and ?E = "says_draft dp s oc i b"
  note calm = calm_tryD [OF assms] assms
  have say: "keeping ?J ?E (emit (\<lambda>w. Said \<lparr>re_key = message_key dp i, re_chat = dp_chat dp, re_to = dp_to dp, re_text = b, re_state = w\<rparr>))"
    unfolding keeping_def by (rule triple_emit) (simp add: says_draft_def)
  have check: "keeping ?J ?E (verify_automatic_reply env dp ti)"
    by (intro keeping_silent holding emitting calm)
  have rest: "keeping ?J ?E (seq (await env (ti_sending ti)) (\<lambda>_. raising (ti_sent ti)))"
    by (intro keeping_silent holding emitting calm)
  have start: "keeping ?J ?E (forbid_manual env now chat)" "keeping ?J ?E (await env (ti_waiting ti))" "keeping ?J ?E (fail e)" for now chat e
    by (intro keeping_silent holding emitting calm)+
  show ?thesis unfolding try_send_def
    by (intro keeping_seq start) (auto intro!: keeping_seq start say check rest split: option.split)
qed

lemma bubble_says:
  assumes "calm_try (quiet s) (fst tries)" "calm_try (quiet s) (snd tries)"
  shows "keeping (\<lambda>w. drafted s oc (cw_log w)) (says_draft dp s oc i b) (send_bubble env dp i b tries)"
proof -
  have wait: "keeping (\<lambda>w. drafted s oc (cw_log w)) (says_draft dp s oc i b) (await env (ti_closing (fst tries)))"
    by (intro keeping_silent holding emitting calm_tryD assms)
  have "keeping (\<lambda>w. drafted s oc (cw_log w)) (says_draft dp s oc i b) (fail e)" for e
    by (intro keeping_silent holding emitting)
  then show ?thesis unfolding send_bubble_def
    by (intro keeping_handle try_says assms) (auto intro!: keeping_seq wait try_says assms)
qed

definition says_part :: "draft_plan \<Rightarrow> string \<Rightarrow> outcome_row \<Rightarrow> nat \<Rightarrow> string list \<Rightarrow> chat_event \<Rightarrow> bool" where
  "says_part dp s oc index bs e \<longleftrightarrow> (\<exists>i < length bs. says_draft dp s oc (index + i) (bs ! i) e)"

lemma says_part_Cons: "says_draft dp s oc index b e \<or> says_part dp s oc (index + 1) bs e \<Longrightarrow> says_part dp s oc index (b # bs) e"
  unfolding says_part_def
proof (elim disjE exE conjE)
  fix i assume "i < length bs" "says_draft dp s oc (index + 1 + i) (bs ! i) e"
  then show "\<exists>i < length (b # bs). says_draft dp s oc (index + i) ((b # bs) ! i) e" by (intro exI [of _ "Suc i"]) simp
qed (rule exI [of _ 0], simp)

lemma bubbles_say:
  assumes "calm_input (quiet s) inp"
  shows "keeping (\<lambda>w. drafted s oc (cw_log w)) (says_part dp s oc index bs) (send_bubbles env dp inp index bs)"
proof (induction bs arbitrary: index)
  case Nil
  show ?case unfolding send_bubbles.simps by (intro keeping_silent holding emitting)
next
  case (Cons b bs)
  have c: "calm_try (quiet s) (fst (ci_tries inp index))" "calm_try (quiet s) (snd (ci_tries inp index))" "calm (quiet s) (ci_pause inp index)"
    using assms by (simp_all add: calm_input_def)
  have one: "keeping (\<lambda>w. drafted s oc (cw_log w)) (says_part dp s oc index (b # bs)) (send_bubble env dp index b (ci_tries inp index))"
    by (rule keeping_weaken [OF bubble_says [OF c(1,2)]]) (simp add: says_part_Cons)
  have rest: "keeping (\<lambda>w. drafted s oc (cw_log w)) (says_part dp s oc index (b # bs)) (send_bubbles env dp inp (index + 1) bs)"
    by (rule keeping_weaken [OF Cons.IH]) (simp add: says_part_Cons)
  show ?case unfolding send_bubbles.simps
    by (intro keeping_seq one rest) (intro keeping_silent holding emitting c)
qed

definition bubbles_of :: "draft_plan \<Rightarrow> outcome_row \<Rightarrow> string list" where
  "bubbles_of dp oc = (if dp_ai dp then split_reply_bubbles (ao_content oc) else [ao_content oc])"

definition answered_at :: "string \<Rightarrow> time \<Rightarrow> finish \<Rightarrow> chat_worker \<Rightarrow> bool" where
  "answered_at s t fin w \<longleftrightarrow> (fin = Answered \<longrightarrow> (\<exists>oc. done_at s oc (cw_log w) \<and> ao_role oc = ''assistant'' \<and> ao_updated oc = t))"

lemma flags_done: "done_at s oc (fst (set_conversation_needs_human now chat b l)) = done_at s oc l"
  by (simp add: set_conversation_needs_human_def Let_def done_at_def ledger_inv_def known_message_def known_outcome_def unique_key_def)

lemma conclude_answers:
  "triple (\<lambda>w. drafted s oc (cw_log w)) (conclude_reply env dp inp s reply) (answered_at s (sg_close (ci_clock inp))) (\<lambda>_ _. True) E"
proof -
  let ?t = "sg_close (ci_clock inp)"
  let ?oc = "oc\<lparr>ao_role := ''assistant'', ao_content := reply, ao_updated := ?t\<rparr>"
  let ?J = "\<lambda>w. done_at s ?oc (cw_log w)"
  have first: "triple (\<lambda>w. drafted s oc (cw_log w)) (on_log (complete_assistant_reply ?t s (Some reply))) (\<lambda>_. ?J) (\<lambda>_ _. True) E"
    unfolding on_log_def
  proof (rule triple_act)
    fix w w' :: chat_worker and x
    assume d: "drafted s oc (cw_log w)"
      and r: "(case complete_assistant_reply ?t s (Some reply) (cw_log w) of (l, r) \<Rightarrow> (w\<lparr>cw_log := l\<rparr>, r)) = (w', Inr x)"
    obtain l' res where e: "complete_assistant_reply ?t s (Some reply) (cw_log w) = (l', res)" by (cases "complete_assistant_reply ?t s (Some reply) (cw_log w)")
    have "cw_log w' = l'" using r e by auto
    with complete_pending [OF _ _ _ _ e, of oc] d show "?J w'"
      by (simp add: drafted_def done_at_def TERMINAL_ASSISTANT_ROLES_def)
  qed simp
  have quiet_end: "keeping ?J E (forget_origin s)" "keeping ?J E (change (\<lambda>w. w\<lparr>cw_replies := f w\<rparr>))" "keeping ?J E (set_needs_human now chat b)" for f now chat b
    unfolding keeping_def forget_origin_def set_needs_human_def by (rule triple_change; simp add: flags_done)+
  have rest: "triple ?J (seq (forget_origin s) (\<lambda>_. seq (change (\<lambda>w. w\<lparr>cw_replies := f w\<rparr>)) (\<lambda>_. seq (set_needs_human now chat b) (\<lambda>_. give Answered))))
      (answered_at s ?t) (\<lambda>_ _. True) E" for f now chat b
  proof -
    have "triple ?J (seq (forget_origin s) (\<lambda>_. seq (change (\<lambda>w. w\<lparr>cw_replies := f w\<rparr>)) (\<lambda>_. seq (set_needs_human now chat b) (\<lambda>_. give Answered))))
        (\<lambda>_. ?J) (\<lambda>_. ?J) E"
      using quiet_end unfolding keeping_def by (intro triple_seq [where R = "\<lambda>_. ?J"] triple_give) auto
    then show ?thesis by (rule triple_weaken) (auto simp: answered_at_def intro!: exI [of _ ?oc])
  qed
  show ?thesis unfolding conclude_reply_def by (rule triple_seq [OF first rest])
qed

definition says_stored :: "string \<Rightarrow> string \<Rightarrow> string \<Rightarrow> chat_event \<Rightarrow> bool" where
  \<comment> \<open>A message to this buyer is the stored draft, or the bubble of it that its key counts\<close>
  "says_stored chat to source e =
     (case e of
        Asked \<Rightarrow> True
      | Said ev \<Rightarrow> re_chat ev = chat \<and> re_to ev = to \<and>
          (\<exists>oc i. drafted (reply_source source) oc (cw_log (re_state ev)) \<and> ao_chat oc = chat \<and>
             re_key ev = ''reply:'' @ source @ (if i = 0 then [] else '':'' @ str_nat i) \<and>
             (i = 0 \<and> re_text ev = ao_content oc \<or>
              i < length (split_reply_bubbles (ao_content oc)) \<and> re_text ev = split_reply_bubbles (ao_content oc) ! i)))"

lemma part_stored:
  assumes "says_part dp (reply_source source) oc 0 (bubbles_of dp oc) e" "dp_source dp = source" "ao_chat oc = dp_chat dp"
  shows "says_stored (dp_chat dp) (dp_to dp) source e"
proof -
  obtain i where i: "i < length (bubbles_of dp oc)" "says_draft dp (reply_source source) oc i (bubbles_of dp oc ! i) e"
    using assms(1) by (auto simp: says_part_def)
  show ?thesis
  proof (cases e)
    case (Said ev)
    have "drafted (reply_source source) oc (cw_log (re_state ev))" "re_key ev = ''reply:'' @ source @ (if i = 0 then [] else '':'' @ str_nat i)"
      "re_text ev = bubbles_of dp oc ! i" "re_chat ev = dp_chat dp" "re_to ev = dp_to dp"
      using i(2) assms(2) unfolding Said says_draft_def message_key_def by simp_all
    moreover have "i = 0 \<and> re_text ev = ao_content oc \<or>
        i < length (split_reply_bubbles (ao_content oc)) \<and> re_text ev = split_reply_bubbles (ao_content oc) ! i"
      using i(1) \<open>re_text ev = _\<close> by (auto simp: bubbles_of_def split: if_splits)
    ultimately show ?thesis using assms(3) unfolding says_stored_def Said chat_event.case by blast
  next
    case Asked
    then show ?thesis by (simp add: says_stored_def)
  qed
qed

definition speaks :: "string \<Rightarrow> time \<Rightarrow> (chat_event \<Rightarrow> bool) \<Rightarrow> finish chat_task \<Rightarrow> bool" where
  "speaks s t E m \<longleftrightarrow> triple (\<lambda>w. open_for s (cw_log w)) m (answered_at s t) (\<lambda>_ _. True) E"

named_theorems speaking "rules for answers"

lemma speaks_seq: "holds (\<lambda>w. open_for s (cw_log w)) m \<Longrightarrow> emits E m \<Longrightarrow> (\<And>x. speaks s t E (f x)) \<Longrightarrow> speaks s t E (seq m f)"
  unfolding speaks_def by (rule triple_seq [where R = "\<lambda>_ w. open_for s (cw_log w)"]) (auto intro: triple_weaken triple_keep)

lemma speaks_silent: "triple (\<lambda>_. True) m (\<lambda>x _. x \<noteq> Answered) (\<lambda>_ _. True) E \<Longrightarrow> speaks s t E m"
  unfolding speaks_def by (erule triple_weaken) (auto simp: answered_at_def)

lemma returns_other: "triple (\<lambda>_. True) m (\<lambda>x _. x = fin) (\<lambda>_ _. True) E \<Longrightarrow> fin \<noteq> Answered \<Longrightarrow> triple P m (\<lambda>x _. x \<noteq> Answered) (\<lambda>_ _. True) E"
  by (erule triple_weaken) auto

lemma send_draft_speaks:
  assumes "calm_input (quiet (reply_source source)) inp" "dp_source dp = source"
  shows "speaks (reply_source source) (sg_close (ci_clock inp)) (says_stored (dp_chat dp) (dp_to dp) source)
    (send_draft env dp inp (reply_source source) reply)"
proof -
  let ?s = "reply_source source" and ?t = "sg_close (ci_clock inp)" and ?E = "says_stored (dp_chat dp) (dp_to dp) source"
  let ?D = "\<lambda>oc w. drafted ?s oc (cw_log w) \<and> ao_chat oc = dp_chat dp"
  have prep: "triple (\<lambda>w. open_for ?s (cw_log w)) (on_log (prepare_assistant_reply now (dp_chat dp) user item body ?s)) ?D (\<lambda>_ _. True) ?E" for now user item body
    unfolding on_log_def
  proof (rule triple_act)
    fix w w' :: chat_worker and oc
    assume o: "open_for ?s (cw_log w)"
      and r: "(case prepare_assistant_reply now (dp_chat dp) user item body ?s (cw_log w) of (l, r) \<Rightarrow> (w\<lparr>cw_log := l\<rparr>, r)) = (w', Inr oc)"
    obtain l' where e: "prepare_assistant_reply now (dp_chat dp) user item body ?s (cw_log w) = (l', Inr oc)" and l': "cw_log w' = l'"
      using r by (auto split: prod.splits)
    have s: "in_ledger ?s" "open_source ?s (cw_log w)" using o by (simp_all add: open_for_def)
    have inv: "ledger_inv (cw_log w)" using s(2) by (simp add: open_source_def)
    from prepare_open [OF s(2,1) e] prepare_stored(3) [OF inv s(1) e] show "?D oc w'"
      by (simp add: drafted_def l' s belongs_def)
  qed simp
  have send: "triple (?D oc) (seq (send_bubbles env dp inp 0 (bubbles_of dp oc)) (\<lambda>_. give Answered))
      (\<lambda>fin w. fin = Answered \<and> drafted ?s oc (cw_log w)) (\<lambda>_ _. True) ?E" for oc
  proof (rule triple_seq [where R = "\<lambda>_ w. drafted ?s oc (cw_log w)"])
    show "triple (?D oc) (send_bubbles env dp inp 0 (bubbles_of dp oc)) (\<lambda>_ w. drafted ?s oc (cw_log w)) (\<lambda>_ _. True) ?E"
    proof (cases "ao_chat oc = dp_chat dp")
      case True
      show ?thesis
        by (rule triple_weaken [OF bubbles_say [OF assms(1), unfolded keeping_def, where oc = oc]])
          (use part_stored [OF _ assms(2) True] in auto)
    qed (simp add: triple_def)
  qed (simp add: triple_give)
  have sent: "triple (?D oc) (handle (seq (send_bubbles env dp inp 0 (bubbles_of dp oc)) (\<lambda>_. give Answered))
        (\<lambda>e. case e of ManualTakeoverError _ \<Rightarrow> cancel_draft now ?s (CalledOff ''manual_mode'')
            | AutomationReplySuppressed reason \<Rightarrow> cancel_draft now ?s (CalledOff reason) | _ \<Rightarrow> fail e))
      (\<lambda>fin w. fin = Answered \<longrightarrow> drafted ?s oc (cw_log w)) (\<lambda>_ _. True) ?E" for oc now
  proof (rule triple_handle [where R = "\<lambda>_ _. True"])
    show "triple (?D oc) (seq (send_bubbles env dp inp 0 (bubbles_of dp oc)) (\<lambda>_. give Answered))
        (\<lambda>fin w. fin = Answered \<longrightarrow> drafted ?s oc (cw_log w)) (\<lambda>_ _. True) ?E" by (rule triple_weaken [OF send]) auto
    show "triple (\<lambda>_. True) (case e of ManualTakeoverError _ \<Rightarrow> cancel_draft now ?s (CalledOff ''manual_mode'')
            | AutomationReplySuppressed reason \<Rightarrow> cancel_draft now ?s (CalledOff reason) | _ \<Rightarrow> fail e)
        (\<lambda>fin w. fin = Answered \<longrightarrow> drafted ?s oc (cw_log w)) (\<lambda>_ _. True) ?E" for e
      by (cases e) (auto intro!: triple_fail triple_weaken [OF closing_returns(2)])
  qed
  have finish: "triple (\<lambda>w. fin = Answered \<longrightarrow> drafted ?s oc (cw_log w)) (if fin = Answered then conclude_reply env dp inp ?s x else give fin)
      (answered_at ?s ?t) (\<lambda>_ _. True) ?E" for fin oc x
    using conclude_answers [of ?s oc env dp inp x ?E] by (cases "fin = Answered") (auto simp: triple_give answered_at_def)
  have after: "triple (?D oc) (seq (handle (seq (send_bubbles env dp inp 0 (bubbles_of dp oc)) (\<lambda>_. give Answered))
        (\<lambda>e. case e of ManualTakeoverError _ \<Rightarrow> cancel_draft ?t ?s (CalledOff ''manual_mode'')
            | AutomationReplySuppressed reason \<Rightarrow> cancel_draft ?t ?s (CalledOff reason) | _ \<Rightarrow> fail e))
      (\<lambda>fin. if fin = Answered then conclude_reply env dp inp ?s (ao_content oc) else give fin)) (answered_at ?s ?t) (\<lambda>_ _. True) ?E" for oc
    by (rule triple_seq [OF sent finish])
  show ?thesis
    unfolding send_draft_def Let_def
  proof (rule speaks_seq)
    show "speaks ?s ?t ?E (seq (on_log (prepare_assistant_reply (sg_prepare (ci_clock inp)) (dp_chat dp) (ce_me env) (dp_item dp) reply ?s))
        (\<lambda>draft. seq (handle (seq (send_bubbles env dp inp 0 (if dp_ai dp then split_reply_bubbles (ao_content draft) else [ao_content draft])) (\<lambda>_. give Answered))
        (\<lambda>e. case e of ManualTakeoverError _ \<Rightarrow> cancel_draft ?t ?s (CalledOff ''manual_mode'')
            | AutomationReplySuppressed reason \<Rightarrow> cancel_draft ?t ?s (CalledOff reason) | _ \<Rightarrow> fail e))
      (\<lambda>fin. if fin = Answered then conclude_reply env dp inp ?s (ao_content draft) else give fin)))"
      unfolding speaks_def by (rule triple_seq [OF prep after [unfolded bubbles_of_def]])
  qed (intro holding emitting)+
qed

section \<open>The way to the draft\<close>

lemma speaks_basic [speaking]:
  "fin \<noteq> Answered \<Longrightarrow> speaks s t E (give fin)" "speaks s t E (fail e)" "speaks s t E m \<Longrightarrow> speaks s t E n \<Longrightarrow> speaks s t E (if b then m else n)"
  by (auto simp: speaks_def answered_at_def intro!: triple_give triple_fail)

lemma speaks_closing [speaking]:
  "fin \<noteq> Answered \<Longrightarrow> speaks s t E (record_outcome env now chat item s' role fin)"
  "fin \<noteq> Answered \<Longrightarrow> speaks s t E (cancel_draft now s' fin)" "fin \<noteq> Answered \<Longrightarrow> speaks s t E (cancel_pending now s' fin)"
  "speaks s t E (suppress_reply env now chat item s' d reason)" "speaks s t E (no_reply env inp chat item s' reason)"
  by (rule speaks_silent, rule returns_other, rule closing_returns suppress_returns cancel_pending_returns, simp)+

lemma before_draft_speaks [speaking]:
  assumes "calm_input (quiet (reply_source source)) inp" "dp_source dp = source"
  shows "speaks (reply_source source) (sg_close (ci_clock inp)) (says_stored (dp_chat dp) (dp_to dp) source)
    (before_draft env inp dp (reply_source source) d reply)"
  unfolding before_draft_def Let_def
  by (intro speaks_seq holding emitting) (auto intro!: speaking speaks_seq send_draft_speaks holding emitting assms split: option.split)

lemma deliver_speaks [speaking]:
  assumes "calm_input (quiet (reply_source source)) inp" "dp_source dp = source"
  shows "speaks (reply_source source) (sg_close (ci_clock inp)) (says_stored (dp_chat dp) (dp_to dp) source)
    (deliver_choice env inp dp (reply_source source) d by_rule v)"
proof -
  have "calm (quiet (reply_source source)) (ci_delay inp)" using assms(1) by (simp add: calm_input_def)
  then show ?thesis unfolding deliver_choice_def Let_def
    by (cases v) (auto intro!: speaking speaks_seq holding emitting assms)
qed

definition picks :: "string \<Rightarrow> (chat_event \<Rightarrow> bool) \<Rightarrow> (choice \<times> string) chat_task \<Rightarrow> bool" where
  "picks s E m \<longleftrightarrow>
     triple (\<lambda>w. open_for s (cw_log w)) m (\<lambda>c w. fst c \<noteq> Stop Answered \<and> (stops (fst c) \<or> open_for s (cw_log w))) (\<lambda>_ _. True) E"

lemma picks_seq: "holds (\<lambda>w. open_for s (cw_log w)) m \<Longrightarrow> emits E m \<Longrightarrow> (\<And>x. picks s E (f x)) \<Longrightarrow> picks s E (seq m f)"
  unfolding picks_def by (rule triple_seq [where R = "\<lambda>_ w. open_for s (cw_log w)"]) (auto intro: triple_weaken triple_keep)

lemma picks_stop: "picks s E (seq (suppress_reply env now chat item s' d reason) (\<lambda>fin. give (Stop fin, r)))"
  unfolding picks_def by (rule triple_seq [OF suppress_returns]) (auto simp: stops_def intro!: triple_give)

lemma picks_chosen: "picks s E (give (Chosen v b c d, r))"
  by (simp add: picks_def triple_give)

lemma replayed_picks: "picks s E (replayed_choice env inp chat item s' v)"
  unfolding replayed_choice_def
  by (intro picks_seq holding emitting) (auto intro!: picks_stop picks_chosen split: option.split)

lemma new_picks:
  assumes "E Asked" "calm_input (quiet s) inp"
  shows "picks s E (new_choice env inp chat item s' content)"
proof -
  have "picks s E (seq (choose_reply env inp chat item s' content) (\<lambda>c. give (c, r)))" for r
    unfolding picks_def
    by (rule triple_seq [OF choose_reply_chooses [where E = E and s = s, OF assms, unfolded chooses_def]]) (auto intro!: triple_give)
  then show ?thesis unfolding new_choice_def
    by (intro picks_seq holding emitting) (auto intro!: picks_stop split: option.split)
qed

lemma answer_speaks [speaking]:
  assumes "calm_input (quiet (reply_source source)) inp"
  shows "speaks (reply_source source) (sg_close (ci_clock inp)) (says_stored chat sender source)
    (answer_buyer env inp chat sender item content source draft)"
proof -
  let ?s = "reply_source source" and ?E = "says_stored chat sender source"
  let ?dp = "\<lambda>by_ai config rev. \<lparr>dp_chat = chat, dp_to = sender, dp_item = item, dp_source = source, dp_ai = by_ai, dp_config = config, dp_revision = rev\<rparr>"
  have asked: "?E Asked" by (simp add: says_stored_def)
  have deliver: "speaks ?s (sg_close (ci_clock inp)) ?E (deliver_choice env inp (?dp by_ai config rev) ?s d by_rule v)" for by_ai config rev d by_rule v
    using deliver_speaks [OF assms, of "?dp by_ai config rev"] by simp
  have pick: "picks ?s ?E (case draft of Some v \<Rightarrow> replayed_choice env inp chat item ?s v | None \<Rightarrow> new_choice env inp chat item ?s content)"
    by (auto intro: replayed_picks new_picks [where E = ?E and s = ?s, OF asked assms] split: option.split)
  have "speaks ?s (sg_close (ci_clock inp)) ?E
      (seq (case draft of Some v \<Rightarrow> replayed_choice env inp chat item ?s v | None \<Rightarrow> new_choice env inp chat item ?s content) (\<lambda>(c, rev).
        case c of Stop fin \<Rightarrow> give fin
        | Chosen v by_rule by_ai config \<Rightarrow> deliver_choice env inp (?dp by_ai config rev) ?s (draft \<noteq> None) by_rule v))"
    unfolding speaks_def
  proof (rule triple_seq [OF pick [unfolded picks_def]])
    fix x :: "choice \<times> string"
    obtain c rev where x: "x = (c, rev)" by (cases x)
    show "triple (\<lambda>w. fst x \<noteq> Stop Answered \<and> (stops (fst x) \<or> open_for ?s (cw_log w)))
        (case x of (c, rev) \<Rightarrow> case c of Stop fin \<Rightarrow> give fin
          | Chosen v by_rule by_ai config \<Rightarrow> deliver_choice env inp (?dp by_ai config rev) ?s (draft \<noteq> None) by_rule v)
        (answered_at ?s (sg_close (ci_clock inp))) (\<lambda>_ _. True) ?E"
    proof (cases c)
      case (Chosen v by_rule by_ai config)
      then show ?thesis using deliver [of by_ai config rev "draft \<noteq> None" by_rule v] by (simp add: x stops_def speaks_def)
    qed (auto simp: x answered_at_def intro!: triple_give)
  qed
  then show ?thesis unfolding answer_buyer_def Let_def
    by (intro speaks_seq holding emitting) (auto intro!: speaking speaks_seq holding emitting split: option.split)
qed

section \<open>Handling a message\<close>

lemma in_ledger_reply [simp]: "in_ledger (reply_source source)"
  by (simp add: in_ledger_def reply_source_def)

lemma owned_answers:
  assumes "calm_input (quiet (reply_source source)) inp"
  shows "triple (\<lambda>w. ledger_inv (cw_log w)) (owned_message env inp chat sender item content source)
    (answered_at (reply_source source) (sg_close (ci_clock inp))) (\<lambda>_ _. True) (says_stored chat sender source)"
  unfolding owned_message_def
proof (rule triple_seq)
  let ?s = "reply_source source"
  show "triple (\<lambda>w. ledger_inv (cw_log w)) (look (\<lambda>w. get_source_message ?s (cw_log w)))
      (\<lambda>draft w. ledger_inv (cw_log w) \<and> draft = get_source_message ?s (cw_log w)) (\<lambda>_ _. True) (says_stored chat sender source)"
    by (rule triple_look) simp
  fix draft
  have open_then: "triple (\<lambda>w. ledger_inv (cw_log w) \<and> draft = get_source_message ?s (cw_log w)) (answer_buyer env inp chat sender item content source d)
      (answered_at ?s (sg_close (ci_clock inp))) (\<lambda>_ _. True) (says_stored chat sender source)"
    if "map_option sv_role draft \<in> {None, Some ''assistant_pending''}" for d
  proof (rule triple_weaken [OF answer_speaks [OF assms, unfolded speaks_def]])
    show "open_for ?s (cw_log w)" if "ledger_inv (cw_log w) \<and> draft = get_source_message ?s (cw_log w)" for w
      using open_by_view [of "cw_log w" ?s] that \<open>map_option sv_role draft \<in> _\<close> by (simp add: open_for_def)
  qed
  show "triple (\<lambda>w. ledger_inv (cw_log w) \<and> draft = get_source_message ?s (cw_log w))
      (case map_option sv_role draft of None \<Rightarrow> answer_buyer env inp chat sender item content source None
       | Some role \<Rightarrow> if role \<in> set TERMINAL_ASSISTANT_ROLES then give AlreadyDone
           else if role \<noteq> ''assistant_pending'' then fail (RuntimeError ''assistant reply source has invalid state'')
           else answer_buyer env inp chat sender item content source draft)
      (answered_at ?s (sg_close (ci_clock inp))) (\<lambda>_ _. True) (says_stored chat sender source)"
  proof (cases draft)
    case None
    with open_then [of None] show ?thesis by simp
  next
    case (Some v)
    with open_then [of "Some v"] show ?thesis by (simp add: triple_if triple_give triple_fail answered_at_def)
  qed
qed

lemma quiet_sound: "calm (quiet s) mw \<Longrightarrow> calm (\<lambda>e. well_sourced (snd e)) mw"
  by (auto simp: calm_def quiet_def list_all_iff)

lemma sound_add:
  "\<not> in_ledger source \<Longrightarrow> holds (\<lambda>w. ledger_inv (cw_log w)) (act (\<lambda>w. case add_message_by_chat (ce_py env) (ce_history env) now chat sender item
      ''user'' content (Some source) ctype media (cw_log w) of (l, b) \<Rightarrow> (w\<lparr>cw_log := l\<rparr>, Inr b)))"
  using ledger_inv_apply [of _ "LMessage chat sender item ''user'' content (Some source) ctype media" "ce_py env" "ce_history env" now]
  by (intro holds_act) (simp add: text_of_def split: prod.split, metis fst_conv)

definition answers :: "string \<Rightarrow> time \<Rightarrow> (chat_event \<Rightarrow> bool) \<Rightarrow> finish chat_task \<Rightarrow> bool" where
  "answers s t E m \<longleftrightarrow> triple (\<lambda>w. ledger_inv (cw_log w)) m (answered_at s t) (\<lambda>_ _. True) E"

lemma answers_seq: "holds (\<lambda>w. ledger_inv (cw_log w)) m \<Longrightarrow> emits E m \<Longrightarrow> (\<And>x. answers s t E (f x)) \<Longrightarrow> answers s t E (seq m f)"
  unfolding answers_def by (rule triple_seq [where R = "\<lambda>_ w. ledger_inv (cw_log w)"]) (auto intro: triple_weaken triple_keep)

lemma answers_basic:
  "answers s t E (fail e)" "answers s t E m \<Longrightarrow> answers s t E n \<Longrightarrow> answers s t E (if b then m else n)"
  by (auto simp: answers_def intro!: triple_fail)

lemma answers_not: "fin \<noteq> Answered \<Longrightarrow> answers s t E (cancel_pending now s' fin)"
  unfolding answers_def by (rule triple_weaken [OF cancel_pending_returns]) (auto simp: answered_at_def)

lemma process_answers:
  assumes calm: "calm_input (quiet (reply_source source)) inp" and src: "\<not> in_ledger source"
  shows "answers (reply_source source) (sg_close (ci_clock inp)) (says_stored chat sender source)
    (process_buyer_chat env inp chat sender item content source media ctype)"
proof -
  have scope: "calm (\<lambda>e. well_sourced (snd e)) (si_waiting (ci_scope inp))" using calm by (intro quiet_sound [of "reply_source source"]) (simp add: calm_input_def)
  have owned: "answers (reply_source source) (sg_close (ci_clock inp)) (says_stored chat sender source) (owned_message env inp chat sender item content source)"
    unfolding answers_def using calm by (rule owned_answers)
  have early: "holds (\<lambda>w. ledger_inv (cw_log w)) (case e of None \<Rightarrow> give () | Some x \<Rightarrow> fail x)" "emits E (case e of None \<Rightarrow> give () | Some x \<Rightarrow> fail x)" for e E
    by (cases e; simp add: holding emitting)+
  show ?thesis unfolding process_buyer_chat_def Let_def
    by (intro answers_seq answers_basic answers_not owned early sound_add [OF src] scope holding emitting) simp_all
qed

text \<open>A source that is closed.\<close>

definition passes :: "finish set" where
  "passes = {NotCustomer, Unconfirmed, AlreadyDone}"

definition left_alone :: "string \<Rightarrow> outcome_row \<Rightarrow> finish chat_task \<Rightarrow> bool" where
  "left_alone s oc m \<longleftrightarrow> triple (\<lambda>w. done_at s oc (cw_log w)) m (\<lambda>fin _. fin \<in> passes) (\<lambda>_ _. True) (\<lambda>_. False)"

lemma left_alone_seq:
  "holds (\<lambda>w. done_at s oc (cw_log w)) m \<Longrightarrow> emits (\<lambda>_. False) m \<Longrightarrow> (\<And>x. left_alone s oc (f x)) \<Longrightarrow> left_alone s oc (seq m f)"
  unfolding left_alone_def by (rule triple_seq [where R = "\<lambda>_ w. done_at s oc (cw_log w)"]) (auto intro: triple_weaken triple_keep)

lemma left_alone_basic:
  "left_alone s oc (fail e)" "left_alone s oc m \<Longrightarrow> left_alone s oc n \<Longrightarrow> left_alone s oc (if b then m else n)"
  "fin \<in> passes \<Longrightarrow> left_alone s oc (cancel_pending now s' fin)"
  by (auto simp: left_alone_def intro!: triple_fail triple_weaken [OF cancel_pending_returns])

lemma owned_left_alone: "left_alone (reply_source source) oc (owned_message env inp chat sender item content source)"
  unfolding owned_message_def left_alone_def
proof (rule triple_seq)
  let ?s = "reply_source source"
  show "triple (\<lambda>w :: chat_worker. done_at ?s oc (cw_log w)) (look (\<lambda>w. get_source_message ?s (cw_log w)))
      (\<lambda>draft _. \<exists>r \<in> set TERMINAL_ASSISTANT_ROLES. map_option sv_role draft = Some r) (\<lambda>_ _. True) (\<lambda>_ :: chat_event. False)"
  proof (rule triple_look)
    fix w :: chat_worker
    assume "done_at ?s oc (cw_log w)"
    with known_view [of "cw_log w" ?s oc] show "\<exists>r \<in> set TERMINAL_ASSISTANT_ROLES. map_option sv_role (get_source_message ?s (cw_log w)) = Some r"
      by (intro bexI [of _ "ao_role oc"]) (simp_all add: done_at_def)
  qed
qed (auto simp: triple_def give_def passes_def)

lemma closed_add:
  fixes env :: chat_env
  assumes "\<not> in_ledger source" "now \<le> ao_updated oc + OUTCOME_RETENTION_SECONDS"
  shows "holds (\<lambda>w. done_at s oc (cw_log w)) (act (\<lambda>w. case add_message_by_chat (ce_py env) (ce_history env) now chat sender item
      ''user'' content (Some source) ctype media (cw_log w) of (l, b) \<Rightarrow> (w\<lparr>cw_log := l\<rparr>, Inr b)))"
  using closed.steady [of _ oc _ now "LMessage chat sender item ''user'' content (Some source) ctype media" env, where s = s] assms
  by (intro holds_act) (simp add: text_of_def retained_def split: prod.split, metis fst_conv)

lemma process_leaves_alone:
  assumes src: "\<not> in_ledger source" and calm: "calm (retained (ao_updated oc)) (si_waiting (ci_scope inp))"
    and now: "sg_add (ci_clock inp) \<le> ao_updated oc + OUTCOME_RETENTION_SECONDS"
  shows "left_alone (reply_source source) oc (process_buyer_chat env inp chat sender item content source media ctype)"
proof -
  have early: "holds J (case e of None \<Rightarrow> give () | Some x \<Rightarrow> fail x)" "emits E (case e of None \<Rightarrow> give () | Some x \<Rightarrow> fail x)" for e E and J :: "chat_worker \<Rightarrow> bool"
    by (cases e; simp add: holding emitting)+
  show ?thesis unfolding process_buyer_chat_def Let_def
    by (intro left_alone_seq left_alone_basic owned_left_alone early closed_add [OF src now] calm holding emitting) (simp_all add: passes_def)
qed

end
