(* ===== verification/Reply_Guards.thy ===== *)
theory Reply_Guards
  imports Reply_Drafts
begin

text \<open>
  What was checked when a message is handed to the connection: the state in which the send starts permits the reply,
  unless the state changed while the worker waited for the language model's readiness.
\<close>

section \<open>Permission\<close>

definition permits :: "chat_env \<Rightarrow> try_input \<Rightarrow> string \<Rightarrow> string \<Rightarrow> chat_worker \<Rightarrow> bool" where
  \<comment> \<open>No take-over, no cool-down, within the hours, and the seller's own item\<close>
  "permits env ti chat item w \<longleftrightarrow>
     (let now = cf_now (ti_refresh ti) in
      configured_reason now (cw_auto w) = None \<and> \<not> snd (is_manual_mode (ce_digest env) now chat (cw_manual w)) \<and>
      cooldown_reason now chat w = None \<and>
      (\<exists>r. get_customer_conversation_scope chat item (ce_account env) (cw_scopes w) = Some r \<and> sc_scope r = Owned \<and> fresh_scope (si_now (ti_scope ti)) r))"

definition idle :: "meanwhile \<Rightarrow> bool" where
  \<comment> \<open>Nothing but the ledger changes\<close>
  "idle mw \<longleftrightarrow> mw_store mw = None \<and> mw_tables mw = None \<and> mw_auto mw = None"

lemma permits_ledger [simp]: "permits env ti chat item (w\<lparr>cw_log := l\<rparr>) = permits env ti chat item w"
  by (simp add: permits_def cooldown_reason_def)

lemma idle_await: "idle mw \<Longrightarrow> others env mw w = w\<lparr>cw_log := run_ledger (ce_py env) (ce_history env) (mw_ledger mw) (cw_log w)\<rparr>"
  by (simp add: others_def idle_def Let_def)

lemma manual_again: "snd (is_manual_mode digest now chat (fst (is_manual_mode digest now chat m))) = snd (is_manual_mode digest now chat m)"
  by (simp add: is_manual_mode_def Let_def sql_delete_def)

lemma scope_kept:
  assumes "set_customer_conversation_scope chat item account scope now t = (t', Inr u)"
  shows "\<exists>r. get_customer_conversation_scope chat item account t' = Some r \<and> sc_scope r = scope \<and> sc_checked r = now"
proof -
  let ?new = "\<lparr>sc_chat = py_strip chat, sc_item = py_strip item, sc_account = py_strip account, sc_scope = scope, sc_checked = now\<rparr>"
  let ?f = "\<lambda>r. r\<lparr>sc_item := py_strip item, sc_account := py_strip account, sc_scope := scope, sc_checked := now\<rparr>"
  have t': "t' = sql_upsert sc_chat ?new ?f t"
    using assms by (auto simp: set_customer_conversation_scope_def Let_def split: if_splits)
  have all: "sc_item r = py_strip item \<and> sc_account r = py_strip account \<and> sc_scope r = scope \<and> sc_checked r = now"
    if "r \<in> set t'" "sc_chat r = py_strip chat" for r
    using that by (auto simp: t' sql_upsert_def sql_update_def find_None_iff split: if_splits)
  have "find (\<lambda>r. sc_chat r = py_strip chat) t' \<noteq> None" by (simp add: t' scope_keys.find_upsert)
  then obtain q where "q \<in> set t'" "sc_chat q = py_strip chat" by (auto dest: find_SomeD)
  then have "find (\<lambda>r. sc_chat r = py_strip chat \<and> sc_item r = py_strip item \<and> sc_account r = py_strip account) t' \<noteq> None"
    using all by (auto simp: find_None_iff)
  then obtain r where r: "find (\<lambda>r. sc_chat r = py_strip chat \<and> sc_item r = py_strip item \<and> sc_account r = py_strip account) t' = Some r" by blast
  with all [of r] show ?thesis unfolding get_customer_conversation_scope_def by (auto dest: find_SomeD)
qed

lemma just_checked: "sc_checked r = now \<Longrightarrow> fresh_scope now r"
  by (simp add: fresh_scope_def)

section \<open>The checks before a send\<close>

lemma scope_checked:
  "triple P (customer_conversation_scope env si chat item)
     (\<lambda>sc w. sc = Owned \<longrightarrow> (\<exists>r. get_customer_conversation_scope chat item (ce_account env) (cw_scopes w) = Some r \<and> sc_scope r = Owned \<and> fresh_scope (si_now si) r))
     (\<lambda>_ _. True) E"
proof -
  let ?Q = "\<lambda>sc w. sc = Owned \<longrightarrow> (\<exists>r. get_customer_conversation_scope chat item (ce_account env) (cw_scopes w) = Some r \<and> sc_scope r = Owned \<and> fresh_scope (si_now si) r)"
  have keep: "triple (\<lambda>_. True) (keep_scope env si chat item scope) ?Q (\<lambda>_ _. True) E" for scope
    unfolding keep_scope_def
  proof (rule triple_seq [where R = "\<lambda>_. ?Q scope"])
    show "triple (\<lambda>_. True) (act (\<lambda>w. case set_customer_conversation_scope chat item (ce_account env) scope (si_now si) (cw_scopes w) of (t, r) \<Rightarrow> (w\<lparr>cw_scopes := t\<rparr>, r)))
        (\<lambda>_. ?Q scope) (\<lambda>_ _. True) E"
      by (rule triple_act) (auto split: prod.splits dest!: scope_kept intro: just_checked)
  qed (auto intro: triple_give)
  have ask: "triple (\<lambda>_. True) (ask_scope env si chat item) ?Q (\<lambda>_ _. True) E"
    unfolding ask_scope_def
    by (intro returns_seq emitting) (auto intro!: keep triple_fail split: sum.split py_error.split)
  have cached: "triple (\<lambda>_. True) (seq (look (\<lambda>w. get_customer_conversation_scope chat item (ce_account env) (cw_scopes w))) (\<lambda>cached.
              case cached of None \<Rightarrow> ask_scope env si chat item
              | Some r \<Rightarrow> if fresh_scope (si_now si) r then give (sc_scope r) else ask_scope env si chat item)) ?Q (\<lambda>_ _. True) E"
  proof (rule triple_seq [where R = "\<lambda>c w. c = get_customer_conversation_scope chat item (ce_account env) (cw_scopes w)"])
    show "triple (\<lambda>w. c = get_customer_conversation_scope chat item (ce_account env) (cw_scopes w))
        (case c of None \<Rightarrow> ask_scope env si chat item | Some r \<Rightarrow> if fresh_scope (si_now si) r then give (sc_scope r) else ask_scope env si chat item)
        ?Q (\<lambda>_ _. True) E" for c
      by (intro triple_option triple_if triple_weaken [OF ask] triple_give) auto
  qed (auto intro: triple_look)
  have "triple (\<lambda>_. True) (customer_conversation_scope env si chat item) ?Q (\<lambda>_ _. True) E"
    unfolding customer_conversation_scope_def
    by (auto intro!: returns_seq emitting keep cached triple_give)
  then show ?thesis by (rule triple_weaken) auto
qed


lemma reason_checked:
  assumes keep: "\<And>w a m. Q w \<Longrightarrow> Q (w\<lparr>cw_auto := a\<rparr>) \<and> Q (w\<lparr>cw_manual := m\<rparr>)"
  shows "triple Q (automatic_reply_suppression_reason env rf chat)
     (\<lambda>r w. Q w \<and> (r = None \<longrightarrow> configured_reason (cf_now rf) (cw_auto w) = None \<and>
        \<not> snd (is_manual_mode (ce_digest env) (cf_now rf) chat (cw_manual w)) \<and> cooldown_reason (cf_now rf) chat w = None)) (\<lambda>_ _. True) E"
proof -
  let ?now = "cf_now rf"
  let ?M = "\<lambda>w. snd (is_manual_mode (ce_digest env) ?now chat (cw_manual w))"
  let ?R = "\<lambda>r w. Q w \<and> (r = None \<longrightarrow> configured_reason ?now (cw_auto w) = None \<and> \<not> ?M w \<and> cooldown_reason ?now chat w = None)"
  have refresh: "triple Q (refresh_config env rf) (\<lambda>_. Q) (\<lambda>_ _. True) E"
    unfolding refresh_config_def on_auto_def by (intro triple_seq [where R = "\<lambda>_. Q"] triple_act) (auto split: prod.splits simp: keep)
  have manual: "triple (\<lambda>w. Q w \<and> configured_reason ?now (cw_auto w) = None) (manual_now env ?now chat)
      (\<lambda>b w. Q w \<and> configured_reason ?now (cw_auto w) = None \<and> b = ?M w) (\<lambda>_ _. True) E"
    unfolding manual_now_def
  proof (rule triple_act)
    fix w w' :: chat_worker and b
    assume w: "Q w \<and> configured_reason ?now (cw_auto w) = None"
      and r: "(case is_manual_mode (ce_digest env) ?now chat (cw_manual w) of (m, b) \<Rightarrow> (w\<lparr>cw_manual := m\<rparr>, Inr b)) = (w', Inr b)"
    have "w' = w\<lparr>cw_manual := fst (is_manual_mode (ce_digest env) ?now chat (cw_manual w))\<rparr>" "b = ?M w"
      using r by (auto split: prod.splits)
    with w manual_again [of "ce_digest env" ?now chat "cw_manual w"]
    show "Q w' \<and> configured_reason ?now (cw_auto w') = None \<and> b = ?M w'" by (simp add: keep)
  qed simp
  have rest: "triple (\<lambda>w. Q w \<and> configured_reason ?now (cw_auto w) = None \<and> b = ?M w)
      (if b then give (Some ''manual_mode'') else look (cooldown_reason ?now chat)) ?R (\<lambda>_ _. True) E" for b
    by (intro triple_if triple_give triple_look) auto
  have "triple (\<lambda>w. Q w \<and> r = configured_reason ?now (cw_auto w)) (case r of Some x \<Rightarrow> give (Some x)
       | None \<Rightarrow> seq (manual_now env ?now chat) (\<lambda>manual. if manual then give (Some ''manual_mode'') else look (cooldown_reason ?now chat)))
      ?R (\<lambda>_ _. True) E" for r
  proof (cases r)
    case None
    have "triple (\<lambda>w. Q w \<and> configured_reason ?now (cw_auto w) = None)
        (seq (manual_now env ?now chat) (\<lambda>manual. if manual then give (Some ''manual_mode'') else look (cooldown_reason ?now chat))) ?R (\<lambda>_ _. True) E"
      by (rule triple_seq [OF manual rest])
    then show ?thesis by (simp add: None eq_commute)
  qed (auto intro!: triple_give)
  then show ?thesis unfolding automatic_reply_suppression_reason_def
    by (intro triple_seq [OF refresh] triple_seq [OF triple_look [where Q = "\<lambda>r w. Q w \<and> r = configured_reason ?now (cw_auto w)"]]) simp_all
qed

lemma verify_permits:
  assumes "idle (snd (ti_ready ti))"
  shows "triple P (verify_automatic_reply env dp ti) (\<lambda>_. permits env ti (dp_chat dp) (dp_item dp)) (\<lambda>_ _. True) E"
proof -
  let ?P = "permits env ti (dp_chat dp) (dp_item dp)"
  let ?Q = "\<lambda>w. \<exists>r. get_customer_conversation_scope (dp_chat dp) (dp_item dp) (ce_account env) (cw_scopes w) = Some r \<and> sc_scope r = Owned \<and> fresh_scope (si_now (ti_scope ti)) r"
  have ready: "triple ?P (ensure_ai_reply_ready env (ti_ready ti)) (\<lambda>_. ?P) (\<lambda>_ _. True) E"
    unfolding ensure_ai_reply_ready_def await_def
  proof (rule triple_seq [where R = "\<lambda>_. ?P"])
    fix ok :: bool
    show "triple ?P (if \<not> ok then fail (AutomationReplySuppressed ''ai_readiness_unavailable'')
       else seq (change (others env (snd (ti_ready ti)))) (\<lambda>_. case fst (ti_ready ti) of Inr _ \<Rightarrow> give ()
           | Inl CancelledError \<Rightarrow> fail CancelledError | Inl _ \<Rightarrow> fail (AutomationReplySuppressed ''ai_readiness_failed'')))
       (\<lambda>_. ?P) (\<lambda>_ _. True) E"
      by (intro triple_if triple_fail triple_seq [where R = "\<lambda>_. ?P"] triple_change)
        (auto simp: idle_await [OF assms] intro!: triple_give triple_fail split: sum.split py_error.split)
  qed (auto intro: triple_look)
  have rev: "triple ?P (seq (revision_now env) (\<lambda>rev. if rev \<noteq> Some (dp_revision dp) then fail (AutomationReplySuppressed ''automation_config_changed'')
                 else if dp_ai dp then ensure_ai_reply_ready env (ti_ready ti) else give ())) (\<lambda>_. ?P) (\<lambda>_ _. True) E"
    unfolding revision_now_def by (intro triple_seq [where R = "\<lambda>_. ?P"] triple_look triple_if triple_fail triple_give ready) simp_all
  have reason: "triple ?Q (seq (automatic_reply_suppression_reason env (ti_refresh ti) (dp_chat dp)) (\<lambda>reason. case reason of Some x \<Rightarrow> fail (AutomationReplySuppressed x)
      | None \<Rightarrow> seq (revision_now env) (\<lambda>rev. if rev \<noteq> Some (dp_revision dp) then fail (AutomationReplySuppressed ''automation_config_changed'')
                 else if dp_ai dp then ensure_ai_reply_ready env (ti_ready ti) else give ()))) (\<lambda>_. ?P) (\<lambda>_ _. True) E"
  proof (rule triple_seq [OF reason_checked])
    show "?Q (w\<lparr>cw_auto := a\<rparr>) \<and> ?Q (w\<lparr>cw_manual := m\<rparr>)" if "?Q w" for w a m using that by simp
    fix r :: "string option"
    have "?P w" if "?Q w" "configured_reason (cf_now (ti_refresh ti)) (cw_auto w) = None"
      "\<not> snd (is_manual_mode (ce_digest env) (cf_now (ti_refresh ti)) (dp_chat dp) (cw_manual w))" "cooldown_reason (cf_now (ti_refresh ti)) (dp_chat dp) w = None" for w
      using that by (simp add: permits_def)
    then show "triple (\<lambda>w. ?Q w \<and> (r = None \<longrightarrow> configured_reason (cf_now (ti_refresh ti)) (cw_auto w) = None \<and>
        \<not> snd (is_manual_mode (ce_digest env) (cf_now (ti_refresh ti)) (dp_chat dp) (cw_manual w)) \<and> cooldown_reason (cf_now (ti_refresh ti)) (dp_chat dp) w = None))
      (case r of Some x \<Rightarrow> fail (AutomationReplySuppressed x)
      | None \<Rightarrow> seq (revision_now env) (\<lambda>rev. if rev \<noteq> Some (dp_revision dp) then fail (AutomationReplySuppressed ''automation_config_changed'')
                 else if dp_ai dp then ensure_ai_reply_ready env (ti_ready ti) else give ())) (\<lambda>_. ?P) (\<lambda>_ _. True) E"
      by (intro triple_option triple_weaken [OF rev] triple_fail) auto
  qed
  show ?thesis unfolding verify_automatic_reply_def
    by (intro triple_seq [OF scope_checked] triple_if triple_fail triple_weaken [OF reason]) auto
qed

section \<open>Every message\<close>

definition permitted :: "chat_env \<Rightarrow> chat_input \<Rightarrow> string \<Rightarrow> string \<Rightarrow> chat_event \<Rightarrow> bool" where
  \<comment> \<open>One of the attempts checked its permission in the state in which the message starts\<close>
  "permitted env inp chat item e =
     (case e of
        Asked \<Rightarrow> True
      | Said ev \<Rightarrow> \<exists>i. permits env (fst (ci_tries inp i)) chat item (re_state ev) \<or> permits env (snd (ci_tries inp i)) chat item (re_state ev))"

definition idle_checks :: "chat_input \<Rightarrow> bool" where
  "idle_checks inp \<longleftrightarrow> (\<forall>i. idle (snd (ti_ready (fst (ci_tries inp i)))) \<and> idle (snd (ti_ready (snd (ci_tries inp i)))))"

lemma try_permitted:
  assumes "idle (snd (ti_ready ti))" "\<And>ev. permits env ti (dp_chat dp) (dp_item dp) (re_state ev) \<Longrightarrow> E (Said ev)"
  shows "emits E (try_send env dp index b ti)"
proof -
  let ?P = "permits env ti (dp_chat dp) (dp_item dp)"
  have send: "triple ?P (seq (emit (\<lambda>w. Said \<lparr>re_key = message_key dp index, re_chat = dp_chat dp, re_to = dp_to dp, re_text = b, re_state = w\<rparr>))
      (\<lambda>_. seq (await env (ti_sending ti)) (\<lambda>_. raising (ti_sent ti)))) (\<lambda>_ _. True) (\<lambda>_ _. True) E"
  proof (rule triple_seq [where R = "\<lambda>_ _. True"])
    show "triple ?P (emit (\<lambda>w. Said \<lparr>re_key = message_key dp index, re_chat = dp_chat dp, re_to = dp_to dp, re_text = b, re_state = w\<rparr>)) (\<lambda>_ _. True) (\<lambda>_ _. True) E"
      by (rule triple_emit) (simp add: assms(2))
  qed (intro triple_True emitting)
  have core: "emits E (seq (if ti_socket ti then verify_automatic_reply env dp ti else fail (ConnectionError ''websocket is unavailable''))
      (\<lambda>_. seq (emit (\<lambda>w. Said \<lparr>re_key = message_key dp index, re_chat = dp_chat dp, re_to = dp_to dp, re_text = b, re_state = w\<rparr>))
      (\<lambda>_. seq (await env (ti_sending ti)) (\<lambda>_. raising (ti_sent ti)))))"
    unfolding emits_def by (intro triple_seq [OF triple_if send] verify_permits assms(1) triple_fail) auto
  have rest: "emits E (case ti_connect ti of Some e \<Rightarrow> fail e
       | None \<Rightarrow> seq (forbid_manual env (ti_second_look ti) (dp_chat dp)) (\<lambda>_.
           seq (if ti_socket ti then verify_automatic_reply env dp ti else fail (ConnectionError ''websocket is unavailable'')) (\<lambda>_.
           seq (emit (\<lambda>w. Said \<lparr>re_key = message_key dp index, re_chat = dp_chat dp, re_to = dp_to dp, re_text = b, re_state = w\<rparr>)) (\<lambda>_.
           seq (await env (ti_sending ti)) (\<lambda>_. raising (ti_sent ti))))))"
    using core by (cases "ti_connect ti") (simp_all only: option.case emits_seq silent_verify emits_basic)
  show ?thesis unfolding try_send_def by (rule emits_seq [OF silent_verify(2) emits_seq [OF silent_tasks(1) rest]])
qed

lemma bubbles_permitted:
  assumes "idle_checks inp"
  shows "emits (permitted env inp (dp_chat dp) (dp_item dp)) (send_bubbles env dp inp index bs)"
proof (induction bs arbitrary: index)
  case (Cons b bs)
  have tries: "emits (permitted env inp (dp_chat dp) (dp_item dp)) (try_send env dp index b (fst (ci_tries inp index)))"
    "emits (permitted env inp (dp_chat dp) (dp_item dp)) (try_send env dp index b (snd (ci_tries inp index)))"
    using assms by (intro try_permitted; auto simp: idle_checks_def permitted_def)+
  then show ?case unfolding send_bubbles.simps send_bubble_def by (intro emitting tries Cons.IH)
qed (simp add: emitting)

lemma send_draft_permitted [emitting]:
  "idle_checks inp \<Longrightarrow> dp_chat dp = chat \<Longrightarrow> dp_item dp = item \<Longrightarrow> emits (permitted env inp chat item) (send_draft env dp inp s reply)"
  using bubbles_permitted [of inp env dp] unfolding send_draft_def Let_def conclude_reply_def
  by (intro emitting) (auto intro!: emitting split: py_error.split)

lemma asked_permitted [simp]: "permitted env inp chat item Asked"
  by (simp add: permitted_def)

lemma before_draft_permitted [emitting]:
  "idle_checks inp \<Longrightarrow> dp_chat dp = chat \<Longrightarrow> dp_item dp = item \<Longrightarrow> emits (permitted env inp chat item) (before_draft env inp dp s d reply)"
  unfolding before_draft_def Let_def by (intro emitting) (auto intro!: emitting split: option.split)

lemma deliver_permitted [emitting]:
  "idle_checks inp \<Longrightarrow> dp_chat dp = chat \<Longrightarrow> dp_item dp = item \<Longrightarrow> emits (permitted env inp chat item) (deliver_choice env inp dp s d by_rule v)"
  unfolding deliver_choice_def Let_def by (cases v) (auto intro!: emitting)

lemma choices_emit [emitting]:
  "E Asked \<Longrightarrow> emits E (ask_again env inp chat item s base recent first)" "E Asked \<Longrightarrow> emits E (ask_model env inp chat item s base recent)"
  unfolding ask_model_def ask_again_def Let_def by (intro emitting; auto intro!: emitting split: pyval.split)+

lemma choice_emits [emitting]: "E Asked \<Longrightarrow> emits E (choose_reply env inp chat item s content)"
  unfolding choose_reply_def reply_without_rule_def reply_by_ai_def Let_def
  by (intro emitting) (auto intro!: emitting split: option.split)

lemma picks_emit [emitting]: "emits E (replayed_choice env inp chat item s v)" "E Asked \<Longrightarrow> emits E (new_choice env inp chat item s content)"
  unfolding replayed_choice_def new_choice_def by (intro emitting; auto intro!: emitting split: option.split)+

lemma answer_permitted [emitting]:
  assumes "idle_checks inp"
  shows "emits (permitted env inp chat item) (answer_buyer env inp chat sender item content source draft)"
  unfolding answer_buyer_def Let_def
  by (intro emitting) (auto intro!: emitting assms split: option.split choice.split)

lemma process_permitted:
  assumes "idle_checks inp"
  shows "emits (permitted env inp chat item) (process_buyer_chat env inp chat sender item content source media ctype)"
  unfolding process_buyer_chat_def owned_message_def Let_def
  by (intro emitting) (auto intro!: emitting assms split: option.split)

end
