(* ===== verification/Reply_Races.thy ===== *)
theory Reply_Races
  imports Reply_Drafts
begin

text \<open>
  The wait for the language model's readiness is the last one before a message is sent, and nothing is looked at behind it.
\<close>

lemma seq_assoc: "seq (seq m f) g = seq m (\<lambda>x. seq (f x) g)"
  by (rule ext) (auto simp: seq_def split: prod.splits sum.splits)

lemma seq_ends [simp]: "seq (fail e) f = fail e" "seq (give x) f = f x"
  by (rule ext, simp add: seq_def fail_def give_def)+

lemma seq_if: "seq (if b then m else n) f = (if b then seq m f else seq n f)"
  by simp

lemma seq_option: "seq (case v of None \<Rightarrow> m | Some x \<Rightarrow> h x) f = (case v of None \<Rightarrow> seq m f | Some x \<Rightarrow> seq (h x) f)"
  by (cases v) simp_all

definition before_ready :: "chat_env \<Rightarrow> draft_plan \<Rightarrow> try_input \<Rightarrow> unit chat_task" where
  \<comment> \<open>A try up to the wait for the model\<close>
  "before_ready env dp ti =
     seq (forbid_manual env (ti_first_look ti) (dp_chat dp)) (\<lambda>_.
     seq (await env (ti_waiting ti)) (\<lambda>_.
       case ti_connect ti of
         Some e \<Rightarrow> fail e
       | None \<Rightarrow>
           seq (forbid_manual env (ti_second_look ti) (dp_chat dp)) (\<lambda>_.
             if ti_socket ti then
               seq (customer_conversation_scope env (ti_scope ti) (dp_chat dp) (dp_item dp)) (\<lambda>scope.
                 if scope \<noteq> Owned then fail (AutomationReplySuppressed ''not_verified_seller'')
                 else
                   seq (automatic_reply_suppression_reason env (ti_refresh ti) (dp_chat dp)) (\<lambda>reason.
                     case reason of
                       Some x \<Rightarrow> fail (AutomationReplySuppressed x)
                     | None \<Rightarrow>
                         seq (revision_now env) (\<lambda>rev.
                           if rev \<noteq> Some (dp_revision dp) then fail (AutomationReplySuppressed ''automation_config_changed'') else give ())))
             else fail (ConnectionError ''websocket is unavailable''))))"

definition after_ready :: "chat_env \<Rightarrow> draft_plan \<Rightarrow> nat \<Rightarrow> string \<Rightarrow> try_input \<Rightarrow> unit chat_task" where
  "after_ready env dp i b ti =
     seq (emit (\<lambda>w. Said \<lparr>re_key = message_key dp i, re_chat = dp_chat dp, re_to = dp_to dp, re_text = b, re_state = w\<rparr>)) (\<lambda>_.
     seq (await env (ti_sending ti)) (\<lambda>_. raising (ti_sent ti)))"

lemma try_of_ai:
  "dp_ai dp \<Longrightarrow> try_send env dp i b ti = seq (before_ready env dp ti) (\<lambda>_. seq (ensure_ai_reply_ready env (ti_ready ti)) (\<lambda>_. after_ready env dp i b ti))"
  unfolding try_send_def before_ready_def verify_automatic_reply_def after_ready_def
  by (simp add: seq_assoc seq_if seq_option cong: if_cong option.case_cong)

lemma before_ready_silent: "emits (\<lambda>_. False) (before_ready env dp ti)"
  unfolding before_ready_def by (intro emitting) (auto intro!: emitting split: option.split)

lemma before_ready_other [simp]: "before_ready env dp (ti\<lparr>ti_ready := x\<rparr>) = before_ready env dp ti"
  by (simp add: before_ready_def cong: if_cong option.case_cong)

lemma after_ready_says: "snd (snd (after_ready env dp i b ti w)) =
    [Said \<lparr>re_key = message_key dp i, re_chat = dp_chat dp, re_to = dp_to dp, re_text = b, re_state = w\<rparr>]"
  by (simp add: after_ready_def seq_def emit_def await_def change_def raising_def split: sum.split)

lemma ready_passes:
  "ensure_ai_reply_ready env ready w =
     (if \<not> (ce_bot env \<and> au_mode (cw_auto w) = RulesAi) then (w, Inl (AutomationReplySuppressed ''ai_readiness_unavailable''), [])
      else (others env (snd ready) w, (case fst ready of Inr _ \<Rightarrow> Inr () | Inl CancelledError \<Rightarrow> Inl CancelledError
         | Inl _ \<Rightarrow> Inl (AutomationReplySuppressed ''ai_readiness_failed'')), []))"
  by (auto simp: ensure_ai_reply_ready_def seq_def look_def await_def change_def fail_def give_def split: sum.split py_error.split)

lemma others_manual [simp]: "mw_store mw = Some (m, rep, us) \<Longrightarrow> cw_manual (others env mw w) = m"
  by (cases "mw_tables mw"; cases "mw_auto mw") (auto simp: others_def Let_def)

lemma readiness_overlooks:
  assumes ai: "dp_ai dp" and e: "try_send env dp i b ti w = (w', r, es)" and ev: "Said ev \<in> set es"
    and t2: "t2 = ti\<lparr>ti_ready := (fst (ti_ready ti), (snd (ti_ready ti))\<lparr>mw_store := Some (m, rep, us)\<rparr>)\<rparr>"
  shows "\<exists>w2 r2 ev2. try_send env dp i b t2 w = (w2, r2, [Said ev2]) \<and> re_text ev2 = b \<and> cw_manual (re_state ev2) = m"
proof -
  obtain w1 r1 es1 where b: "before_ready env dp ti w = (w1, r1, es1)" by (metis prod_cases3)
  have "es1 = []" using emitsD [OF before_ready_silent b] by (cases es1) auto
  note b = b [unfolded this]
  have r1: "r1 = Inr ()" using e ev ai by (cases r1) (auto simp: try_of_ai seq_def b)
  let ?ok = "ce_bot env \<and> au_mode (cw_auto w1) = RulesAi"
  have ok: "?ok" using e ev ai by (auto simp: try_of_ai seq_def b r1 ready_passes split: if_splits)
  obtain u where u: "fst (ti_ready ti) = Inr u"
    using e ev ai ok by (cases "fst (ti_ready ti)") (auto simp: try_of_ai seq_def b r1 ready_passes split: py_error.splits)
  let ?w2 = "others env (snd (ti_ready t2)) w1"
  have "try_send env dp i b t2 w = after_ready env dp i b t2 ?w2"
    using ai ok u by (auto simp: try_of_ai seq_def b r1 ready_passes t2 split: prod.split)
  moreover have "cw_manual ?w2 = m" by (rule others_manual [where rep = rep and us = us]) (simp add: t2)
  ultimately show ?thesis using after_ready_says [of env dp i b t2 ?w2] by (cases "after_ready env dp i b t2 ?w2") auto
qed

end
