(* ===== verification/Reply_Settings.thy ===== *)
theory Reply_Settings
  imports Reply_Text
begin

text \<open>
  What the worker keeps of its configuration files over any number of refreshes, the rule it chooses, and the messages a
  long reply is cut into.
\<close>

section \<open>Settings\<close>

definition settings_ok :: "settings \<Rightarrow> bool" where
  "settings_ok st \<longleftrightarrow> st_strategy st \<in> set VALID_AUTOMATION_STRATEGIES \<and>
     0 \<le> st_delay_min st \<and> st_delay_min st \<le> 60 \<and> 0 \<le> st_delay_max st \<and> st_delay_max st \<le> 60 \<and>
     0 \<le> st_trigger_cooldown st \<and> st_trigger_cooldown st \<le> 300 \<and> 0 \<le> st_takeover_cooldown st \<and> st_takeover_cooldown st \<le> 300 \<and>
     py_len (st_first_reply st) \<le> 1000 \<and> py_len (st_fallback_reply st) \<le> 1000 \<and>
     clock_minutes (st_start st) \<noteq> None \<and> clock_minutes (st_end st) \<noteq> None"

lemma checked:
  "check_reply v = Inr s \<Longrightarrow> py_len s \<le> 1000" "check_seconds limit v = Inr i \<Longrightarrow> 0 \<le> i \<and> i \<le> limit"
  "check_clock v = Inr c \<Longrightarrow> clock_minutes c \<noteq> None" "check_strategy v = Inr t \<Longrightarrow> t \<in> set VALID_AUTOMATION_STRATEGIES"
  by (cases v; auto simp: Let_def split: if_splits)+

lemma loaded_settings: "load_automation_settings f = Inr st \<Longrightarrow> settings_ok st"
  unfolding load_automation_settings_def
  by (auto simp: bind_result_Inr settings_ok_def split: if_splits dest!: checked)

lemma default_clocks: "clock_minutes ''09:00'' \<noteq> None" "clock_minutes ''23:30'' \<noteq> None"
  by (simp_all add: clock_minutes_def decimal_value_def decimal_zeros_def char_of_def bit_iff_odd)

lemma default_ok: "settings_ok default_settings" "settings_ok paused_settings"
  using default_clocks by (auto simp: settings_ok_def default_settings_def paused_settings_def VALID_AUTOMATION_STRATEGIES_def py_len_def)

section \<open>Rules\<close>

definition rule_ok :: "reply_rule \<Rightarrow> bool" where
  "rule_ok r \<longleftrightarrow> rr_id r \<noteq> [] \<and> py_len (rr_id r) \<le> 128 \<and> rr_name r \<noteq> [] \<and> py_len (rr_name r) \<le> 80 \<and>
     (rr_item r = [] \<or> py_len (rr_item r) \<le> 64 \<and> ascii_digits (rr_item r)) \<and>
     rr_keywords r \<noteq> [] \<and> length (rr_keywords r) \<le> MAX_REPLY_RULE_KEYWORDS \<and> distinct (rr_keywords r) \<and>
     rr_reply r \<noteq> [] \<and> py_len (rr_reply r) \<le> MAX_REPLY_RULE_REPLY_CHARS"

definition rules_ok :: "reply_rule list \<Rightarrow> bool" where
  "rules_ok rs \<longleftrightarrow> length rs \<le> MAX_REPLY_RULES \<and> distinct (map rr_id rs) \<and> (\<forall>r \<in> set rs. rule_ok r)"

lemma keywords_clean:
  "clean_keywords casefold ks acc = Inr out \<Longrightarrow> distinct acc \<Longrightarrow> distinct out \<and> length out \<le> length acc + length ks"
proof (induction casefold ks acc rule: clean_keywords.induct)
  case (2 casefold s ks acc)
  let ?k = "casefold (py_strip s)"
  let ?acc = "if ?k \<in> set acc then acc else acc @ [?k]"
  have "clean_keywords casefold ks ?acc = Inr out" "\<not> (py_strip s = [] \<or> py_len (py_strip s) > MAX_REPLY_RULE_KEYWORD_CHARS)"
    using 2(2) by (simp_all add: Let_def split: if_splits)
  with 2(1) [OF refl _ this(1)] 2(3) have "distinct out \<and> length out \<le> length ?acc + length ks" by simp
  moreover have "length ?acc \<le> length acc + 1" by simp
  ultimately show ?case by simp
qed simp_all

lemma normal_rule_ok:
  assumes n: "normal_rule casefold index raw = Inr r"
  shows "rule_ok r"
proof -
  obtain d where raw: "raw = PDict d" using n by (cases raw) (auto simp: normal_rule_def)
  let ?item = "case get_default d ''item_id'' (PStr []) of PNone \<Rightarrow> PStr [] | v \<Rightarrow> v"
  obtain enabled where enabled: "get_default d ''enabled'' (PBool True) = PBool enabled"
    using n by (cases "get_default d ''enabled'' (PBool True)") (simp_all add: normal_rule_def raw split: if_splits)
  obtain name where name: "get_default d ''name'' (rule_name index) = PStr name"
    using n by (cases "get_default d ''name'' (rule_name index)") (simp_all add: normal_rule_def raw enabled split: if_splits)
  obtain text_of_item where it: "scalar_text ?item = Some text_of_item"
    using n by (cases "scalar_text ?item") (simp_all add: normal_rule_def raw enabled name split: if_splits)
  obtain ks where ks: "dict_get d ''keywords'' = PList ks"
    using n by (cases "dict_get d ''keywords''") (simp_all add: normal_rule_def raw enabled name it Let_def split: if_splits)
  obtain kws where kws: "clean_keywords casefold ks [] = Inr kws"
    using n by (cases "clean_keywords casefold ks []") (simp_all add: normal_rule_def raw enabled name it ks Let_def bind_result_def split: if_splits)
  obtain reply where reply: "dict_get d ''reply'' = PStr reply"
    using n by (cases "dict_get d ''reply''") (simp_all add: normal_rule_def raw enabled name it ks kws Let_def bind_result_def split: if_splits)
  let ?id = "scalar_text (get_default d ''id'' (PStr (str_nat (Suc index))))"
  obtain rid where rid: "?id = Some rid"
    using n by (cases ?id) (simp_all add: normal_rule_def raw enabled name it ks kws reply Let_def bind_result_def split: if_splits)
  note all = raw enabled name it ks kws reply rid
  from n keywords_clean [OF kws] show ?thesis
    by (simp add: normal_rule_def all Let_def bind_result_def rule_ok_def split: if_splits) auto
qed

lemma normal_rules_ok:
  "normal_rules casefold index raws acc = Inr rs \<Longrightarrow> distinct (map rr_id acc) \<Longrightarrow> (\<forall>r \<in> set acc. rule_ok r) \<Longrightarrow>
   distinct (map rr_id rs) \<and> (\<forall>r \<in> set rs. rule_ok r) \<and> length rs = length acc + length raws"
proof (induction casefold index raws acc rule: normal_rules.induct)
  case (2 casefold index raw raws acc)
  then show ?case by (auto simp: bind_result_Inr split: if_splits dest!: normal_rule_ok)
qed simp

lemma loaded_rules: "load_reply_rules casefold doc_hash f = Inr rs \<Longrightarrow> rules_ok rs"
  unfolding load_reply_rules_def
  by (auto simp: bind_result_Inr rules_ok_def split: if_splits pyval.splits dest!: normal_rules_ok)

section \<open>Refreshes\<close>

definition initial_automation :: "automation_mode \<Rightarrow> string \<Rightarrow> automation" where
  \<comment> \<open>What the constructor sets; the strategy is that of the environment\<close>
  "initial_automation mode strategy = \<lparr>au_mode = mode, au_settings = default_settings, au_settings_available = True, au_settings_signature = None,
     au_strategy = strategy, au_rules = [], au_rules_available = True, au_rules_signature = None\<rparr>"

definition refresh_automation ::
  "(string \<Rightarrow> string) \<Rightarrow> (dict \<Rightarrow> string result) \<Rightarrow> private_file option \<times> private_file option \<Rightarrow> automation \<Rightarrow> (automation, unit) outcome"
where
  "refresh_automation casefold doc_hash fs au =
     (case refresh_automation_settings (fst fs) au of
        (a, Inl e) \<Rightarrow> (a, Inl e)
      | (a, Inr _) \<Rightarrow> refresh_reply_rules casefold doc_hash (snd fs) a)"

definition refreshes ::
  "(string \<Rightarrow> string) \<Rightarrow> (dict \<Rightarrow> string result) \<Rightarrow> (private_file option \<times> private_file option) list \<Rightarrow> automation \<Rightarrow> automation"
where
  "refreshes casefold doc_hash files au = fold (\<lambda>fs a. fst (refresh_automation casefold doc_hash fs a)) files au"

definition automation_ok :: "automation \<Rightarrow> bool" where
  "automation_ok au \<longleftrightarrow> settings_ok (au_settings au) \<and> rules_ok (au_rules au) \<and>
     (au_settings_available au \<or> au_settings au = paused_settings) \<and> (au_rules_available au \<or> au_rules au = [])"

lemma rules_ok_Nil [simp]: "rules_ok []"
  by (simp add: rules_ok_def)

lemma settings_refreshed: "automation_ok au \<Longrightarrow> automation_ok (fst (refresh_automation_settings f au))"
  using default_ok
  by (auto simp: refresh_automation_settings_def automation_ok_def take_settings_def Let_def dest: loaded_settings split: sum.split py_error.split)

lemma rules_refreshed: "automation_ok au \<Longrightarrow> automation_ok (fst (refresh_reply_rules casefold doc_hash f au))"
  by (auto simp: refresh_reply_rules_def automation_ok_def take_rules_def Let_def dest: loaded_rules split: sum.split py_error.split)

lemma refreshed: "automation_ok au \<Longrightarrow> automation_ok (fst (refresh_automation casefold doc_hash fs au))"
  using settings_refreshed [of au "fst fs"] rules_refreshed
  by (cases "refresh_automation_settings (fst fs) au") (auto simp: refresh_automation_def split: sum.split)

lemma refreshes_ok: "automation_ok au \<Longrightarrow> automation_ok (refreshes casefold doc_hash files au)"
  by (induction files arbitrary: au) (simp_all add: refreshes_def refreshed)

lemma initial_ok: "automation_ok (initial_automation mode strategy)"
  by (simp add: automation_ok_def initial_automation_def default_ok)

section \<open>The choice of a rule\<close>

lemma first_max_in: "rs \<noteq> [] \<Longrightarrow> first_max f rs \<in> set rs"
proof -
  have "foldl (\<lambda>best r. if f r > f best then r else best) b xs \<in> insert b (set xs)" for b xs
    by (induction xs arbitrary: b) auto
  then show "rs \<noteq> [] \<Longrightarrow> first_max f rs \<in> set rs" by (cases rs) (auto simp: first_max_def)
qed

lemma first_max_greatest: "r \<in> set rs \<Longrightarrow> f r \<le> f (first_max f rs)"
proof -
  have "f b \<le> f (foldl (\<lambda>best r. if f r > f best then r else best) b xs) \<and>
      (\<forall>x \<in> set xs. f x \<le> f (foldl (\<lambda>best r. if f r > f best then r else best) b xs))" for b xs
  proof (induction xs arbitrary: b)
    case (Cons x xs)
    from Cons.IH [of "if f x > f b then x else b"] show ?case by (auto split: if_splits)
  qed simp
  then show "r \<in> set rs \<Longrightarrow> f r \<le> f (first_max f rs)" by (cases rs) (auto simp: first_max_def)
qed

definition candidates :: "string \<Rightarrow> string \<Rightarrow> reply_rule list \<Rightarrow> reply_rule list" where
  \<comment> \<open>The rules that apply: those for the item if there is one, else the general ones\<close>
  "candidates content item rules =
     (let hits = filter (rule_hits content item) rules in
      if list_ex (\<lambda>r. rr_item r \<noteq> []) hits then filter (\<lambda>r. rr_item r \<noteq> []) hits else hits)"

lemma match_by_candidates:
  "match_reply_rule casefold au content item =
     (if au_strategy au = ''conservative'' \<and> py_len (py_strip content) > 240 then None
      else (let cs = candidates (casefold content) item (au_rules au) in
        if cs = [] then None
        else Some (rr_reply (if au_strategy au = ''aggressive'' then first_max longest_keyword cs else hd cs))))"
proof -
  let ?hits = "filter (rule_hits (casefold content) item) (au_rules au)"
  have s: "list_ex (\<lambda>r. rr_item r \<noteq> []) ?hits \<longleftrightarrow> filter (\<lambda>r. rr_item r \<noteq> []) ?hits \<noteq> []" by (auto simp: list_ex_iff filter_empty_conv)
  have g: "filter (\<lambda>r. rr_item r = []) ?hits = ?hits" if "filter (\<lambda>r. rr_item r \<noteq> []) ?hits = []"
    using that by (auto simp: filter_empty_conv intro!: filter_cong)
  show ?thesis unfolding match_reply_rule_def candidates_def Let_def s using g by auto
qed

lemma candidate_hits: "r \<in> set (candidates content item rules) \<Longrightarrow> r \<in> set rules \<and> rule_hits content item r"
  by (auto simp: candidates_def Let_def split: if_splits)

section \<open>The messages of a reply\<close>

lemma bubbles_count: "length (split_reply_bubbles s) \<le> REPLY_BUBBLE_MAX_COUNT"
proof -
  have "length (filter (\<lambda>b. b \<noteq> []) (join_rest REPLY_BUBBLE_MAX_COUNT bs)) \<le> REPLY_BUBBLE_MAX_COUNT" for bs
    using length_join_rest [of REPLY_BUBBLE_MAX_COUNT bs] le_trans [OF length_filter_le] by (simp add: REPLY_BUBBLE_MAX_COUNT_def)
  then show ?thesis by (simp add: split_reply_bubbles_def Let_def REPLY_BUBBLE_MAX_COUNT_def)
qed

definition one_message :: "string \<Rightarrow> bool" where
  "one_message s \<longleftrightarrow> py_len s \<le> REPLY_BUBBLE_MAX_CHARS \<or> occurs_in ''http'' (ascii_lower s)"

lemma bubbles_text:
  "concat (split_reply_bubbles s) = (if one_message (py_strip s) then py_strip s else concat (sentences (py_strip s)))"
  by (simp add: split_reply_bubbles_def Let_def one_message_def concat_nonempty concat_join_rest concat_pack_parts REPLY_BUBBLE_MAX_COUNT_def py_len_def)

lemma bubbles_fit:
  assumes "i < length (split_reply_bubbles s)" "Suc i < REPLY_BUBBLE_MAX_COUNT"
  shows "one_message (py_strip s) \<or> bubble_fits REPLY_BUBBLE_MAX_CHARS (sentences (py_strip s)) (split_reply_bubbles s ! i)"
proof (cases "one_message (py_strip s)")
  case False
  let ?ps = "sentences (py_strip s)"
  let ?bs = "pack_parts REPLY_BUBBLE_MAX_CHARS ?ps [] []"
  have ne: "list_all (\<lambda>b. b \<noteq> []) ?bs" by (rule pack_parts_nonempty) (simp_all add: sentences_def list_all_iff)
  have fit: "\<forall>b \<in> set ?bs. bubble_fits REPLY_BUBBLE_MAX_CHARS ?ps b" by (rule pack_parts_fit) simp_all
  have mem: "drop 2 ?bs = ?bs ! 2 # drop 3 ?bs" "?bs ! 2 \<noteq> []" if "3 < length ?bs"
    using that ne Cons_nth_drop_Suc [of 2 ?bs] by (simp_all add: list_all_iff)
  have "b \<noteq> []" if "b \<in> set (join_rest REPLY_BUBBLE_MAX_COUNT ?bs)" for b
    using that ne mem by (auto simp: join_rest_def list_all_iff REPLY_BUBBLE_MAX_COUNT_def dest: in_set_takeD in_set_dropD split: if_splits)
  then have all: "filter (\<lambda>b. b \<noteq> []) (join_rest REPLY_BUBBLE_MAX_COUNT ?bs) = join_rest REPLY_BUBBLE_MAX_COUNT ?bs"
    by (simp add: filter_id_conv)
  have "split_reply_bubbles s = join_rest REPLY_BUBBLE_MAX_COUNT ?bs"
    using False all by (auto simp: split_reply_bubbles_def Let_def one_message_def py_len_def)
  moreover have "join_rest REPLY_BUBBLE_MAX_COUNT ?bs ! i = ?bs ! i" "i < length ?bs"
    using assms calculation by (auto simp: join_rest_def nth_append split: if_splits)
  ultimately show ?thesis using fit by simp
qed simp

end
