(* ===== verification/Reply_Correctness.thy ===== *)
theory Reply_Correctness
  imports Reply_Guards Reply_Races Reply_Settings Assistant_Correctness
begin

text \<open>
  Properties of the replies to buyers.
\<close>

section \<open>A shop with one rule\<close>

definition desk_auto :: "automation_mode \<Rightarrow> automation" where
  "desk_auto mode = \<lparr>au_mode = mode, au_settings = default_settings, au_settings_available = True, au_settings_signature = Some ''s'',
     au_strategy = ''standard'',
     au_rules = [\<lparr>rr_id = ''1'', rr_name = ''greeting'', rr_item = [], rr_enabled = True, rr_keywords = [''hi''], rr_reply = ''hello''\<rparr>],
     au_rules_available = True, au_rules_signature = Some ''r''\<rparr>"

definition desk_account :: string where "desk_account = replicate 16 (CHR ''0'')"

definition desk_hash :: string where "desk_hash = replicate 64 (CHR ''a'')"

definition desk_env :: "bool \<Rightarrow> chat_env" where
  "desk_env model = \<lparr>ce_py = shop_env, ce_history = 2, ce_casefold = (\<lambda>s. s), ce_doc_hash = (\<lambda>_. Inr []),
     ce_snapshot_hash = (\<lambda>_ _ _. desk_hash), ce_loads = (\<lambda>_. None), ce_normal = (\<lambda>s. s), ce_ratio = (\<lambda>_ _. 0),
     ce_digest = (\<lambda>_ _. []), ce_me = ''me'', ce_account = desk_account, ce_bot = model, ce_attempts = 1\<rparr>"

definition desk_worker :: "automation_mode \<Rightarrow> chat_worker" where
  "desk_worker mode = \<lparr>cw_log = empty_log, cw_manual = \<lparr>modes = [], controls = []\<rparr>, cw_replies = [], cw_usage = [], cw_provenance = [],
     cw_scopes = [\<lparr>sc_chat = ''c1'', sc_item = ''i1'', sc_account = desk_account, sc_scope = Owned, sc_checked = 5\<rparr>], cw_auto = desk_auto mode\<rparr>"

definition nothing :: meanwhile where
  "nothing = \<lparr>mw_ledger = [], mw_store = None, mw_tables = None, mw_auto = None\<rparr>"

definition desk_file :: "string \<Rightarrow> private_file" where
  "desk_file sig = \<lparr>pf_signature = sig, pf_regular = True, pf_mode = 384, pf_size = 2, pf_content = NotJson\<rparr>"

definition desk_config :: config_input where
  "desk_config = \<lparr>cf_now = 10, cf_settings = Some (desk_file ''s''), cf_rules = Some (desk_file ''r'')\<rparr>"

definition desk_scope :: scope_input where
  "desk_scope = \<lparr>si_now = 10, si_snapshot = None, si_head = Inl CancelledError, si_waiting = nothing\<rparr>"

definition desk_try :: try_input where
  "desk_try = \<lparr>ti_first_look = 10, ti_waiting = nothing, ti_connect = None, ti_second_look = 10, ti_socket = True, ti_scope = desk_scope,
     ti_refresh = desk_config, ti_ready = (Inr (), nothing), ti_sent = Inr (), ti_sending = nothing, ti_closing = nothing\<rparr>"

definition desk_clock :: stage_clock where
  "desk_clock = \<lparr>sg_add = 1, sg_manual = 10, sg_record = 10, sg_budget = 10, sg_flag = 10, sg_store = 10, sg_prepare = 2, sg_close = 3\<rparr>"

definition desk_input :: chat_input where
  "desk_input = \<lparr>ci_refresh = desk_config, ci_refresh_error = None, ci_scope = desk_scope, ci_clock = desk_clock, ci_first = desk_config,
     ci_item = Inr 2, ci_item_wait = nothing, ci_calls = (\<lambda>_. (Inr PNone, nothing)), ci_recalls = (\<lambda>_. (Inr PNone, nothing)), ci_uniform = 0,
     ci_delay = nothing, ci_second = desk_config, ci_tries = (\<lambda>_. (desk_try, desk_try)), ci_pause = (\<lambda>_. nothing)\<rparr>"

definition desk_run :: "chat_worker \<times> finish result \<times> chat_event list" where
  "desk_run = process_buyer_chat (desk_env False) desk_input ''c1'' ''u1'' ''i1'' ''hi'' ''g:1'' (MediaValue PNone) ''text'' (desk_worker RulesOnly)"

definition said_text :: "chat_event \<Rightarrow> string option" where
  "said_text e = (case e of Said ev \<Rightarrow> Some (re_text ev) | Asked \<Rightarrow> None)"

definition at_desk :: "automation_mode \<Rightarrow> chat_worker \<Rightarrow> bool" where
  "at_desk mode w \<longleftrightarrow> cw_auto w = desk_auto mode \<and> cw_manual w = \<lparr>modes = [], controls = []\<rparr> \<and> cw_replies w = [] \<and>
     cw_scopes w = [\<lparr>sc_chat = ''c1'', sc_item = ''i1'', sc_account = desk_account, sc_scope = Owned, sc_checked = 5\<rparr>]"

definition desk_plan :: "bool \<Rightarrow> draft_plan" where
  "desk_plan ai = \<lparr>dp_chat = ''c1'', dp_to = ''u1'', dp_item = ''i1'', dp_source = ''g:1'', dp_ai = ai, dp_config = PNone,
     dp_revision = desk_hash\<rparr>"

lemma seq_run: "m w = (w1, Inr x, es1) \<Longrightarrow> f x w1 = (w2, r, es2) \<Longrightarrow> seq m f w = (w2, r, es1 @ es2)"
  by (simp add: seq_def)

lemma look_run: "f (g w) w = out \<Longrightarrow> seq (look g) f w = out"
  by (cases out) (auto simp: seq_def look_def)

lemma desk_texts: "py_strip ''c1'' = ''c1''" "py_strip ''i1'' = ''i1''" "py_strip desk_account = desk_account" "py_strip ''hello'' = ''hello''"
  "hex64 desk_hash" "py_take MAX_REPLY_CHARS ''hello'' = ''hello''"
  by (rule py_strip_plain; code_simp)+ code_simp+

lemma desk_refresh: "at_desk mode w \<Longrightarrow> refresh_config (desk_env model) desk_config w = (w, Inr (), [])"
  by (cases w) (simp add: refresh_config_def seq_def on_auto_def act_def refresh_automation_settings_def refresh_reply_rules_def Let_def
    desk_config_def desk_file_def at_desk_def desk_auto_def)

lemma desk_await: "await (desk_env model) nothing w = (w, Inr (), [])"
  by (simp add: await_def change_def others_def nothing_def)

lemma desk_scoped: "at_desk mode w \<Longrightarrow> customer_conversation_scope (desk_env model) desk_scope ''c1'' ''i1'' w = (w, Inr Owned, [])"
  by (simp add: customer_conversation_scope_def seq_def raising_def shop_snapshot_def load_private_json_file_def desk_scope_def snapshot_lists_def
    dict_get_def look_def give_def get_customer_conversation_scope_def at_desk_def desk_texts fresh_scope_def desk_env_def)

lemma desk_manual: "at_desk mode w \<Longrightarrow> manual_now (desk_env model) 10 ''c1'' w = (w, Inr False, [])"
  by (cases w) (simp add: manual_now_def act_def is_manual_mode_def Let_def sql_delete_def at_desk_def)

lemma desk_unsuppressed: "at_desk mode w \<Longrightarrow> automatic_reply_suppression_reason (desk_env model) desk_config ''c1'' w = (w, Inr None, [])"
  unfolding automatic_reply_suppression_reason_def
  by (rule seq_run [where ?es1.0 = "[]", OF desk_refresh, simplified])
    (simp_all add: seq_def look_def give_def desk_manual [unfolded at_desk_def] desk_config_def configured_reason_def at_desk_def desk_auto_def default_settings_def within_business_hours_def
      cooldown_reason_def cooling_def split: option.split)

lemma desk_revision: "at_desk mode w \<Longrightarrow> revision_now (desk_env model) w = (w, Inr (Some desk_hash), [])"
  by (simp add: revision_now_def look_def loaded_automation_revision_def at_desk_def desk_auto_def desk_env_def)

lemma desk_plan_sel [simp]: "dp_chat (desk_plan ai) = ''c1''" "dp_to (desk_plan ai) = ''u1''" "dp_item (desk_plan ai) = ''i1''" "dp_ai (desk_plan ai) = ai"
  "dp_revision (desk_plan ai) = desk_hash" "dp_config (desk_plan ai) = PNone" "dp_source (desk_plan ai) = ''g:1''"
  by (simp_all add: desk_plan_def)

lemma desk_forbid: "at_desk mode w \<Longrightarrow> forbid_manual (desk_env model) 10 ''c1'' w = (w, Inr (), [])"
  by (simp add: forbid_manual_def seq_def desk_manual give_def)

definition ready_for :: "bool \<Rightarrow> bool \<Rightarrow> automation_mode \<Rightarrow> bool" where
  "ready_for ai model mode \<longleftrightarrow> (ai \<longrightarrow> model \<and> mode = RulesAi)"

lemma desk_verify:
  assumes "at_desk mode w" "ready_for ai model mode"
  shows "verify_automatic_reply (desk_env model) (desk_plan ai) desk_try w = (w, Inr (), [])"
proof -
  have idle: "others (desk_env m) nothing w = w" for m using desk_await [of m w] by (simp add: await_def change_def)
  have "au_mode (cw_auto w) = mode" "ce_bot (desk_env m) = m" for m using assms(1) by (simp_all add: at_desk_def desk_auto_def desk_env_def)
  then show ?thesis using assms
    by (simp add: verify_automatic_reply_def desk_try_def seq_def desk_scoped desk_unsuppressed desk_revision give_def ready_passes idle ready_for_def)
qed

definition desk_event :: "chat_worker \<Rightarrow> reply_event" where
  "desk_event w = \<lparr>re_key = message_key (desk_plan False) 0, re_chat = ''c1'', re_to = ''u1'', re_text = ''hello'', re_state = w\<rparr>"

lemma desk_send:
  assumes d: "at_desk mode w" "ready_for ai model mode"
  shows "try_send (desk_env model) (desk_plan ai) 0 ''hello'' desk_try w = (w, Inr (), [Said (desk_event w)])"
proof -
  have "ti_first_look desk_try = 10" "ti_second_look desk_try = 10" "ti_waiting desk_try = nothing" "ti_sending desk_try = nothing"
    "ti_connect desk_try = None" "ti_socket desk_try" "ti_sent desk_try = Inr ()"
    by (simp_all add: desk_try_def)
  with d desk_verify [OF d] show ?thesis
    by (simp add: try_send_def seq_def desk_forbid desk_await emit_def raising_def desk_event_def message_key_def)
qed

lemma desk_bubbles: "at_desk mode w \<Longrightarrow> send_bubbles (desk_env model) (desk_plan False) desk_input 0 [''hello''] w = (w, Inr (), [Said (desk_event w)])"
  by (simp add: send_bubble_def handle_def seq_def desk_input_def desk_send ready_for_def give_def)

definition desk_log :: chat_log where
  "desk_log = empty_log\<lparr>lg_messages := [asked]\<rparr>"

definition drafted_log :: chat_log where
  "drafted_log = run_ledger shop_env 2 draft_ops empty_log"

lemma desk_added: "add_message_by_chat shop_env 2 1 ''c1'' ''u1'' ''i1'' ''user'' ''hi'' (Some ''g:1'') ''text'' (MediaValue PNone) empty_log = (desk_log, True)"
  by (simp add: add_message_by_chat_def shop_text asked_def [symmetric] desk_log_def empty_log_def history_eval Let_def)

lemma desk_draft: "prepare_assistant_reply 2 ''c1'' ''me'' ''i1'' ''hello'' ''assistant:g:1'' desk_log = (drafted_log, Inr draft_row)"
proof -
  have "draft_ok ''hello'' ''assistant:g:1''" by (simp add: draft_ok_def)
  then show ?thesis unfolding drafted_log_def draft_run
    by (simp add: prepare_new [unfolded owned_by_def] desk_log_def empty_log_def known_message_def known_outcome_def
      prune_assistant_outcomes_def asked_def sql_insert_ignore_def outcome_from_def draft_row_def text_of_def)
qed

lemma desk_unknown: "get_source_message ''assistant:g:1'' desk_log = None"
  by (simp add: get_source_message_def stored_view_def known_message_def known_outcome_def desk_log_def empty_log_def asked_def)

lemma desk_completed: "\<exists>l. complete_assistant_reply 3 ''assistant:g:1'' (Some ''hello'') drafted_log = (l, Inr ())"
proof -
  obtain l r where e: "complete_assistant_reply 3 ''assistant:g:1'' (Some ''hello'') drafted_log = (l, r)" by (metis surj_pair)
  have "r = Inr ()"
    using complete_pending(1) [OF reachable_ledger [OF draft_sources(1)] draft_sources(3) draft_known _ e [unfolded drafted_log_def]] by (simp add: draft_row_def)
  with e show ?thesis by blast
qed

lemma at_desk_simps [simp]: "at_desk mode (w\<lparr>cw_log := l\<rparr>) = at_desk mode w" "at_desk mode (w\<lparr>cw_provenance := p\<rparr>) = at_desk mode w"
  by (simp_all add: at_desk_def)

lemma desk_source: "reply_source ''g:1'' = ''assistant:g:1''"
  by (simp add: reply_source_def)

lemma desk_times [simp]: "ci_clock desk_input = desk_clock" "sg_prepare desk_clock = 2" "sg_close desk_clock = 3" "sg_add desk_clock = 1" "sg_manual desk_clock = 10"
  "ci_first desk_input = desk_config" "ci_second desk_input = desk_config" "ci_refresh desk_input = desk_config" "ci_refresh_error desk_input = None"
  "ci_scope desk_input = desk_scope"
  by (simp_all add: desk_input_def desk_clock_def)

lemma desk_env_sel [simp]: "ce_me (desk_env model) = ''me''" "ce_py (desk_env model) = shop_env" "ce_history (desk_env model) = 2" "ce_casefold (desk_env model) = (\<lambda>s. s)"
  by (simp_all add: desk_env_def)

lemma desk_concludes:
  assumes "cw_log w = drafted_log"
  shows "\<exists>w1. conclude_reply (desk_env model) (desk_plan False) desk_input ''assistant:g:1'' ''hello'' w = (w1, Inr Answered, [])"
proof -
  obtain l where "complete_assistant_reply 3 ''assistant:g:1'' (Some ''hello'') drafted_log = (l, Inr ())" using desk_completed by blast
  then show ?thesis
    by (simp add: conclude_reply_def seq_def on_log_def act_def assms forget_origin_def change_def set_needs_human_def give_def)
qed

lemma desk_sends_draft:
  assumes d: "at_desk mode w" "cw_log w = desk_log"
  shows "\<exists>w1 ev. send_draft (desk_env model) (desk_plan False) desk_input ''assistant:g:1'' ''hello'' w = (w1, Inr Answered, [Said ev]) \<and> re_text ev = ''hello''"
proof -
  let ?t = "fst (store_assistant_draft_provenance (sg_store desk_clock) ''assistant:g:1'' ByRule PNone desk_hash (cw_provenance w))"
  let ?w1 = "w\<lparr>cw_provenance := ?t\<rparr>" and ?w2 = "w\<lparr>cw_provenance := ?t, cw_log := drafted_log\<rparr>"
  have a: "on_provenance (store_assistant_draft_provenance (sg_store desk_clock) ''assistant:g:1'' ByRule PNone desk_hash) w = (?w1, Inr (), [])"
    using desk_texts(5) by (simp add: on_provenance_def act_def store_assistant_draft_provenance_def)
  have b: "on_log (prepare_assistant_reply 2 ''c1'' ''me'' ''i1'' ''hello'' ''assistant:g:1'') ?w1 = (?w2, Inr draft_row, [])"
    using d(2) by (simp add: on_log_def act_def desk_draft)
  have c: "send_bubbles (desk_env model) (desk_plan False) desk_input 0 [''hello''] ?w2 = (?w2, Inr (), [Said (desk_event ?w2)])"
    using d(1) by (intro desk_bubbles) simp
  obtain w3 where e: "conclude_reply (desk_env model) (desk_plan False) desk_input ''assistant:g:1'' ''hello'' ?w2 = (w3, Inr Answered, [])"
    using desk_concludes [of ?w2] by auto
  have r: "ao_content draft_row = ''hello''" by (simp add: draft_row_def)
  show ?thesis unfolding send_draft_def
    using a b c e by (simp add: seq_def handle_def r Let_def give_def desk_event_def del: send_bubbles.simps)
qed

lemma desk_delivers:
  assumes d: "at_desk mode w" "cw_log w = desk_log"
  shows "\<exists>w1 ev. deliver_choice (desk_env model) desk_input (desk_plan False) ''assistant:g:1'' False True (PStr ''hello'') w = (w1, Inr Answered, [Said ev]) \<and> re_text ev = ''hello''"
proof -
  have "deliver_choice (desk_env model) desk_input (desk_plan False) ''assistant:g:1'' False True (PStr ''hello'') w = send_draft (desk_env model) (desk_plan False) desk_input ''assistant:g:1'' ''hello'' w"
    using d(1) desk_texts
    by (simp add: deliver_choice_def Let_def seq_def look_def human_reply_delay_def at_desk_def desk_auto_def default_settings_def desk_input_def give_def
      before_draft_def desk_unsuppressed desk_revision)
  with desk_sends_draft [OF d] show ?thesis by simp
qed

lemma desk_rule: "match_reply_rule (\<lambda>s. s) (desk_auto mode) ''hi'' ''i1'' = Some ''hello''"
  by (simp add: match_reply_rule_def desk_auto_def rule_hits_def occurs_in_def Let_def)

lemma desk_chooses: "at_desk mode w \<Longrightarrow> new_choice (desk_env model) desk_input ''c1'' ''i1'' s ''hi'' w = (w, Inr (Chosen (PStr ''hello'') True False PNone, desk_hash), [])"
proof -
  assume d: "at_desk mode w"
  have "st_rules_enabled (au_settings (desk_auto mode))" by (simp add: desk_auto_def default_settings_def)
  then have "choose_reply (desk_env model) desk_input ''c1'' ''i1'' s ''hi'' w = (w, Inr (Chosen (PStr ''hello'') True False PNone), [])"
    using d by (simp add: choose_reply_def seq_def look_def give_def at_desk_def desk_rule)
  then show ?thesis using d desk_texts(5) by (simp add: new_choice_def seq_def desk_revision give_def)
qed

lemma desk_answers:
  assumes d: "at_desk mode w" "cw_log w = desk_log"
  shows "\<exists>w1 ev. answer_buyer (desk_env model) desk_input ''c1'' ''u1'' ''i1'' ''hi'' ''g:1'' None w = (w1, Inr Answered, [Said ev]) \<and> re_text ev = ''hello''"
proof -
  have "answer_buyer (desk_env model) desk_input ''c1'' ''u1'' ''i1'' ''hi'' ''g:1'' None w =
      deliver_choice (desk_env model) desk_input (desk_plan False) ''assistant:g:1'' False True (PStr ''hello'') w"
    using d(1) by (simp add: answer_buyer_def Let_def seq_def desk_manual desk_unsuppressed desk_chooses desk_source desk_plan_def)
  with desk_delivers [OF d] show ?thesis by simp
qed

lemma desk_result: "\<exists>w1 ev. desk_run = (w1, Inr Answered, [Said ev]) \<and> re_text ev = ''hello''"
proof -
  let ?w = "(desk_worker RulesOnly)\<lparr>cw_log := desk_log\<rparr>"
  have d: "at_desk RulesOnly (desk_worker RulesOnly)" "cw_log (desk_worker RulesOnly) = empty_log" by (simp_all add: at_desk_def desk_worker_def)
  have "desk_run = answer_buyer (desk_env False) desk_input ''c1'' ''u1'' ''i1'' ''hi'' ''g:1'' None ?w"
    using d by (simp add: desk_run_def process_buyer_chat_def Let_def seq_def desk_refresh desk_scoped give_def act_def desk_added look_def
      owned_message_def desk_source desk_unknown)
  with desk_answers [of RulesOnly ?w False] d(1) show ?thesis by simp
qed

lemma nothing_calm [simp]: "calm R nothing" "idle nothing"
  by (simp_all add: calm_def nothing_def idle_def)

lemma desk_calm: "calm_input R desk_input" "idle_checks desk_input"
  by (simp_all add: calm_input_def calm_try_def idle_checks_def desk_input_def desk_try_def desk_scope_def)

lemma desk_foreign: "\<not> in_ledger ''g:1''"
  by (simp add: in_ledger_def)

section \<open>Properties\<close>

text \<open>C16: A buyer's message never remains half handled.  Whenever the handling of a customer's message returns - whatever the
  configuration, the platform, the language model and the other tasks of the worker do meanwhile - the source of its reply is closed
  in the ledger: answered, cancelled, or recorded as left without a reply.\<close>

theorem handled_message_has_an_outcome:
  assumes "process_buyer_chat env inp chat sender item content source media ctype w = (w', Inr fin, es)" "fin \<noteq> NotCustomer" "fin \<noteq> Unconfirmed"
  shows "\<exists>v. get_source_message (reply_source source) (cw_log w') = Some v \<and> sv_role v \<in> {''assistant'', ''assistant_cancelled'', ''assistant_no_reply''}"
proof -
  have "ends (\<lambda>fin w. customer fin \<longrightarrow> source_closed (reply_source source) (cw_log w)) (\<lambda>_ _. True) (\<lambda>_. True) (w', Inr fin, es)"
    using tripleD [OF process_settles [unfolded settles_def] TrueI] assms(1) by metis
  then have "source_closed (reply_source source) (cw_log w')" using assms(2,3) by (simp add: customer_def)
  then show ?thesis by (auto simp: source_closed_def role_of_def TERMINAL_ASSISTANT_ROLES_def)
qed

theorem handled_message_has_an_outcome_witness:
  "\<exists>v. get_source_message (reply_source ''g:1'') (cw_log (fst desk_run)) = Some v \<and> sv_role v \<in> {''assistant'', ''assistant_cancelled'', ''assistant_no_reply''}"
proof -
  obtain w1 ev where r: "desk_run = (w1, Inr Answered, [Said ev])" using desk_result by blast
  from handled_message_has_an_outcome [OF r [unfolded desk_run_def]] show ?thesis by (simp add: r)
qed

text \<open>C15: A buyer's message is answered once.  After its handling ended with an answer, nothing that the account's ledger goes through
  in the ninety days of retention - pruning, restarts, drafts and outcomes of other messages - makes the worker ask the model or send
  anything when the same message arrives again, whatever it then says and whatever the configuration is.\<close>

theorem answered_message_is_not_answered_again:
  assumes "cw_log w = run_ledger (ce_py env) (ce_history env) before empty_log" "sourced_run before" "\<not> in_ledger source"
    and "calm_input (quiet (reply_source source)) inp"
    and "process_buyer_chat env inp chat sender item content source media ctype w = (w1, Inr Answered, es1)"
    and "cw_log w2 = run_ledger (ce_py env) (ce_history env) later (cw_log w1)" "list_all (retained (sg_close (ci_clock inp))) later"
    and "calm (retained (sg_close (ci_clock inp))) (si_waiting (ci_scope inp'))"
    and "sg_add (ci_clock inp') \<le> sg_close (ci_clock inp) + OUTCOME_RETENTION_SECONDS"
    and "process_buyer_chat env inp' chat' sender' item' content' source media' ctype' w2 = (w3, r, es2)"
  shows "es2 = [] \<and> (\<forall>fin. r = Inr fin \<longrightarrow> fin \<in> {NotCustomer, Unconfirmed, AlreadyDone})"
proof -
  let ?s = "reply_source source"
  have inv: "ledger_inv (cw_log w)" using reachable_ledger [OF assms(2)] assms(1) by simp
  have "ends (answered_at ?s (sg_close (ci_clock inp))) (\<lambda>_ _. True) (says_stored chat sender source) (w1, Inr Answered, es1)"
    using tripleD [OF process_answers [OF assms(4,3), unfolded answers_def], where s = w] inv assms(5) by metis
  then obtain oc where oc: "done_at ?s oc (cw_log w1)" "ao_updated oc = sg_close (ci_clock inp)" by (auto simp: answered_at_def)
  have done2: "done_at ?s oc (cw_log w2)"
    using closed.steady_run [where env = env and s = ?s and oc = oc and ops = later] oc assms(6,7) by simp
  have "ends (\<lambda>fin _. fin \<in> passes) (\<lambda>_ _. True) (\<lambda>_. False) (w3, r, es2)"
    using tripleD [OF process_leaves_alone [OF assms(3), of oc inp', unfolded left_alone_def], where s = w2] oc done2 assms(8-10) by metis
  then show ?thesis by (auto simp: ends_def passes_def split: sum.splits)
qed

theorem answered_message_is_not_answered_again_witness:
  "snd (snd (process_buyer_chat (desk_env False) desk_input ''c1'' ''u1'' ''i1'' ''hi'' ''g:1'' (MediaValue PNone) ''text'' (fst desk_run))) = []"
proof -
  obtain w1 ev where r: "desk_run = (w1, Inr Answered, [Said ev])" using desk_result by blast
  have start: "cw_log (desk_worker RulesOnly) = run_ledger (ce_py (desk_env False)) (ce_history (desk_env False)) [] empty_log" by (simp add: desk_worker_def)
  show ?thesis
    using answered_message_is_not_answered_again [OF start _ desk_foreign desk_calm(1) r [unfolded desk_run_def], where later = "[]" and inp' = desk_input and ?w2.0 = "fst desk_run"
        and chat' = "''c1''" and sender' = "''u1''" and item' = "''i1''" and content' = "''hi''" and media' = "MediaValue PNone" and ctype' = "''text''"]
    by (cases "process_buyer_chat (desk_env False) desk_input ''c1'' ''u1'' ''i1'' ''hi'' ''g:1'' (MediaValue PNone) ''text'' (fst desk_run)")
      (auto simp: r sourced_run_def desk_scope_def OUTCOME_RETENTION_SECONDS_def)
qed

text \<open>C17: The worker says only what its ledger holds.  While other tasks leave the source of a message alone, every message that
  handling it hands to the connection goes to the buyer's chat, and in the state in which it leaves, its text is the pending draft
  stored for the source - or the part of the draft that the key of the message counts.  So a crash between the parts is
  continued with the same texts.\<close>

theorem every_reply_is_the_stored_draft:
  assumes "cw_log w = run_ledger (ce_py env) (ce_history env) before empty_log" "sourced_run before" "\<not> in_ledger source"
    and "calm_input (quiet (reply_source source)) inp"
    and "process_buyer_chat env inp chat sender item content source media ctype w = (w1, r, es)" "Said ev \<in> set es"
  shows "re_chat ev = chat \<and> re_to ev = sender \<and>
    (\<exists>oc i. known_outcome (reply_source source) (cw_log (re_state ev)) = Some oc \<and> ao_role oc = ''assistant_pending'' \<and> ao_chat oc = chat \<and>
       re_key ev = ''reply:'' @ source @ (if i = 0 then [] else '':'' @ str_nat i) \<and>
       (i = 0 \<and> re_text ev = ao_content oc \<or>
        i < length (split_reply_bubbles (ao_content oc)) \<and> re_text ev = split_reply_bubbles (ao_content oc) ! i))"
proof -
  have inv: "ledger_inv (cw_log w)" using reachable_ledger [OF assms(2)] assms(1) by simp
  have "ends (answered_at (reply_source source) (sg_close (ci_clock inp))) (\<lambda>_ _. True) (says_stored chat sender source) (w1, r, es)"
    using tripleD [OF process_answers [OF assms(4,3), unfolded answers_def], where s = w] inv assms(5) by metis
  then have "says_stored chat sender source (Said ev)" using assms(6) by (auto simp: ends_def)
  then show ?thesis unfolding says_stored_def chat_event.case drafted_def by blast
qed

theorem every_reply_is_the_stored_draft_witness:
  "\<exists>ev oc. Said ev \<in> set (snd (snd desk_run)) \<and> known_outcome (reply_source ''g:1'') (cw_log (re_state ev)) = Some oc \<and> ao_role oc = ''assistant_pending''"
proof -
  obtain w1 ev where r: "desk_run = (w1, Inr Answered, [Said ev])" using desk_result by blast
  have start: "cw_log (desk_worker RulesOnly) = run_ledger (ce_py (desk_env False)) (ce_history (desk_env False)) [] empty_log" by (simp add: desk_worker_def)
  from every_reply_is_the_stored_draft [OF start _ desk_foreign desk_calm(1) r [unfolded desk_run_def], of ev] show ?thesis
    by (auto simp: r sourced_run_def)
qed



text \<open>C22: The check of the model's readiness is a blind spot.  Whenever an attempt to send a reply of the model gets to the send, the
  same attempt gets to it too, with the same text, if the tables of human control are replaced by any others during that check: a
  seller who takes the chat over while the worker waits for the check does not stop the reply.\<close>

theorem takeover_during_the_readiness_check_is_missed:
  assumes "dp_ai dp" "try_send env dp i body ti w = (w1, r, es)" "Said ev \<in> set es"
  shows "\<exists>w2 r2 ev2. try_send env dp i body (ti\<lparr>ti_ready := (fst (ti_ready ti), (snd (ti_ready ti))\<lparr>mw_store := Some (manual, stamps, used)\<rparr>)\<rparr>) w =
      (w2, r2, [Said ev2]) \<and> re_text ev2 = body \<and> cw_manual (re_state ev2) = manual"
  using assms readiness_overlooks [of dp env i body ti w w1 r es ev] by blast

definition taken_over :: manual_db where
  "taken_over = \<lparr>modes = [\<lparr>mm_chat = ''c1'', mm_expires = 100, mm_updated = 9\<rparr>], controls = []\<rparr>"

theorem takeover_during_the_readiness_check_is_missed_witness:
  "\<exists>w2 r2 ev2. try_send (desk_env True) (desk_plan True) 0 ''hello'' (desk_try\<lparr>ti_ready := (Inr (), nothing\<lparr>mw_store := Some (taken_over, [], [])\<rparr>)\<rparr>)
      (desk_worker RulesAi) = (w2, r2, [Said ev2]) \<and> snd (is_manual_mode (\<lambda>_ _. []) 10 ''c1'' (cw_manual (re_state ev2)))"
proof -
  have d: "at_desk RulesAi (desk_worker RulesAi)" by (simp add: at_desk_def desk_worker_def)
  have t: "desk_try\<lparr>ti_ready := (fst (ti_ready desk_try), (snd (ti_ready desk_try))\<lparr>mw_store := Some (m, x, y)\<rparr>)\<rparr> =
      desk_try\<lparr>ti_ready := (Inr (), nothing\<lparr>mw_store := Some (m, x, y)\<rparr>)\<rparr>" for m x y by (simp add: desk_try_def)
  have "snd (is_manual_mode (\<lambda>_ _. []) 10 ''c1'' taken_over)" by (simp add: is_manual_mode_def taken_over_def sql_delete_def Let_def)
  with takeover_during_the_readiness_check_is_missed [OF _ desk_send [OF d, of True True], unfolded t, where manual = taken_over and stamps = "[]" and used = "[]"]
  show ?thesis by (fastforce simp: ready_for_def)
qed





text \<open>C21: A long reply of the model becomes at most three messages, none empty, and loses nothing but white space between
  sentences: together they are the reply, or its stripped sentences in order.  The first two are within ninety characters
  unless they are a single sentence or the reply is not cut at all.\<close>

theorem long_reply_is_cut_in_order:
  "length (split_reply_bubbles s) \<le> 3 \<and> list_all (\<lambda>b. b \<noteq> []) (split_reply_bubbles s) \<and>
   concat (split_reply_bubbles s) = (if one_message (py_strip s) then py_strip s else concat (sentences (py_strip s))) \<and>
   list_all (\<lambda>b. one_message (py_strip s) \<or> py_len b \<le> 90 \<or> b \<in> set (sentences (py_strip s))) (take 2 (split_reply_bubbles s))"
proof -
  have "list_all (\<lambda>b. b \<noteq> []) (split_reply_bubbles s)" by (simp add: split_reply_bubbles_def Let_def list_all_iff)
  moreover have "one_message (py_strip s) \<or> py_len b \<le> 90 \<or> b \<in> set (sentences (py_strip s))" if mem: "b \<in> set (take 2 (split_reply_bubbles s))" for b
  proof -
    obtain i where j: "i < length (take 2 (split_reply_bubbles s))" "take 2 (split_reply_bubbles s) ! i = b"
      using mem unfolding in_set_conv_nth by blast
    have i: "i < 2" "i < length (split_reply_bubbles s)" "b = split_reply_bubbles s ! i" using j by simp_all
    have "one_message (py_strip s) \<or> bubble_fits REPLY_BUBBLE_MAX_CHARS (sentences (py_strip s)) (split_reply_bubbles s ! i)"
      using i(2) by (rule bubbles_fit) (use i(1) in \<open>simp add: REPLY_BUBBLE_MAX_COUNT_def\<close>)
    then show ?thesis unfolding i(3) bubble_fits_def REPLY_BUBBLE_MAX_CHARS_def .
  qed
  ultimately show ?thesis using bubbles_count [of s] bubbles_text [of s] by (simp add: list_all_iff REPLY_BUBBLE_MAX_COUNT_def)
qed

end
