(* ===== verification/Spec2Isabelle.thy ===== *)
theory Spec2Isabelle
  imports Inbound_Correctness Order_Correctness Chat_Correctness Fulfilment_Correctness Worker_Correctness
    Job_Correctness Lease_Correctness Manual_Correctness Assistant_Correctness Reply_Correctness
begin

text \<open>
  A verification of \<^bold>\<open>xianyu-saas\<close>, a hosted shop assistant for a second-hand market place.  A
  \<^emph>\<open>worker\<close> process per shop account follows the chats of the shop, answers buyers, and delivers digital goods
  (redeem codes, links to files) for paid orders.  A \<^emph>\<open>backend\<close> manages users, shops and workers, queues jobs
  for them, and lets sellers take a chat over and reply by hand.  Both keep their state in SQLite and run
  concurrently: every claim about them is a claim about arbitrary interleavings of transactions.

  \<^bold>\<open>How the program is modelled.\<close>  A table is the list of its rows (\<open>Prelude\<close>: \<open>sql_update\<close>, \<open>sql_delete\<close>,
  \<open>sql_upsert\<close>, \<open>sql_insert_ignore\<close>, \<open>order_by\<close>); a row is a record with the columns of the schema; a method
  is a function from the tables, the clock and its arguments to the tables after it and the value or the
  exception.  A raise inside a transaction leaves the tables as they were.  Python values are \<open>pyval\<close>
  (\<open>Py_Values\<close>: truthiness, \<^verbatim>\<open>strip\<close> over Unicode blanks, lengths in code points of UTF-8 bytes, \<^verbatim>\<open>json\<close>
  values); times are real numbers, counters unbounded integers as in Python.  What the code gets from
  elsewhere is an argument: replies of the market place, the files of an account, the hash of a text, the
  visibility filter of a query, \<^verbatim>\<open>str\<close> of a container.  Definitions compute, so the examples evaluate them.

  \<^bold>\<open>Parts, theories, sources.\<close>
  \<^item> \<open>Store_Common\<close>: limits and \<^verbatim>\<open>_clean_error\<close> of \<^verbatim>\<open>worker/delivery_store.py\<close>.
  \<^item> \<open>Inbound_Queue\<close>, \<open>Inbound_Invariants\<close>, \<open>Inbound_Correctness\<close>: the durable queue of inbound chat events
    (same file): record, claim, complete, ignore, requeue, dead letters, recovery.  One event of a chat is processed at a
    time and in order, the limits hold, and the scheduler's query lists exactly what can be claimed.
  \<^item> \<open>Order_Store\<close>, \<open>Order_Lifecycle\<close>, \<open>Order_Import\<close>: cards, orders and manual reviews (same file): reservation,
    sending, delivery, cancellation, revival, import of the stock manifest, restart.  \<open>Order_Invariants\<close>,
    \<open>Order_Transfers\<close>, \<open>Order_System\<close>, \<open>Order_Facts\<close>, \<open>Order_Cards\<close>, \<open>Order_Shop\<close>, \<open>Order_Correctness\<close>: a card is
    handed out once, only orders with platform proof sell, no card is lost, the life cycle of an order.
  \<^item> \<open>Order_Verification\<close>: the checks of \<^verbatim>\<open>worker/main.py\<close> on head info and order details.
  \<^item> \<open>Chat_Control\<close>, \<open>Chat_Correctness\<close>: chat bindings, model budget, manual mode (\<^verbatim>\<open>worker/delivery_store.py\<close>).
  \<^item> \<open>Fulfilment\<close>, \<open>Worker_Orders\<close> and their facts: \<^verbatim>\<open>_fulfill_order\<close>, \<^verbatim>\<open>handle_paid_order\<close>, retries and the scan of
    pending orders (\<^verbatim>\<open>worker/main.py\<close>), composed from the store's operations with interference by any
    operations of other tasks between any two of their transactions.  Their messages are proven
    sendable: paid, verified, the card of this order and no other.
  \<^item> \<open>Lease_Contract\<close>: the locale \<open>fenced_lease\<close> of leases with an owner and an end.  It is interpreted three
    times: \<open>Control_Leases\<close> (control leases of \<^verbatim>\<open>backend/db.py\<close>; \<open>Lease_Correctness\<close> also shows that the table
    refines a map), \<open>Job_Facts\<close> (jobs), \<open>Manual_System\<close> (replies).
  \<^item> \<open>Backend_Store\<close>, \<open>Job_Queue\<close>, \<open>Job_Facts\<close>, \<open>Job_Rounds\<close>, \<open>Job_Claims\<close>, \<open>Account_Facts\<close>, \<open>Job_Correctness\<close>: shop
    accounts with their generations, worker runtimes and the job queue of \<^verbatim>\<open>backend/db.py\<close>.
  \<^item> \<open>Manual_Media\<close>, \<open>Manual_Media_Facts\<close>, \<open>Manual_Round_Trip\<close>: media of replies, normalised by the worker
    (\<^verbatim>\<open>worker/context_manager.py\<close>) and by the backend (\<^verbatim>\<open>backend/records.py\<close>).  \<open>Manual_Outbox\<close>: the outbox of
    seller-written replies, the worker's side; \<open>Manual_Queue\<close>: the backend's.  \<open>Manual_Invariants\<close>,
    \<open>Manual_System\<close>, \<open>Manual_Delivery\<close>, \<open>Manual_Acks\<close>, \<open>Manual_Correctness\<close>: replies are sent under a lease, part by part
    in order; what the backend accepts the worker can send; requests and acknowledgements can be repeated.

  \<^item> \<open>Assistant_Ledger\<close>, \<open>Assistant_Facts\<close>, \<open>Assistant_Runs\<close>, \<open>Assistant_History\<close>, \<open>Assistant_Correctness\<close>: automatic
    replies (\<^verbatim>\<open>worker/context_manager.py\<close>): the bounded message history and the ledger that keeps a message
    from being answered twice.  A completed reply stays answered for the retention, a draft is stable.

  \<^item> \<open>Task_Monad\<close>: tasks that await, with a value or an exception and the events they leave; triples, invariants and
    events of a task.  \<open>Reply_Config\<close>, \<open>Reply_Text\<close>, \<open>Reply_Automation\<close>: the handling of one message of a buyer
    (\<^verbatim>\<open>_process_buyer_chat\<close> and what it calls in \<^verbatim>\<open>worker/main.py\<close>): settings and rules files, the scope of a chat, the
    choice of a reply by rule or model, the draft, and the attempts to send it with their checks.  Between any two steps
    other tasks may run operations of the ledger and change the other tables at will.  \<open>Ledger_Quiet\<close>, \<open>Reply_Settled\<close>,
    \<open>Reply_Steady\<close>, \<open>Reply_Drafts\<close>, \<open>Reply_Guards\<close>, \<open>Reply_Races\<close>, \<open>Reply_Settings\<close>, \<open>Reply_Correctness\<close>: a message is answered
    once and never left half handled, what is said is the stored draft, and a reply leaves only while it is permitted - but
    for the last wait before the send.

  \<^bold>\<open>Locales.\<close>  \<open>keyed_table\<close> (a primary key; interpreted for every table), \<open>transition_system\<close> and
  \<open>status_machine\<close> (invariants and life cycles of the stores; interpreted for the inbound queue, orders,
  backend and reply outbox), \<open>fenced_lease\<close>, and \<open>steady_log\<close> (what the handling of a message keeps of the ledger;
  interpreted for its invariant and for open, drafted and closed sources).

  \<^bold>\<open>Reachability.\<close>  The invariants hold in every state reached from empty tables by any sequence of the
  component's operations with any arguments and times; the clock may jump.  Operations are atomic, as
  \<^verbatim>\<open>BEGIN IMMEDIATE\<close> makes them.  Changes that other parts of the program make to a table that a component shares are
  arbitrary operations of its run (for the outbox: any change of the messages).

  \<^bold>\<open>Loops.\<close>  Loops over rows or arguments are structural recursion.  The only loops with a bound of their
  own are those of the code: the pages of the order scan, the attempts of a send and of a model call, the limit of a claim.

  \<^bold>\<open>Not modelled.\<close>  The parsing of the platform's chat messages, the cache of product details, prompts and the language
  model's client in the worker, the protocol of the market place (\<^verbatim>\<open>worker/XianyuApis.py\<close>), HTTP routes and process control of the backend
  (\<^verbatim>\<open>backend/app.py\<close>, \<^verbatim>\<open>backend/bot_manager.py\<close>), read-only listings, users and sessions, and the installer and
  updater: input and output, third-party formats or configuration of the machine.  Failures of SQLite
  itself and the migration of old schemas are left out.
\<close>

end
